(* ===== verification/Prelude.thy ===== *)
theory Prelude
  imports Main
begin

text \<open>
  Shared vocabulary of the development: the state-and-error computations the handlers
  are written in, the Hoare-style rules that carry the component invariants, Rust's
  32-bit integers, and the parts of Rust's string library the sources use.

  A Rust \<open>String\<close> is its UTF-8 byte sequence, a HOL \<open>string\<close> (one \<open>char\<close> per byte):
  \<open>length\<close> is \<open>str::len\<close>, and operations of Rust that count or cut \<open>char\<close>s are
  defined on the byte sequence through the UTF-8 continuation bytes.
\<close>

named_theorems runs \<open>equations that run a computation one step\<close>
named_theorems wp \<open>introduction rules for triples\<close>
named_theorems keep \<open>introduction rules for invariants\<close>
named_theorems frame \<open>fields a component leaves alone\<close>

section \<open>Computations with state and errors\<close>

text \<open>
  An \<open>async fn\<close> that returns \<open>Result<T, E>\<close> and works on shared state is a function
  from the state to the result and the state it leaves: effects made before an early
  return with \<open>?\<close> stay.
\<close>

type_synonym ('s, 'e, 'a) comp = "'s \<Rightarrow> ('e + 'a) \<times> 's"

definition returnM :: "'a \<Rightarrow> ('s, 'e, 'a) comp" where
  "returnM x = (\<lambda>s. (Inr x, s))"

definition throwM :: "'e \<Rightarrow> ('s, 'e, 'a) comp" where
  "throwM e = (\<lambda>s. (Inl e, s))"

definition bindM :: "('s, 'e, 'a) comp \<Rightarrow> ('a \<Rightarrow> ('s, 'e, 'b) comp) \<Rightarrow> ('s, 'e, 'b) comp" where
  "bindM m f = (\<lambda>s. case m s of (Inl e, s') \<Rightarrow> (Inl e, s') | (Inr x, s') \<Rightarrow> f x s')"

text \<open>\<open>m.map_err(f)\<close>, a \<open>match m.await\<close> that inspects the error, and a pure \<open>Result\<close>.\<close>

definition map_errM :: "('e \<Rightarrow> 'f) \<Rightarrow> ('s, 'e, 'a) comp \<Rightarrow> ('s, 'f, 'a) comp" where
  "map_errM f m = (\<lambda>s. case m s of (Inl e, s') \<Rightarrow> (Inl (f e), s') | (Inr x, s') \<Rightarrow> (Inr x, s'))"

definition catchM :: "('s, 'e, 'a) comp \<Rightarrow> ('s, 'f, 'e + 'a) comp" where
  "catchM m = (\<lambda>s. case m s of (r, s') \<Rightarrow> (Inr r, s'))"

definition liftM :: "'e + 'a \<Rightarrow> ('s, 'e, 'a) comp" where
  "liftM r = (\<lambda>s. (r, s))"

definition getM :: "('s \<Rightarrow> 'a) \<Rightarrow> ('s, 'e, 'a) comp" where
  "getM f = (\<lambda>s. (Inr (f s), s))"

definition modifyM :: "('s \<Rightarrow> 's) \<Rightarrow> ('s, 'e, unit) comp" where
  "modifyM f = (\<lambda>s. (Inr (), f s))"

text \<open>A \<open>for\<close> loop with an accumulator; the first error ends it.\<close>

fun foldM :: "('x \<Rightarrow> 'a \<Rightarrow> ('s, 'e, 'a) comp) \<Rightarrow> 'x list \<Rightarrow> 'a \<Rightarrow> ('s, 'e, 'a) comp" where
  "foldM f [] a = returnM a"
| "foldM f (x # xs) a = bindM (f x a) (foldM f xs)"

definition forM :: "'x list \<Rightarrow> ('x \<Rightarrow> ('s, 'e, unit) comp) \<Rightarrow> ('s, 'e, unit) comp" where
  "forM xs f = foldM (\<lambda>x _. f x) xs ()"

lemma run_returnM [runs]: "returnM x s = (Inr x, s)"
  by (simp add: returnM_def)

lemma run_throwM [runs]: "throwM e s = (Inl e, s)"
  by (simp add: throwM_def)

lemma run_bindM [runs]:
  "bindM m f s = (case m s of (Inl e, s') \<Rightarrow> (Inl e, s') | (Inr x, s') \<Rightarrow> f x s')"
  by (simp add: bindM_def)

lemma run_map_errM [runs]:
  "map_errM g m s = (case m s of (Inl e, s') \<Rightarrow> (Inl (g e), s') | (Inr x, s') \<Rightarrow> (Inr x, s'))"
  by (simp add: map_errM_def)

lemma run_catchM [runs]: "catchM m s = (Inr (fst (m s)), snd (m s))"
  by (simp add: catchM_def split_beta)

lemma run_liftM [runs]: "liftM r s = (r, s)"
  by (simp add: liftM_def)

lemma run_getM [runs]: "getM f s = (Inr (f s), s)"
  by (simp add: getM_def)

lemma run_modifyM [runs]: "modifyM f s = (Inr (), f s)"
  by (simp add: modifyM_def)

lemma returnM_bindM [simp]: "bindM (returnM x) f = f x"
  by (simp add: bindM_def returnM_def)

lemma throwM_bindM [simp]: "bindM (throwM e) f = throwM e"
  by (simp add: bindM_def throwM_def)

lemma bindM_returnM [simp]: "bindM m returnM = m"
  by (rule ext) (simp add: bindM_def returnM_def split: prod.split sum.split)

lemma bindM_assoc: "bindM (bindM m f) g = bindM m (\<lambda>x. bindM (f x) g)"
  by (rule ext) (simp add: bindM_def split: prod.split sum.split)

lemma forM_Nil [simp]: "forM [] f = returnM ()"
  by (simp add: forM_def)

lemma forM_Cons [simp]: "forM (x # xs) f = bindM (f x) (\<lambda>_. forM xs f)"
  by (simp add: forM_def)

lemma bindM_InrE:
  assumes "bindM m f s = (Inr y, t)"
  obtains x s' where "m s = (Inr x, s')" and "f x s' = (Inr y, t)"
  using assms by (auto simp: bindM_def split: prod.splits sum.splits)

lemma bindM_InlE:
  assumes "bindM m f s = (Inl e, t)"
  obtains "m s = (Inl e, t)" | x s' where "m s = (Inr x, s')" and "f x s' = (Inl e, t)"
  using assms by (auto simp: bindM_def split: prod.splits sum.splits)

section \<open>Triples\<close>

text \<open>
  \<open>triple P m Q R\<close>: from a state in \<open>P\<close>, a normal end satisfies \<open>Q\<close> and an error
  end satisfies \<open>R\<close>. Computations are total functions, so there is no third outcome.
  \<open>keeps I m\<close> is the special case of an invariant of both ends.
\<close>

definition triple ::
  "('s \<Rightarrow> bool) \<Rightarrow> ('s, 'e, 'a) comp \<Rightarrow> ('a \<Rightarrow> 's \<Rightarrow> bool) \<Rightarrow> ('e \<Rightarrow> 's \<Rightarrow> bool) \<Rightarrow> bool" where
  "triple P m Q R \<longleftrightarrow>
     (\<forall>s. P s \<longrightarrow> (case m s of (Inr x, t) \<Rightarrow> Q x t | (Inl e, t) \<Rightarrow> R e t))"

abbreviation keeps :: "('s \<Rightarrow> bool) \<Rightarrow> ('s, 'e, 'a) comp \<Rightarrow> bool" where
  "keeps I m \<equiv> triple I m (\<lambda>_. I) (\<lambda>_. I)"

lemma tripleI:
  assumes "\<And>s x t. P s \<Longrightarrow> m s = (Inr x, t) \<Longrightarrow> Q x t"
    and "\<And>s e t. P s \<Longrightarrow> m s = (Inl e, t) \<Longrightarrow> R e t"
  shows "triple P m Q R"
  using assms by (auto simp: triple_def split: prod.split sum.split)

lemma tripleD:
  assumes "triple P m Q R" and "P s"
  shows "m s = (Inr x, t) \<Longrightarrow> Q x t" and "m s = (Inl e, t) \<Longrightarrow> R e t"
  using assms by (auto simp: triple_def split: prod.splits sum.splits)

lemma keepsD: "keeps I m \<Longrightarrow> I s \<Longrightarrow> I (snd (m s))"
  by (cases "m s") (auto simp: triple_def split: prod.splits sum.splits)

lemma keepsI:
  assumes "\<And>s. I s \<Longrightarrow> I (snd (m s))"
  shows "keeps I m"
  by (rule tripleI) (metis assms snd_conv)+

lemma triple_returnM [wp]: "(\<And>s. P s \<Longrightarrow> Q x s) \<Longrightarrow> triple P (returnM x) Q R"
  by (simp add: triple_def returnM_def)

lemma triple_throwM [wp]: "(\<And>s. P s \<Longrightarrow> R e s) \<Longrightarrow> triple P (throwM e) Q R"
  by (simp add: triple_def throwM_def)

lemma triple_liftM [wp]: "(\<And>s. P s \<Longrightarrow> case r of Inr x \<Rightarrow> Q x s | Inl e \<Rightarrow> R e s) \<Longrightarrow> triple P (liftM r) Q R"
  by (auto simp: triple_def liftM_def split: sum.splits)

lemma keeps_liftM [wp]: "keeps I (liftM r)"
  by (auto simp: triple_def liftM_def split: sum.splits)

lemma triple_getM [wp]: "(\<And>s. P s \<Longrightarrow> Q (f s) s) \<Longrightarrow> triple P (getM f) Q R"
  by (simp add: triple_def getM_def)

lemma triple_modifyM [wp]: "(\<And>s. P s \<Longrightarrow> Q () (f s)) \<Longrightarrow> triple P (modifyM f) Q R"
  by (simp add: triple_def modifyM_def)

lemma triple_bindM [wp]:
  assumes "triple P m M R" and "\<And>x. triple (M x) (f x) Q R"
  shows "triple P (bindM m f) Q R"
  using assms
  by (auto simp: triple_def bindM_def split: prod.split sum.split)
     (metis (mono_tags, lifting) prod.case sum.case)+

lemma triple_map_errM [wp]:
  "triple P m Q (\<lambda>e. R (g e)) \<Longrightarrow> triple P (map_errM g m) Q R"
  by (auto simp: triple_def map_errM_def split: prod.splits sum.splits)

lemma keeps_catchM [wp]: "keeps I m \<Longrightarrow> keeps I (catchM m)"
  by (auto simp: triple_def catchM_def split: prod.splits sum.splits)

lemma triple_if [wp]:
  assumes "b \<Longrightarrow> triple P m Q R" and "\<not> b \<Longrightarrow> triple P n Q R"
  shows "triple P (if b then m else n) Q R"
  using assms by simp

lemma triple_case_option [wp]:
  assumes "y = None \<Longrightarrow> triple P m Q R" and "\<And>x. y = Some x \<Longrightarrow> triple P (f x) Q R"
  shows "triple P (case y of None \<Rightarrow> m | Some x \<Rightarrow> f x) Q R"
  using assms by (cases y) simp_all

lemma triple_case_sum [wp]:
  assumes "\<And>e. y = Inl e \<Longrightarrow> triple P (g e) Q R" and "\<And>x. y = Inr x \<Longrightarrow> triple P (f x) Q R"
  shows "triple P (case y of Inl e \<Rightarrow> g e | Inr x \<Rightarrow> f x) Q R"
  using assms by (cases y) simp_all

lemma triple_case_prod [wp]:
  assumes "\<And>a b. y = (a, b) \<Longrightarrow> triple P (f a b) Q R"
  shows "triple P (case y of (a, b) \<Rightarrow> f a b) Q R"
  using assms by (cases y) simp_all

lemma triple_Let [wp]: "triple P (f x) Q R \<Longrightarrow> triple P (let y = x in f y) Q R"
  by simp

lemma keeps_foldM [wp]: "(\<And>x a. keeps I (f x a)) \<Longrightarrow> keeps I (foldM f xs a)"
  by (induction xs arbitrary: a) (auto intro: wp)

lemma keeps_forM [wp]: "(\<And>x. keeps I (f x)) \<Longrightarrow> keeps I (forM xs f)"
  by (simp add: forM_def keeps_foldM)

lemma keeps_conj: "keeps I m \<Longrightarrow> keeps J m \<Longrightarrow> keeps (\<lambda>s. I s \<and> J s) m"
  by (auto simp: triple_def split: prod.splits sum.splits)

lemma triple_weaken: "triple P m Q R \<Longrightarrow> (\<And>s. P' s \<Longrightarrow> P s) \<Longrightarrow> triple P' m Q R"
  by (auto simp: triple_def)

text \<open>The rules for invariants, which leave no intermediate assertion to find.\<close>

lemma keeps_returnM [keep]: "keeps I (returnM x)"
  by (rule triple_returnM)

lemma keeps_throwM [keep]: "keeps I (throwM e)"
  by (rule triple_throwM)

lemma keeps_getM [keep]: "keeps I (getM f)"
  by (rule triple_getM)

lemma keeps_modifyM [keep]: "(\<And>s. I s \<Longrightarrow> I (f s)) \<Longrightarrow> keeps I (modifyM f)"
  by (rule triple_modifyM)

lemma keeps_bindM [keep]: "keeps I m \<Longrightarrow> (\<And>x. keeps I (f x)) \<Longrightarrow> keeps I (bindM m f)"
  by (rule triple_bindM)

lemma keeps_map_errM [keep]: "keeps I m \<Longrightarrow> keeps I (map_errM g m)"
  by (rule triple_map_errM)

lemmas [keep] = keeps_liftM keeps_catchM triple_if triple_case_option triple_case_sum triple_case_prod
  triple_Let keeps_foldM keeps_forM

section \<open>Frames\<close>

text \<open>\<open>leaves f m\<close>: whatever happens, the computation does not change \<open>f\<close> of the state.\<close>

definition leaves :: "('s \<Rightarrow> 'f) \<Rightarrow> ('s, 'e, 'a) comp \<Rightarrow> bool" where
  "leaves f m \<longleftrightarrow> (\<forall>s. f (snd (m s)) = f s)"

lemma leavesD: "leaves f m \<Longrightarrow> f (snd (m s)) = f s"
  by (simp add: leaves_def)

lemma leaves_run: "leaves f m \<Longrightarrow> m s = (r, t) \<Longrightarrow> f t = f s"
  by (metis leavesD snd_conv)

lemma leaves_returnM [frame]: "leaves f (returnM x)"
  by (simp add: leaves_def returnM_def)

lemma leaves_throwM [frame]: "leaves f (throwM e)"
  by (simp add: leaves_def throwM_def)

lemma leaves_liftM [frame]: "leaves f (liftM r)"
  by (simp add: leaves_def liftM_def)

lemma leaves_getM [frame]: "leaves f (getM g)"
  by (simp add: leaves_def getM_def)

lemma leaves_modifyM [frame]: "(\<And>s. f (g s) = f s) \<Longrightarrow> leaves f (modifyM g)"
  by (simp add: leaves_def modifyM_def)

lemma leaves_bindM [frame]: "leaves f m \<Longrightarrow> (\<And>x. leaves f (k x)) \<Longrightarrow> leaves f (bindM m k)"
  by (auto simp: leaves_def bindM_def split: prod.split sum.split) (metis snd_conv)+

lemma leaves_map_errM [frame]: "leaves f m \<Longrightarrow> leaves f (map_errM g m)"
  by (auto simp: leaves_def map_errM_def split: prod.split sum.split) (metis snd_conv)+

lemma leaves_catchM [frame]: "leaves f m \<Longrightarrow> leaves f (catchM m)"
  by (auto simp: leaves_def catchM_def split: prod.split) (metis snd_conv)

lemma leaves_if [frame]: "leaves f m \<Longrightarrow> leaves f n \<Longrightarrow> leaves f (if b then m else n)"
  by simp

lemma leaves_case_option [frame]:
  "leaves f m \<Longrightarrow> (\<And>x. leaves f (k x)) \<Longrightarrow> leaves f (case y of None \<Rightarrow> m | Some x \<Rightarrow> k x)"
  by (cases y) simp_all

lemma leaves_case_sum [frame]:
  "(\<And>e. leaves f (g e)) \<Longrightarrow> (\<And>x. leaves f (k x)) \<Longrightarrow> leaves f (case y of Inl e \<Rightarrow> g e | Inr x \<Rightarrow> k x)"
  by (cases y) simp_all

lemma leaves_case_prod [frame]:
  "(\<And>a b. leaves f (k a b)) \<Longrightarrow> leaves f (case y of (a, b) \<Rightarrow> k a b)"
  by (cases y) simp_all

lemma leaves_Let [frame]: "leaves f (k x) \<Longrightarrow> leaves f (let y = x in k y)"
  by simp

lemma leaves_foldM [frame]: "(\<And>x a. leaves f (k x a)) \<Longrightarrow> leaves f (foldM k xs a)"
  by (induction xs arbitrary: a) (auto intro: frame)

lemma leaves_forM [frame]: "(\<And>x. leaves f (k x)) \<Longrightarrow> leaves f (forM xs k)"
  by (simp add: forM_def leaves_foldM)

section \<open>Rust's signed 32-bit integers\<close>

text \<open>
  An \<open>i32\<close> is an \<open>int\<close> in \<open>[-2\<^sup>3\<^sup>1, 2\<^sup>3\<^sup>1)\<close>. \<open>wrap_i32\<close> is the two's complement
  reading that a release build gives to the result of \<open>+\<close>.
\<close>

definition in_i32 :: "int \<Rightarrow> bool" where
  "in_i32 x \<longleftrightarrow> - 2147483648 \<le> x \<and> x < 2147483648"

definition wrap_i32 :: "int \<Rightarrow> int" where
  "wrap_i32 x = (x + 2147483648) mod 4294967296 - 2147483648"

definition add_i32 :: "int \<Rightarrow> int \<Rightarrow> int" where
  "add_i32 x y = wrap_i32 (x + y)"

lemma wrap_i32_in_range [simp]: "in_i32 (wrap_i32 x)"
  using pos_mod_bound [of 4294967296 "x + 2147483648"] pos_mod_sign [of 4294967296 "x + 2147483648"]
  by (simp add: wrap_i32_def in_i32_def)

lemma wrap_i32_id [simp]: "in_i32 x \<Longrightarrow> wrap_i32 x = x"
  by (simp add: wrap_i32_def in_i32_def)

lemma add_i32_exact: "in_i32 (x + y) \<Longrightarrow> add_i32 x y = x + y"
  by (simp add: add_i32_def)

section \<open>Lists and options\<close>

definition find_max_by :: "('a \<Rightarrow> 'k :: linorder) \<Rightarrow> 'a list \<Rightarrow> 'a option" where
  \<comment> \<open>\<open>Iterator::max_by_key\<close>: the last of the maximal elements\<close>
  "find_max_by key xs =
     foldl (\<lambda>b x. case b of None \<Rightarrow> Some x | Some y \<Rightarrow> Some (if key y \<le> key x then x else y)) None xs"

lemma find_max_by_snoc:
  "find_max_by key (xs @ [x]) =
     (case find_max_by key xs of None \<Rightarrow> Some x | Some y \<Rightarrow> Some (if key y \<le> key x then x else y))"
  by (simp add: find_max_by_def)

lemma find_max_by_Nil [simp]: "find_max_by key [] = None"
  by (simp add: find_max_by_def)

lemma find_max_by_None [simp]: "find_max_by key xs = None \<longleftrightarrow> xs = []"
  by (induction xs rule: rev_induct) (auto simp: find_max_by_snoc split: option.splits)

lemma find_max_by_SomeD:
  "find_max_by key xs = Some m \<Longrightarrow> m \<in> set xs \<and> (\<forall>x \<in> set xs. key x \<le> key m)"
proof (induction xs arbitrary: m rule: rev_induct)
  case Nil
  then show ?case by simp
next
  case (snoc x xs)
  then show ?case
    by (cases "find_max_by key xs") (fastforce simp: find_max_by_snoc split: if_splits)+
qed

lemma find_max_by_cong_unique:
  assumes "m \<in> set xs" and "\<And>x. x \<in> set xs \<Longrightarrow> x \<noteq> m \<Longrightarrow> key x < key m"
  shows "find_max_by key xs = Some m"
proof (cases "find_max_by key xs")
  case None
  with assms(1) show ?thesis by simp
next
  case (Some y)
  from find_max_by_SomeD [OF Some] assms have "y = m" by force
  with Some show ?thesis by simp
qed

lemma find_SomeD: "find P xs = Some x \<Longrightarrow> x \<in> set xs \<and> P x"
  by (auto simp: find_Some_iff)

text \<open>\<open>collect\<close> into a \<open>Result\<close>: the first error, or every value.\<close>

fun collect :: "('e + 'a) list \<Rightarrow> 'e + 'a list" where
  "collect [] = Inr []"
| "collect (Inl e # _) = Inl e"
| "collect (Inr x # xs) = (case collect xs of Inl e \<Rightarrow> Inl e | Inr ys \<Rightarrow> Inr (x # ys))"

lemma collect_map: "(\<And>x. x \<in> set xs \<Longrightarrow> f x = Inr (g x)) \<Longrightarrow> collect (map f xs) = Inr (map g xs)"
  by (induction xs) auto

text \<open>A \<open>Vec\<close> filled with \<open>if !v.contains(&x) { v.push(x) }\<close> in a loop.\<close>

fun push_unique :: "'a list \<Rightarrow> 'a list \<Rightarrow> 'a list" where
  "push_unique acc [] = acc"
| "push_unique acc (x # xs) = push_unique (if x \<in> set acc then acc else acc @ [x]) xs"

lemma set_push_unique [simp]: "set (push_unique acc xs) = set acc \<union> set xs"
  by (induction acc xs rule: push_unique.induct) auto

lemma distinct_push_unique: "distinct acc \<Longrightarrow> distinct (push_unique acc xs)"
  by (induction acc xs rule: push_unique.induct) auto

text \<open>\<open>SELECT DISTINCT ON\<close>, and first occurrences in general.\<close>

definition distinct_on :: "('a \<Rightarrow> 'k) \<Rightarrow> 'a list \<Rightarrow> 'a list" where
  \<comment> \<open>the first row of every key\<close>
  "distinct_on key xs = foldr (\<lambda>x acc. x # filter (\<lambda>y. key y \<noteq> key x) acc) xs []"

lemma distinct_on_Cons [simp]:
  "distinct_on key (x # xs) = x # filter (\<lambda>y. key y \<noteq> key x) (distinct_on key xs)"
  by (simp add: distinct_on_def)

lemma distinct_on_Nil [simp]: "distinct_on key [] = []"
  by (simp add: distinct_on_def)

lemma set_distinct_on: "set (distinct_on key xs) \<subseteq> set xs"
  by (induction xs) auto

lemma distinct_keys_distinct_on: "distinct (map key (distinct_on key xs))"
  by (induction xs) (auto simp: distinct_map inj_on_def)

lemma distinct_on_covers: "x \<in> set xs \<Longrightarrow> \<exists>y \<in> set (distinct_on key xs). key y = key x"
proof (induction xs)
  case (Cons a xs)
  show ?case
  proof (cases "key a = key x")
    case False
    with Cons obtain y where "y \<in> set (distinct_on key xs)" "key y = key x" by auto
    with False show ?thesis by (intro bexI [of _ y]) auto
  qed simp
qed simp

lemma distinct_on_first:
  "y \<in> set (distinct_on key xs) \<Longrightarrow> z \<in> set xs \<Longrightarrow> key z = key y \<Longrightarrow> sorted (map ord xs) \<Longrightarrow> ord y \<le> ord z"
  by (induction xs) (auto dest: set_distinct_on [THEN subsetD])

end
