(* ===== verification/Rust_Strings.thy ===== *)
theory Rust_Strings
  imports Prelude
begin

text \<open>
  The parts of Rust's \<open>str\<close>, \<open>char\<close> and integer formatting that the sources use, on
  UTF-8 byte strings: \<open>to_string\<close> and \<open>parse\<close> of integers, \<open>split\<close>, \<open>trim\<close>,
  \<open>join\<close>, \<open>replace\<close>, and counting or taking Unicode scalar values. The central facts
  are that printing an integer and parsing it back is the identity, that printing is
  injective, and that splitting undoes joining.
\<close>

section \<open>Decimal printing and parsing\<close>

definition digit_char :: "nat \<Rightarrow> char" where
  "digit_char d = char_of (48 + d)"

fun show_nat :: "nat \<Rightarrow> string" where
  "show_nat n = (if n < 10 then [digit_char n] else show_nat (n div 10) @ [digit_char (n mod 10)])"

declare show_nat.simps [simp del]

definition show_int :: "int \<Rightarrow> string" where
  "show_int i = (if i < 0 then CHR ''-'' # show_nat (nat (- i)) else show_nat (nat i))"

definition digit_val :: "char \<Rightarrow> nat option" where
  "digit_val c = (if 48 \<le> (of_char c :: nat) \<and> (of_char c :: nat) \<le> 57 then Some (of_char c - 48) else None)"

fun nat_of_digits :: "nat \<Rightarrow> string \<Rightarrow> nat option" where
  "nat_of_digits acc [] = Some acc"
| "nat_of_digits acc (c # cs) =
     (case digit_val c of None \<Rightarrow> None | Some d \<Rightarrow> nat_of_digits (10 * acc + d) cs)"

text \<open>
  \<open>str::parse\<close> for a signed integer type: one optional sign, at least one digit, only
  digits, and a value in the type's range.
\<close>

definition parse_unsigned :: "string \<Rightarrow> nat option" where
  "parse_unsigned s = (if s = [] then None else nat_of_digits 0 s)"

definition parse_int :: "string \<Rightarrow> int option" where
  "parse_int s =
     (case s of
        [] \<Rightarrow> None
      | c # cs \<Rightarrow>
          if c = CHR ''-'' then map_option (\<lambda>n. - int n) (parse_unsigned cs)
          else if c = CHR ''+'' then map_option int (parse_unsigned cs)
          else map_option int (parse_unsigned s))"

definition parse_i32 :: "string \<Rightarrow> int option" where
  "parse_i32 s = (case parse_int s of Some v \<Rightarrow> if in_i32 v then Some v else None | None \<Rightarrow> None)"

definition in_i64 :: "int \<Rightarrow> bool" where
  "in_i64 x \<longleftrightarrow> - 9223372036854775808 \<le> x \<and> x < 9223372036854775808"

definition parse_i64 :: "string \<Rightarrow> int option" where
  "parse_i64 s = (case parse_int s of Some v \<Rightarrow> if in_i64 v then Some v else None | None \<Rightarrow> None)"

text \<open>The message of a failed \<open>parse::<i32>\<close>: the first digit that is wrong or does not fit decides.\<close>

fun digits_error :: "int \<Rightarrow> int \<Rightarrow> string \<Rightarrow> string" where
  "digits_error sign acc [] = []"
| "digits_error sign acc (c # cs) =
     (case digit_val c of
        None \<Rightarrow> ''invalid digit found in string''
      | Some d \<Rightarrow>
          if in_i32 (10 * acc) \<and> in_i32 (10 * acc + sign * int d) then digits_error sign (10 * acc + sign * int d) cs
          else if 0 < sign then ''number too large to fit in target type''
          else ''number too small to fit in target type'')"

definition int_error :: "string \<Rightarrow> string" where
  "int_error s =
     (case s of
        [] \<Rightarrow> ''cannot parse integer from empty string''
      | c # cs \<Rightarrow>
          if cs = [] \<and> (c = CHR ''+'' \<or> c = CHR ''-'') then ''invalid digit found in string''
          else if c = CHR ''-'' then digits_error (- 1) 0 cs
          else if c = CHR ''+'' then digits_error 1 0 cs
          else digits_error 1 0 s)"

text \<open>A lower-case hexadecimal digit, as the text of a UUID has them.\<close>

definition hex_val :: "char \<Rightarrow> nat option" where
  "hex_val c =
     (let n = of_char c in
      if 48 \<le> n \<and> n \<le> 57 then Some (n - 48) else if 97 \<le> n \<and> n \<le> 102 then Some (n - 87) else None)"

definition is_digit :: "char \<Rightarrow> bool" where
  "is_digit c \<longleftrightarrow> digit_val c \<noteq> None"

lemma of_char_digit_char [simp]: "d < 10 \<Longrightarrow> (of_char (digit_char d) :: nat) = 48 + d"
  by (simp add: digit_char_def take_bit_eq_mod)

lemma digit_val_digit_char [simp]: "d < 10 \<Longrightarrow> digit_val (digit_char d) = Some d"
  by (simp add: digit_val_def)

lemma is_digit_digit_char [simp]: "d < 10 \<Longrightarrow> is_digit (digit_char d)"
  by (simp add: is_digit_def)

lemma not_digit_separators [simp]:
  "\<not> is_digit CHR ''-''" "\<not> is_digit CHR ''+''" "\<not> is_digit CHR '',''" "\<not> is_digit CHR ''c''"
  "\<not> is_digit CHR ''u''"
  by (simp_all add: is_digit_def digit_val_def)

lemma show_nat_Nil [simp]: "show_nat n \<noteq> []"
  by (subst show_nat.simps) simp

lemma show_nat_digits: "c \<in> set (show_nat n) \<Longrightarrow> is_digit c"
proof (induction n arbitrary: c rule: show_nat.induct)
  case (1 n)
  then show ?case
    by (subst (asm) (2) show_nat.simps) (auto split: if_splits)
qed

lemma nat_of_digits_append:
  "nat_of_digits acc (xs @ ys) =
     (case nat_of_digits acc xs of None \<Rightarrow> None | Some a \<Rightarrow> nat_of_digits a ys)"
  by (induction acc xs rule: nat_of_digits.induct) (auto split: option.splits)

lemma nat_of_digits_show_nat [simp]: "nat_of_digits 0 (show_nat n) = Some n"
proof (induction n rule: show_nat.induct)
  case (1 n)
  then show ?case
    by (subst show_nat.simps) (auto simp: nat_of_digits_append)
qed

lemma parse_unsigned_show_nat [simp]: "parse_unsigned (show_nat n) = Some n"
  by (simp add: parse_unsigned_def)

lemma parse_int_show_int [simp]: "parse_int (show_int i) = Some i"
proof (cases "i < 0")
  case True
  then show ?thesis by (simp add: parse_int_def show_int_def)
next
  case False
  obtain c cs where *: "show_nat (nat i) = c # cs"
    by (cases "show_nat (nat i)") auto
  then have "is_digit c" by (metis list.set_intros(1) show_nat_digits)
  then have "c \<noteq> CHR ''-''" "c \<noteq> CHR ''+''" by auto
  moreover have "parse_unsigned (c # cs) = Some (nat i)"
    by (metis * parse_unsigned_show_nat)
  ultimately show ?thesis using False by (simp add: parse_int_def show_int_def *)
qed

lemma parse_i32_show_int [simp]: "in_i32 i \<Longrightarrow> parse_i32 (show_int i) = Some i"
  by (simp add: parse_i32_def)

lemma parse_i32_range: "parse_i32 s = Some v \<Longrightarrow> in_i32 v"
  by (auto simp: parse_i32_def split: option.splits if_splits)

lemma show_int_inject [simp]: "show_int i = show_int j \<longleftrightarrow> i = j"
  by (metis option.inject parse_int_show_int)

lemma show_int_Nil [simp]: "show_int i \<noteq> []"
  by (simp add: show_int_def)

lemma show_int_nonneg_digits: "0 \<le> i \<Longrightarrow> c \<in> set (show_int i) \<Longrightarrow> is_digit c"
  by (auto simp: show_int_def dest: show_nat_digits)

lemma show_int_chars: "c \<in> set (show_int i) \<Longrightarrow> is_digit c \<or> c = CHR ''-''"
  by (auto simp: show_int_def dest: show_nat_digits split: if_splits)

text \<open>A digit run is delimited by the first character that is no digit.\<close>

lemma takeWhile_show_int_split:
  assumes "\<not> is_digit c" and "c \<noteq> CHR ''-''" and "\<not> is_digit d" and "d \<noteq> CHR ''-''"
    and "show_int i @ c # xs = show_int j @ d # ys"
  shows "i = j \<and> c = d \<and> xs = ys"
proof -
  let ?P = "\<lambda>c. is_digit c \<or> c = CHR ''-''"
  have "takeWhile ?P (show_int k @ e # zs) = show_int k" if "\<not> ?P e" for k e zs
    using that show_int_chars by (subst takeWhile_append2) auto
  with assms have "show_int i = show_int j" by metis
  with assms(5) show ?thesis by simp
qed

section \<open>Splitting and joining\<close>

text \<open>\<open>str::split(char)\<close>: always at least one piece.\<close>

fun split_on :: "char \<Rightarrow> string \<Rightarrow> string list" where
  "split_on d [] = [[]]"
| "split_on d (c # cs) =
     (if c = d then [] # split_on d cs
      else (case split_on d cs of p # ps \<Rightarrow> (c # p) # ps | [] \<Rightarrow> [[c]]))"

fun join :: "string \<Rightarrow> string list \<Rightarrow> string" where
  "join sep [] = []"
| "join sep [x] = x"
| "join sep (x # y # ys) = x @ sep @ join sep (y # ys)"

lemma split_on_Nil [simp]: "split_on d s \<noteq> []"
  by (induction d s rule: split_on.induct) (auto split: list.splits)

lemma split_on_no_delim: "d \<notin> set s \<Longrightarrow> split_on d s = [s]"
  by (induction d s rule: split_on.induct) auto

lemma split_on_append:
  "d \<notin> set p \<Longrightarrow> split_on d (p @ d # s) = p # split_on d s"
  by (induction p) auto

lemma split_on_join:
  "ps \<noteq> [] \<Longrightarrow> \<forall>p \<in> set ps. d \<notin> set p \<Longrightarrow> split_on d (join [d] ps) = ps"
  by (induction "[d]" ps rule: join.induct) (auto simp: split_on_no_delim split_on_append)

lemma join_split_on: "join [d] (split_on d s) = s"
proof (induction d s rule: split_on.induct)
  case (1 d)
  then show ?case by simp
next
  case (2 d c cs)
  obtain p ps where "split_on d cs = p # ps"
    by (cases "split_on d cs") auto
  with 2 show ?case by (cases ps) (auto split: if_splits)
qed

lemma split_on_pieces: "p \<in> set (split_on d s) \<Longrightarrow> d \<notin> set p"
  by (induction d s arbitrary: p rule: split_on.induct)
     (auto split: list.splits if_splits)

text \<open>\<open>str::split_once(char)\<close>.\<close>

fun split_once :: "char \<Rightarrow> string \<Rightarrow> (string \<times> string) option" where
  "split_once d [] = None"
| "split_once d (c # cs) =
     (if c = d then Some ([], cs) else map_option (\<lambda>(p, q). (c # p, q)) (split_once d cs))"

lemma split_once_None: "split_once d s = None \<longleftrightarrow> d \<notin> set s"
  by (induction d s rule: split_once.induct) auto

lemma split_once_append: "d \<notin> set p \<Longrightarrow> split_once d (p @ d # q) = Some (p, q)"
  by (induction p) auto

lemma split_once_Some: "split_once d s = Some (p, q) \<Longrightarrow> s = p @ d # q \<and> d \<notin> set p"
  by (induction d s arbitrary: p rule: split_once.induct) (auto split: if_splits)

definition starts_with :: "string \<Rightarrow> string \<Rightarrow> bool" where
  "starts_with s p \<longleftrightarrow> take (length p) s = p"

definition strip_prefix :: "string \<Rightarrow> string \<Rightarrow> string option" where
  "strip_prefix p s = (if take (length p) s = p then Some (drop (length p) s) else None)"

lemma strip_prefix_append [simp]: "strip_prefix p (p @ s) = Some s"
  by (simp add: strip_prefix_def)

lemma strip_prefix_Some: "strip_prefix p s = Some r \<longleftrightarrow> s = p @ r"
  by (auto simp: strip_prefix_def) (metis append_take_drop_id)

definition trim_start_matches :: "char \<Rightarrow> string \<Rightarrow> string" where
  "trim_start_matches c s = dropWhile (\<lambda>x. x = c) s"

definition trim_end_matches :: "char \<Rightarrow> string \<Rightarrow> string" where
  "trim_end_matches c s = rev (dropWhile (\<lambda>x. x = c) (rev s))"

definition replace_char :: "char \<Rightarrow> char \<Rightarrow> string \<Rightarrow> string" where
  "replace_char a b s = map (\<lambda>c. if c = a then b else c) s"

section \<open>White space\<close>

text \<open>
  The UTF-8 encodings of the characters with the Unicode property \<open>White_Space\<close>, which
  is what \<open>str::trim\<close> removes at both ends and \<open>str::split_whitespace\<close> splits at.
\<close>

definition white_space :: "string list" where
  "white_space =
     [[CHR 0x09], [CHR 0x0A], [CHR 0x0B], [CHR 0x0C], [CHR 0x0D], [CHR 0x20],
      [CHR 0xC2, CHR 0x85], [CHR 0xC2, CHR 0xA0], [CHR 0xE1, CHR 0x9A, CHR 0x80],
      [CHR 0xE2, CHR 0x80, CHR 0x80], [CHR 0xE2, CHR 0x80, CHR 0x81], [CHR 0xE2, CHR 0x80, CHR 0x82],
      [CHR 0xE2, CHR 0x80, CHR 0x83], [CHR 0xE2, CHR 0x80, CHR 0x84], [CHR 0xE2, CHR 0x80, CHR 0x85],
      [CHR 0xE2, CHR 0x80, CHR 0x86], [CHR 0xE2, CHR 0x80, CHR 0x87], [CHR 0xE2, CHR 0x80, CHR 0x88],
      [CHR 0xE2, CHR 0x80, CHR 0x89], [CHR 0xE2, CHR 0x80, CHR 0x8A], [CHR 0xE2, CHR 0x80, CHR 0xA8],
      [CHR 0xE2, CHR 0x80, CHR 0xA9], [CHR 0xE2, CHR 0x80, CHR 0xAF], [CHR 0xE2, CHR 0x81, CHR 0x9F],
      [CHR 0xE3, CHR 0x80, CHR 0x80]]"

definition strip_one :: "string list \<Rightarrow> string \<Rightarrow> string option" where
  "strip_one ws s = (case find (\<lambda>w. starts_with s w) ws of None \<Rightarrow> None | Some w \<Rightarrow> Some (drop (length w) s))"

lemma strip_one_length:
  assumes "strip_one ws s = Some r" and "[] \<notin> set ws"
  shows "length r < length s"
proof -
  obtain w where w: "find (\<lambda>w. starts_with s w) ws = Some w" "r = drop (length w) s"
    using assms(1) by (auto simp: strip_one_def split: option.splits)
  from find_SomeD [OF w(1)] assms(2) have "w \<noteq> []" "take (length w) s = w"
    by (auto simp: starts_with_def)
  with w(2) show ?thesis by (cases s) auto
qed

function strip_all :: "string list \<Rightarrow> string \<Rightarrow> string" where
  "strip_all ws s =
     (if [] \<in> set ws then s
      else case strip_one ws s of None \<Rightarrow> s | Some r \<Rightarrow> strip_all ws r)"
  by pat_completeness auto
termination
  by (relation "measure (\<lambda>(ws, s). length s)") (auto dest: strip_one_length)

declare strip_all.simps [simp del]

definition trim_start :: "string \<Rightarrow> string" where
  "trim_start s = strip_all white_space s"

definition trim_end :: "string \<Rightarrow> string" where
  "trim_end s = rev (strip_all (map rev white_space) (rev s))"

definition trim :: "string \<Rightarrow> string" where
  "trim s = trim_end (trim_start s)"

lemma strip_all_done: "[] \<notin> set ws \<Longrightarrow> strip_one ws (strip_all ws s) = None"
proof (induction ws s rule: strip_all.induct)
  case (1 ws s)
  then show ?case
    by (subst strip_all.simps) (auto split: option.split)
qed

lemma strip_all_id: "strip_one ws s = None \<Longrightarrow> strip_all ws s = s"
  by (subst strip_all.simps) simp

lemma strip_all_suffix: "\<exists>p. s = p @ strip_all ws s"
proof (induction ws s rule: strip_all.induct)
  case (1 ws s)
  show ?case
  proof (cases "[] \<in> set ws \<or> strip_one ws s = None")
    case True
    then show ?thesis by (subst strip_all.simps) auto
  next
    case False
    then obtain r where r: "strip_one ws s = Some r" by auto
    with False 1 obtain p where "r = p @ strip_all ws r" by auto
    moreover have "strip_all ws s = strip_all ws r" using False r by (subst strip_all.simps) auto
    moreover have "\<exists>n. r = drop n s" using r by (auto simp: strip_one_def split: option.splits)
    then obtain n where "r = drop n s" by blast
    ultimately have "s = (take n s @ p) @ strip_all ws s" by (metis append.assoc append_take_drop_id)
    then show ?thesis by blast
  qed
qed

lemma strip_one_prefix: "strip_one ws (s @ t) = None \<Longrightarrow> strip_one ws s = None"
  by (force simp: strip_one_def starts_with_def find_None_iff split: option.splits)

lemma trim_trim [simp]: "trim (trim s) = trim s"
proof -
  have ws: "[] \<notin> set white_space" "[] \<notin> set (map rev white_space)" by (simp_all add: white_space_def)
  let ?t = "trim_start s"
  obtain p where "rev ?t = p @ strip_all (map rev white_space) (rev ?t)"
    using strip_all_suffix [of "rev ?t" "map rev white_space"] by blast
  from arg_cong [OF this, of rev] have "?t = trim s @ rev p" by (simp add: trim_def trim_end_def)
  then have "strip_one white_space (trim s) = None"
    using strip_one_prefix [of white_space "trim s" "rev p"] strip_all_done [OF ws(1), of s]
    by (metis trim_def trim_start_def)
  moreover have "strip_one (map rev white_space) (rev (trim s)) = None"
    using strip_all_done [OF ws(2), of "rev ?t"] by (simp add: trim_def trim_end_def)
  ultimately show ?thesis
    by (simp add: trim_def [of "trim s"] trim_start_def trim_end_def strip_all_id)
qed

text \<open>\<open>str::split_whitespace\<close>: the words between runs of white space.\<close>

function split_words :: "string \<Rightarrow> string \<Rightarrow> string list" where
  "split_words word [] = (if word = [] then [] else [rev word])"
| "split_words word (c # cs) =
     (case strip_one white_space (c # cs) of
        Some rest \<Rightarrow> (if word = [] then [] else [rev word]) @ split_words [] rest
      | None \<Rightarrow> split_words (c # word) cs)"
  by pat_completeness auto
termination
  by (relation "measure (\<lambda>(word, s). length s)") (auto simp: white_space_def dest: strip_one_length)

definition split_whitespace :: "string \<Rightarrow> string list" where
  "split_whitespace s = split_words [] s"

text \<open>A line break never survives in a word.\<close>

lemma split_words_flat:
  assumes "w \<in> set (split_words word s)" "CHR 0x0A \<notin> set word"
  shows "CHR 0x0A \<notin> set w"
  using assms
proof (induction word s rule: split_words.induct)
  case (2 word c cs)
  have "strip_one white_space (CHR 0x0A # cs) \<noteq> None" for cs
  proof -
    have "starts_with (CHR 0x0A # cs) [CHR 0x0A]" "[CHR 0x0A] \<in> set white_space"
      by (simp_all add: starts_with_def white_space_def)
    then show ?thesis by (auto simp: strip_one_def find_None_iff split: option.split)
  qed
  with 2 show ?case by (cases "strip_one white_space (c # cs)"; cases "c = CHR 0x0A") (auto split: if_splits)
qed (auto split: if_splits)

lemma set_join: "set (join sep ps) \<subseteq> \<Union> (set ` set ps) \<union> set sep"
  by (induction sep ps rule: join.induct) auto

section \<open>Unicode scalar values of a UTF-8 string\<close>

definition is_continuation :: "char \<Rightarrow> bool" where
  "is_continuation c \<longleftrightarrow> (of_char c :: nat) div 64 = 2"

text \<open>\<open>s.chars().count()\<close> and \<open>s.chars().take(n).collect()\<close>.\<close>

definition chars_count :: "string \<Rightarrow> nat" where
  "chars_count s = length (filter (\<lambda>c. \<not> is_continuation c) s)"

fun chars_take :: "nat \<Rightarrow> string \<Rightarrow> string" where
  "chars_take n [] = []"
| "chars_take n (c # cs) =
     (if is_continuation c then c # chars_take n cs
      else (case n of 0 \<Rightarrow> [] | Suc m \<Rightarrow> c # chars_take m cs))"

lemma chars_count_append [simp]: "chars_count (s @ t) = chars_count s + chars_count t"
  by (simp add: chars_count_def)

lemma chars_count_take: "chars_count (chars_take n s) = min n (chars_count s)"
  by (induction n s rule: chars_take.induct) (auto simp: chars_count_def split: nat.splits)

lemma chars_take_prefix: "\<exists>r. s = chars_take n s @ r"
proof (induction n s rule: chars_take.induct)
  case (2 n c cs)
  then show ?case by (cases n) auto
qed simp

text \<open>
  A cut made by \<open>chars_take\<close> falls on a character boundary: what it leaves out is empty
  or starts with the first byte of a character.
\<close>

lemma chars_take_boundary:
  "s = chars_take n s @ r \<Longrightarrow> r = [] \<or> \<not> is_continuation (hd r)"
proof (induction n s rule: chars_take.induct)
  case (2 n c cs)
  then show ?case by (cases n) (auto split: if_splits)
qed simp

definition utf8_ellipsis :: string where
  "utf8_ellipsis = [CHR 0xE2, CHR 0x80, CHR 0xA6]"

lemma chars_count_ellipsis [simp]: "chars_count utf8_ellipsis = 1"
  by (simp add: chars_count_def utf8_ellipsis_def is_continuation_def)

end
