(* ===== verification/Json.thy ===== *)
theory Json
  imports Rust_Strings
begin

text \<open>
  \<open>serde_json::Value\<close>: a number is an integer or, where it has a fraction or an exponent,
  the text it was read from; an object is the association list of its members.
\<close>

datatype json =
    JNull
  | JBool bool
  | JNum int
  | JFloat string
  | JStr string
  | JArr "json list"
  | JObj "(string \<times> json) list"

definition member :: "json \<Rightarrow> string \<Rightarrow> json option" where
  "member j k = (case j of JObj ms \<Rightarrow> map_of ms k | _ \<Rightarrow> None)"

lemma member_JObj [simp]: "member (JObj ms) k = map_of ms k"
  by (simp add: member_def)

text \<open>Typed reads of a member: an absent or ill-typed one is \<open>None\<close>.\<close>

definition as_string :: "json \<Rightarrow> string option" where
  "as_string j = (case j of JStr s \<Rightarrow> Some s | _ \<Rightarrow> None)"

definition as_i32_num :: "json \<Rightarrow> int option" where
  "as_i32_num j = (case j of JNum n \<Rightarrow> if in_i32 n then Some n else None | _ \<Rightarrow> None)"

definition as_boolean :: "json \<Rightarrow> bool option" where
  "as_boolean j = (case j of JBool b \<Rightarrow> Some b | _ \<Rightarrow> None)"

definition as_array :: "json \<Rightarrow> json list option" where
  "as_array j = (case j of JArr xs \<Rightarrow> Some xs | _ \<Rightarrow> None)"

lemma as_string_JStr [simp]: "as_string (JStr s) = Some s"
  by (simp add: as_string_def)

lemma as_i32_num_JNum [simp]: "in_i32 n \<Longrightarrow> as_i32_num (JNum n) = Some n"
  by (simp add: as_i32_num_def)

lemma as_boolean_JBool [simp]: "as_boolean (JBool b) = Some b"
  by (simp add: as_boolean_def)

lemma as_array_JArr [simp]: "as_array (JArr xs) = Some xs"
  by (simp add: as_array_def)

text \<open>\<open>Vec<T>\<close>: every element must decode.\<close>

fun decode_all :: "(json \<Rightarrow> 'a option) \<Rightarrow> json list \<Rightarrow> 'a list option" where
  "decode_all f [] = Some []"
| "decode_all f (x # xs) =
     (case f x of None \<Rightarrow> None | Some y \<Rightarrow> map_option ((#) y) (decode_all f xs))"

lemma decode_all_map [simp]:
  "(\<And>x. x \<in> set xs \<Longrightarrow> f (g x) = Some x) \<Longrightarrow> decode_all f (map g xs) = Some xs"
  by (induction xs) auto

text \<open>
  A derived struct is read from an object, or from an array of its fields in order; fields at the
  end that have a default may be left out of the array.
\<close>

definition struct_object_default :: "nat \<Rightarrow> string list \<Rightarrow> json \<Rightarrow> json option" where
  "struct_object_default n names j =
     (case j of
        JObj _ \<Rightarrow> Some j
      | JArr xs \<Rightarrow> if n \<le> length xs \<and> length xs \<le> length names then Some (JObj (zip names xs)) else None
      | _ \<Rightarrow> None)"

definition struct_object :: "string list \<Rightarrow> json \<Rightarrow> json option" where
  "struct_object names j = struct_object_default (length names) names j"

lemma struct_object_JObj [simp]:
  "struct_object_default n names (JObj ms) = Some (JObj ms)" "struct_object names (JObj ms) = Some (JObj ms)"
  by (simp_all add: struct_object_def struct_object_default_def)

end
