(* ===== verification/Task_Status.thy ===== *)
theory Task_Status
  imports Json
begin

text \<open>
  \<open>task/taskrunstatus.rs\<close>: the status of a task run, its persisted integer, its JSON
  form, and the predicate that blocks duplicate submission.
  \<open>webhook/http_status_for_task_run.rs\<close>: the HTTP status a finished attempt reports to
  Cloud Tasks.
\<close>

datatype TaskRunStatus =
    SubmissionFailed
  | Queued
  | InProgress
  | ErrorWillRetry
  | CompleteSuccess
  | CompleteFailure

fun as_str :: "TaskRunStatus \<Rightarrow> string" where
  "as_str SubmissionFailed = ''submission_failed''"
| "as_str Queued = ''queued''"
| "as_str InProgress = ''in_progress''"
| "as_str ErrorWillRetry = ''error_will_retry''"
| "as_str CompleteSuccess = ''complete_success''"
| "as_str CompleteFailure = ''complete_failure''"

fun as_i32 :: "TaskRunStatus \<Rightarrow> int" where
  "as_i32 SubmissionFailed = 0"
| "as_i32 Queued = 1"
| "as_i32 InProgress = 2"
| "as_i32 ErrorWillRetry = 3"
| "as_i32 CompleteSuccess = 4"
| "as_i32 CompleteFailure = 5"

definition from_i32 :: "int \<Rightarrow> string + TaskRunStatus" where
  "from_i32 v =
     (if v = 0 then Inr SubmissionFailed
      else if v = 1 then Inr Queued
      else if v = 2 then Inr InProgress
      else if v = 3 then Inr ErrorWillRetry
      else if v = 4 then Inr CompleteSuccess
      else if v = 5 then Inr CompleteFailure
      else Inl (''unknown task status integer: '' @ show_int v))"

fun is_in_flight :: "TaskRunStatus \<Rightarrow> bool" where
  "is_in_flight Queued = True"
| "is_in_flight InProgress = True"
| "is_in_flight ErrorWillRetry = True"
| "is_in_flight _ = False"

fun status_display_name :: "TaskRunStatus \<Rightarrow> string" where
  "status_display_name SubmissionFailed = ''SubmissionFailed''"
| "status_display_name Queued = ''Queued''"
| "status_display_name InProgress = ''InProgress''"
| "status_display_name ErrorWillRetry = ''ErrorWillRetry''"
| "status_display_name CompleteSuccess = ''CompleteSuccess''"
| "status_display_name CompleteFailure = ''CompleteFailure''"

definition status_display :: "TaskRunStatus \<Rightarrow> string" where
  "status_display s = status_display_name s @ ''('' @ show_int (as_i32 s) @ '')''"

text \<open>
  The wire form is an object with a \<open>name\<close> and a \<open>discriminant\<close>; a derived struct
  deserializer also takes the two values as an array, and ignores further members. \<open>debug\<close>
  is the standard library's \<open>{:?}\<close> of a string: quoted, with escapes.
\<close>

record TaskRunStatusWire =
  w_name :: string
  w_discriminant :: int

definition status_serialize :: "TaskRunStatus \<Rightarrow> json" where
  "status_serialize s = JObj [(''name'', JStr (as_str s)), (''discriminant'', JNum (as_i32 s))]"

definition wire_of_json :: "json \<Rightarrow> TaskRunStatusWire option" where
  "wire_of_json j =
     (let mk = (\<lambda>n d. case (as_string n, as_i32_num d) of
                  (Some n', Some d') \<Rightarrow> Some \<lparr>w_name = n', w_discriminant = d'\<rparr>
                | _ \<Rightarrow> None)
      in case j of
           JObj ms \<Rightarrow> (case (map_of ms ''name'', map_of ms ''discriminant'') of
                         (Some n, Some d) \<Rightarrow> mk n d | _ \<Rightarrow> None)
         | JArr [n, d] \<Rightarrow> mk n d
         | _ \<Rightarrow> None)"

definition status_deserialize :: "(string \<Rightarrow> string) \<Rightarrow> json \<Rightarrow> string + TaskRunStatus" where
  "status_deserialize debug j =
     (case wire_of_json j of
        None \<Rightarrow> Inl ''invalid task status wire object''
      | Some wire \<Rightarrow>
          (case from_i32 (w_discriminant wire) of
             Inl e \<Rightarrow> Inl e
           | Inr status \<Rightarrow>
               if w_name wire \<noteq> as_str status
               then Inl (''task status name '' @ debug (w_name wire) @ '' does not match discriminant ''
                         @ show_int (w_discriminant wire))
               else Inr status))"

section \<open>The HTTP status a worker reports\<close>

definition http_status_for_task_run :: "TaskRunStatus \<Rightarrow> nat" where
  "http_status_for_task_run status =
     (case status of
        SubmissionFailed \<Rightarrow> 500
      | CompleteSuccess \<Rightarrow> 204
      | CompleteFailure \<Rightarrow> 200
      | ErrorWillRetry \<Rightarrow> 500
      | Queued \<Rightarrow> 500
      | InProgress \<Rightarrow> 500)"

definition is_success_code :: "nat \<Rightarrow> bool" where
  "is_success_code c \<longleftrightarrow> 200 \<le> c \<and> c < 300"

section \<open>Facts\<close>

text \<open>Statuses are ordered by their persisted integer, as \<open>ORDER BY status_code\<close> orders rows.\<close>

lemma as_i32_inject [simp]: "as_i32 s = as_i32 t \<longleftrightarrow> s = t"
  by (cases s; cases t) simp_all

instantiation TaskRunStatus :: linorder
begin
definition less_eq_TaskRunStatus :: "TaskRunStatus \<Rightarrow> TaskRunStatus \<Rightarrow> bool" where
  "less_eq_TaskRunStatus s t \<longleftrightarrow> as_i32 s \<le> as_i32 t"
definition less_TaskRunStatus :: "TaskRunStatus \<Rightarrow> TaskRunStatus \<Rightarrow> bool" where
  "less_TaskRunStatus s t \<longleftrightarrow> as_i32 s < as_i32 t"
instance
  by standard (auto simp: less_eq_TaskRunStatus_def less_TaskRunStatus_def)
end

lemma from_i32_as_i32 [simp]: "from_i32 (as_i32 s) = Inr s"
  by (cases s) (simp_all add: from_i32_def)

lemma from_i32_Inr [simp]: "from_i32 v = Inr s \<longleftrightarrow> v = as_i32 s"
  by (cases s) (auto simp: from_i32_def)

lemma from_i32_numerals [simp]:
  "from_i32 0 = Inr SubmissionFailed" "from_i32 1 = Inr Queued" "from_i32 2 = Inr InProgress"
  "from_i32 3 = Inr ErrorWillRetry" "from_i32 4 = Inr CompleteSuccess" "from_i32 5 = Inr CompleteFailure"
  by (simp_all add: from_i32_def)

lemma in_i32_as_i32 [simp]: "in_i32 (as_i32 s)"
  by (cases s) (simp_all add: in_i32_def)

lemma as_str_inject [simp]: "as_str s = as_str t \<longleftrightarrow> s = t"
  by (cases s; cases t) simp_all

lemma is_in_flight_iff: "is_in_flight s \<longleftrightarrow> s \<in> {Queued, InProgress, ErrorWillRetry}"
  by (cases s) simp_all

text \<open>A status in flight has an integer between those of the settled ones.\<close>

lemma is_in_flight_code: "is_in_flight s \<longleftrightarrow> Queued \<le> s \<and> s \<le> ErrorWillRetry"
  by (cases s) (simp_all add: less_eq_TaskRunStatus_def)

text \<open>
  Decoding a task status inverts encoding it, in both stored forms: the integer code
  accepts exactly the six persisted codes, and the JSON form accepts an object exactly
  when its name and its discriminant name the same status.
\<close>

theorem status_codec_roundtrip:
  "(from_i32 v = Inr s \<longleftrightarrow> v = as_i32 s) \<and>
   status_deserialize debug (status_serialize s) = Inr s \<and>
   (status_deserialize debug j = Inr s \<longleftrightarrow>
      wire_of_json j = Some \<lparr>w_name = as_str s, w_discriminant = as_i32 s\<rparr>)"
proof -
  have wire: "status_deserialize debug j = Inr s \<longleftrightarrow>
          wire_of_json j = Some \<lparr>w_name = as_str s, w_discriminant = as_i32 s\<rparr>" for j s
    by (cases "wire_of_json j")
       (auto simp: status_deserialize_def split: sum.splits if_splits)
  then have "status_deserialize debug (status_serialize s) = Inr s"
    by (simp add: status_serialize_def wire_of_json_def)
  with wire show ?thesis by simp
qed

end
