(* ===== verification/Api_Error.thy ===== *)
theory Api_Error
  imports Json
begin

text \<open>
  \<open>api/apierror.rs\<close>: the error type of the API and of task execution, and the decision
  whether a failure is worth retrying. An \<open>anyhow::Error\<close> is the list of its messages,
  outermost context first; its alternate rendering joins them with a colon.
  \<open>auth/autherror.rs\<close>: authentication errors and the response each one produces.
\<close>

section \<open>Errors of the libraries\<close>

type_synonym anyhow = "string list"

definition anyhow_msg :: "string \<Rightarrow> anyhow" where
  "anyhow_msg m = [m]"

definition with_context :: "string \<Rightarrow> anyhow \<Rightarrow> anyhow" where
  "with_context c e = c # e"

text \<open>\<open>{}\<close> renders the outermost message, \<open>{:#}\<close> the whole chain.\<close>

definition anyhow_display :: "anyhow \<Rightarrow> string" where
  "anyhow_display e = (case e of [] \<Rightarrow> [] | m # _ \<Rightarrow> m)"

definition anyhow_alternate :: "anyhow \<Rightarrow> string" where
  "anyhow_alternate e = join '': '' e"

text \<open>
  \<open>sea_orm::DbErr\<close>, as far as the sources look into it: an execution or query error that
  carries the SQLSTATE and the violated constraint of a database error, and its text.
\<close>

datatype sqlx_error =
    SqlxDatabase (sqlx_code: "string option") (sqlx_constraint: "string option") (sqlx_text: string)
  | SqlxOther string

datatype runtime_err = SqlxError sqlx_error | RuntimeInternal string

datatype db_err = DbExec runtime_err | DbQuery runtime_err | DbOther string

fun sqlx_message :: "sqlx_error \<Rightarrow> string" where
  "sqlx_message (SqlxDatabase c k t) = t"
| "sqlx_message (SqlxOther t) = t"

fun runtime_message :: "runtime_err \<Rightarrow> string" where
  "runtime_message (SqlxError e) = sqlx_message e"
| "runtime_message (RuntimeInternal t) = t"

fun db_err_message :: "db_err \<Rightarrow> string" where
  "db_err_message (DbExec e) = runtime_message e"
| "db_err_message (DbQuery e) = runtime_message e"
| "db_err_message (DbOther t) = t"

definition anyhow_of_db :: "db_err \<Rightarrow> anyhow" where
  "anyhow_of_db e = anyhow_msg (db_err_message e)"

section \<open>ApiError\<close>

record ApiError =
  http_status_code :: nat
  api_error :: anyhow
  api_inner_status_code :: int

definition api_new :: "nat \<Rightarrow> anyhow \<Rightarrow> ApiError" where
  "api_new code err = \<lparr>http_status_code = code, api_error = err, api_inner_status_code = int code\<rparr>"

definition with_inner_status_code :: "int option \<Rightarrow> ApiError \<Rightarrow> ApiError" where
  "with_inner_status_code c self =
     (case c of Some code \<Rightarrow> self\<lparr>api_inner_status_code := code\<rparr> | None \<Rightarrow> self)"

definition inner_status_code :: "ApiError \<Rightarrow> int" where
  "inner_status_code self = api_inner_status_code self"

definition into_inner :: "ApiError \<Rightarrow> anyhow" where
  "into_inner self = api_error self"

definition bad_request :: "anyhow \<Rightarrow> ApiError" where
  "bad_request err = api_new 400 err"

definition conflict :: "anyhow \<Rightarrow> ApiError" where
  "conflict err = api_new 409 err"

definition forbidden :: "anyhow \<Rightarrow> ApiError" where
  "forbidden err = api_new 403 err"

definition internal :: "anyhow \<Rightarrow> ApiError" where
  "internal err = api_new 500 err"

definition not_found :: "anyhow \<Rightarrow> ApiError" where
  "not_found err = api_new 404 err"

definition payload_too_large :: "anyhow \<Rightarrow> ApiError" where
  "payload_too_large err = api_new 413 err"

definition unsupported_media_type :: "anyhow \<Rightarrow> ApiError" where
  "unsupported_media_type err = api_new 415 err"

definition unauthorized :: "anyhow \<Rightarrow> ApiError" where
  "unauthorized err = api_new 401 err"

text \<open>
  \<open>{:.1}\<close> of \<open>bytes as f64 / (1024.0 * 1024.0)\<close>: below \<open>2\<^sup>5\<^sup>3\<close> bytes the conversion and the
  division by a power of two are exact, and formatting rounds the exact value to even.
\<close>

definition round_half_even :: "nat \<Rightarrow> nat \<Rightarrow> nat" where
  "round_half_even a b =
     (let q = a div b; r = a mod b
      in if 2 * r < b then q else if b < 2 * r then q + 1 else if even q then q else q + 1)"

definition human_mb :: "nat \<Rightarrow> string" where
  "human_mb bytes =
     (let t = round_half_even (bytes * 10) 1048576
      in show_nat (t div 10) @ ''.'' @ show_nat (t mod 10) @ '' MB'')"

definition upload_too_large :: "nat \<Rightarrow> nat option \<Rightarrow> ApiError" where
  "upload_too_large max_bytes actual_bytes =
     (let detail = (case actual_bytes of
          Some actual \<Rightarrow> ''Upload is '' @ human_mb actual @ ''; the limit is '' @ human_mb max_bytes
                           @ '' ('' @ show_nat max_bytes @ '' bytes)''
        | None \<Rightarrow> ''Upload exceeds the '' @ show_nat max_bytes @ '' byte limit'')
      in payload_too_large (anyhow_msg detail))"

definition message :: "ApiError \<Rightarrow> string" where
  "message self = anyhow_alternate (api_error self)"

definition is_server_error :: "nat \<Rightarrow> bool" where
  "is_server_error c \<longleftrightarrow> 500 \<le> c \<and> c < 600"

definition is_retryable :: "ApiError \<Rightarrow> bool" where
  "is_retryable self = is_server_error (http_status_code self)"

text \<open>
  \<open>IntoResponse\<close>: the status and the body, given the fresh report id and the trace id of
  the current span.
\<close>

definition into_response :: "string \<Rightarrow> string option \<Rightarrow> ApiError \<Rightarrow> nat \<times> string" where
  "into_response report_id trace_id self =
     (http_status_code self,
      ''Request failed. status='' @ show_nat (http_status_code self) @ '' report_id='' @ report_id
      @ (case trace_id of Some t \<Rightarrow> '' trace_id='' @ t | None \<Rightarrow> []))"

definition anyhow_of_api :: "ApiError \<Rightarrow> anyhow" where
  "anyhow_of_api err = api_error err"

definition api_of_anyhow :: "anyhow \<Rightarrow> ApiError" where
  "api_of_anyhow err = api_new 500 err"

definition api_of_db :: "db_err \<Rightarrow> ApiError" where
  "api_of_db err = api_new 500 (anyhow_of_db err)"

lemmas api_ctor_defs = bad_request_def conflict_def forbidden_def internal_def not_found_def
  payload_too_large_def unsupported_media_type_def unauthorized_def api_of_anyhow_def api_of_db_def

lemma api_new_sel [simp]:
  "http_status_code (api_new c e) = c" "api_error (api_new c e) = e"
  "api_inner_status_code (api_new c e) = int c"
  by (simp_all add: api_new_def)

lemma with_inner_sel [simp]:
  "http_status_code (with_inner_status_code c e) = http_status_code e"
  "api_error (with_inner_status_code c e) = api_error e"
  by (simp_all add: with_inner_status_code_def split: option.split)

lemma is_retryable_ctor [simp]:
  "is_retryable (internal e)" "is_retryable (api_of_anyhow e)" "is_retryable (api_of_db d)"
  "\<not> is_retryable (bad_request e)" "\<not> is_retryable (conflict e)" "\<not> is_retryable (forbidden e)"
  "\<not> is_retryable (not_found e)" "\<not> is_retryable (unauthorized e)"
  "\<not> is_retryable (payload_too_large e)" "\<not> is_retryable (unsupported_media_type e)"
  by (simp_all add: is_retryable_def is_server_error_def api_ctor_defs)

lemma is_retryable_with_inner [simp]: "is_retryable (with_inner_status_code c e) = is_retryable e"
  by (simp add: is_retryable_def)

text \<open>
  The provider's status code never reaches a caller. Attaching an inner status
  changes neither the retry decision nor the response, and what is recorded for triage
  is the attached code, or the response status when none was attached.
\<close>

theorem inner_status_is_internal:
  "into_response r t (with_inner_status_code c e) = into_response r t e \<and>
   is_retryable (with_inner_status_code c e) = is_retryable e \<and>
   message (with_inner_status_code c e) = message e \<and>
   inner_status_code (with_inner_status_code c (api_new code err)) =
     (case c of Some k \<Rightarrow> k | None \<Rightarrow> int code)"
  by (cases c) (simp_all add: into_response_def message_def inner_status_code_def
      with_inner_status_code_def is_retryable_def)

section \<open>AuthError\<close>

datatype AuthError =
    AuthDatabase db_err
  | InvalidCredentials
  | PasswordHashError string
  | MissingOrInvalidHeader
  | InvalidToken
  | TokenCreation string
  | AuthOther anyhow

fun auth_error_display :: "AuthError \<Rightarrow> string" where
  "auth_error_display (AuthDatabase e) = ''Database error: '' @ db_err_message e"
| "auth_error_display InvalidCredentials = ''Invalid credentials''"
| "auth_error_display (PasswordHashError e) = ''Password hash error: '' @ e"
| "auth_error_display MissingOrInvalidHeader = ''Missing or invalid Authorization header''"
| "auth_error_display InvalidToken = ''Invalid or expired token''"
| "auth_error_display (TokenCreation msg) = ''Token creation failed: '' @ msg"
| "auth_error_display (AuthOther e) = anyhow_display e"

text \<open>The kinds of \<open>jsonwebtoken::errors::ErrorKind\<close> the conversion distinguishes.\<close>

datatype jwt_error_kind =
    KInvalidToken | KInvalidSignature | KExpiredSignature | KImmatureSignature
  | KBase64 | KJson | KUtf8 | KOther string

fun auth_error_of_jwt :: "jwt_error_kind \<Rightarrow> AuthError" where
  "auth_error_of_jwt KInvalidToken = InvalidToken"
| "auth_error_of_jwt KInvalidSignature = InvalidToken"
| "auth_error_of_jwt KExpiredSignature = InvalidToken"
| "auth_error_of_jwt KImmatureSignature = InvalidToken"
| "auth_error_of_jwt KBase64 = InvalidToken"
| "auth_error_of_jwt KJson = InvalidToken"
| "auth_error_of_jwt KUtf8 = InvalidToken"
| "auth_error_of_jwt (KOther text) = TokenCreation text"

definition auth_error_response :: "AuthError \<Rightarrow> nat \<times> json" where
  "auth_error_response self =
     (let status = (case self of
          AuthDatabase _ \<Rightarrow> 500
        | InvalidCredentials \<Rightarrow> 401
        | PasswordHashError _ \<Rightarrow> 500
        | MissingOrInvalidHeader \<Rightarrow> 401
        | InvalidToken \<Rightarrow> 401
        | TokenCreation _ \<Rightarrow> 500
        | AuthOther _ \<Rightarrow> 500)
      in (status, JObj [(''error'', JStr (auth_error_display self))]))"

end
