(* ===== verification/Model.thy ===== *)
theory Model
  imports Task_Status Api_Error
begin

text \<open>
  \<open>model/*.rs\<close>: one record per table, field by field. A \<open>DateTime<Utc>\<close> is its
  microsecond count, a \<open>Uuid\<close> its text. The relation fields of the SeaORM entities
  (\<open>HasMany\<close>, \<open>HasOne\<close>) are not columns: they are what a loader attaches, and appear
  where rows are loaded with their children.
\<close>

type_synonym timestamp = int

record task_run_row =
  tr_id :: int
  tr_logical_id :: string
  tr_run_id :: string
  tr_run_number :: int
  tr_backfill_id :: "string option"
  tr_task_type :: string
  tr_entity_owner_id :: int
  tr_entity_type :: string
  tr_entity_id :: int
  tr_task_payload :: "json option"
  tr_status_code :: int
  tr_attempts :: int
  tr_created_at :: timestamp
  tr_processing_started_at :: "timestamp option"
  tr_last_error_code :: "int option"
  tr_last_error_message :: "string option"
  tr_last_error_duration_ms :: "int option"
  tr_success_duration_ms :: "int option"
  tr_updated_at :: timestamp

record task_run_timing_row =
  tt_id :: int
  tt_task_type :: string
  tt_operation_type :: string
  tt_sample_count :: int
  tt_duration_ms_avg :: int
  tt_duration_ms_p50 :: int
  tt_duration_ms_p75 :: int
  tt_duration_ms_p90 :: int
  tt_updated_at :: timestamp

record backfill_row =
  bf_backfill_id :: string
  bf_last_pumped_at :: timestamp
  bf_dry_since :: "timestamp option"

record user_row =
  us_id :: int
  us_username :: string
  us_email :: string
  us_password_hash :: string
  us_is_admin :: bool
  us_storage_shard :: string

record capture_row =
  ca_id :: int
  ca_user_id :: int
  ca_created_at :: timestamp
  ca_archived_at :: "timestamp option"

record media_row =
  md_id :: int
  md_user_id :: int
  md_capture_id :: int
  md_bytes :: int
  md_mime_type :: "string option"
  md_hash_blake3 :: "string option"
  md_storage_provider :: string
  md_storage_bucket :: "string option"
  md_storage_user_shard :: string
  md_storage_uuid :: string
  md_storage_extension :: "string option"

record annotation_row =
  an_id :: int
  an_user_id :: int
  an_capture_id :: int
  an_created_at :: timestamp
  an_updated_at :: timestamp
  an_archived_at :: "timestamp option"
  an_content :: string

record illumination_row =
  il_id :: int
  il_user_id :: int
  il_capture_id :: int
  il_task_run_id :: string
  il_inference_meta_id :: "int option"
  il_created_at :: timestamp
  il_summary :: string
  il_details :: string
  il_suggested_searches :: "string list option"

record illumination_raw_row =
  ir_id :: int
  ir_user_id :: int
  ir_capture_id :: int
  ir_media_id :: int
  ir_created_at :: timestamp
  ir_task_run_id :: string
  ir_inference_meta_id :: "int option"
  ir_content :: json

record knowledge_entity_row =
  ke_id :: int
  ke_user_id :: int
  ke_capture_id :: int
  ke_illumination_id :: int
  ke_position :: int
  ke_created_at :: timestamp
  ke_name :: string
  ke_entity_type :: string
  ke_description :: "string option"
  ke_search_query :: "string option"
  ke_platform :: "string option"
  ke_platform_handle :: "string option"
  ke_platform_display_name :: "string option"

record search_index_row =
  si_id :: int
  si_user_id :: int
  si_capture_id :: int
  si_illumination_id :: int
  si_content :: string

record inference_meta_row =
  im_id :: int
  im_user_id :: int
  im_created_at :: timestamp
  im_task_run_id :: "string option"
  im_attempt :: "int option"
  im_task_type :: "string option"
  im_provider :: string
  im_backend :: string
  im_model :: string
  im_duration_ms :: int
  im_tokens_in :: "int option"
  im_tokens_in_cached :: "int option"
  im_tokens_out :: "int option"
  im_tokens_thought :: "int option"
  im_params :: json
  im_provider_metadata :: json

record spark_row =
  sp_id :: int
  sp_user_id :: int
  sp_inference_meta_id :: "int option"
  sp_created_at :: timestamp

record spark_cluster_row =
  sc_id :: int
  sc_user_id :: int
  sc_spark_id :: int
  sc_created_at :: timestamp
  sc_title :: string
  sc_summary :: string

record spark_input_ref_row =
  sr_id :: int
  sr_user_id :: int
  sr_spark_id :: int
  sr_capture_id :: int
  sr_position :: int
  sr_created_at :: timestamp

record spark_output_ref_row =
  so_id :: int
  so_user_id :: int
  so_spark_id :: int
  so_spark_cluster_id :: int
  so_capture_id :: int
  so_created_at :: timestamp

record spark_link_row =
  sl_id :: int
  sl_user_id :: int
  sl_spark_cluster_id :: int
  sl_created_at :: timestamp
  sl_url :: string
  sl_commentary :: string

text \<open>
  A serial primary key: larger than every key in the table. (A sequence may skip values;
  what the sources rely on is that keys are fresh and grow.)
\<close>

definition next_id :: "('r \<Rightarrow> int) \<Rightarrow> 'r list \<Rightarrow> int" where
  "next_id key rows = 1 + foldr (\<lambda>r m. max (key r) m) rows 0"

lemma next_id_greater: "r \<in> set rows \<Longrightarrow> key r < next_id key rows"
proof -
  have "\<forall>r \<in> set rows. key r \<le> foldr (\<lambda>r m. max (key r) m) rows 0"
    by (induction rows) auto
  then show "r \<in> set rows \<Longrightarrow> key r < next_id key rows" by (force simp: next_id_def)
qed

lemma next_id_fresh: "next_id key rows \<notin> key ` set rows"
  by (metis imageE less_irrefl next_id_greater)

lemma next_id_pos: "0 < next_id key rows"
proof -
  have "0 \<le> foldr (\<lambda>r m. max (key r) m) rows 0" by (induction rows) auto
  then show ?thesis by (simp add: next_id_def)
qed

text \<open>
  \<open>UPDATE .. WHERE p RETURNING *\<close> and \<open>DELETE .. WHERE p\<close> on a table, with the facts
  every use needs.
\<close>

definition update_where :: "('r \<Rightarrow> bool) \<Rightarrow> ('r \<Rightarrow> 'r) \<Rightarrow> 'r list \<Rightarrow> 'r list" where
  "update_where p f rows = map (\<lambda>r. if p r then f r else r) rows"

definition delete_where :: "('r \<Rightarrow> bool) \<Rightarrow> 'r list \<Rightarrow> 'r list" where
  "delete_where p rows = filter (\<lambda>r. \<not> p r) rows"

lemma set_update_where: "set (update_where p f rows) = (\<lambda>r. if p r then f r else r) ` set rows"
  by (simp add: update_where_def)

lemma map_update_where:
  "(\<And>r. r \<in> set rows \<Longrightarrow> p r \<Longrightarrow> g (f r) = g r) \<Longrightarrow> map g (update_where p f rows) = map g rows"
  by (auto simp: update_where_def)

lemma filter_update_where:
  "(\<And>r. P (f r) = P r) \<Longrightarrow> filter P (update_where p f rows) = update_where p f (filter P rows)"
  by (induction rows) (auto simp: update_where_def)

lemma update_where_none: "(\<And>r. r \<in> set rows \<Longrightarrow> \<not> p r) \<Longrightarrow> update_where p f rows = rows"
  by (simp add: update_where_def map_idI)

lemma set_delete_where [simp]: "set (delete_where p rows) = {r \<in> set rows. \<not> p r}"
  by (simp add: delete_where_def)

end
