(* ===== verification/Tasks.thy ===== *)
theory Tasks
  imports Model
begin

text \<open>
  \<open>task/task_def.rs\<close> and the task types of \<open>logic/*.rs\<close>: the specification of a unit of
  work, one invocation of it, and the identity the two parts of which deduplicate work.
  The generic parameter \<open>T: Task\<close> ranges over the three task types, so a task is their
  sum; \<open>T::task_type()\<close> and \<open>T::entity_type()\<close> are read off the constructor.
\<close>

section \<open>Parameters of the tasks\<close>

datatype IlluminationVersion = V1 | V2

fun version_as_str :: "IlluminationVersion \<Rightarrow> string" where
  "version_as_str V1 = ''v1''"
| "version_as_str V2 = ''v2''"

datatype ThinkingLevel = Minimal | Low | Medium | High

fun thinking_as_str :: "ThinkingLevel \<Rightarrow> string" where
  "thinking_as_str Minimal = ''minimal''"
| "thinking_as_str Low = ''low''"
| "thinking_as_str Medium = ''medium''"
| "thinking_as_str High = ''high''"

record IlluminationTask =
  it_capture_id :: int
  it_entity_owner_id :: int
  it_model_id :: string
  it_prompt_version :: IlluminationVersion
  it_thinking_level :: "ThinkingLevel option"
  it_persist_projection :: bool

definition default_persist_projection :: bool where
  "default_persist_projection = True"

definition illumination_task_new :: "int \<Rightarrow> int \<Rightarrow> string \<Rightarrow> IlluminationVersion \<Rightarrow> IlluminationTask" where
  "illumination_task_new capture_id entity_owner_id model_id prompt_version =
     \<lparr>it_capture_id = capture_id, it_entity_owner_id = entity_owner_id, it_model_id = model_id,
      it_prompt_version = prompt_version, it_thinking_level = None, it_persist_projection = True\<rparr>"

record SearchIndexTask =
  st_capture_id :: int
  st_entity_owner_id :: int

record SparkTask =
  sk_spark_id :: int
  sk_entity_owner_id :: int
  sk_capture_ids :: "int list"

datatype task =
    Illuminate IlluminationTask
  | SearchIndex SearchIndexTask
  | Spark SparkTask

fun task_type :: "task \<Rightarrow> string" where
  "task_type (Illuminate _) = ''illuminate''"
| "task_type (SearchIndex _) = ''search_index''"
| "task_type (Spark _) = ''spark''"

fun entity_type :: "task \<Rightarrow> string" where
  "entity_type (Illuminate _) = ''capture''"
| "entity_type (SearchIndex _) = ''capture''"
| "entity_type (Spark _) = ''spark''"

fun entity_id :: "task \<Rightarrow> int" where
  "entity_id (Illuminate t) = it_capture_id t"
| "entity_id (SearchIndex t) = st_capture_id t"
| "entity_id (Spark t) = sk_spark_id t"

fun entity_owner_id :: "task \<Rightarrow> int" where
  "entity_owner_id (Illuminate t) = it_entity_owner_id t"
| "entity_owner_id (SearchIndex t) = st_entity_owner_id t"
| "entity_owner_id (Spark t) = sk_entity_owner_id t"

section \<open>Task runs\<close>

record TaskRun =
  logical_id :: string
  run_id :: string
  run_number :: int
  backfill_id :: "string option"
  run_task :: task

definition make_logical_id :: "task \<Rightarrow> string" where
  "make_logical_id t =
     ''u'' @ show_int (entity_owner_id t) @ ''-'' @ task_type t @ ''-'' @ entity_type t
     @ show_int (entity_id t)"

text \<open>\<open>TaskRun::new\<close> with the UUID it draws.\<close>

definition task_run_new :: "string \<Rightarrow> task \<Rightarrow> int \<Rightarrow> TaskRun" where
  "task_run_new uuid t number =
     \<lparr>logical_id = make_logical_id t, run_id = uuid, run_number = number, backfill_id = None,
      run_task = t\<rparr>"

section \<open>The JSON form of a task and of a task run\<close>

text \<open>
  The derived \<open>Serialize\<close> and \<open>Deserialize\<close> with the attributes of the sources: an
  absent \<open>thinking_level\<close> or \<open>backfill_id\<close> is left out, an absent
  \<open>persist_projection\<close> reads as its default.
\<close>

definition opt_member :: "string \<Rightarrow> ('a \<Rightarrow> json) \<Rightarrow> 'a option \<Rightarrow> (string \<times> json) list" where
  "opt_member k f v = (case v of None \<Rightarrow> [] | Some x \<Rightarrow> [(k, f x)])"

definition illumination_task_json :: "IlluminationTask \<Rightarrow> json" where
  "illumination_task_json t = JObj (
     [(''capture_id'', JNum (it_capture_id t)), (''entity_owner_id'', JNum (it_entity_owner_id t)),
      (''model_id'', JStr (it_model_id t)),
      (''prompt_version'', JStr (version_as_str (it_prompt_version t)))]
     @ opt_member ''thinking_level'' (JStr \<circ> thinking_as_str) (it_thinking_level t)
     @ [(''persist_projection'', JBool (it_persist_projection t))])"

definition search_index_task_json :: "SearchIndexTask \<Rightarrow> json" where
  "search_index_task_json t = JObj
     [(''capture_id'', JNum (st_capture_id t)), (''entity_owner_id'', JNum (st_entity_owner_id t))]"

definition spark_task_json :: "SparkTask \<Rightarrow> json" where
  "spark_task_json t = JObj
     [(''spark_id'', JNum (sk_spark_id t)), (''entity_owner_id'', JNum (sk_entity_owner_id t)),
      (''capture_ids'', JArr (map JNum (sk_capture_ids t)))]"

fun task_json :: "task \<Rightarrow> json" where
  "task_json (Illuminate t) = illumination_task_json t"
| "task_json (SearchIndex t) = search_index_task_json t"
| "task_json (Spark t) = spark_task_json t"

definition task_run_json :: "TaskRun \<Rightarrow> json" where
  "task_run_json r = JObj (
     [(''logical_id'', JStr (logical_id r)), (''run_id'', JStr (run_id r)),
      (''run_number'', JNum (run_number r))]
     @ opt_member ''backfill_id'' JStr (backfill_id r)
     @ [(''task'', task_json (run_task r))])"

definition req_member :: "json \<Rightarrow> string \<Rightarrow> (json \<Rightarrow> 'a option) \<Rightarrow> 'a option" where
  "req_member j k dec = (case member j k of None \<Rightarrow> None | Some v \<Rightarrow> dec v)"

text \<open>An \<open>Option<T>\<close> field: absent and \<open>null\<close> both read as \<open>None\<close>.\<close>

definition nullable_member :: "json \<Rightarrow> string \<Rightarrow> (json \<Rightarrow> 'a option) \<Rightarrow> 'a option option" where
  "nullable_member j k dec =
     (case member j k of None \<Rightarrow> Some None | Some JNull \<Rightarrow> Some None | Some v \<Rightarrow> map_option Some (dec v))"

definition version_of_json :: "json \<Rightarrow> IlluminationVersion option" where
  "version_of_json j = (case as_string j of
     Some s \<Rightarrow> if s = ''v1'' then Some V1 else if s = ''v2'' then Some V2 else None | None \<Rightarrow> None)"

definition thinking_of_json :: "json \<Rightarrow> ThinkingLevel option" where
  "thinking_of_json j = (case as_string j of
     Some s \<Rightarrow> if s = ''minimal'' then Some Minimal else if s = ''low'' then Some Low
               else if s = ''medium'' then Some Medium else if s = ''high'' then Some High else None
   | None \<Rightarrow> None)"

definition illumination_task_of_json :: "json \<Rightarrow> IlluminationTask option" where
  "illumination_task_of_json j =
     (case (req_member j ''capture_id'' as_i32_num, req_member j ''entity_owner_id'' as_i32_num,
            req_member j ''model_id'' as_string, req_member j ''prompt_version'' version_of_json,
            nullable_member j ''thinking_level'' thinking_of_json,
            (case member j ''persist_projection'' of
               None \<Rightarrow> Some default_persist_projection | Some v \<Rightarrow> as_boolean v)) of
        (Some c, Some u, Some m, Some v, Some th, Some p) \<Rightarrow>
          Some \<lparr>it_capture_id = c, it_entity_owner_id = u, it_model_id = m, it_prompt_version = v,
                it_thinking_level = th, it_persist_projection = p\<rparr>
      | _ \<Rightarrow> None)"

definition search_index_task_of_json :: "json \<Rightarrow> SearchIndexTask option" where
  "search_index_task_of_json j =
     (case (req_member j ''capture_id'' as_i32_num, req_member j ''entity_owner_id'' as_i32_num) of
        (Some c, Some u) \<Rightarrow> Some \<lparr>st_capture_id = c, st_entity_owner_id = u\<rparr>
      | _ \<Rightarrow> None)"

definition spark_task_of_json :: "json \<Rightarrow> SparkTask option" where
  "spark_task_of_json j =
     (case (req_member j ''spark_id'' as_i32_num, req_member j ''entity_owner_id'' as_i32_num,
            req_member j ''capture_ids''
              (\<lambda>v. case as_array v of None \<Rightarrow> None | Some xs \<Rightarrow> decode_all as_i32_num xs)) of
        (Some s, Some u, Some cs) \<Rightarrow>
          Some \<lparr>sk_spark_id = s, sk_entity_owner_id = u, sk_capture_ids = cs\<rparr>
      | _ \<Rightarrow> None)"

text \<open>A webhook route decodes the body at the task type it serves.\<close>

definition task_run_of_json :: "(json \<Rightarrow> task option) \<Rightarrow> json \<Rightarrow> TaskRun option" where
  "task_run_of_json dec j =
     (case (req_member j ''logical_id'' as_string, req_member j ''run_id'' as_string,
            req_member j ''run_number'' as_i32_num, nullable_member j ''backfill_id'' as_string,
            req_member j ''task'' dec) of
        (Some l, Some r, Some n, Some b, Some t) \<Rightarrow>
          Some \<lparr>logical_id = l, run_id = r, run_number = n, backfill_id = b, run_task = t\<rparr>
      | _ \<Rightarrow> None)"

fun task_decoder :: "task \<Rightarrow> json \<Rightarrow> task option" where
  "task_decoder (Illuminate _) j = map_option Illuminate (illumination_task_of_json j)"
| "task_decoder (SearchIndex _) j = map_option SearchIndex (search_index_task_of_json j)"
| "task_decoder (Spark _) j = map_option Spark (spark_task_of_json j)"

section \<open>Facts\<close>

text \<open>The integer fields of a task are \<open>i32\<close>s.\<close>

fun task_in_range :: "task \<Rightarrow> bool" where
  "task_in_range (Illuminate t) \<longleftrightarrow> in_i32 (it_capture_id t) \<and> in_i32 (it_entity_owner_id t)"
| "task_in_range (SearchIndex t) \<longleftrightarrow> in_i32 (st_capture_id t) \<and> in_i32 (st_entity_owner_id t)"
| "task_in_range (Spark t) \<longleftrightarrow>
     in_i32 (sk_spark_id t) \<and> in_i32 (sk_entity_owner_id t) \<and> (\<forall>c \<in> set (sk_capture_ids t). in_i32 c)"

lemma version_of_json_as_str [simp]: "version_of_json (JStr (version_as_str v)) = Some v"
  by (cases v) (simp_all add: version_of_json_def)

lemma thinking_of_json_as_str [simp]: "thinking_of_json (JStr (thinking_as_str v)) = Some v"
  by (cases v) (simp_all add: thinking_of_json_def)

lemmas json_field_defs = req_member_def nullable_member_def opt_member_def

lemma illumination_task_roundtrip:
  "in_i32 (it_capture_id t) \<Longrightarrow> in_i32 (it_entity_owner_id t) \<Longrightarrow>
   illumination_task_of_json (illumination_task_json t) = Some t"
  by (cases t; cases "it_thinking_level t")
     (auto simp: illumination_task_of_json_def illumination_task_json_def json_field_defs)

lemma search_index_task_roundtrip:
  "in_i32 (st_capture_id t) \<Longrightarrow> in_i32 (st_entity_owner_id t) \<Longrightarrow>
   search_index_task_of_json (search_index_task_json t) = Some t"
  by (cases t) (auto simp: search_index_task_of_json_def search_index_task_json_def json_field_defs)

lemma spark_task_roundtrip:
  "task_in_range (Spark t) \<Longrightarrow> spark_task_of_json (spark_task_json t) = Some t"
  by (cases t) (auto simp: spark_task_of_json_def spark_task_json_def json_field_defs)

lemma task_roundtrip: "task_in_range t \<Longrightarrow> task_decoder t (task_json t) = Some t"
  by (cases t)
     (simp_all add: illumination_task_roundtrip search_index_task_roundtrip spark_task_roundtrip)

lemma task_run_roundtrip:
  assumes "in_i32 (run_number r)" and "task_in_range (run_task r)"
  shows "task_run_of_json (task_decoder (run_task r)) (task_run_json r) = Some r"
  using assms task_roundtrip [of "run_task r"]
  by (cases r; cases "backfill_id r")
     (auto simp: task_run_of_json_def task_run_json_def json_field_defs)

text \<open>
  C24: a task run survives delivery. What a worker decodes from the body the queue posted
  is the run that was enqueued: identity, ordinal, backfill tag and every task parameter.
\<close>

theorem task_run_delivery_roundtrip:
  assumes "in_i32 (run_number r)" and "task_in_range (run_task r)"
  shows "task_run_of_json (task_decoder (run_task r)) (task_run_json r) = Some r"
  using assms by (rule task_run_roundtrip)

theorem task_run_delivery_roundtrip_witness:
  "task_run_of_json (task_decoder (Spark \<lparr>sk_spark_id = - 5, sk_entity_owner_id = 1, sk_capture_ids = [3, 4]\<rparr>))
     (task_run_json \<lparr>logical_id = ''u1-spark-spark-5'', run_id = ''r'', run_number = 1,
        backfill_id = Some ''b'', run_task = Spark \<lparr>sk_spark_id = - 5, sk_entity_owner_id = 1, sk_capture_ids = [3, 4]\<rparr>\<rparr>)
   = Some \<lparr>logical_id = ''u1-spark-spark-5'', run_id = ''r'', run_number = 1,
        backfill_id = Some ''b'', run_task = Spark \<lparr>sk_spark_id = - 5, sk_entity_owner_id = 1, sk_capture_ids = [3, 4]\<rparr>\<rparr>"
  using task_run_delivery_roundtrip [of "\<lparr>logical_id = ''u1-spark-spark-5'', run_id = ''r'', run_number = 1,
        backfill_id = Some ''b'', run_task = Spark \<lparr>sk_spark_id = - 5, sk_entity_owner_id = 1, sk_capture_ids = [3, 4]\<rparr>\<rparr>"]
  by (simp add: in_i32_def)

text \<open>
  The owner is the digit run after \<open>u\<close>, the task type tells the three kinds apart, and
  the entity number is what is left: the printed form determines all four parts.
\<close>

lemma make_logical_id_parts:
  assumes "make_logical_id t = make_logical_id t'"
  shows "entity_owner_id t = entity_owner_id t' \<and> task_type t = task_type t' \<and>
         entity_type t = entity_type t' \<and> entity_id t = entity_id t'"
proof -
  let ?tail = "\<lambda>t. task_type t @ ''-'' @ entity_type t @ show_int (entity_id t)"
  have split: "takeWhile (\<lambda>c. is_digit c \<or> c = CHR ''-'') (show_int i @ ''-'' @ xs) =
          show_int i @ ''-'' @ takeWhile (\<lambda>c. is_digit c \<or> c = CHR ''-'') xs" for i xs
    using show_int_chars by (subst takeWhile_append2) auto
  have stop: "takeWhile (\<lambda>c. is_digit c \<or> c = CHR ''-'') (?tail t) = []" for t
    by (cases t) (simp_all add: is_digit_def digit_val_def)
  have eq: "show_int (entity_owner_id t) @ ''-'' @ ?tail t =
            show_int (entity_owner_id t') @ ''-'' @ ?tail t'"
    using assms by (simp add: make_logical_id_def)
  then have "show_int (entity_owner_id t) @ ''-'' = show_int (entity_owner_id t') @ ''-''"
    using split stop by (metis append_Nil2)
  then have owner: "entity_owner_id t = entity_owner_id t'" by simp
  with eq have "?tail t = ?tail t'" by simp
  then have "task_type t = task_type t' \<and> entity_type t = entity_type t' \<and> entity_id t = entity_id t'"
    by (cases t; cases t') auto
  with owner show ?thesis by simp
qed

text \<open>
  C25: the logical identity separates work exactly by owner, task type and target. Two
  tasks share a logical id precisely when they are the same kind of task on the same
  entity of the same owner, whatever their other parameters.
\<close>

theorem make_logical_id_identity:
  "make_logical_id t = make_logical_id t' \<longleftrightarrow>
     entity_owner_id t = entity_owner_id t' \<and> task_type t = task_type t' \<and>
     entity_type t = entity_type t' \<and> entity_id t = entity_id t'"
  using make_logical_id_parts [of t t'] by (auto simp: make_logical_id_def)

end
