(* ===== verification/World.thy ===== *)
theory World
  imports Tasks
begin

text \<open>
  What the components share: the tables, the queues the backends hold, the notifications
  sent, and the clock. Everything that happens outside the program, and everything it
  cannot decide, is a field of the environment: which statement fails and how, the time
  each statement sees, the UUIDs drawn, whether a queue backend accepts a task, how a
  calendar date is printed. An
  operation takes the environment as its first argument, so a theorem about it holds for
  every behaviour of the outside. \<open>tick\<close> counts the interactions and selects the entry of
  the environment that answers the next one.

  \<open>sse/event.rs\<close> is here too, because the notifications sent are part of the state.
\<close>

section \<open>Events for clients\<close>

record TaskTimingEstimate =
  te_task_type :: string
  te_sample_count :: int
  te_duration_ms_avg :: int
  te_duration_ms_p50 :: int
  te_duration_ms_p75 :: int
  te_duration_ms_p90 :: int

definition MINIMUM_CLIENT_ESTIMATE_SAMPLES :: int where
  "MINIMUM_CLIENT_ESTIMATE_SAMPLES = 5"

definition client_processing_duration_ms :: "TaskTimingEstimate \<Rightarrow> int option" where
  "client_processing_duration_ms self =
     (if MINIMUM_CLIENT_ESTIMATE_SAMPLES \<le> te_sample_count self then Some (te_duration_ms_p50 self) else None)"

definition CURRENT_SCHEMA_VERSION :: int where
  "CURRENT_SCHEMA_VERSION = 4"

datatype ServerEventKind = TaskStatusEvent

record TaskStatusPayload =
  pl_task_type :: string
  pl_status :: TaskRunStatus
  pl_logical_id :: string
  pl_run_id :: string
  pl_run_number :: int
  pl_attempts :: int
  pl_processing_started_at :: "timestamp option"
  pl_estimated_duration_ms_p50 :: "int option"

record 'e ServerEventEnvelope =
  ev_schema_version :: int
  ev_event_type :: ServerEventKind
  ev_timestamp :: timestamp
  ev_entity_type :: string
  ev_entity_id :: int
  ev_entity_owner_id :: "int option"
  ev_payload :: 'e

type_synonym TaskStatusUpdate = "TaskStatusPayload ServerEventEnvelope"

definition envelope_new ::
  "ServerEventKind \<Rightarrow> timestamp \<Rightarrow> string \<Rightarrow> int \<Rightarrow> 'e \<Rightarrow> 'e ServerEventEnvelope" where
  "envelope_new kind timestamp etype eid payload =
     \<lparr>ev_schema_version = CURRENT_SCHEMA_VERSION, ev_event_type = kind, ev_timestamp = timestamp,
      ev_entity_type = etype, ev_entity_id = eid, ev_entity_owner_id = None, ev_payload = payload\<rparr>"

definition from_row :: "task_run_row \<Rightarrow> TaskTimingEstimate option \<Rightarrow> TaskStatusUpdate option" where
  "from_row row estimate =
     (case from_i32 (tr_status_code row) of
        Inl _ \<Rightarrow> None
      | Inr status \<Rightarrow>
          let event = envelope_new TaskStatusEvent (tr_updated_at row) (tr_entity_type row) (tr_entity_id row)
                \<lparr>pl_task_type = tr_task_type row, pl_status = status, pl_logical_id = tr_logical_id row,
                 pl_run_id = tr_run_id row, pl_run_number = tr_run_number row, pl_attempts = tr_attempts row,
                 pl_processing_started_at = tr_processing_started_at row,
                 pl_estimated_duration_ms_p50 = Option.bind estimate client_processing_duration_ms\<rparr>
          in Some (event\<lparr>ev_entity_owner_id := Some (tr_entity_owner_id row)\<rparr>))"

section \<open>Environment and state\<close>

record env =
  db_fault :: "nat \<Rightarrow> db_err option"
  clock :: "nat \<Rightarrow> timestamp"
  uuid_at :: "nat \<Rightarrow> string"
  conflict_pick :: "nat \<Rightarrow> nat"
  conflict_text :: "nat \<Rightarrow> string"
  run_id_constraint :: string
  enqueue_fault :: "nat \<Rightarrow> anyhow option"
  has_notifier :: bool
  notify_fault :: "nat \<Rightarrow> bool"
  debug_fmt :: "string \<Rightarrow> string"
  rfc3339 :: "timestamp \<Rightarrow> string"
  pg_avg_ms :: "int list \<Rightarrow> int"
  pg_percentile_ms :: "nat \<Rightarrow> int list \<Rightarrow> int"

record world =
  tick :: nat
  task_runs :: "task_run_row list"
  timings :: "task_run_timing_row list"
  backfills :: "backfill_row list"
  users :: "user_row list"
  captures :: "capture_row list"
  medias :: "media_row list"
  annotations :: "annotation_row list"
  illuminations :: "illumination_row list"
  illumination_raws :: "illumination_raw_row list"
  knowledge_entities :: "knowledge_entity_row list"
  search_indexes :: "search_index_row list"
  inference_metas :: "inference_meta_row list"
  sparks :: "spark_row list"
  spark_clusters :: "spark_cluster_row list"
  spark_input_refs :: "spark_input_ref_row list"
  spark_output_refs :: "spark_output_ref_row list"
  spark_links :: "spark_link_row list"
  enqueued :: "TaskRun list"
  published :: "TaskStatusUpdate list"

text \<open>
  One SQL statement. A statement that the environment makes fail leaves the tables as
  they were; otherwise it runs at its own time stamp, and may itself be refused by a
  constraint.
\<close>

definition stmt :: "env \<Rightarrow> (timestamp \<Rightarrow> (world, db_err, 'a) comp) \<Rightarrow> (world, db_err, 'a) comp" where
  "stmt E body w =
     (let n = tick w; w' = w\<lparr>tick := Suc n\<rparr>
      in case db_fault E n of Some e \<Rightarrow> (Inl e, w') | None \<Rightarrow> body (clock E n) w')"

definition select :: "env \<Rightarrow> (world \<Rightarrow> 'a) \<Rightarrow> (world, db_err, 'a) comp" where
  "select E q = stmt E (\<lambda>now. getM q)"

definition execute :: "env \<Rightarrow> (timestamp \<Rightarrow> world \<Rightarrow> world) \<Rightarrow> (world, db_err, unit) comp" where
  "execute E f = stmt E (\<lambda>now. modifyM (f now))"

text \<open>
  A statement that inserts or replaces a row whose foreign keys must have their targets.
  Without them the database refuses it, and nothing is written.
\<close>

definition key_violation :: "env \<Rightarrow> nat \<Rightarrow> db_err" where
  "key_violation E n = DbExec (SqlxError (SqlxDatabase (Some ''23503'') None (conflict_text E n)))"

definition stmt_ref ::
  "env \<Rightarrow> (world \<Rightarrow> bool) \<Rightarrow> (timestamp \<Rightarrow> (world, db_err, 'a) comp) \<Rightarrow> (world, db_err, 'a) comp" where
  "stmt_ref E present body = stmt E (\<lambda>now w.
     if present w then body now w else (Inl (key_violation E (tick w)), w))"

definition insert_ref ::
  "env \<Rightarrow> (world \<Rightarrow> bool) \<Rightarrow> (timestamp \<Rightarrow> world \<Rightarrow> world) \<Rightarrow> (world, db_err, unit) comp" where
  "insert_ref E present f = stmt_ref E present (\<lambda>now. modifyM (f now))"

text \<open>The targets: the account, the capture, and the inference row when one is named.\<close>

definition has_user :: "int \<Rightarrow> world \<Rightarrow> bool" where
  "has_user uid w \<longleftrightarrow> (\<exists>u \<in> set (users w). us_id u = uid)"

definition has_capture :: "int \<Rightarrow> world \<Rightarrow> bool" where
  "has_capture cid w \<longleftrightarrow> (\<exists>c \<in> set (captures w). ca_id c = cid)"

definition has_meta :: "int option \<Rightarrow> world \<Rightarrow> bool" where
  "has_meta meta w = (case meta of None \<Rightarrow> True | Some i \<Rightarrow> \<exists>m \<in> set (inference_metas w). im_id m = i)"

text \<open>
  A transaction: an error rolls the tables back; only the interactions that happened are
  remembered.
\<close>

definition transaction :: "env \<Rightarrow> (world, ApiError, 'a) comp \<Rightarrow> (world, ApiError, 'a) comp" where
  "transaction E body w =
     (case bindM (map_errM api_of_db (execute E (\<lambda>_ w. w)))
             (\<lambda>_. bindM body (\<lambda>x. bindM (map_errM api_of_db (execute E (\<lambda>_ w. w))) (\<lambda>_. returnM x))) w of
        (Inl e, w') \<Rightarrow> (Inl e, w\<lparr>tick := tick w'\<rparr>)
      | (Inr x, w') \<Rightarrow> (Inr x, w'))"

text \<open>A fresh UUID, and the wall clock of the process.\<close>

definition new_uuid :: "env \<Rightarrow> (world, 'e, string) comp" where
  "new_uuid E w = (Inr (uuid_at E (tick w)), w\<lparr>tick := Suc (tick w)\<rparr>)"

definition utc_now :: "env \<Rightarrow> (world, 'e, timestamp) comp" where
  "utc_now E w = (Inr (clock E (tick w)), w\<lparr>tick := Suc (tick w)\<rparr>)"

section \<open>Rules\<close>

text \<open>
  A fault-free environment: every statement succeeds. Theorems on what an operation
  achieves assume it; theorems on what it never breaks do not.
\<close>

definition no_faults :: "env \<Rightarrow> bool" where
  "no_faults E \<longleftrightarrow> (\<forall>n. db_fault E n = None)"

lemma run_select [runs]: "no_faults E \<Longrightarrow> select E q w = (Inr (q (w\<lparr>tick := Suc (tick w)\<rparr>)), w\<lparr>tick := Suc (tick w)\<rparr>)"
  by (simp add: select_def stmt_def no_faults_def getM_def Let_def)

lemma run_execute [runs]:
  "no_faults E \<Longrightarrow> execute E f w = (Inr (), f (clock E (tick w)) (w\<lparr>tick := Suc (tick w)\<rparr>))"
  by (simp add: execute_def stmt_def no_faults_def modifyM_def Let_def)

lemma run_stmt [runs]:
  "no_faults E \<Longrightarrow> stmt E f w = f (clock E (tick w)) (w\<lparr>tick := Suc (tick w)\<rparr>)"
  by (simp add: stmt_def no_faults_def Let_def)

lemma run_stmt_ref [runs]:
  "no_faults E \<Longrightarrow> stmt_ref E present f w =
     (let w' = w\<lparr>tick := Suc (tick w)\<rparr>
      in if present w' then f (clock E (tick w)) w' else (Inl (key_violation E (tick w')), w'))"
  by (simp add: stmt_ref_def run_stmt Let_def)

lemma run_insert_ref [runs]:
  "no_faults E \<Longrightarrow> insert_ref E present f w =
     (let w' = w\<lparr>tick := Suc (tick w)\<rparr>
      in if present w' then (Inr (), f (clock E (tick w)) w') else (Inl (key_violation E (tick w')), w'))"
  by (simp add: insert_ref_def runs modifyM_def)

lemma has_user_untouched [simp]:
  "has_user u (w\<lparr>tick := n\<rparr>) = has_user u w" "has_user u (w\<lparr>illuminations := x1\<rparr>) = has_user u w"
  "has_user u (w\<lparr>knowledge_entities := x2\<rparr>) = has_user u w" "has_user u (w\<lparr>search_indexes := x3\<rparr>) = has_user u w"
  "has_user u (w\<lparr>inference_metas := x4\<rparr>) = has_user u w"
  by (simp_all add: has_user_def)

lemma has_capture_untouched [simp]:
  "has_capture c (w\<lparr>tick := n\<rparr>) = has_capture c w" "has_capture c (w\<lparr>illuminations := x1\<rparr>) = has_capture c w"
  "has_capture c (w\<lparr>knowledge_entities := x2\<rparr>) = has_capture c w" "has_capture c (w\<lparr>search_indexes := x3\<rparr>) = has_capture c w"
  "has_capture c (w\<lparr>inference_metas := x4\<rparr>) = has_capture c w"
  by (simp_all add: has_capture_def)

lemma has_meta_untouched [simp]:
  "has_meta m (w\<lparr>tick := n\<rparr>) = has_meta m w" "has_meta m (w\<lparr>illuminations := x1\<rparr>) = has_meta m w"
  "has_meta m (w\<lparr>knowledge_entities := x2\<rparr>) = has_meta m w" "has_meta m (w\<lparr>search_indexes := x3\<rparr>) = has_meta m w"
  by (simp_all add: has_meta_def split: option.split)

lemma run_new_uuid [runs]: "new_uuid E w = (Inr (uuid_at E (tick w)), w\<lparr>tick := Suc (tick w)\<rparr>)"
  by (simp add: new_uuid_def)

lemma run_utc_now [runs]: "utc_now E w = (Inr (clock E (tick w)), w\<lparr>tick := Suc (tick w)\<rparr>)"
  by (simp add: utc_now_def)

lemma only_tickI: "w'\<lparr>tick := tick w\<rparr> = w \<Longrightarrow> \<exists>n. w' = w\<lparr>tick := n\<rparr>"
  by (rule exI [of _ "tick w'"], cases w', cases w) simp

text \<open>Invariants of the tables do not mention the tick.\<close>

definition tick_free :: "(world \<Rightarrow> bool) \<Rightarrow> bool" where
  "tick_free I \<longleftrightarrow> (\<forall>w n. I (w\<lparr>tick := n\<rparr>) = I w)"

lemma tick_freeD: "tick_free I \<Longrightarrow> I (w\<lparr>tick := n\<rparr>) = I w"
  by (simp add: tick_free_def)

lemma keeps_stmt [keep]:
  assumes "tick_free I" and "\<And>now. keeps I (body now)"
  shows "keeps I (stmt E body)"
proof (rule keepsI)
  fix w assume "I w"
  then have "I (w\<lparr>tick := Suc (tick w)\<rparr>)" using assms(1) by (simp add: tick_freeD)
  then show "I (snd (stmt E body w))"
    using keepsD [OF assms(2)] by (auto simp: stmt_def Let_def split: option.split)
qed

lemma keeps_select [keep]: "tick_free I \<Longrightarrow> keeps I (select E q)"
  unfolding select_def by (auto intro!: keep)

lemma keeps_execute [keep]:
  "tick_free I \<Longrightarrow> (\<And>now w. I w \<Longrightarrow> I (f now w)) \<Longrightarrow> keeps I (execute E f)"
  unfolding execute_def by (auto intro!: keep)

lemma keeps_new_uuid [keep]: "tick_free I \<Longrightarrow> keeps I (new_uuid E)"
  by (simp add: triple_def new_uuid_def tick_free_def)

lemma keeps_utc_now [keep]: "tick_free I \<Longrightarrow> keeps I (utc_now E)"
  by (simp add: triple_def utc_now_def tick_free_def)

lemma keeps_transaction [keep]:
  assumes "tick_free I" and "keeps I body"
  shows "keeps I (transaction E body)"
proof (rule keepsI)
  fix w assume I: "I w"
  let ?m = "bindM (map_errM api_of_db (execute E (\<lambda>_ w. w)))
             (\<lambda>_. bindM body (\<lambda>x. bindM (map_errM api_of_db (execute E (\<lambda>_ w. w))) (\<lambda>_. returnM x)))"
  have "keeps I ?m"
    by (rule triple_bindM, rule triple_map_errM, rule keeps_execute [OF assms(1)], assumption,
        rule triple_bindM, rule assms(2), rule triple_bindM, rule triple_map_errM,
        rule keeps_execute [OF assms(1)], assumption, rule triple_returnM, assumption)
  from keepsD [OF this I] I assms(1) show "I (snd (transaction E body w))"
    by (auto simp: transaction_def tick_freeD split: prod.split sum.split)
qed

text \<open>Statements and the outside leave every field but the tick alone.\<close>

lemma leaves_stmt [frame]:
  assumes "\<And>w n. f (w\<lparr>tick := n\<rparr>) = f w" and "\<And>now. leaves f (body now)"
  shows "leaves f (stmt E body)"
  using assms by (auto simp: leaves_def stmt_def Let_def split: option.split)

lemma leaves_select [frame]:
  "(\<And>w n. f (w\<lparr>tick := n\<rparr>) = f w) \<Longrightarrow> leaves f (select E q)"
  unfolding select_def by (intro frame) auto

lemma leaves_execute [frame]:
  "(\<And>w n. f (w\<lparr>tick := n\<rparr>) = f w) \<Longrightarrow> (\<And>now w. f (g now w) = f w) \<Longrightarrow> leaves f (execute E g)"
  unfolding execute_def by (intro frame) auto

lemma leaves_stmt_ref [frame]:
  "(\<And>w n. f (w\<lparr>tick := n\<rparr>) = f w) \<Longrightarrow> (\<And>now. leaves f (body now)) \<Longrightarrow> leaves f (stmt_ref E present body)"
  unfolding stmt_ref_def by (intro leaves_stmt) (auto simp: leaves_def)

lemma leaves_insert_ref [frame]:
  "(\<And>w n. f (w\<lparr>tick := n\<rparr>) = f w) \<Longrightarrow> (\<And>now w. f (g now w) = f w) \<Longrightarrow> leaves f (insert_ref E present g)"
  unfolding insert_ref_def by (intro frame) auto

lemma leaves_new_uuid [frame]: "(\<And>w n. f (w\<lparr>tick := n\<rparr>) = f w) \<Longrightarrow> leaves f (new_uuid E)"
  by (simp add: leaves_def new_uuid_def)

lemma leaves_utc_now [frame]: "(\<And>w n. f (w\<lparr>tick := n\<rparr>) = f w) \<Longrightarrow> leaves f (utc_now E)"
  by (simp add: leaves_def utc_now_def)

text \<open>A transaction is all or nothing.\<close>

lemma transaction_rollback:
  "transaction E body w = (Inl e, w') \<Longrightarrow> \<exists>n. w' = w\<lparr>tick := n\<rparr>"
  by (auto simp: transaction_def split: prod.splits sum.splits)

section \<open>A concrete environment\<close>

text \<open>Every statement succeeds, time is the tick, and the tables are empty: where the examples start.\<close>

definition quiet_env :: env where
  "quiet_env = \<lparr>db_fault = (\<lambda>_. None), clock = int, uuid_at = (\<lambda>n. ''id'' @ show_nat n),
     conflict_pick = (\<lambda>_. 0), conflict_text = (\<lambda>_. []), run_id_constraint = ''task_runs_run_id_key'',
     enqueue_fault = (\<lambda>_. None), has_notifier = False, notify_fault = (\<lambda>_. False),
     debug_fmt = id, rfc3339 = show_int, pg_avg_ms = (\<lambda>_. 0), pg_percentile_ms = (\<lambda>_ _. 0)\<rparr>"

definition empty_world :: world where
  "empty_world = \<lparr>tick = 0, task_runs = [], timings = [], backfills = [], users = [], captures = [],
     medias = [], annotations = [], illuminations = [], illumination_raws = [], knowledge_entities = [],
     search_indexes = [], inference_metas = [], sparks = [], spark_clusters = [], spark_input_refs = [],
     spark_output_refs = [], spark_links = [], enqueued = [], published = []\<rparr>"

lemma no_faults_quiet [simp]: "no_faults quiet_env"
  by (simp add: no_faults_def quiet_env_def)

end
