(* ===== verification/Schema_Info.thy ===== *)
theory Schema_Info
  imports World
begin

text \<open>
  \<open>api/schema/*.rs\<close>, \<open>storage/handle.rs\<close>, \<open>storage/url_maker.rs\<close>: what the API shows of
  a stored row. A \<open>ModelEx\<close> is a row with the children a loader attached; \<open>None\<close> is a
  relation that was not loaded. The humanized time stamp and the text of a media URL come
  from functions defined elsewhere: the first is a parameter, the second is here.
\<close>

section \<open>Rows with their children\<close>

record illumination_ex =
  ix_row :: illumination_row
  ix_knowledge_entities :: "knowledge_entity_row list option"

record capture_ex =
  cx_row :: capture_row
  cx_medias :: "media_row list option"
  cx_illuminations :: "illumination_ex list option"
  cx_annotations :: "annotation_row list option"

record spark_cluster_ex =
  kx_row :: spark_cluster_row
  kx_spark_links :: "spark_link_row list option"
  kx_spark_output_refs :: "spark_output_ref_row list option"

record spark_ex =
  sx_row :: spark_row
  sx_spark_clusters :: "spark_cluster_ex list option"
  sx_spark_input_refs :: "spark_input_ref_row list option"
  sx_inference_meta :: "inference_meta_row option option"

section \<open>Media URLs\<close>

record StorageHandle =
  sh_provider :: string
  sh_bucket :: "string option"
  sh_user_shard :: string
  sh_uuid :: string
  sh_extension :: "string option"

definition handle_of_media :: "media_row \<Rightarrow> StorageHandle" where
  "handle_of_media media =
     \<lparr>sh_provider = md_storage_provider media, sh_bucket = md_storage_bucket media,
      sh_user_shard = md_storage_user_shard media, sh_uuid = md_storage_uuid media,
      sh_extension = md_storage_extension media\<rparr>"

definition handle_display :: "StorageHandle \<Rightarrow> string" where
  "handle_display self =
     ''uuid '' @ sh_uuid self @ '' (p:'' @ sh_provider self @ '' b:''
     @ (case sh_bucket self of Some b \<Rightarrow> b | None \<Rightarrow> []) @ '')''"

record UrlMaker =
  local_url_prefix :: "string option"
  gcloud_emulator_endpoint :: "string option"

definition dot_extension :: "StorageHandle \<Rightarrow> string" where
  "dot_extension h = (case sh_extension h of Some ext \<Rightarrow> ''.'' @ ext | None \<Rightarrow> [])"

text \<open>\<open>None\<close> is a panic: an unknown provider, a missing prefix or a missing bucket.\<close>

definition make_local_url :: "UrlMaker \<Rightarrow> StorageHandle \<Rightarrow> string option" where
  "make_local_url self h =
     map_option (\<lambda>p. p @ ''/'' @ sh_user_shard h @ ''/'' @ sh_uuid h @ dot_extension h) (local_url_prefix self)"

definition make_gcloud_url :: "UrlMaker \<Rightarrow> StorageHandle \<Rightarrow> string option" where
  "make_gcloud_url self h =
     (if gcloud_emulator_endpoint self \<noteq> None
      then map_option (\<lambda>b. ''http://localhost:4443/storage/v1/b/'' @ b @ ''/o/'' @ sh_user_shard h
             @ ''%2F'' @ sh_uuid h @ dot_extension h @ ''?alt=media'') (sh_bucket h)
      else map_option (\<lambda>b. ''https://storage.googleapis.com/'' @ b @ ''/'' @ sh_user_shard h
             @ ''/'' @ sh_uuid h @ dot_extension h) (sh_bucket h))"

definition make_url :: "UrlMaker \<Rightarrow> StorageHandle \<Rightarrow> string option" where
  "make_url self h =
     (if sh_provider h = ''local'' then make_local_url self h
      else if sh_provider h = ''gcloud'' then make_gcloud_url self h
      else None)"

section \<open>Info records\<close>

record MediaInfo =
  mi_id :: int
  mi_storage_uuid :: string
  mi_url :: string
  mi_mime_type :: "string option"
  mi_hash_blake3 :: "string option"
  mi_storage_provider :: string
  mi_storage_bucket :: "string option"
  mi_storage_shard :: string
  mi_storage_extension :: "string option"

definition handle_of_media_info :: "MediaInfo \<Rightarrow> StorageHandle" where
  "handle_of_media_info media =
     \<lparr>sh_provider = mi_storage_provider media, sh_bucket = mi_storage_bucket media,
      sh_user_shard = mi_storage_shard media, sh_uuid = mi_storage_uuid media,
      sh_extension = mi_storage_extension media\<rparr>"

record PlatformLinkInfo =
  pi_platform :: string
  pi_handle :: string
  pi_display_name :: "string option"

record KnowledgeEntityInfo =
  ki_id :: int
  ki_capture_id :: int
  ki_illumination_id :: int
  ki_capture_archived_at :: "timestamp option"
  ki_name :: string
  ki_entity_type :: string
  ki_description :: "string option"
  ki_search_query :: "string option"
  ki_platform_link :: "PlatformLinkInfo option"

record IlluminationInfo =
  ii_id :: int
  ii_capture_id :: int
  ii_summary :: string
  ii_details :: string
  ii_suggested_searches :: "string list"
  ii_knowledge_entities :: "KnowledgeEntityInfo list"

record AnnotationInfo =
  ai_id :: int
  ai_capture_id :: int
  ai_content :: string
  ai_created_at :: timestamp
  ai_updated_at :: timestamp
  ai_archived_at :: "timestamp option"

record CaptureInfo =
  ci_id :: int
  ci_user_id :: int
  ci_created_at :: timestamp
  ci_created_at_human :: string
  ci_archived_at :: "timestamp option"
  ci_medias :: "MediaInfo list"
  ci_illuminations :: "IlluminationInfo list"
  ci_annotation :: "AnnotationInfo option"

record CapturePreviewInfo =
  cp_id :: int
  cp_thumbnail_url :: string
  cp_summary :: string

record SparkLinkInfo =
  li_id :: int
  li_url :: string
  li_commentary :: string

record SparkMetaInfo =
  mt_provider_name :: string
  mt_backend_name :: string
  mt_model_id :: string
  mt_duration_ms :: int
  mt_tokens_in :: "int option"
  mt_tokens_in_cached :: "int option"
  mt_tokens_out :: "int option"
  mt_tokens_thought :: "int option"
  mt_params :: json
  mt_provider_metadata :: json

record SparkClusterInfo =
  sci_id :: int
  sci_title :: string
  sci_summary :: string
  sci_referenced_capture_ids :: "int list"
  sci_capture_previews :: "CapturePreviewInfo list"
  sci_spark_links :: "SparkLinkInfo list"

record SparkInfo =
  spi_id :: int
  spi_created_at :: timestamp
  spi_created_at_human :: string
  spi_input_capture_ids :: "int list"
  spi_meta :: "SparkMetaInfo option"
  spi_spark_clusters :: "SparkClusterInfo list"

section \<open>InfoMaker\<close>

definition knowledge_entity_info_new :: "knowledge_entity_row \<Rightarrow> timestamp option \<Rightarrow> KnowledgeEntityInfo" where
  "knowledge_entity_info_new entity capture_archived_at =
     \<lparr>ki_id = ke_id entity, ki_capture_id = ke_capture_id entity, ki_illumination_id = ke_illumination_id entity,
      ki_capture_archived_at = capture_archived_at, ki_name = ke_name entity,
      ki_entity_type = ke_entity_type entity, ki_description = ke_description entity,
      ki_search_query = ke_search_query entity,
      ki_platform_link =
        (case (ke_platform entity, ke_platform_handle entity) of
           (Some platform, Some handle) \<Rightarrow>
             Some \<lparr>pi_platform = platform, pi_handle = handle, pi_display_name = ke_platform_display_name entity\<rparr>
         | _ \<Rightarrow> None)\<rparr>"

definition make_illumination_info :: "illumination_ex \<Rightarrow> timestamp option \<Rightarrow> IlluminationInfo" where
  "make_illumination_info m capture_archived_at =
     \<lparr>ii_id = il_id (ix_row m), ii_capture_id = il_capture_id (ix_row m), ii_summary = il_summary (ix_row m),
      ii_details = il_details (ix_row m),
      ii_suggested_searches = (case il_suggested_searches (ix_row m) of Some xs \<Rightarrow> xs | None \<Rightarrow> []),
      ii_knowledge_entities =
        (case ix_knowledge_entities m of
           None \<Rightarrow> []
         | Some models \<Rightarrow> map (\<lambda>e. knowledge_entity_info_new e capture_archived_at) (sort_key ke_position models))\<rparr>"

definition make_annotation_info :: "annotation_row \<Rightarrow> AnnotationInfo" where
  "make_annotation_info m =
     \<lparr>ai_id = an_id m, ai_capture_id = an_capture_id m, ai_content = an_content m,
      ai_created_at = an_created_at m, ai_updated_at = an_updated_at m, ai_archived_at = an_archived_at m\<rparr>"

definition make_media_info :: "UrlMaker \<Rightarrow> media_row \<Rightarrow> MediaInfo option" where
  "make_media_info U m =
     map_option (\<lambda>url.
       \<lparr>mi_id = md_id m, mi_storage_uuid = md_storage_uuid m, mi_url = url, mi_mime_type = md_mime_type m,
        mi_hash_blake3 = md_hash_blake3 m, mi_storage_provider = md_storage_provider m,
        mi_storage_bucket = md_storage_bucket m, mi_storage_shard = md_storage_user_shard m,
        mi_storage_extension = md_storage_extension m\<rparr>) (make_url U (handle_of_media m))"

text \<open>Every element, or the panic of the first one that panics.\<close>

fun all_some :: "'a option list \<Rightarrow> 'a list option" where
  "all_some [] = Some []"
| "all_some (x # xs) = (case x of None \<Rightarrow> None | Some y \<Rightarrow> map_option ((#) y) (all_some xs))"

definition make_capture_info :: "UrlMaker \<Rightarrow> (timestamp \<Rightarrow> string) \<Rightarrow> capture_ex \<Rightarrow> CaptureInfo option" where
  "make_capture_info U human m =
     map_option (\<lambda>medias.
       \<lparr>ci_id = ca_id (cx_row m), ci_user_id = ca_user_id (cx_row m), ci_created_at = ca_created_at (cx_row m),
        ci_created_at_human = human (ca_created_at (cx_row m)), ci_archived_at = ca_archived_at (cx_row m),
        ci_medias = medias,
        ci_illuminations =
          (case cx_illuminations m of
             None \<Rightarrow> []
           | Some models \<Rightarrow>
               (case find_max_by (il_id \<circ> ix_row) models of
                  Some i \<Rightarrow> [make_illumination_info i (ca_archived_at (cx_row m))]
                | None \<Rightarrow> [])),
        ci_annotation =
          (case cx_annotations m of
             None \<Rightarrow> None
           | Some models \<Rightarrow>
               map_option make_annotation_info
                 (find_max_by an_id (filter (\<lambda>a. an_archived_at a = None) models)))\<rparr>)
       (case cx_medias m of None \<Rightarrow> Some [] | Some models \<Rightarrow> all_some (map (make_media_info U) models))"

definition no_summary :: string where
  "no_summary = ''No capture summary available.''"

text \<open>The outer \<open>None\<close> is a panic, the inner one a capture with no media.\<close>

definition make_capture_preview_info :: "UrlMaker \<Rightarrow> capture_ex \<Rightarrow> CapturePreviewInfo option option" where
  "make_capture_preview_info U m =
     (case cx_medias m of
        None \<Rightarrow> Some None
      | Some [] \<Rightarrow> Some None
      | Some (media # _) \<Rightarrow>
          map_option (\<lambda>url. Some
            \<lparr>cp_id = ca_id (cx_row m), cp_thumbnail_url = url,
             cp_summary =
               (case cx_illuminations m of
                  None \<Rightarrow> no_summary
                | Some models \<Rightarrow>
                    (case find_max_by (il_id \<circ> ix_row) models of
                       Some i \<Rightarrow> il_summary (ix_row i) | None \<Rightarrow> no_summary))\<rparr>)
            (make_url U (handle_of_media media)))"

definition spark_link_info :: "spark_link_row \<Rightarrow> SparkLinkInfo" where
  "spark_link_info m = \<lparr>li_id = sl_id m, li_url = sl_url m, li_commentary = sl_commentary m\<rparr>"

definition make_spark_cluster_info ::
  "spark_cluster_ex \<Rightarrow> (int \<Rightarrow> CapturePreviewInfo option) \<Rightarrow> SparkClusterInfo" where
  "make_spark_cluster_info m previews =
     (let ids = (case kx_spark_output_refs m of None \<Rightarrow> [] | Some refs \<Rightarrow> map so_capture_id refs)
      in \<lparr>sci_id = sc_id (kx_row m), sci_title = sc_title (kx_row m), sci_summary = sc_summary (kx_row m),
          sci_referenced_capture_ids = ids, sci_capture_previews = List.map_filter previews ids,
          sci_spark_links = (case kx_spark_links m of None \<Rightarrow> [] | Some links \<Rightarrow> map spark_link_info links)\<rparr>)"

definition spark_meta_info :: "inference_meta_row \<Rightarrow> SparkMetaInfo" where
  "spark_meta_info meta =
     \<lparr>mt_provider_name = im_provider meta, mt_backend_name = im_backend meta, mt_model_id = im_model meta,
      mt_duration_ms = im_duration_ms meta, mt_tokens_in = im_tokens_in meta,
      mt_tokens_in_cached = im_tokens_in_cached meta, mt_tokens_out = im_tokens_out meta,
      mt_tokens_thought = im_tokens_thought meta, mt_params = im_params meta,
      mt_provider_metadata = im_provider_metadata meta\<rparr>"

definition make_spark_info ::
  "(timestamp \<Rightarrow> string) \<Rightarrow> spark_ex \<Rightarrow> (int \<Rightarrow> CapturePreviewInfo option) \<Rightarrow> SparkInfo" where
  "make_spark_info human m previews =
     \<lparr>spi_id = sp_id (sx_row m), spi_created_at = sp_created_at (sx_row m),
      spi_created_at_human = human (sp_created_at (sx_row m)),
      spi_input_capture_ids =
        map snd (sort_key fst
          (case sx_spark_input_refs m of None \<Rightarrow> [] | Some refs \<Rightarrow> map (\<lambda>r. (sr_position r, sr_capture_id r)) refs)),
      spi_meta = (case sx_inference_meta m of Some (Some meta) \<Rightarrow> Some (spark_meta_info meta) | _ \<Rightarrow> None),
      spi_spark_clusters =
        (case sx_spark_clusters m of None \<Rightarrow> [] | Some cs \<Rightarrow> map (\<lambda>c. make_spark_cluster_info c previews) cs)\<rparr>"

section \<open>Task runs\<close>

record TaskRunInfo =
  ti_logical_id :: string
  ti_run_id :: string
  ti_run_number :: int
  ti_task_type :: string
  ti_entity_type :: string
  ti_entity_id :: int
  ti_status :: TaskRunStatus
  ti_attempts :: int
  ti_error_code :: "int option"
  ti_error_message :: "string option"
  ti_created_at :: timestamp
  ti_updated_at :: timestamp

definition task_run_info_try_from :: "task_run_row \<Rightarrow> anyhow + TaskRunInfo" where
  "task_run_info_try_from row =
     (case from_i32 (tr_status_code row) of
        Inl e \<Rightarrow> Inl (anyhow_msg e)
      | Inr status \<Rightarrow> Inr
          \<lparr>ti_logical_id = tr_logical_id row, ti_run_id = tr_run_id row, ti_run_number = tr_run_number row,
           ti_task_type = tr_task_type row, ti_entity_type = tr_entity_type row, ti_entity_id = tr_entity_id row,
           ti_status = status, ti_attempts = tr_attempts row, ti_error_code = tr_last_error_code row,
           ti_error_message = tr_last_error_message row, ti_created_at = tr_created_at row,
           ti_updated_at = tr_updated_at row\<rparr>)"

section \<open>The text of an illumination\<close>

definition push_section :: "string list \<Rightarrow> string \<Rightarrow> string \<Rightarrow> string list" where
  "push_section sections header body =
     (let body' = trim body in if body' \<noteq> [] then sections @ [header @ [CHR 0x0A] @ body'] else sections)"

definition opt_part :: "string \<Rightarrow> string option \<Rightarrow> string list" where
  "opt_part label v = (case v of Some x \<Rightarrow> [label @ x] | None \<Rightarrow> [])"

definition entity_line :: "KnowledgeEntityInfo \<Rightarrow> string" where
  "entity_line e = ''- '' @ join '' | ''
     ([ki_name e, ''type: '' @ ki_entity_type e]
      @ opt_part ''description: '' (ki_description e)
      @ opt_part ''canonical search: '' (ki_search_query e)
      @ (case ki_platform_link e of
           Some link \<Rightarrow> [''platform: '' @ pi_platform link]
             @ opt_part ''display name: '' (pi_display_name link) @ [''handle: '' @ pi_handle link]
         | None \<Rightarrow> []))"

definition make_text :: "IlluminationInfo \<Rightarrow> string" where
  "make_text self =
     (let s1 = push_section (push_section [] ''Summary'' (ii_summary self)) ''Details'' (ii_details self);
          lines = map entity_line (ii_knowledge_entities self);
          s2 = (if lines \<noteq> [] then s1 @ [''Entities'' @ [CHR 0x0A] @ join [CHR 0x0A] lines] else s1);
          searches = map (\<lambda>s. ''- '' @ s) (filter (\<lambda>s. s \<noteq> []) (map trim (ii_suggested_searches self)));
          s3 = (if searches \<noteq> [] then s2 @ [''Suggested searches'' @ [CHR 0x0A] @ join [CHR 0x0A] searches] else s2)
      in join [CHR 0x0A, CHR 0x0A] s3)"

section \<open>Facts\<close>

lemma all_some_map:
  "all_some (map f xs) = Some ys \<Longrightarrow> length ys = length xs \<and> (\<forall>i < length xs. f (xs ! i) = Some (ys ! i))"
proof (induction xs arbitrary: ys)
  case (Cons x xs)
  then show ?case by (auto simp: less_Suc_eq_0_disj split: option.splits)
qed simp

text \<open>A media row and what the API shows of it name the same stored object.\<close>

lemma make_media_info_handle:
  "make_media_info U m = Some i \<Longrightarrow> handle_of_media_info i = handle_of_media m \<and> make_url U (handle_of_media m) = Some (mi_url i)"
  by (auto simp: make_media_info_def handle_of_media_info_def handle_of_media_def)

text \<open>
  What the API shows of a capture. Of its illuminations exactly the one with the
  largest id is shown, and none only if there is none; the annotation shown is the newest
  one that is not archived; every media shows the URL of the stored object, and the object
  can be found again from what is shown.
\<close>

theorem capture_info_correct:
  assumes "make_capture_info U human m = Some c" and "cx_medias m = Some ms"
    and "cx_illuminations m = Some ils" and "cx_annotations m = Some ans"
  shows "(ils = [] \<and> ci_illuminations c = [] \<or>
          (\<exists>i \<in> set ils. (\<forall>j \<in> set ils. il_id (ix_row j) \<le> il_id (ix_row i)) \<and>
             ci_illuminations c = [make_illumination_info i (ca_archived_at (cx_row m))])) \<and>
         (ci_annotation c = None \<and> (\<forall>a \<in> set ans. an_archived_at a \<noteq> None) \<or>
          (\<exists>a \<in> set ans. an_archived_at a = None \<and> ci_annotation c = Some (make_annotation_info a) \<and>
             (\<forall>b \<in> set ans. an_archived_at b = None \<longrightarrow> an_id b \<le> an_id a))) \<and>
         map handle_of_media_info (ci_medias c) = map handle_of_media ms \<and>
         map (make_url U \<circ> handle_of_media) ms = map (Some \<circ> mi_url) (ci_medias c)"
proof -
  let ?active = "filter (\<lambda>a. an_archived_at a = None) ans"
  have c: "all_some (map (make_media_info U) ms) = Some (ci_medias c)"
    and il: "ci_illuminations c = (case find_max_by (il_id \<circ> ix_row) ils of
            Some i \<Rightarrow> [make_illumination_info i (ca_archived_at (cx_row m))] | None \<Rightarrow> [])"
    and an: "ci_annotation c = map_option make_annotation_info (find_max_by an_id ?active)"
    using assms by (auto simp: make_capture_info_def)
  have "ils = [] \<and> ci_illuminations c = [] \<or>
          (\<exists>i \<in> set ils. (\<forall>j \<in> set ils. il_id (ix_row j) \<le> il_id (ix_row i)) \<and>
             ci_illuminations c = [make_illumination_info i (ca_archived_at (cx_row m))])"
    using il find_max_by_SomeD [of "il_id \<circ> ix_row" ils]
    by (cases "find_max_by (il_id \<circ> ix_row) ils") auto
  moreover have "ci_annotation c = None \<and> (\<forall>a \<in> set ans. an_archived_at a \<noteq> None) \<or>
          (\<exists>a \<in> set ans. an_archived_at a = None \<and> ci_annotation c = Some (make_annotation_info a) \<and>
             (\<forall>b \<in> set ans. an_archived_at b = None \<longrightarrow> an_id b \<le> an_id a))"
  proof (cases "find_max_by an_id ?active")
    case None
    with an show ?thesis by (auto simp: filter_empty_conv)
  next
    case (Some a)
    with an find_max_by_SomeD [OF Some] show ?thesis by auto
  qed
  moreover note media = all_some_map [OF c]
  have "map handle_of_media_info (ci_medias c) = map handle_of_media ms"
    using media make_media_info_handle by (intro nth_equalityI) auto
  moreover have "map (make_url U \<circ> handle_of_media) ms = map (Some \<circ> mi_url) (ci_medias c)"
    using media make_media_info_handle by (intro nth_equalityI) auto
  ultimately show ?thesis by simp
qed

definition demo_media :: media_row where
  "demo_media = \<lparr>md_id = 1, md_user_id = 1, md_capture_id = 4, md_bytes = 3, md_mime_type = None,
     md_hash_blake3 = None, md_storage_provider = ''local'', md_storage_bucket = None,
     md_storage_user_shard = ''s'', md_storage_uuid = ''u'', md_storage_extension = Some ''png''\<rparr>"

definition demo_illumination :: "int \<Rightarrow> illumination_ex" where
  "demo_illumination i = \<lparr>ix_row = \<lparr>il_id = i, il_user_id = 1, il_capture_id = 4, il_task_run_id = ''r'',
     il_inference_meta_id = None, il_created_at = 0, il_summary = ''s'', il_details = ''d'',
     il_suggested_searches = None\<rparr>, ix_knowledge_entities = None\<rparr>"

definition demo_capture :: capture_ex where
  "demo_capture = \<lparr>cx_row = \<lparr>ca_id = 4, ca_user_id = 1, ca_created_at = 0, ca_archived_at = None\<rparr>,
     cx_medias = Some [demo_media], cx_illuminations = Some [demo_illumination 9, demo_illumination 3],
     cx_annotations = Some []\<rparr>"

theorem capture_info_correct_witness:
  "\<exists>c. make_capture_info \<lparr>local_url_prefix = Some ''/media'', gcloud_emulator_endpoint = None\<rparr> (\<lambda>_. ''now'') demo_capture = Some c \<and>
     map ii_id (ci_illuminations c) = [9] \<and> map mi_url (ci_medias c) = [''/media/s/u.png'']"
proof -
  let ?U = "\<lparr>local_url_prefix = Some ''/media'', gcloud_emulator_endpoint = None\<rparr>"
  have url: "make_url ?U (handle_of_media demo_media) = Some ''/media/s/u.png''"
    by (simp add: make_url_def handle_of_media_def demo_media_def make_local_url_def dot_extension_def)
  then obtain c where c: "make_capture_info ?U (\<lambda>_. ''now'') demo_capture = Some c"
    by (simp add: make_capture_info_def demo_capture_def make_media_info_def)
  have "map ii_id (ci_illuminations c) = [9]"
    using capture_info_correct [OF c, of "[demo_media]" "[demo_illumination 9, demo_illumination 3]" "[]"]
    by (auto simp: demo_capture_def demo_illumination_def make_illumination_info_def)
  moreover have "map mi_url (ci_medias c) = [''/media/s/u.png'']"
    using capture_info_correct [OF c, of "[demo_media]" "[demo_illumination 9, demo_illumination 3]" "[]"] url
    by (cases "ci_medias c") (auto simp: demo_capture_def)
  ultimately show ?thesis using c by (intro exI [of _ c] conjI)
qed

end
