(* ===== verification/Illumination.thy ===== *)
theory Illumination
  imports Schema_Info "HOL-Library.AList"
begin

text \<open>
  \<open>illumination/*.rs\<close>, \<open>llms/inference*.rs\<close>, \<open>ignition/firestarter.rs\<close>: the structured
  result of analysing a capture, how it is read from a model's JSON, its markdown, and the
  call that produces it. The model, the object store, the embedder and the vector store
  are trait objects of the program: they are the fields of \<open>providers\<close>.
\<close>

section \<open>Version 2\<close>

datatype KnowledgeEntityType =
    RealPerson | ReligiousFigure | Place | Event | Book | Publication | Movie | TelevisionShow
  | ArtWork | FictionalCharacter | Music | Meme | Software | Product | Financial | Brand
  | Organization | OnlineCommunity | SocialMediaAccountType | UnknownEntity

fun entity_type_as_ref :: "KnowledgeEntityType \<Rightarrow> string" where
  "entity_type_as_ref RealPerson = ''real_person''"
| "entity_type_as_ref ReligiousFigure = ''religious_figure''"
| "entity_type_as_ref Place = ''place''"
| "entity_type_as_ref Event = ''event''"
| "entity_type_as_ref Book = ''book''"
| "entity_type_as_ref Publication = ''publication''"
| "entity_type_as_ref Movie = ''movie''"
| "entity_type_as_ref TelevisionShow = ''television_show''"
| "entity_type_as_ref ArtWork = ''art_work''"
| "entity_type_as_ref FictionalCharacter = ''fictional_character''"
| "entity_type_as_ref Music = ''music''"
| "entity_type_as_ref Meme = ''meme''"
| "entity_type_as_ref Software = ''software''"
| "entity_type_as_ref Product = ''product''"
| "entity_type_as_ref Financial = ''financial''"
| "entity_type_as_ref Brand = ''brand''"
| "entity_type_as_ref Organization = ''organization''"
| "entity_type_as_ref OnlineCommunity = ''online_community''"
| "entity_type_as_ref SocialMediaAccountType = ''social_media_account''"
| "entity_type_as_ref UnknownEntity = ''unknown''"

definition all_entity_types :: "KnowledgeEntityType list" where
  "all_entity_types =
     [RealPerson, ReligiousFigure, Place, Event, Book, Publication, Movie, TelevisionShow, ArtWork,
      FictionalCharacter, Music, Meme, Software, Product, Financial, Brand, Organization, OnlineCommunity,
      SocialMediaAccountType, UnknownEntity]"

datatype Platform =
    XTwitter | Youtube | Instagram | Tiktok | Facebook | Linkedin | Threads | Bluesky | Mastodon
  | Reddit | OtherPlatform

fun platform_as_ref :: "Platform \<Rightarrow> string" where
  "platform_as_ref XTwitter = ''x_twitter''"
| "platform_as_ref Youtube = ''youtube''"
| "platform_as_ref Instagram = ''instagram''"
| "platform_as_ref Tiktok = ''tiktok''"
| "platform_as_ref Facebook = ''facebook''"
| "platform_as_ref Linkedin = ''linkedin''"
| "platform_as_ref Threads = ''threads''"
| "platform_as_ref Bluesky = ''bluesky''"
| "platform_as_ref Mastodon = ''mastodon''"
| "platform_as_ref Reddit = ''reddit''"
| "platform_as_ref OtherPlatform = ''other''"

definition all_platforms :: "Platform list" where
  "all_platforms = [XTwitter, Youtube, Instagram, Tiktok, Facebook, Linkedin, Threads, Bluesky, Mastodon,
     Reddit, OtherPlatform]"

record PlatformLink =
  lk_platform :: Platform
  lk_display_name :: "string option"
  lk_handle :: "string option"
  lk_url :: "string option"

record Entity =
  en_name :: string
  en_search_query :: "string option"
  en_description :: "string option"
  en_entity_type :: KnowledgeEntityType
  en_platform_link :: "PlatformLink option"

record Illumination =
  lm_summary :: string
  lm_details :: string
  lm_suggested_searches :: "string list"
  lm_entities :: "Entity list"
  lm_raw_json :: json

text \<open>A unit variant is the string of its name, or an object whose only member has that name and is null.\<close>

definition enum_of_json :: "('t \<Rightarrow> string) \<Rightarrow> 't list \<Rightarrow> json \<Rightarrow> 't option" where
  "enum_of_json name ts j =
     (case j of
        JStr s \<Rightarrow> find (\<lambda>t. name t = s) ts
      | JObj [(s, JNull)] \<Rightarrow> find (\<lambda>t. name t = s) ts
      | _ \<Rightarrow> None)"

definition link_of_json :: "json \<Rightarrow> PlatformLink option" where
  "link_of_json j =
     Option.bind (struct_object_default 1 [''platform'', ''display_name'', ''handle''] j) (\<lambda>obj.
       case (req_member obj ''platform'' (enum_of_json platform_as_ref all_platforms),
             nullable_member obj ''display_name'' as_string, nullable_member obj ''handle'' as_string) of
         (Some p, Some d, Some h) \<Rightarrow> Some \<lparr>lk_platform = p, lk_display_name = d, lk_handle = h, lk_url = None\<rparr>
       | _ \<Rightarrow> None)"

definition entity_of_json :: "json \<Rightarrow> Entity option" where
  "entity_of_json j =
     Option.bind (struct_object_default 4 [''name'', ''search_query'', ''description'', ''type'', ''platform_link''] j) (\<lambda>obj.
       case (req_member obj ''name'' as_string, nullable_member obj ''search_query'' as_string,
             nullable_member obj ''description'' as_string,
             req_member obj ''type'' (enum_of_json entity_type_as_ref all_entity_types),
             nullable_member obj ''platform_link'' link_of_json) of
         (Some n, Some q, Some d, Some t, Some l) \<Rightarrow>
           Some \<lparr>en_name = n, en_search_query = q, en_description = d, en_entity_type = t, en_platform_link = l\<rparr>
       | _ \<Rightarrow> None)"

definition array_of :: "(json \<Rightarrow> 'a option) \<Rightarrow> json \<Rightarrow> 'a list option" where
  "array_of dec j = (case as_array j of None \<Rightarrow> None | Some xs \<Rightarrow> decode_all dec xs)"

definition from_raw_json :: "json \<Rightarrow> Illumination option" where
  "from_raw_json content =
     Option.bind (struct_object [''summary'', ''details'', ''suggested_searches'', ''entities''] content) (\<lambda>obj.
       case (req_member obj ''summary'' as_string, req_member obj ''details'' as_string,
             req_member obj ''suggested_searches'' (array_of as_string),
             req_member obj ''entities'' (array_of entity_of_json)) of
         (Some s, Some d, Some ss, Some es) \<Rightarrow>
           Some \<lparr>lm_summary = s, lm_details = d, lm_suggested_searches = ss, lm_entities = es, lm_raw_json = content\<rparr>
       | _ \<Rightarrow> None)"

definition em_dash :: string where
  "em_dash = [CHR 0xE2, CHR 0x80, CHR 0x94]"

definition ln :: string where
  "ln = [CHR 0x0A]"

definition markdown_entity :: "Entity \<Rightarrow> string" where
  "markdown_entity e =
     ''- **'' @ en_name e @ ''** (`'' @ entity_type_as_ref (en_entity_type e) @ ''`)''
     @ (case en_description e of Some d \<Rightarrow> '' '' @ em_dash @ '' '' @ d | None \<Rightarrow> [])
     @ (case en_search_query e of Some q \<Rightarrow> ''  - Search query: '' @ q @ ln | None \<Rightarrow> [])
     @ ln
     @ (case en_platform_link e of
          Some l \<Rightarrow> ''  - Platform: '' @ platform_as_ref (lk_platform l)
            @ (case lk_display_name l of Some d \<Rightarrow> ''; display name: '' @ d | None \<Rightarrow> [])
            @ (case lk_handle l of Some h \<Rightarrow> ''; handle: '' @ h | None \<Rightarrow> [])
            @ (case lk_url l of Some u \<Rightarrow> ''; URL: '' @ u | None \<Rightarrow> [])
            @ ln
        | None \<Rightarrow> [])"

definition to_markdown :: "Illumination \<Rightarrow> string" where
  "to_markdown self =
     ''## Summary'' @ ln @ ln @ lm_summary self @ ln @ ln @ ''## Details'' @ ln @ ln @ lm_details self @ ln
     @ (if lm_suggested_searches self = [] then []
        else ln @ ''## Suggested searches'' @ ln
             @ concat (map (\<lambda>s. ''- '' @ s @ ln) (lm_suggested_searches self)))
     @ (if lm_entities self = [] then []
        else ln @ ''## Entities'' @ ln @ concat (map markdown_entity (lm_entities self)))"

section \<open>Version 1\<close>

text \<open>Only the raw JSON of a version 1 result is kept, once its known fields parse.\<close>

definition v1_entity_types :: "string list" where
  "v1_entity_types = [''real_person'', ''place'', ''book'', ''movie'', ''television_show'', ''art_work'',
     ''fictional_character'', ''music'', ''meme'', ''software'', ''financial'', ''brand'', ''unknown'']"

definition v1_platforms :: "string list" where
  "v1_platforms = [''x_twitter'', ''youtube'', ''instagram'', ''tiktok'', ''facebook'', ''linkedin'', ''threads'',
     ''bluesky'', ''mastodon'', ''other'']"

definition v1_entity_of_json :: "json \<Rightarrow> (string \<times> string \<times> string) option" where
  "v1_entity_of_json j =
     Option.bind (struct_object [''name'', ''description'', ''type''] j) (\<lambda>obj.
       case (req_member obj ''name'' as_string, req_member obj ''description'' as_string,
             req_member obj ''type'' (enum_of_json (\<lambda>s. s) v1_entity_types)) of
         (Some n, Some d, Some t) \<Rightarrow> Some (n, d, t) | _ \<Rightarrow> None)"

definition v1_account_of_json :: "json \<Rightarrow> (string \<times> string \<times> string) option" where
  "v1_account_of_json j =
     Option.bind (struct_object [''display_name'', ''handle'', ''platform''] j) (\<lambda>obj.
       case (req_member obj ''display_name'' as_string, req_member obj ''handle'' as_string,
             req_member obj ''platform'' (enum_of_json (\<lambda>s. s) v1_platforms)) of
         (Some n, Some h, Some p) \<Rightarrow> Some (n, h, p) | _ \<Rightarrow> None)"

definition v1_fields :: "json \<Rightarrow> (string \<times> string \<times> string list \<times> (string \<times> string \<times> string) list \<times> (string \<times> string \<times> string) list) option" where
  "v1_fields content =
     Option.bind (struct_object [''summary'', ''details'', ''suggested_searches'', ''entities'', ''social_media_accounts''] content) (\<lambda>obj.
       case (req_member obj ''summary'' as_string, req_member obj ''details'' as_string,
             req_member obj ''suggested_searches'' (array_of as_string),
             req_member obj ''entities'' (array_of v1_entity_of_json),
             req_member obj ''social_media_accounts'' (array_of v1_account_of_json)) of
         (Some s, Some d, Some ss, Some es, Some accounts) \<Rightarrow> Some (s, d, ss, es, accounts)
       | _ \<Rightarrow> None)"

definition v1_from_raw_json :: "json \<Rightarrow> json option" where
  "v1_from_raw_json content = map_option (\<lambda>_. content) (v1_fields content)"

section \<open>Inference\<close>

record InferenceMetadata =
  me_tokens_in :: "int option"
  me_tokens_in_cached :: "int option"
  me_tokens_out :: "int option"
  me_tokens_thought :: "int option"
  me_provider_name :: string
  me_backend_name :: string
  me_model_id :: string
  me_duration_ms :: int
  me_params :: "(string \<times> json) list"
  me_provider_metadata :: "(string \<times> json) list"

record 't InferenceOutcome =
  oc_output :: "anyhow + 't"
  oc_metadata :: InferenceMetadata
  oc_http_status_code :: "int option"

text \<open>
  A request to the model: the version stands for its constant prompt, response schema and
  capabilities.
\<close>

record InferenceRequest =
  iq_model_id :: string
  iq_version :: IlluminationVersion
  iq_image :: string
  iq_mime_type :: string
  iq_thinking_level :: "ThinkingLevel option"

record SparkRecommendedLink =
  rl_url :: string
  rl_commentary :: string

record SparkRecommendedCluster =
  rc_title :: string
  rc_summary :: string
  rc_capture_ids :: "int list"
  rc_recommended_links :: "SparkRecommendedLink list"

type_synonym SparkResponse = "SparkRecommendedCluster list"

record providers =
  retrieve_bytes :: "nat \<Rightarrow> StorageHandle \<Rightarrow> anyhow + string"
  infer :: "nat \<Rightarrow> InferenceRequest \<Rightarrow> anyhow + json InferenceOutcome"
  fire_spark :: "nat \<Rightarrow> CaptureInfo list \<Rightarrow> anyhow + SparkResponse InferenceOutcome"
  embed_object :: "nat \<Rightarrow> json \<Rightarrow> anyhow + json InferenceOutcome"
  upsert_object_embedding :: "nat \<Rightarrow> CaptureInfo \<Rightarrow> json \<Rightarrow> anyhow + unit"
  base64 :: "string \<Rightarrow> string"
  serde_error_text :: "json \<Rightarrow> string"
  humanize :: "nat \<Rightarrow> timestamp \<Rightarrow> string"
  url_maker :: UrlMaker

text \<open>One call of a provider.\<close>

definition call_out :: "(nat \<Rightarrow> anyhow + 'a) \<Rightarrow> (world, anyhow, 'a) comp" where
  "call_out f w = (f (tick w), w\<lparr>tick := Suc (tick w)\<rparr>)"

definition map_insert :: "string \<Rightarrow> json \<Rightarrow> (string \<times> json) list \<Rightarrow> (string \<times> json) list" where
  "map_insert k v m = AList.update k v m"

definition media_mime :: "MediaInfo \<Rightarrow> string" where
  "media_mime m = (case mi_mime_type m of Some t \<Rightarrow> t | None \<Rightarrow> ''image/jpeg'')"

fun version_digit :: "IlluminationVersion \<Rightarrow> string" where
  "version_digit V1 = ''v1''"
| "version_digit V2 = ''v2''"

definition illuminate ::
  "providers \<Rightarrow> IlluminationVersion \<Rightarrow> (json \<Rightarrow> 't option) \<Rightarrow> CaptureInfo \<Rightarrow> string \<Rightarrow> ThinkingLevel option
     \<Rightarrow> (world, anyhow, 't InferenceOutcome) comp" where
  "illuminate P version parse capture model_id thinking_level =
     (case ci_medias capture of
        [] \<Rightarrow> throwM (anyhow_msg ''Capture has no media'')
      | media # _ \<Rightarrow>
          bindM (call_out (\<lambda>n. retrieve_bytes P n (handle_of_media_info media))) (\<lambda>image.
          bindM (call_out (\<lambda>n. infer P n
             \<lparr>iq_model_id = model_id, iq_version = version, iq_image = image, iq_mime_type = media_mime media,
              iq_thinking_level = thinking_level\<rparr>)) (\<lambda>inference.
          returnM
            \<lparr>oc_output =
               (case oc_output inference of
                  Inl e \<Rightarrow> Inl e
                | Inr out \<Rightarrow>
                    (case parse out of
                       Some x \<Rightarrow> Inr x
                     | None \<Rightarrow> Inl (with_context (''Failed to parse '' @ version_digit version
                                 @ '' illumination for capture '' @ show_int (ci_id capture))
                                 (anyhow_msg (serde_error_text P out))))),
             oc_metadata = (oc_metadata inference)\<lparr>me_params :=
               map_insert ''prompt_version'' (JStr (''capture_illumination_'' @ version_digit version))
                 (me_params (oc_metadata inference))\<rparr>,
             oc_http_status_code = oc_http_status_code inference\<rparr>)))"

section \<open>Facts\<close>

text \<open>The JSON a version 2 result prints as, with the attributes of the sources.\<close>

definition link_json :: "PlatformLink \<Rightarrow> json" where
  "link_json l = JObj ([(''platform'', JStr (platform_as_ref (lk_platform l)))]
     @ opt_member ''display_name'' JStr (lk_display_name l) @ opt_member ''handle'' JStr (lk_handle l)
     @ opt_member ''url'' JStr (lk_url l))"

definition entity_json :: "Entity \<Rightarrow> json" where
  "entity_json e = JObj ([(''name'', JStr (en_name e))]
     @ opt_member ''search_query'' JStr (en_search_query e) @ opt_member ''description'' JStr (en_description e)
     @ [(''type'', JStr (entity_type_as_ref (en_entity_type e)))]
     @ opt_member ''platform_link'' link_json (en_platform_link e))"

definition illumination_json :: "Illumination \<Rightarrow> json" where
  "illumination_json self = JObj
     [(''summary'', JStr (lm_summary self)), (''details'', JStr (lm_details self)),
      (''suggested_searches'', JArr (map JStr (lm_suggested_searches self))),
      (''entities'', JArr (map entity_json (lm_entities self)))]"

lemma entity_type_roundtrip [simp]:
  "enum_of_json entity_type_as_ref all_entity_types (JStr (entity_type_as_ref t)) = Some t"
  by (cases t) (simp_all add: enum_of_json_def all_entity_types_def)

lemma platform_roundtrip [simp]: "enum_of_json platform_as_ref all_platforms (JStr (platform_as_ref p)) = Some p"
  by (cases p) (simp_all add: enum_of_json_def all_platforms_def)

lemma link_roundtrip: "link_of_json (link_json l) = Some (l\<lparr>lk_url := None\<rparr>)"
  by (cases l; cases "lk_display_name l"; cases "lk_handle l"; cases "lk_url l")
     (auto simp: link_of_json_def link_json_def json_field_defs)

lemma link_json_not_null: "link_json l \<noteq> JNull"
  by (simp add: link_json_def)

definition without_url :: "Entity \<Rightarrow> Entity" where
  "without_url e = e\<lparr>en_platform_link := map_option (\<lambda>l. l\<lparr>lk_url := None\<rparr>) (en_platform_link e)\<rparr>"

lemma nullable_member_Some:
  "member j k = Some v \<Longrightarrow> v \<noteq> JNull \<Longrightarrow> nullable_member j k dec = map_option Some (dec v)"
  by (cases v) (auto simp: nullable_member_def)

lemma nullable_member_None: "member j k = None \<Longrightarrow> nullable_member j k dec = Some None"
  by (simp add: nullable_member_def)

lemma nullable_string: "member j k = map_option JStr v \<Longrightarrow> nullable_member j k as_string = Some v"
  by (cases v) (simp_all add: nullable_member_def)

lemma member_entity_json:
  "member (entity_json e) ''name'' = Some (JStr (en_name e))"
  "member (entity_json e) ''search_query'' = map_option JStr (en_search_query e)"
  "member (entity_json e) ''description'' = map_option JStr (en_description e)"
  "member (entity_json e) ''type'' = Some (JStr (entity_type_as_ref (en_entity_type e)))"
  "member (entity_json e) ''platform_link'' = map_option link_json (en_platform_link e)"
  by (cases "en_search_query e"; cases "en_description e"; cases "en_platform_link e";
      simp add: entity_json_def opt_member_def)+

lemma entity_roundtrip: "entity_of_json (entity_json e) = Some (without_url e)"
proof -
  have struct: "struct_object_default n names (entity_json e) = Some (entity_json e)" for n names
    by (simp add: entity_json_def)
  have "nullable_member (entity_json e) ''platform_link'' link_of_json = Some (en_platform_link (without_url e))"
  proof (cases "en_platform_link e")
    case None
    then show ?thesis by (simp add: nullable_member_None member_entity_json without_url_def)
  next
    case (Some l)
    then show ?thesis
      by (simp add: nullable_member_Some member_entity_json link_json_not_null link_roundtrip without_url_def)
  qed
  then show ?thesis
    by (simp add: entity_of_json_def struct req_member_def member_entity_json nullable_string) (cases e; simp add: without_url_def)
qed

text \<open>
  Reading back the JSON of an illumination gives its fields again, entity by entity;
  only the derived profile URLs are dropped, as they are never read from a model's output.
  The raw JSON kept with the result is the one that was read.
\<close>

theorem illumination_json_roundtrip:
  "from_raw_json (illumination_json x) =
     Some (x\<lparr>lm_entities := map without_url (lm_entities x), lm_raw_json := illumination_json x\<rparr>)"
proof -
  have "decode_all entity_of_json (map entity_json es) = Some (map without_url es)" for es
    by (induction es) (simp_all add: entity_roundtrip)
  then show ?thesis
    by (cases x) (simp add: from_raw_json_def illumination_json_def json_field_defs array_of_def)
qed

end
