(* ===== verification/Service.thy ===== *)
theory Service
  imports Illumination
begin

text \<open>
  \<open>api/service/*.rs\<close>: what the task workers read and write. It is not scoped to a user. A
  worker can fail with an API error or panic (a media whose URL cannot be made); the two
  are told apart because only the first is recorded as the outcome of an attempt.
\<close>

datatype failure = Failed ApiError | Panicked

section \<open>Reading captures\<close>

definition service_load :: "world \<Rightarrow> capture_row \<Rightarrow> capture_ex" where
  "service_load w c =
     \<lparr>cx_row = c,
      cx_medias = Some (filter (\<lambda>m. md_capture_id m = ca_id c) (medias w)),
      cx_illuminations = Some (map (\<lambda>i.
         \<lparr>ix_row = i, ix_knowledge_entities =
            Some (filter (\<lambda>e. ke_illumination_id e = il_id i) (knowledge_entities w))\<rparr>)
         (filter (\<lambda>i. il_capture_id i = ca_id c) (illuminations w))),
      cx_annotations = Some (filter (\<lambda>a. an_capture_id a = ca_id c) (annotations w))\<rparr>"

definition service_get_capture_models :: "env \<Rightarrow> int list option \<Rightarrow> (world, ApiError, capture_ex list) comp" where
  "service_get_capture_models E ids =
     map_errM api_of_db (select E (\<lambda>w. map (service_load w)
       (filter (\<lambda>c. case ids of Some is \<Rightarrow> ca_id c \<in> set is | None \<Rightarrow> True) (captures w))))"

definition service_get_captures ::
  "providers \<Rightarrow> env \<Rightarrow> int list option \<Rightarrow> (world, failure, CaptureInfo list) comp" where
  "service_get_captures P E ids =
     bindM (map_errM Failed (service_get_capture_models E ids)) (\<lambda>models.
     bindM (getM tick) (\<lambda>n.
     case all_some (map (make_capture_info (url_maker P) (humanize P n)) models) of
       Some infos \<Rightarrow> returnM infos
     | None \<Rightarrow> throwM Panicked))"

section \<open>Recording inference\<close>

definition inference_row ::
  "int \<Rightarrow> string \<Rightarrow> int \<Rightarrow> string \<Rightarrow> InferenceMetadata \<Rightarrow> int \<Rightarrow> timestamp \<Rightarrow> inference_meta_row" where
  "inference_row user_id rid attempt ttype md i now =
     \<lparr>im_id = i, im_user_id = user_id, im_created_at = now, im_task_run_id = Some rid, im_attempt = Some attempt,
      im_task_type = Some ttype, im_provider = me_provider_name md, im_backend = me_backend_name md,
      im_model = me_model_id md, im_duration_ms = me_duration_ms md, im_tokens_in = me_tokens_in md,
      im_tokens_in_cached = me_tokens_in_cached md, im_tokens_out = me_tokens_out md,
      im_tokens_thought = me_tokens_thought md, im_params = JObj (me_params md),
      im_provider_metadata = JObj (me_provider_metadata md)\<rparr>"

text \<open>A failed insert is only logged; the row of an unknown account is such a failure.\<close>

definition record_inference ::
  "env \<Rightarrow> int \<Rightarrow> string \<Rightarrow> int \<Rightarrow> string \<Rightarrow> InferenceMetadata \<Rightarrow> (world, 'e, int option) comp" where
  "record_inference E user_id rid attempt ttype md =
     bindM (catchM (stmt_ref E (has_user user_id) (\<lambda>now w.
       let i = next_id im_id (inference_metas w)
       in (Inr i, w\<lparr>inference_metas := inference_metas w @ [inference_row user_id rid attempt ttype md i now]\<rparr>))))
     (\<lambda>result. returnM (case result of Inr i \<Rightarrow> Some i | Inl (_ :: db_err) \<Rightarrow> None))"

section \<open>Persisting an illumination\<close>

text \<open>\<open>INSERT .. ON CONFLICT (key) DO UPDATE\<close>.\<close>

definition upsert_by ::
  "('r \<Rightarrow> 'k) \<Rightarrow> 'k \<Rightarrow> ('r \<Rightarrow> int) \<Rightarrow> ('r \<Rightarrow> 'r) \<Rightarrow> (int \<Rightarrow> 'r) \<Rightarrow> 'r list \<Rightarrow> 'r list" where
  "upsert_by key k pk upd mk rows =
     (if \<exists>r \<in> set rows. key r = k then update_where (\<lambda>r. key r = k) upd rows
      else rows @ [mk (next_id pk rows)])"

text \<open>
  The row of a run, new or replaced. Its foreign keys are checked by the statement that
  executes it, in \<open>replace_illumination\<close>.
\<close>

definition upsert_illumination ::
  "int \<Rightarrow> int \<Rightarrow> string \<Rightarrow> int option \<Rightarrow> Illumination \<Rightarrow> timestamp \<Rightarrow> illumination_row list \<Rightarrow> illumination_row list" where
  "upsert_illumination uid cid rid meta x now rows =
     upsert_by il_task_run_id rid il_id
       (\<lambda>r. r\<lparr>il_user_id := uid, il_capture_id := cid, il_inference_meta_id := meta,
             il_summary := lm_summary x, il_details := lm_details x,
             il_suggested_searches := Some (lm_suggested_searches x)\<rparr>)
       (\<lambda>i. \<lparr>il_id = i, il_user_id = uid, il_capture_id = cid, il_task_run_id = rid, il_inference_meta_id = meta,
             il_created_at = now, il_summary = lm_summary x, il_details = lm_details x,
             il_suggested_searches = Some (lm_suggested_searches x)\<rparr>) rows"

definition entity_row ::
  "int \<Rightarrow> int \<Rightarrow> int \<Rightarrow> nat \<Rightarrow> Entity \<Rightarrow> int \<Rightarrow> timestamp \<Rightarrow> knowledge_entity_row" where
  "entity_row uid cid iid position e i now =
     \<lparr>ke_id = i, ke_user_id = uid, ke_capture_id = cid, ke_illumination_id = iid,
      ke_position = wrap_i32 (int position), ke_created_at = now, ke_name = en_name e,
      ke_entity_type = entity_type_as_ref (en_entity_type e), ke_description = en_description e,
      ke_search_query = en_search_query e,
      ke_platform = map_option (platform_as_ref \<circ> lk_platform) (en_platform_link e),
      ke_platform_handle = Option.bind (en_platform_link e) lk_handle,
      ke_platform_display_name = Option.bind (en_platform_link e) lk_display_name\<rparr>"

definition insert_entity_row ::
  "env \<Rightarrow> int \<Rightarrow> int \<Rightarrow> int \<Rightarrow> nat \<Rightarrow> Entity \<Rightarrow> (world, ApiError, unit) comp" where
  "insert_entity_row E uid cid iid position e =
     map_errM api_of_db (insert_ref E
       (\<lambda>w. has_user uid w \<and> has_capture cid w \<and> (\<exists>i \<in> set (illuminations w). il_id i = iid))
       (\<lambda>now w. w\<lparr>knowledge_entities := knowledge_entities w @
       [entity_row uid cid iid position e (next_id ke_id (knowledge_entities w)) now]\<rparr>))"

definition format_for_search_v2 :: "Illumination \<Rightarrow> string" where
  "format_for_search_v2 x = to_markdown x"

text \<open>
  The statements inside the transaction: the row of the run, emptied of what an earlier
  attempt attached to it, then the new children. Each insertion needs the rows its foreign
  keys name (the \<open>belongs_to\<close> fields of \<open>model/*.rs\<close>).
\<close>

definition replace_illumination ::
  "env \<Rightarrow> int \<Rightarrow> int \<Rightarrow> string \<Rightarrow> int option \<Rightarrow> Illumination \<Rightarrow> (world, ApiError, illumination_row) comp" where
  "replace_illumination E uid cid rid meta x =
     bindM (map_errM api_of_db (insert_ref E (\<lambda>w. has_user uid w \<and> has_capture cid w \<and> has_meta meta w) (\<lambda>now w.
         w\<lparr>illuminations := upsert_illumination uid cid rid meta x now (illuminations w)\<rparr>))) (\<lambda>_.
     bindM (map_errM api_of_db (select E (\<lambda>w. find (\<lambda>r. il_task_run_id r = rid) (illuminations w)))) (\<lambda>found.
     case found of
       None \<Rightarrow> throwM (internal (anyhow_msg ''Illumination upsert returned no row''))
     | Some row \<Rightarrow>
         bindM (map_errM api_of_db (execute E (\<lambda>_ w. w\<lparr>knowledge_entities :=
            delete_where (\<lambda>e. ke_illumination_id e = il_id row) (knowledge_entities w)\<rparr>))) (\<lambda>_.
         bindM (map_errM api_of_db (execute E (\<lambda>_ w. w\<lparr>search_indexes :=
            delete_where (\<lambda>s. si_illumination_id s = il_id row) (search_indexes w)\<rparr>))) (\<lambda>_.
         returnM row))))"

definition project_illumination ::
  "env \<Rightarrow> CaptureInfo \<Rightarrow> string \<Rightarrow> int option \<Rightarrow> Illumination \<Rightarrow> (world, ApiError, unit) comp" where
  "project_illumination E capture rid meta x =
     (let uid = ci_user_id capture; cid = ci_id capture in
      bindM (replace_illumination E uid cid rid meta x) (\<lambda>row.
      bindM (forM (enumerate 0 (lm_entities x)) (\<lambda>(position, e).
         insert_entity_row E uid cid (il_id row) position e)) (\<lambda>_.
      map_errM api_of_db (insert_ref E
         (\<lambda>w. has_user uid w \<and> has_capture cid w \<and> (\<exists>i \<in> set (illuminations w). il_id i = il_id row))
         (\<lambda>_ w. w\<lparr>search_indexes := search_indexes w @
         [\<lparr>si_id = next_id si_id (search_indexes w), si_user_id = uid, si_capture_id = cid,
           si_illumination_id = il_id row, si_content = format_for_search_v2 x\<rparr>]\<rparr>)))))"

definition insert_illumination_v2 ::
  "env \<Rightarrow> CaptureInfo \<Rightarrow> string \<Rightarrow> int option \<Rightarrow> Illumination \<Rightarrow> (world, ApiError, unit) comp" where
  "insert_illumination_v2 E capture rid meta x = transaction E (project_illumination E capture rid meta x)"

definition insert_illumination_raw ::
  "env \<Rightarrow> CaptureInfo \<Rightarrow> string \<Rightarrow> int option \<Rightarrow> json \<Rightarrow> (world, ApiError, unit) comp" where
  "insert_illumination_raw E capture rid meta raw =
     (case ci_medias capture of
        [] \<Rightarrow> throwM (internal (anyhow_msg (''Capture '' @ show_int (ci_id capture) @ '' has no media for illumination inference'')))
      | media # _ \<Rightarrow>
          map_errM api_of_db (insert_ref E
            (\<lambda>w. has_user (ci_user_id capture) w \<and> has_capture (ci_id capture) w \<and>
               (\<exists>m \<in> set (medias w). md_id m = mi_id media) \<and> has_meta meta w)
            (\<lambda>now w. w\<lparr>illumination_raws :=
            upsert_by ir_task_run_id rid ir_id
              (\<lambda>r. r\<lparr>ir_user_id := ci_user_id capture, ir_capture_id := ci_id capture, ir_media_id := mi_id media,
                    ir_inference_meta_id := meta, ir_content := raw\<rparr>)
              (\<lambda>i. \<lparr>ir_id = i, ir_user_id = ci_user_id capture, ir_capture_id = ci_id capture, ir_media_id = mi_id media,
                    ir_created_at = now, ir_task_run_id = rid, ir_inference_meta_id = meta, ir_content = raw\<rparr>)
              (illumination_raws w)\<rparr>)))"

section \<open>Persisting a spark\<close>

text \<open>
  Not a transaction: what was written before a failure stays. A reference to a capture,
  an account or an inference row that does not exist is such a failure.
\<close>

definition insert_cluster :: "env \<Rightarrow> int \<Rightarrow> int \<Rightarrow> SparkRecommendedCluster \<Rightarrow> (world, db_err, unit) comp" where
  "insert_cluster E uid sid cluster =
     bindM (stmt_ref E (\<lambda>w. has_user uid w \<and> (\<exists>s \<in> set (sparks w). sp_id s = sid)) (\<lambda>now w.
        let i = next_id sc_id (spark_clusters w)
        in (Inr i, w\<lparr>spark_clusters := spark_clusters w @ [\<lparr>sc_id = i, sc_user_id = uid, sc_spark_id = sid,
              sc_created_at = now, sc_title = rc_title cluster, sc_summary = rc_summary cluster\<rparr>]\<rparr>))) (\<lambda>kid.
     bindM (forM (rc_capture_ids cluster) (\<lambda>cid. insert_ref E (\<lambda>w. has_user uid w \<and> (\<exists>s \<in> set (sparks w). sp_id s = sid) \<and>
         (\<exists>k \<in> set (spark_clusters w). sc_id k = kid) \<and> has_capture cid w) (\<lambda>now w. w\<lparr>spark_output_refs := spark_output_refs w @
        [\<lparr>so_id = next_id so_id (spark_output_refs w), so_user_id = uid, so_spark_id = sid, so_spark_cluster_id = kid,
          so_capture_id = cid, so_created_at = now\<rparr>]\<rparr>))) (\<lambda>_.
     forM (rc_recommended_links cluster) (\<lambda>link. insert_ref E (\<lambda>w. has_user uid w \<and>
         (\<exists>k \<in> set (spark_clusters w). sc_id k = kid)) (\<lambda>now w. w\<lparr>spark_links := spark_links w @
        [\<lparr>sl_id = next_id sl_id (spark_links w), sl_user_id = uid, sl_spark_cluster_id = kid, sl_created_at = now,
          sl_url = rl_url link, sl_commentary = rl_commentary link\<rparr>]\<rparr>))))"

definition insert_spark ::
  "env \<Rightarrow> int \<Rightarrow> int list \<Rightarrow> SparkResponse \<Rightarrow> int option \<Rightarrow> (world, ApiError, unit) comp" where
  "insert_spark E uid input_ids clusters meta =
     map_errM api_of_db (
     bindM (stmt_ref E (\<lambda>w. has_user uid w \<and> has_meta meta w) (\<lambda>now w.
        let i = next_id sp_id (sparks w)
        in (Inr i, w\<lparr>sparks := sparks w @ [\<lparr>sp_id = i, sp_user_id = uid, sp_inference_meta_id = meta, sp_created_at = now\<rparr>]\<rparr>))) (\<lambda>sid.
     bindM (forM (enumerate 0 input_ids) (\<lambda>(idx, cid). insert_ref E (\<lambda>w. has_user uid w \<and>
         (\<exists>s \<in> set (sparks w). sp_id s = sid) \<and> has_capture cid w) (\<lambda>now w. w\<lparr>spark_input_refs := spark_input_refs w @
        [\<lparr>sr_id = next_id sr_id (spark_input_refs w), sr_user_id = uid, sr_spark_id = sid, sr_capture_id = cid,
          sr_position = wrap_i32 (int idx), sr_created_at = now\<rparr>]\<rparr>))) (\<lambda>_.
     forM clusters (insert_cluster E uid sid))))"

section \<open>Upserts\<close>

text \<open>A table with a unique key, and the statement that inserts or replaces the row of a key.\<close>

locale keyed_upsert =
  fixes key :: "'r \<Rightarrow> 'k"
    and pk :: "'r \<Rightarrow> int"
    and upd :: "'r \<Rightarrow> 'r"
    and mk :: "int \<Rightarrow> 'r"
    and k :: 'k
  assumes upd_key: "key (upd r) = key r" and upd_pk: "pk (upd r) = pk r"
    and mk_key: "key (mk i) = k" and mk_pk: "pk (mk i) = i"
begin

lemma upsert_keys:
  assumes "distinct (map key rows)"
  shows "distinct (map key (upsert_by key k pk upd mk rows))"
proof (cases "\<exists>r \<in> set rows. key r = k")
  case True
  have "map key (update_where (\<lambda>r. key r = k) upd rows) = map key rows"
    by (rule map_update_where) (rule upd_key)
  with True assms show ?thesis by (simp add: upsert_by_def)
next
  case False
  with assms show ?thesis by (auto simp: upsert_by_def mk_key)
qed

lemma upsert_pks:
  assumes "distinct (map pk rows)"
  shows "distinct (map pk (upsert_by key k pk upd mk rows))"
proof (cases "\<exists>r \<in> set rows. key r = k")
  case True
  have "map pk (update_where (\<lambda>r. key r = k) upd rows) = map pk rows"
    by (rule map_update_where) (rule upd_pk)
  with True assms show ?thesis by (simp add: upsert_by_def)
next
  case False
  with assms next_id_fresh [of pk rows] show ?thesis by (auto simp: upsert_by_def mk_pk)
qed

lemma upsert_others: "key r \<noteq> k \<Longrightarrow> r \<in> set (upsert_by key k pk upd mk rows) \<longleftrightarrow> r \<in> set rows"
  by (auto simp: upsert_by_def set_update_where mk_key upd_key)

lemma upsert_found:
  assumes "distinct (map key rows)"
  shows "\<exists>r. (r = mk (next_id pk rows) \<or> (\<exists>r0 \<in> set rows. key r0 = k \<and> r = upd r0)) \<and>
     find (\<lambda>r. key r = k) (upsert_by key k pk upd mk rows) = Some r \<and>
     (\<forall>s \<in> set (upsert_by key k pk upd mk rows). key s = k \<longleftrightarrow> s = r)"
proof -
  have some: "\<exists>r \<in> set (upsert_by key k pk upd mk rows). key r = k \<and>
      (r = mk (next_id pk rows) \<or> (\<exists>r0 \<in> set rows. key r0 = k \<and> r = upd r0))"
  proof (cases "\<exists>r \<in> set rows. key r = k")
    case True
    then obtain r0 where "r0 \<in> set rows" "key r0 = k" by blast
    with True show ?thesis
      by (intro bexI [of _ "upd r0"]) (auto simp: upsert_by_def set_update_where upd_key)
  qed (auto simp: upsert_by_def mk_key)
  then obtain r where r: "r \<in> set (upsert_by key k pk upd mk rows)" "key r = k"
      "r = mk (next_id pk rows) \<or> (\<exists>r0 \<in> set rows. key r0 = k \<and> r = upd r0)" by blast
  have uniq: "s = r" if "s \<in> set (upsert_by key k pk upd mk rows)" "key s = k" for s
    using upsert_keys [OF assms] that r by (auto simp: distinct_map inj_on_def)
  obtain s where s: "find (\<lambda>r. key r = k) (upsert_by key k pk upd mk rows) = Some s"
    using r by (cases "find (\<lambda>r. key r = k) (upsert_by key k pk upd mk rows)") (auto simp: find_None_iff)
  from find_SomeD [OF this] uniq have "s = r" by blast
  with s r uniq show ?thesis by blast
qed

end

interpretation illumination_upsert: keyed_upsert il_task_run_id il_id
  "\<lambda>r. r\<lparr>il_user_id := uid, il_capture_id := cid, il_inference_meta_id := meta, il_summary := sm, il_details := dt, il_suggested_searches := ss\<rparr>"
  "\<lambda>i. \<lparr>il_id = i, il_user_id = uid, il_capture_id = cid, il_task_run_id = rid, il_inference_meta_id = meta,
             il_created_at = now, il_summary = sm, il_details = dt, il_suggested_searches = ss\<rparr>" rid
  for uid cid meta sm dt ss rid now
  by unfold_locales simp_all

interpretation raw_upsert: keyed_upsert ir_task_run_id ir_id
  "\<lambda>r. r\<lparr>ir_user_id := uid, ir_capture_id := cid, ir_media_id := mid, ir_inference_meta_id := meta, ir_content := raw\<rparr>"
  "\<lambda>i. \<lparr>ir_id = i, ir_user_id = uid, ir_capture_id = cid, ir_media_id = mid, ir_created_at = now,
       ir_task_run_id = rid, ir_inference_meta_id = meta, ir_content = raw\<rparr>" rid
  for uid cid mid meta raw rid now
  by unfold_locales simp_all

section \<open>A projected illumination\<close>

text \<open>An entity row without the columns the database fills in.\<close>

definition plain_entity :: "knowledge_entity_row \<Rightarrow> knowledge_entity_row" where
  "plain_entity r = r\<lparr>ke_id := 0, ke_created_at := 0\<rparr>"

lemma plain_entity_row [simp]: "plain_entity (entity_row uid cid iid p e i now) = entity_row uid cid iid p e 0 0"
  by (simp add: plain_entity_def entity_row_def)

lemma ke_illumination_id_entity_row [simp]: "ke_illumination_id (entity_row uid cid iid p e i now) = iid"
  by (simp add: entity_row_def)

lemma insert_entities:
  assumes "no_faults E" and "has_user uid w" "has_capture cid w" "i \<in> set (illuminations w)" "il_id i = iid"
  shows "\<exists>t rows. forM (enumerate n es) (\<lambda>(p, e). insert_entity_row E uid cid iid p e) w =
       (Inr (), w\<lparr>tick := t, knowledge_entities := knowledge_entities w @ rows\<rparr>) \<and>
     map plain_entity rows = map (\<lambda>(p, e). entity_row uid cid iid p e 0 0) (enumerate n es) \<and>
     (\<forall>r \<in> set rows. ke_illumination_id r = iid)"
  using assms(2-)
proof (induction es arbitrary: n w)
  case Nil
  show ?case by (intro exI [of _ "tick w"] exI [of _ "[]"]) (simp add: runs)
next
  case (Cons e es)
  let ?row = "entity_row uid cid iid n e (next_id ke_id (knowledge_entities w)) (clock E (tick w))"
  let ?w1 = "w\<lparr>tick := Suc (tick w), knowledge_entities := knowledge_entities w @ [?row]\<rparr>"
  from Cons.IH [of ?w1 "Suc n"] Cons.prems obtain t rows where
    IH: "forM (enumerate (Suc n) es) (\<lambda>(p, e). insert_entity_row E uid cid iid p e) ?w1 =
       (Inr (), ?w1\<lparr>tick := t, knowledge_entities := knowledge_entities ?w1 @ rows\<rparr>)"
    "map plain_entity rows = map (\<lambda>(p, e). entity_row uid cid iid p e 0 0) (enumerate (Suc n) es)"
    "\<forall>r \<in> set rows. ke_illumination_id r = iid" by auto
  have "insert_entity_row E uid cid iid n e w = (Inr (), ?w1)"
    using assms(1) Cons.prems by (auto simp: insert_entity_row_def runs Let_def)
  with IH show ?case
    by (intro exI [of _ t] exI [of _ "?row # rows"]) (simp add: runs)
qed

definition summary_fields :: "illumination_row \<Rightarrow> int \<times> int \<times> int option \<times> string \<times> string \<times> string list option" where
  "summary_fields r = (il_user_id r, il_capture_id r, il_inference_meta_id r, il_summary r, il_details r, il_suggested_searches r)"

lemma upsert_illumination_found:
  assumes "distinct (map il_task_run_id rows)"
  obtains row where "find (\<lambda>r. il_task_run_id r = rid) (upsert_illumination uid cid rid meta x now rows) = Some row"
    and "\<And>s. s \<in> set (upsert_illumination uid cid rid meta x now rows) \<Longrightarrow> il_task_run_id s = rid \<longleftrightarrow> s = row"
    and "summary_fields row = (uid, cid, meta, lm_summary x, lm_details x, Some (lm_suggested_searches x))"
  using illumination_upsert.upsert_found [OF assms, where rid = rid and uid = uid and cid = cid and
      meta = meta and sm = "lm_summary x" and dt = "lm_details x" and ss = "Some (lm_suggested_searches x)" and now = now]
    that unfolding upsert_illumination_def summary_fields_def by fastforce

text \<open>
  C14: persisting a version 2 illumination, without a fault. When the account, the capture
  and the inference row it names exist, the run has exactly one illumination afterwards, with
  the given fields; its entities are the given ones, in order and with their positions; its
  search text is the markdown of the result. A retry of the same run replaces what an earlier
  attempt stored, and the illuminations of other runs, with their entities and search texts,
  are untouched. When one of the three does not exist (the capture was deleted while the model
  was asked, say), the database refuses the row, the call fails with 500 and no table changes.
\<close>

theorem insert_illumination_v2_correct:
  assumes "no_faults E" and "distinct (map il_task_run_id (illuminations w))"
    and "insert_illumination_v2 E capture rid meta x w = (r, w')"
  shows "if has_user (ci_user_id capture) w \<and> has_capture (ci_id capture) w \<and> has_meta meta w
     then r = Inr () \<and>
       (\<exists>row. (\<forall>s \<in> set (illuminations w'). il_task_run_id s = rid \<longleftrightarrow> s = row) \<and> row \<in> set (illuminations w') \<and>
        summary_fields row = (ci_user_id capture, ci_id capture, meta, lm_summary x, lm_details x, Some (lm_suggested_searches x)) \<and>
        (\<forall>s. il_task_run_id s \<noteq> rid \<longrightarrow> (s \<in> set (illuminations w') \<longleftrightarrow> s \<in> set (illuminations w))) \<and>
        map plain_entity (filter (\<lambda>e. ke_illumination_id e = il_id row) (knowledge_entities w')) =
          map (\<lambda>(p, e). entity_row (ci_user_id capture) (ci_id capture) (il_id row) p e 0 0) (enumerate 0 (lm_entities x)) \<and>
        filter (\<lambda>e. ke_illumination_id e \<noteq> il_id row) (knowledge_entities w') =
          filter (\<lambda>e. ke_illumination_id e \<noteq> il_id row) (knowledge_entities w) \<and>
        map si_content (filter (\<lambda>s. si_illumination_id s = il_id row) (search_indexes w')) = [to_markdown x] \<and>
        filter (\<lambda>s. si_illumination_id s \<noteq> il_id row) (search_indexes w') =
          filter (\<lambda>s. si_illumination_id s \<noteq> il_id row) (search_indexes w))
     else (\<exists>e. r = Inl e \<and> http_status_code e = 500) \<and> (\<exists>n. w' = w\<lparr>tick := n\<rparr>)"
proof (cases "has_user (ci_user_id capture) w \<and> has_capture (ci_id capture) w \<and> has_meta meta w")
  case False
  with assms(1,3) show ?thesis
    by (auto simp: insert_illumination_v2_def transaction_def project_illumination_def replace_illumination_def runs
        key_violation_def api_of_db_def Let_def)
next
  case True
  let ?uid = "ci_user_id capture" and ?cid = "ci_id capture"
  let ?ils = "upsert_illumination ?uid ?cid rid meta x (clock E (Suc (tick w))) (illuminations w)"
  obtain row where row: "find (\<lambda>r. il_task_run_id r = rid) ?ils = Some row"
      and uniq: "\<And>s. s \<in> set ?ils \<Longrightarrow> il_task_run_id s = rid \<longleftrightarrow> s = row"
      and fields: "summary_fields row = (?uid, ?cid, meta, lm_summary x, lm_details x, Some (lm_suggested_searches x))"
    by (rule upsert_illumination_found [OF assms(2)]) blast
  let ?kes = "delete_where (\<lambda>e. ke_illumination_id e = il_id row) (knowledge_entities w)"
  let ?ses = "delete_where (\<lambda>s. si_illumination_id s = il_id row) (search_indexes w)"
  have found: "row \<in> set ?ils" using find_SomeD [OF row] by blast
  obtain w4 where w4: "replace_illumination E ?uid ?cid rid meta x (w\<lparr>tick := Suc (tick w)\<rparr>) = (Inr row, w4)"
      "illuminations w4 = ?ils" "knowledge_entities w4 = ?kes" "search_indexes w4 = ?ses"
      "has_user ?uid w4" "has_capture ?cid w4"
    using assms(1) row True by (simp add: replace_illumination_def runs)
  obtain t rows where ents: "forM (enumerate 0 (lm_entities x)) (\<lambda>(p, e). insert_entity_row E ?uid ?cid (il_id row) p e) w4 =
       (Inr (), w4\<lparr>tick := t, knowledge_entities := knowledge_entities w4 @ rows\<rparr>)"
     and plain: "map plain_entity rows = map (\<lambda>(p, e). entity_row ?uid ?cid (il_id row) p e 0 0) (enumerate 0 (lm_entities x))"
     and ids: "\<forall>r \<in> set rows. ke_illumination_id r = il_id row"
    using insert_entities [OF assms(1) w4(5,6), of row "il_id row" 0 "lm_entities x"] found w4(2) by auto
  have parent: "\<exists>i \<in> set ?ils. il_id i = il_id row" using found by blast
  have "r = Inr () \<and> illuminations w' = ?ils \<and> knowledge_entities w' = ?kes @ rows \<and>
     search_indexes w' = ?ses @ [\<lparr>si_id = next_id si_id ?ses, si_user_id = ?uid, si_capture_id = ?cid,
               si_illumination_id = il_id row, si_content = to_markdown x\<rparr>]"
    using assms(1,3) w4 ents parent
    by (auto simp: insert_illumination_v2_def transaction_def project_illumination_def runs format_for_search_v2_def Let_def)
  moreover have "s \<in> set ?ils \<longleftrightarrow> s \<in> set (illuminations w)" if "il_task_run_id s \<noteq> rid" for s
    using illumination_upsert.upsert_others [OF that] unfolding upsert_illumination_def .
  moreover have "filter (\<lambda>e. ke_illumination_id e = il_id row) rows = rows"
    "filter (\<lambda>e. ke_illumination_id e \<noteq> il_id row) rows = []" using ids by (simp_all add: filter_empty_conv)
  moreover note True found uniq fields plain
  ultimately show ?thesis
    by (simp only: if_True simp_thms) (intro conjI exI [of _ row]; simp add: delete_where_def)
qed

text \<open>
  The second attempt of a run replaces the illumination its first attempt left; once the
  capture is deleted it is refused.
\<close>

theorem insert_illumination_v2_correct_witness:
  "let capture = \<lparr>ci_id = 4, ci_user_id = 1, ci_created_at = 0, ci_created_at_human = ''now'', ci_archived_at = None,
         ci_medias = [], ci_illuminations = [], ci_annotation = None\<rparr>;
       x = \<lparr>lm_summary = ''new'', lm_details = ''d'', lm_suggested_searches = [''q''], lm_entities = [], lm_raw_json = JNull\<rparr>;
       user = \<lparr>us_id = 1, us_username = ''ada'', us_email = '''', us_password_hash = ''h'', us_is_admin = False,
         us_storage_shard = ''s''\<rparr>;
       row = \<lparr>ca_id = 4, ca_user_id = 1, ca_created_at = 0, ca_archived_at = None\<rparr>;
       old = \<lparr>il_id = 7, il_user_id = 1, il_capture_id = 4, il_task_run_id = ''r1'', il_inference_meta_id = None,
         il_created_at = 0, il_summary = ''old'', il_details = ''o'', il_suggested_searches = None\<rparr>;
       w = empty_world\<lparr>users := [user], captures := [row], illuminations := [old]\<rparr>
   in (\<exists>w' row. insert_illumination_v2 quiet_env capture ''r1'' None x w = (Inr (), w') \<and>
        (\<forall>s \<in> set (illuminations w'). il_task_run_id s = ''r1'' \<longleftrightarrow> s = row) \<and> il_summary row = ''new'') \<and>
      (\<exists>e n. insert_illumination_v2 quiet_env capture ''r1'' None x (empty_world\<lparr>users := [user]\<rparr>) =
         (Inl e, empty_world\<lparr>users := [user], tick := n\<rparr>) \<and> http_status_code e = 500)"
proof -
  let ?c = "\<lparr>ci_id = 4, ci_user_id = 1, ci_created_at = 0, ci_created_at_human = ''now'', ci_archived_at = None,
         ci_medias = [], ci_illuminations = [], ci_annotation = None\<rparr>"
  let ?x = "\<lparr>lm_summary = ''new'', lm_details = ''d'', lm_suggested_searches = [''q''], lm_entities = [], lm_raw_json = JNull\<rparr>"
  let ?user = "\<lparr>us_id = 1, us_username = ''ada'', us_email = '''', us_password_hash = ''h'', us_is_admin = False,
         us_storage_shard = ''s''\<rparr>"
  let ?row = "\<lparr>ca_id = 4, ca_user_id = 1, ca_created_at = 0, ca_archived_at = None\<rparr>"
  let ?old = "\<lparr>il_id = 7, il_user_id = 1, il_capture_id = 4, il_task_run_id = ''r1'', il_inference_meta_id = None,
         il_created_at = 0, il_summary = ''old'', il_details = ''o'', il_suggested_searches = None\<rparr>"
  let ?w = "empty_world\<lparr>users := [?user], captures := [?row], illuminations := [?old]\<rparr>"
  let ?v = "empty_world\<lparr>users := [?user]\<rparr>"
  obtain r w' where run: "insert_illumination_v2 quiet_env ?c ''r1'' None ?x ?w = (r, w')" by fastforce
  have "distinct (map il_task_run_id (illuminations ?w))" by simp
  from insert_illumination_v2_correct [OF no_faults_quiet this run] obtain row where
    ok: "r = Inr ()" "\<forall>s \<in> set (illuminations w'). il_task_run_id s = ''r1'' \<longleftrightarrow> s = row"
    "summary_fields row = (1, 4, None, lm_summary ?x, lm_details ?x, Some (lm_suggested_searches ?x))"
    by (auto simp: has_user_def has_capture_def has_meta_def)
  obtain r2 v' where gone: "insert_illumination_v2 quiet_env ?c ''r1'' None ?x ?v = (r2, v')" by fastforce
  have "distinct (map il_task_run_id (illuminations ?v))" by (simp add: empty_world_def)
  from insert_illumination_v2_correct [OF no_faults_quiet this gone]
  have "(\<exists>e. r2 = Inl e \<and> http_status_code e = 500) \<and> (\<exists>n. v' = ?v\<lparr>tick := n\<rparr>)"
    by (simp add: has_capture_def empty_world_def)
  with ok run gone show ?thesis unfolding Let_def
    by (intro conjI exI [of _ w'] exI [of _ row]) (auto simp: summary_fields_def)
qed

end
