(* ===== verification/Run_Tracker.thy ===== *)
theory Run_Tracker
  imports World "HOL-Library.Product_Lexorder" "HOL-Library.List_Lexorder" "HOL-Library.Char_ord"
begin

text \<open>
  \<open>task/timing.rs\<close>, \<open>task/statuspublisher.rs\<close> and \<open>task/taskruntracker.rs\<close>: reads and
  writes of the \<open>task_runs\<close> table, the timing aggregates derived from it, and the
  notification that follows every write.
\<close>

section \<open>Timing aggregates\<close>

definition TIMING_SAMPLE_LIMIT :: nat where
  "TIMING_SAMPLE_LIMIT = 30"

datatype Measure = QueueWait | ProcessingSuccessful

fun measure_as_ref :: "Measure \<Rightarrow> string" where
  "measure_as_ref QueueWait = ''queue_wait''"
| "measure_as_ref ProcessingSuccessful = ''processing_successful''"

definition estimate_of_row :: "task_run_timing_row \<Rightarrow> TaskTimingEstimate" where
  "estimate_of_row row =
     \<lparr>te_task_type = tt_task_type row, te_sample_count = tt_sample_count row,
      te_duration_ms_avg = tt_duration_ms_avg row, te_duration_ms_p50 = tt_duration_ms_p50 row,
      te_duration_ms_p75 = tt_duration_ms_p75 row, te_duration_ms_p90 = tt_duration_ms_p90 row\<rparr>"

text \<open>\<open>TimingEstimator::client_estimate\<close>: a failed read is no estimate, not an error.\<close>

definition client_estimate :: "env \<Rightarrow> string \<Rightarrow> (world, 'e, TaskTimingEstimate option) comp" where
  "client_estimate E ttype =
     bindM (catchM (select E (\<lambda>w. find (\<lambda>r. tt_task_type r = ttype \<and>
              tt_operation_type r = measure_as_ref ProcessingSuccessful) (timings w))))
       (\<lambda>r. returnM (case r of Inl _ \<Rightarrow> None | Inr row \<Rightarrow> map_option estimate_of_row row))"

text \<open>
  The rows a measure is computed from, newest first, and the duration each contributes in
  microseconds.
\<close>

definition timing_sample :: "Measure \<Rightarrow> string \<Rightarrow> task_run_row list \<Rightarrow> int list" where
  "timing_sample m ttype rows =
     (let relevant = (\<lambda>r. tr_task_type r = ttype \<and>
            (case m of
               QueueWait \<Rightarrow> tr_processing_started_at r \<noteq> None
             | ProcessingSuccessful \<Rightarrow> tr_status_code r = 4 \<and> tr_success_duration_ms r \<noteq> None));
          duration = (\<lambda>r. case m of
               QueueWait \<Rightarrow> the (tr_processing_started_at r) - tr_created_at r
             | ProcessingSuccessful \<Rightarrow> the (tr_success_duration_ms r) * 1000)
      in map duration (take TIMING_SAMPLE_LIMIT (sort_key (\<lambda>r. - tr_updated_at r) (filter relevant rows))))"

definition upsert_timing ::
  "string \<Rightarrow> string \<Rightarrow> (int \<Rightarrow> task_run_timing_row) \<Rightarrow> task_run_timing_row list \<Rightarrow> task_run_timing_row list" where
  "upsert_timing ttype op mk rows =
     (if \<exists>r \<in> set rows. tt_task_type r = ttype \<and> tt_operation_type r = op
      then update_where (\<lambda>r. tt_task_type r = ttype \<and> tt_operation_type r = op) (\<lambda>r. mk (tt_id r)) rows
      else rows @ [mk (next_id tt_id rows)])"

definition refresh_timing_measures :: "env \<Rightarrow> string \<Rightarrow> TaskRunStatus \<Rightarrow> (world, anyhow, unit) comp" where
  "refresh_timing_measures E ttype status =
     (case (case status of
              InProgress \<Rightarrow> Some QueueWait
            | CompleteSuccess \<Rightarrow> Some ProcessingSuccessful
            | _ \<Rightarrow> None) of
        None \<Rightarrow> returnM ()
      | Some op \<Rightarrow>
          bindM (map_errM anyhow_of_db (select E (\<lambda>w. timing_sample op ttype (task_runs w)))) (\<lambda>sample.
          if sample = [] then returnM ()
          else map_errM anyhow_of_db (execute E (\<lambda>now w. w\<lparr>timings :=
                 upsert_timing ttype (measure_as_ref op)
                   (\<lambda>i. \<lparr>tt_id = i, tt_task_type = ttype, tt_operation_type = measure_as_ref op,
                         tt_sample_count = int (length sample), tt_duration_ms_avg = pg_avg_ms E sample,
                         tt_duration_ms_p50 = pg_percentile_ms E 50 sample,
                         tt_duration_ms_p75 = pg_percentile_ms E 75 sample,
                         tt_duration_ms_p90 = pg_percentile_ms E 90 sample, tt_updated_at = now\<rparr>)
                   (timings w)\<rparr>))))"

section \<open>Publication\<close>

text \<open>\<open>StatusPublisher::publish\<close>: best effort, never an error of the caller.\<close>

definition notify_task_status :: "env \<Rightarrow> TaskStatusUpdate \<Rightarrow> (world, 'e, unit) comp" where
  "notify_task_status E event w =
     (let w' = w\<lparr>tick := Suc (tick w)\<rparr>
      in if notify_fault E (tick w) then (Inr (), w')
         else (Inr (), w'\<lparr>published := published w' @ [event]\<rparr>))"

definition publish :: "env \<Rightarrow> task_run_row \<Rightarrow> (world, 'e, unit) comp" where
  "publish E row =
     (if \<not> has_notifier E then returnM ()
      else bindM (client_estimate E (tr_task_type row)) (\<lambda>estimate.
        case from_row row estimate of
          None \<Rightarrow> returnM ()
        | Some event \<Rightarrow> notify_task_status E event))"

section \<open>Writing task runs\<close>

text \<open>
  The unique keys of \<open>task_runs\<close>: the run id, the ordinal within a logical task, and,
  for tagged runs only, the logical task within a backfill.
\<close>

definition task_run_conflicts :: "env \<Rightarrow> task_run_row list \<Rightarrow> task_run_row \<Rightarrow> string list" where
  "task_run_conflicts E rows row =
     (if \<exists>r \<in> set rows. tr_run_id r = tr_run_id row then [run_id_constraint E] else [])
     @ (if \<exists>r \<in> set rows. tr_logical_id r = tr_logical_id row \<and> tr_run_number r = tr_run_number row
        then [''idx-task_runs-task_run''] else [])
     @ (if tr_backfill_id row \<noteq> None \<and>
           (\<exists>r \<in> set rows. tr_backfill_id r = tr_backfill_id row \<and> tr_logical_id r = tr_logical_id row)
        then [''idx-task_runs-backfill_task''] else [])"

definition insert_task_run_row ::
  "env \<Rightarrow> (int \<Rightarrow> timestamp \<Rightarrow> task_run_row) \<Rightarrow> (world, db_err, task_run_row) comp" where
  "insert_task_run_row E mk = stmt E (\<lambda>now w.
     let row = mk (next_id tr_id (task_runs w)) now;
         cs = task_run_conflicts E (task_runs w) row
     in if cs = [] then (Inr row, w\<lparr>task_runs := task_runs w @ [row]\<rparr>)
        else (Inl (DbQuery (SqlxError (SqlxDatabase (Some ''23505'')
                (Some (cs ! (conflict_pick E (tick w) mod length cs))) (conflict_text E (tick w))))), w))"

definition is_submission_conflict :: "db_err \<Rightarrow> bool" where
  "is_submission_conflict err =
     (case err of
        DbExec (SqlxError (SqlxDatabase code constraint _)) \<Rightarrow>
          code = Some ''23505'' \<and>
          constraint \<in> {Some ''idx-task_runs-task_run'', Some ''idx-task_runs-backfill_task''}
      | DbQuery (SqlxError (SqlxDatabase code constraint _)) \<Rightarrow>
          code = Some ''23505'' \<and>
          constraint \<in> {Some ''idx-task_runs-task_run'', Some ''idx-task_runs-backfill_task''}
      | _ \<Rightarrow> False)"

definition new_task_run_row :: "TaskRun \<Rightarrow> int \<Rightarrow> timestamp \<Rightarrow> task_run_row" where
  "new_task_run_row run i now =
     \<lparr>tr_id = i, tr_logical_id = logical_id run, tr_run_id = run_id run,
      tr_run_number = run_number run, tr_backfill_id = backfill_id run,
      tr_task_type = task_type (run_task run), tr_entity_owner_id = entity_owner_id (run_task run),
      tr_entity_type = entity_type (run_task run), tr_entity_id = entity_id (run_task run),
      tr_task_payload = Some (task_json (run_task run)),
      tr_status_code = as_i32 Queued, tr_attempts = 0, tr_created_at = now,
      tr_processing_started_at = None, tr_last_error_code = None, tr_last_error_message = None,
      tr_last_error_duration_ms = None, tr_success_duration_ms = None, tr_updated_at = now\<rparr>"

definition insert_run :: "env \<Rightarrow> TaskRun \<Rightarrow> (world, anyhow, bool) comp" where
  "insert_run E run =
     bindM (catchM (insert_task_run_row E (new_task_run_row run))) (\<lambda>result.
     case result of
       Inr row \<Rightarrow> bindM (publish E row) (\<lambda>_. returnM True)
     | Inl err \<Rightarrow> if is_submission_conflict err then returnM False else throwM (anyhow_of_db err))"

text \<open>
  \<open>write_status\<close>: the update of status, attempts and \<open>updated_at\<close> with the extra columns
  of the transition; then the aggregates and the notification, from the row as written.
\<close>

definition written_row ::
  "timestamp \<Rightarrow> TaskRunStatus \<Rightarrow> int \<Rightarrow> (timestamp \<Rightarrow> task_run_row \<Rightarrow> task_run_row)
     \<Rightarrow> task_run_row \<Rightarrow> task_run_row" where
  "written_row now status attempts extras r =
     extras now (r\<lparr>tr_status_code := as_i32 status, tr_attempts := attempts, tr_updated_at := now\<rparr>)"

definition write_status ::
  "env \<Rightarrow> TaskRun \<Rightarrow> TaskRunStatus \<Rightarrow> int \<Rightarrow> (timestamp \<Rightarrow> task_run_row \<Rightarrow> task_run_row)
     \<Rightarrow> (world, anyhow, unit) comp" where
  "write_status E run status attempts extras =
     bindM (map_errM anyhow_of_db (stmt E (\<lambda>now w.
        let upd = written_row now status attempts extras;
            hit = (\<lambda>r. tr_run_id r = run_id run)
        in (Inr (map upd (filter hit (task_runs w))),
            w\<lparr>task_runs := update_where hit upd (task_runs w)\<rparr>)))) (\<lambda>rows.
     case rows of
       [] \<Rightarrow> returnM ()
     | row # _ \<Rightarrow>
         bindM (catchM (refresh_timing_measures E (task_type (run_task run)) status)) (\<lambda>_.
         publish E row))"

definition ERROR_MESSAGE_MAX_CHARS :: nat where
  "ERROR_MESSAGE_MAX_CHARS = 2000"

definition truncate_error_message :: "string \<Rightarrow> string" where
  "truncate_error_message msg =
     (if chars_count msg \<le> ERROR_MESSAGE_MAX_CHARS then msg
      else chars_take (ERROR_MESSAGE_MAX_CHARS - 1) msg @ utf8_ellipsis)"

definition with_error_columns :: "ApiError \<Rightarrow> task_run_row \<Rightarrow> task_run_row" where
  "with_error_columns err row =
     row\<lparr>tr_last_error_code := Some (inner_status_code err),
         tr_last_error_message := Some (truncate_error_message (message err))\<rparr>"

text \<open>
  \<open>ATTEMPT_DURATION_MS\<close>: the milliseconds since the attempt started, rounded half away from
  zero by the cast, and \<open>NULL\<close> when none started.
\<close>

definition round_div :: "int \<Rightarrow> int \<Rightarrow> int" where
  "round_div a b = sgn a * ((2 * \<bar>a\<bar> + b) div (2 * b))"

definition attempt_duration_ms :: "timestamp \<Rightarrow> task_run_row \<Rightarrow> int option" where
  "attempt_duration_ms now row =
     map_option (\<lambda>started. round_div (now - started) 1000) (tr_processing_started_at row)"

definition set_status ::
  "env \<Rightarrow> TaskRun \<Rightarrow> TaskRunStatus \<Rightarrow> int \<Rightarrow> ApiError option \<Rightarrow> (world, anyhow, unit) comp" where
  "set_status E run status attempts err =
     write_status E run status attempts (\<lambda>now row.
       case err of Some e \<Rightarrow> with_error_columns e row | None \<Rightarrow> row)"

definition mark_in_progress :: "env \<Rightarrow> TaskRun \<Rightarrow> int \<Rightarrow> (world, anyhow, unit) comp" where
  "mark_in_progress E run attempts =
     write_status E run InProgress attempts (\<lambda>now row. row\<lparr>tr_processing_started_at := Some now\<rparr>)"

definition record_outcome ::
  "env \<Rightarrow> TaskRun \<Rightarrow> TaskRunStatus \<Rightarrow> int \<Rightarrow> ApiError option \<Rightarrow> (world, anyhow, unit) comp" where
  "record_outcome E run status attempts err =
     write_status E run status attempts (\<lambda>now row.
       if status = CompleteSuccess then row\<lparr>tr_success_duration_ms := attempt_duration_ms now row\<rparr>
       else if status \<notin> {ErrorWillRetry, CompleteFailure} then row
       else let row' = row\<lparr>tr_last_error_duration_ms := attempt_duration_ms now row\<rparr>
            in case err of Some e \<Rightarrow> with_error_columns e row' | None \<Rightarrow> row')"

section \<open>Reading task runs\<close>

text \<open>\<open>ORDER BY run_number DESC .. LIMIT 1\<close>.\<close>

definition latest_matching :: "(task_run_row \<Rightarrow> bool) \<Rightarrow> task_run_row list \<Rightarrow> task_run_row option" where
  "latest_matching p rows = find_max_by tr_run_number (filter p rows)"

definition query_run_status ::
  "env \<Rightarrow> string \<Rightarrow> int option \<Rightarrow> int option \<Rightarrow> (world, anyhow, task_run_row option) comp" where
  "query_run_status E lid number owner =
     map_errM anyhow_of_db (select E (\<lambda>w. latest_matching (\<lambda>r. tr_logical_id r = lid \<and>
        (case number of Some n \<Rightarrow> tr_run_number r = n | None \<Rightarrow> True) \<and>
        (case owner of Some u \<Rightarrow> tr_entity_owner_id r = u | None \<Rightarrow> True)) (task_runs w)))"

definition query_backfill_run ::
  "env \<Rightarrow> string \<Rightarrow> string \<Rightarrow> (world, anyhow, task_run_row option) comp" where
  "query_backfill_run E bid lid =
     map_errM anyhow_of_db (select E (\<lambda>w.
       find (\<lambda>r. tr_backfill_id r = Some bid \<and> tr_logical_id r = lid) (task_runs w)))"

definition query_run_by_id ::
  "env \<Rightarrow> string \<Rightarrow> int option \<Rightarrow> (world, anyhow, task_run_row option) comp" where
  "query_run_by_id E rid owner =
     map_errM anyhow_of_db (select E (\<lambda>w. find (\<lambda>r. tr_run_id r = rid \<and>
        (case owner of Some u \<Rightarrow> tr_entity_owner_id r = u | None \<Rightarrow> True)) (task_runs w)))"

text \<open>
  \<open>DISTINCT ON (entity_id, task_type) .. ORDER BY entity_id, task_type, run_number DESC\<close>:
  for every entity and task type the row of the largest ordinal, listed by entity and
  then by task type.
\<close>

definition latest_task_runs :: "int \<Rightarrow> string \<Rightarrow> int list \<Rightarrow> task_run_row list \<Rightarrow> task_run_row list" where
  "latest_task_runs owner etype ids rows =
     distinct_on (\<lambda>r. (tr_entity_id r, tr_task_type r))
       (sort_key (\<lambda>r. (tr_entity_id r, tr_task_type r, - tr_run_number r))
         (filter (\<lambda>r. tr_entity_owner_id r = owner \<and> tr_entity_type r = etype \<and> tr_entity_id r \<in> set ids) rows))"

definition query_latest_task_runs ::
  "env \<Rightarrow> int \<Rightarrow> string \<Rightarrow> int list \<Rightarrow> (world, anyhow, task_run_row list) comp" where
  "query_latest_task_runs E owner etype ids =
     (if ids = [] then returnM []
      else map_errM anyhow_of_db (select E (\<lambda>w. latest_task_runs owner etype ids (task_runs w))))"

section \<open>Facts\<close>

lemma leaves_client_estimate [frame]:
  "(\<And>w n. f (w\<lparr>tick := n\<rparr>) = f w) \<Longrightarrow> leaves f (client_estimate E ttype)"
  unfolding client_estimate_def by (auto intro!: frame)

lemma leaves_publish [frame]:
  assumes "\<And>w n. f (w\<lparr>tick := n\<rparr>) = f w" and "\<And>w p. f (w\<lparr>published := p\<rparr>) = f w"
  shows "leaves f (publish E row)"
  unfolding publish_def notify_task_status_def
  by (auto intro!: frame simp: assms) (auto simp: leaves_def Let_def assms)

lemma leaves_refresh_timing_measures [frame]:
  assumes "\<And>w n. f (w\<lparr>tick := n\<rparr>) = f w" and "\<And>w p. f (w\<lparr>timings := p\<rparr>) = f w"
  shows "leaves f (refresh_timing_measures E ttype status)"
  unfolding refresh_timing_measures_def by (auto intro!: frame simp: assms)

text \<open>Publication never reports an error, and a write reports one only when it wrote nothing.\<close>

lemma publish_Inr: "fst (publish E row w) = Inr ()"
  by (auto simp: publish_def client_estimate_def notify_task_status_def runs Let_def
      split: option.split prod.split sum.split)

lemma publishE:
  obtains w' where "publish E row w = (Inr (), w')"
  by (metis publish_Inr prod.collapse)

lemma write_status_result:
  assumes "write_status E run status attempts extras w = (r, w')"
  shows "case db_fault E (tick w) of
           Some e \<Rightarrow> r = Inl (anyhow_of_db e) \<and> task_runs w' = task_runs w
         | None \<Rightarrow> r = Inr () \<and> task_runs w' =
             update_where (\<lambda>r. tr_run_id r = run_id run)
               (written_row (clock E (tick w)) status attempts extras) (task_runs w)"
proof -
  let ?upd = "update_where (\<lambda>r. tr_run_id r = run_id run)
               (written_row (clock E (tick w)) status attempts extras) (task_runs w)"
  let ?hits = "map (written_row (clock E (tick w)) status attempts extras)
                 (filter (\<lambda>r. tr_run_id r = run_id run) (task_runs w))"
  let ?w1 = "w\<lparr>tick := Suc (tick w), task_runs := ?upd\<rparr>"
  let ?k = "\<lambda>rows. (case rows of [] \<Rightarrow> returnM () | row # _ \<Rightarrow>
         bindM (catchM (refresh_timing_measures E (task_type (run_task run)) status)) (\<lambda>_. publish E row))
         :: (world, anyhow, unit) comp"
  have k: "leaves task_runs (?k rows)" for rows :: "task_run_row list"
    by (cases rows) (auto intro!: frame)
  have i: "fst (?k rows v) = Inr ()" for rows :: "task_run_row list" and v
    by (cases rows) (auto simp: runs publish_Inr split: prod.split)
  show ?thesis
  proof (cases "db_fault E (tick w)")
    case (Some e)
    with assms show ?thesis by (auto simp: write_status_def stmt_def runs Let_def)
  next
    case None
    with assms have h: "?k ?hits ?w1 = (r, w')"
      by (simp add: write_status_def stmt_def runs Let_def)
    have "r = Inr ()" using i [of ?hits ?w1] by (simp only: h fst_conv)
    moreover have "task_runs w' = task_runs ?w1" using h by (rule leaves_run [OF k])
    ultimately show ?thesis using None by simp
  qed
qed

lemma leaves_write_status [frame]:
  assumes "\<And>w n. f (w\<lparr>tick := n\<rparr>) = f w" and "\<And>w p. f (w\<lparr>timings := p\<rparr>) = f w"
    and "\<And>w p. f (w\<lparr>published := p\<rparr>) = f w" and "\<And>w p. f (w\<lparr>task_runs := p\<rparr>) = f w"
  shows "leaves f (write_status E run status attempts extras)"
proof -
  have k: "leaves f (case rows of [] \<Rightarrow> returnM () | row # _ \<Rightarrow>
         bindM (catchM (refresh_timing_measures E (task_type (run_task run)) status)) (\<lambda>_. publish E row))"
    for rows by (cases rows) (auto intro!: frame simp: assms)
  show ?thesis
    unfolding write_status_def
    by (rule leaves_bindM [OF leaves_map_errM [OF leaves_stmt] k])
       (auto simp: leaves_def Let_def assms)
qed

section \<open>Well-formed tables of runs\<close>

text \<open>
  What every write keeps of \<open>task_runs\<close>: the three unique keys, status codes that decode,
  ordinals in range, and a logical id that is the one the other columns determine.
\<close>

definition row_logical_id :: "task_run_row \<Rightarrow> string" where
  "row_logical_id r = ''u'' @ show_int (tr_entity_owner_id r) @ ''-'' @ tr_task_type r @ ''-''
     @ tr_entity_type r @ show_int (tr_entity_id r)"

definition wf_row :: "task_run_row \<Rightarrow> bool" where
  "wf_row r \<longleftrightarrow> (\<exists>s. tr_status_code r = as_i32 s) \<and> in_i32 (tr_run_number r) \<and>
     tr_logical_id r = row_logical_id r"

definition wf_runs :: "task_run_row list \<Rightarrow> bool" where
  "wf_runs rows \<longleftrightarrow>
     distinct (map tr_run_id rows) \<and>
     distinct (map (\<lambda>r. (tr_logical_id r, tr_run_number r)) rows) \<and>
     distinct (map (\<lambda>r. (tr_backfill_id r, tr_logical_id r)) (filter (\<lambda>r. tr_backfill_id r \<noteq> None) rows)) \<and>
     (\<forall>r \<in> set rows. wf_row r)"

abbreviation wf_world :: "world \<Rightarrow> bool" where
  "wf_world w \<equiv> wf_runs (task_runs w)"

definition wf_run :: "TaskRun \<Rightarrow> bool" where
  "wf_run run \<longleftrightarrow> logical_id run = make_logical_id (run_task run) \<and> in_i32 (run_number run)"

text \<open>The columns that identify a row; no status write touches them.\<close>

definition identity :: "task_run_row \<Rightarrow> int \<times> string \<times> string \<times> int \<times> string option \<times> string \<times> int \<times> string \<times> int \<times> json option \<times> timestamp" where
  "identity r = (tr_id r, tr_logical_id r, tr_run_id r, tr_run_number r, tr_backfill_id r, tr_task_type r,
     tr_entity_owner_id r, tr_entity_type r, tr_entity_id r, tr_task_payload r, tr_created_at r)"

definition status_only :: "(timestamp \<Rightarrow> task_run_row \<Rightarrow> task_run_row) \<Rightarrow> bool" where
  "status_only extras \<longleftrightarrow> (\<forall>now r. identity (extras now r) = identity r \<and>
     tr_status_code (extras now r) = tr_status_code r \<and> tr_attempts (extras now r) = tr_attempts r)"

lemma identity_written_row [simp]:
  "status_only extras \<Longrightarrow> identity (written_row now status attempts extras r) = identity r"
  by (simp add: written_row_def status_only_def) (simp add: identity_def)

lemma written_row_status [simp]:
  "status_only extras \<Longrightarrow> tr_status_code (written_row now status attempts extras r) = as_i32 status"
  "status_only extras \<Longrightarrow> tr_attempts (written_row now status attempts extras r) = attempts"
  by (simp_all add: written_row_def status_only_def)

lemma identityD:
  assumes "identity r = identity r'"
  shows "tr_id r = tr_id r'" "tr_logical_id r = tr_logical_id r'" "tr_run_id r = tr_run_id r'"
    "tr_run_number r = tr_run_number r'" "tr_backfill_id r = tr_backfill_id r'"
    "tr_task_type r = tr_task_type r'" "tr_entity_owner_id r = tr_entity_owner_id r'"
    "tr_entity_type r = tr_entity_type r'" "tr_entity_id r = tr_entity_id r'"
  using assms by (simp_all add: identity_def)

lemma wf_runs_update:
  assumes "status_only extras" and "wf_runs rows"
  shows "wf_runs (update_where hit (written_row now status attempts extras) rows)"
proof -
  let ?f = "written_row now status attempts extras"
  let ?tagged = "filter (\<lambda>r. tr_backfill_id r \<noteq> None)"
  note same = identityD [OF identity_written_row [OF assms(1)]]
  have "map tr_run_id (update_where hit ?f rows) = map tr_run_id rows"
    by (rule map_update_where) (rule same)
  moreover have "map (\<lambda>r. (tr_logical_id r, tr_run_number r)) (update_where hit ?f rows) =
                 map (\<lambda>r. (tr_logical_id r, tr_run_number r)) rows"
    by (rule map_update_where) (simp only: same)
  moreover have "?tagged (update_where hit ?f rows) = update_where hit ?f (?tagged rows)"
    by (rule filter_update_where) (simp only: same)
  moreover have "map (\<lambda>r. (tr_backfill_id r, tr_logical_id r)) (update_where hit ?f (?tagged rows)) =
                 map (\<lambda>r. (tr_backfill_id r, tr_logical_id r)) (?tagged rows)"
    by (rule map_update_where) (simp only: same)
  moreover have "wf_row (?f r)" if "wf_row r" for r
    using that by (simp add: wf_row_def row_logical_id_def same assms(1))
  ultimately show ?thesis
    using assms(2) unfolding wf_runs_def by (auto simp: set_update_where)
qed

lemma wf_runs_snoc:
  assumes "wf_runs rows" and "task_run_conflicts E rows row = []" and "wf_row row"
  shows "wf_runs (rows @ [row])"
  using assms by (auto simp: wf_runs_def task_run_conflicts_def split: if_splits)

lemma wf_row_new [simp]: "wf_run run \<Longrightarrow> wf_row (new_task_run_row run i now)"
  by (auto simp: wf_run_def wf_row_def new_task_run_row_def row_logical_id_def make_logical_id_def
      intro: exI [of _ Queued])

lemma status_only_extras [simp]:
  "status_only (\<lambda>now row. case err of Some e \<Rightarrow> with_error_columns e row | None \<Rightarrow> row)"
  "status_only (\<lambda>now row. row\<lparr>tr_processing_started_at := Some now\<rparr>)"
  "status_only (\<lambda>now row.
       if status = CompleteSuccess then row\<lparr>tr_success_duration_ms := attempt_duration_ms now row\<rparr>
       else if status \<notin> {ErrorWillRetry, CompleteFailure} then row
       else let row' = row\<lparr>tr_last_error_duration_ms := attempt_duration_ms now row\<rparr>
            in case err of Some e \<Rightarrow> with_error_columns e row' | None \<Rightarrow> row')"
  by (auto simp: status_only_def identity_def with_error_columns_def Let_def split: option.split)

lemma tick_free_wf [simp]: "tick_free wf_world"
  by (simp add: tick_free_def)

lemma keeps_wf_write_status [keep]:
  assumes "status_only extras"
  shows "keeps wf_world (write_status E run status attempts extras)"
proof (rule keepsI)
  fix w assume "wf_world w"
  then show "wf_world (snd (write_status E run status attempts extras w))"
    using write_status_result [of E run status attempts extras w] wf_runs_update [OF assms]
    by (cases "write_status E run status attempts extras w")
       (auto split: option.splits)
qed

lemma insert_task_run_row_result:
  "insert_task_run_row E mk w = (r, w') \<Longrightarrow>
     (case r of
        Inr row \<Rightarrow> row = mk (next_id tr_id (task_runs w)) (clock E (tick w)) \<and>
           task_run_conflicts E (task_runs w) row = [] \<and> task_runs w' = task_runs w @ [row]
      | Inl e \<Rightarrow> task_runs w' = task_runs w \<and> (db_fault E (tick w) = Some e \<or> db_fault E (tick w) = None \<and>
           task_run_conflicts E (task_runs w) (mk (next_id tr_id (task_runs w)) (clock E (tick w))) \<noteq> []))"
  by (auto simp: insert_task_run_row_def stmt_def Let_def split: option.splits if_splits)

lemma keeps_wf_insert_run [keep]:
  assumes "wf_run run"
  shows "keeps wf_world (insert_run E run)"
proof (rule keepsI)
  fix w assume wf: "wf_world w"
  obtain r w1 where ins: "insert_task_run_row E (new_task_run_row run) w = (r, w1)" by fastforce
  have "wf_world w1"
    using insert_task_run_row_result [OF ins] wf assms wf_runs_snoc by (auto split: sum.splits)
  moreover have "leaves task_runs (publish E row :: (world, anyhow, unit) comp)" for row
    by (rule leaves_publish) simp_all
  ultimately show "wf_world (snd (insert_run E run w))"
    by (cases r) (simp_all add: insert_run_def runs ins split_beta leavesD split: sum.split)
qed

lemma insert_run_result:
  assumes "insert_run E run w = (r, w')"
  shows "(r = Inr True \<and> (\<exists>i now. task_run_conflicts E (task_runs w) (new_task_run_row run i now) = [] \<and>
            task_runs w' = task_runs w @ [new_task_run_row run i now])) \<or>
         (r \<noteq> Inr True \<and> task_runs w' = task_runs w)"
proof -
  obtain r1 w1 where ins: "insert_task_run_row E (new_task_run_row run) w = (r1, w1)" by fastforce
  show ?thesis
  proof (cases r1)
    case (Inl e)
    with insert_task_run_row_result [OF ins] assms ins show ?thesis
      by (auto simp: insert_run_def runs split: if_splits)
  next
    case (Inr row)
    obtain w2 where pub: "(publish E row :: (world, anyhow, unit) comp) w1 = (Inr (), w2)" by (rule publishE)
    have "task_runs w2 = task_runs w1" by (rule leaves_run [OF leaves_publish pub]) simp_all
    with Inr insert_task_run_row_result [OF ins] assms ins pub show ?thesis
      by (auto simp: insert_run_def runs)
  qed
qed

lemma leaves_insert_run [frame]:
  assumes "\<And>w n. f (w\<lparr>tick := n\<rparr>) = f w" and "\<And>w p. f (w\<lparr>published := p\<rparr>) = f w"
    and "\<And>w p. f (w\<lparr>task_runs := p\<rparr>) = f w"
  shows "leaves f (insert_run E run)"
proof -
  have "leaves f (insert_task_run_row E (new_task_run_row run))"
    unfolding insert_task_run_row_def by (rule leaves_stmt) (auto simp: leaves_def Let_def assms)
  then show ?thesis unfolding insert_run_def by (auto intro!: frame simp: assms)
qed

section \<open>The latest run of every task\<close>

lemma wf_runs_unique_number:
  assumes "wf_runs rows" and "r \<in> set rows" and "s \<in> set rows"
    and "tr_entity_owner_id r = tr_entity_owner_id s" and "tr_task_type r = tr_task_type s"
    and "tr_entity_type r = tr_entity_type s" and "tr_entity_id r = tr_entity_id s"
    and "tr_run_number r = tr_run_number s"
  shows "r = s"
proof -
  have "tr_logical_id r = tr_logical_id s"
    using assms by (simp add: wf_runs_def wf_row_def row_logical_id_def)
  with assms show ?thesis
    by (auto simp: wf_runs_def distinct_map inj_on_def)
qed

text \<open>
  The catch-up query returns, for the requested entities of one owner, exactly the run
  with the largest ordinal of every entity and task type, each pair once.
\<close>

theorem latest_task_runs_correct:
  assumes "wf_runs rows"
  shows "set (latest_task_runs owner etype ids rows) =
           {r \<in> set rows. tr_entity_owner_id r = owner \<and> tr_entity_type r = etype \<and> tr_entity_id r \<in> set ids \<and>
              (\<forall>s \<in> set rows. tr_entity_owner_id s = owner \<and> tr_entity_type s = etype \<and>
                 tr_entity_id s = tr_entity_id r \<and> tr_task_type s = tr_task_type r
                 \<longrightarrow> tr_run_number s \<le> tr_run_number r)} \<and>
         distinct (map (\<lambda>r. (tr_entity_id r, tr_task_type r)) (latest_task_runs owner etype ids rows))"
    (is "?L = ?R \<and> _")
proof
  let ?P = "\<lambda>r. tr_entity_owner_id r = owner \<and> tr_entity_type r = etype \<and> tr_entity_id r \<in> set ids"
  let ?ord = "\<lambda>r. (tr_entity_id r, tr_task_type r, - tr_run_number r)"
  let ?key = "\<lambda>r. (tr_entity_id r, tr_task_type r)"
  let ?xs = "sort_key ?ord (filter ?P rows)"
  have L: "?L = set (distinct_on ?key ?xs)" by (simp add: latest_task_runs_def)
  have sorted: "sorted (map ?ord ?xs)" by (rule sorted_sort_key)
  have max: "tr_run_number s \<le> tr_run_number r"
    if "r \<in> ?L" "s \<in> set rows" "?P s" "?key s = ?key r" for r s
    using distinct_on_first [where key = ?key and ord = ?ord, OF _ _ _ sorted, of r s] that
    by (auto simp: L)
  show "?L = ?R"
  proof (intro equalityI subsetI)
    fix r assume r: "r \<in> ?L"
    then have "r \<in> set rows \<and> ?P r" using set_distinct_on [of ?key ?xs] by (auto simp: L)
    with max [OF r] show "r \<in> ?R" by auto
  next
    fix r assume r: "r \<in> ?R"
    then have "r \<in> set ?xs" by simp
    from distinct_on_covers [OF this, of ?key] obtain s
      where s: "s \<in> ?L" "?key s = ?key r" unfolding L by blast
    then have "s \<in> set rows \<and> ?P s" using set_distinct_on [of ?key ?xs] by (auto simp: L)
    moreover from max [OF s(1)] r s(2) have "tr_run_number r \<le> tr_run_number s" by auto
    ultimately have "r = s"
      using r s(2) wf_runs_unique_number [OF assms, of r s] by (auto intro: antisym)
    with s show "r \<in> ?L" by simp
  qed
  show "distinct (map ?key (latest_task_runs owner etype ids rows))"
    by (simp add: latest_task_runs_def distinct_keys_distinct_on)
qed

text \<open>Two runs of one task: the second is the latest.\<close>

definition demo_row_number :: "int \<Rightarrow> task_run_row" where
  "demo_row_number n = new_task_run_row
     (task_run_new (show_int n) (SearchIndex \<lparr>st_capture_id = 4, st_entity_owner_id = 1\<rparr>) n) n n"

theorem latest_task_runs_correct_witness:
  "set (latest_task_runs 1 ''capture'' [4] [demo_row_number 1, demo_row_number 2]) = {demo_row_number 2}"
proof -
  have fields: "tr_id (demo_row_number n) = n" "tr_run_id (demo_row_number n) = show_int n" "tr_run_number (demo_row_number n) = n"
    "tr_entity_owner_id (demo_row_number n) = 1" "tr_entity_type (demo_row_number n) = ''capture''"
    "tr_entity_id (demo_row_number n) = 4" "tr_task_type (demo_row_number n) = ''search_index''"
    "tr_backfill_id (demo_row_number n) = None" for n
    by (simp_all add: demo_row_number_def new_task_run_row_def task_run_new_def)
  have "wf_row (demo_row_number n)" if "in_i32 n" for n
    unfolding demo_row_number_def by (rule wf_row_new) (use that in \<open>simp add: wf_run_def task_run_new_def\<close>)
  then have wf: "wf_runs [demo_row_number 1, demo_row_number 2]"
    by (simp add: wf_runs_def fields in_i32_def)
  have neq: "demo_row_number 1 \<noteq> demo_row_number 2" using fields(1) [of 1] fields(1) [of 2] by auto
  show ?thesis
    unfolding latest_task_runs_correct [OF wf, THEN conjunct1, of 1 "''capture''" "[4]"]
  proof (intro equalityI subsetI)
    fix r assume "r \<in> {demo_row_number 2}"
    then show "r \<in> {r \<in> set [demo_row_number 1, demo_row_number 2]. tr_entity_owner_id r = 1 \<and> tr_entity_type r = ''capture'' \<and>
         tr_entity_id r \<in> set [4] \<and> (\<forall>s \<in> set [demo_row_number 1, demo_row_number 2]. tr_entity_owner_id s = 1 \<and>
         tr_entity_type s = ''capture'' \<and> tr_entity_id s = tr_entity_id r \<and> tr_task_type s = tr_task_type r \<longrightarrow>
         tr_run_number s \<le> tr_run_number r)}" by (simp add: fields)
  qed (auto simp: fields dest!: bspec [of _ _ "demo_row_number 2"])
qed

text \<open>
  A stored error message has at most 2000 characters; a message that fits is stored
  whole, and a longer one is its first 1999 characters, cut between two characters, with
  an ellipsis.
\<close>

theorem truncate_error_message_bounds:
  "chars_count (truncate_error_message msg) \<le> 2000 \<and>
   (if chars_count msg \<le> 2000 then truncate_error_message msg = msg
    else \<exists>kept rest. msg = kept @ rest \<and> chars_count kept = 1999 \<and> rest \<noteq> [] \<and> \<not> is_continuation (hd rest) \<and>
         truncate_error_message msg = kept @ utf8_ellipsis)"
proof (cases "chars_count msg \<le> 2000")
  case False
  obtain rest where rest: "msg = chars_take 1999 msg @ rest" using chars_take_prefix by blast
  have count: "chars_count (chars_take 1999 msg) = 1999" using False by (simp add: chars_count_take)
  have "rest \<noteq> []"
  proof
    assume "rest = []"
    with rest have "chars_count msg = chars_count (chars_take 1999 msg)" by simp
    with count False show False by simp
  qed
  with chars_take_boundary [OF rest] rest count False show ?thesis
    by (auto simp: truncate_error_message_def ERROR_MESSAGE_MAX_CHARS_def)
qed (simp add: truncate_error_message_def ERROR_MESSAGE_MAX_CHARS_def)

end
