(* ===== verification/Auth.thy ===== *)
theory Auth
  imports World
begin

text \<open>
  \<open>auth/*.rs\<close>: who a request comes from. A user is authenticated by a password (a session)
  or by a signed token, and every operation of the API receives the resulting
  \<open>Context\<close>. The two libraries the module calls, \<open>argon2\<close> and \<open>jsonwebtoken\<close>, are
  parameters.
\<close>

section \<open>Identities\<close>

record JwtUserClaims =
  jc_sub :: string
  jc_username :: string
  jc_is_admin :: bool
  jc_exp :: nat
  jc_iat :: nat
  jc_storage_shard :: string

datatype AuthMethod = Session (session_hash: string) | Jwt (method_claims: JwtUserClaims)

record DreamscrollAuthUser =
  au_id :: int
  au_username :: string
  au_is_admin :: bool
  au_storage_shard :: string
  au_method :: AuthMethod

definition jwt_claims :: "DreamscrollAuthUser \<Rightarrow> JwtUserClaims option" where
  "jwt_claims self = (case au_method self of Jwt claims \<Rightarrow> Some claims | Session _ \<Rightarrow> None)"

definition from_db_model :: "user_row \<Rightarrow> DreamscrollAuthUser" where
  "from_db_model user_model =
     \<lparr>au_id = us_id user_model, au_username = us_username user_model,
      au_is_admin = us_is_admin user_model, au_storage_shard = us_storage_shard user_model,
      au_method = Session (us_password_hash user_model)\<rparr>"

text \<open>\<open>session_auth_hash\<close> panics on a token user: \<open>None\<close>.\<close>

definition session_auth_hash :: "DreamscrollAuthUser \<Rightarrow> string option" where
  "session_auth_hash self =
     (case au_method self of Session h \<Rightarrow> Some h | Jwt _ \<Rightarrow> None)"

definition try_from_claims :: "JwtUserClaims \<Rightarrow> AuthError + DreamscrollAuthUser" where
  "try_from_claims claims =
     (case parse_i32 (jc_sub claims) of
        None \<Rightarrow> Inl InvalidToken
      | Some i \<Rightarrow> Inr \<lparr>au_id = i, au_username = jc_username claims, au_is_admin = jc_is_admin claims,
                      au_storage_shard = jc_storage_shard claims, au_method = Jwt claims\<rparr>)"

record Context =
  ctx_user :: DreamscrollAuthUser

definition context_from :: "DreamscrollAuthUser \<Rightarrow> Context" where
  "context_from user = \<lparr>ctx_user = user\<rparr>"

definition ctx_is_admin :: "Context \<Rightarrow> bool" where
  "ctx_is_admin self = au_is_admin (ctx_user self)"

definition ctx_user_id :: "Context \<Rightarrow> int" where
  "ctx_user_id self = au_id (ctx_user self)"

definition ctx_storage_shard :: "Context \<Rightarrow> string" where
  "ctx_storage_shard self = au_storage_shard (ctx_user self)"

section \<open>Passwords\<close>

text \<open>
  \<open>argon2\<close>: hashing may fail, a stored hash may not parse, and a parsed hash accepts or
  rejects a password.
\<close>

record argon2 =
  hash_password :: "string \<Rightarrow> string + string"
  parse_hash :: "string \<Rightarrow> string + string"
  verify_password :: "string \<Rightarrow> string \<Rightarrow> bool"

definition hash :: "argon2 \<Rightarrow> string \<Rightarrow> AuthError + string" where
  "hash A password =
     (case hash_password A password of Inl e \<Rightarrow> Inl (PasswordHashError e) | Inr h \<Rightarrow> Inr h)"

definition verify_hash :: "argon2 \<Rightarrow> string \<Rightarrow> string \<Rightarrow> AuthError + bool" where
  "verify_hash A password_hash password =
     (case parse_hash A password_hash of
        Inl e \<Rightarrow> Inl (PasswordHashError e)
      | Inr parsed \<Rightarrow> Inr (verify_password A parsed password))"

definition find_by_username :: "string \<Rightarrow> user_row list \<Rightarrow> user_row option" where
  "find_by_username u rows = find (\<lambda>r. us_username r = u) rows"

text \<open>
  An unknown user runs a verification against a constant hash whose result is dropped, so
  it leaves no trace here.
\<close>

definition authenticate ::
  "argon2 \<Rightarrow> env \<Rightarrow> string \<Rightarrow> string \<Rightarrow> (world, AuthError, DreamscrollAuthUser) comp" where
  "authenticate A E u p =
     bindM (map_errM AuthDatabase (select E (\<lambda>w. find_by_username u (users w)))) (\<lambda>found.
     case found of
       None \<Rightarrow> throwM InvalidCredentials
     | Some db_user \<Rightarrow>
         bindM (liftM (verify_hash A (us_password_hash db_user) p)) (\<lambda>ok.
         if ok then returnM (from_db_model db_user) else throwM InvalidCredentials))"

definition web_authenticate ::
  "argon2 \<Rightarrow> env \<Rightarrow> string \<Rightarrow> string \<Rightarrow> (world, AuthError, DreamscrollAuthUser option) comp" where
  "web_authenticate A E u p =
     bindM (catchM (authenticate A E u p)) (\<lambda>r.
     case r of
       Inr user \<Rightarrow> returnM (Some user)
     | Inl e \<Rightarrow> if e = InvalidCredentials then returnM None else throwM e)"

definition get_user :: "env \<Rightarrow> int \<Rightarrow> (world, AuthError, DreamscrollAuthUser option) comp" where
  "get_user E user_id =
     bindM (map_errM AuthDatabase (select E (\<lambda>w. find (\<lambda>r. us_id r = user_id) (users w))))
       (\<lambda>row. returnM (map_option from_db_model row))"

section \<open>Tokens\<close>

text \<open>
  \<open>jsonwebtoken\<close>: \<open>jwt_encode\<close> signs claims with a secret; \<open>jwt_decode\<close> takes the secret,
  the leeway and the current time, and checks the signature, the presence of \<open>exp\<close> and
  \<open>sub\<close>, and the expiry.
\<close>

record jsonwebtoken =
  jwt_encode :: "string \<Rightarrow> JwtUserClaims \<Rightarrow> jwt_error_kind + string"
  jwt_decode :: "string \<Rightarrow> nat \<Rightarrow> nat \<Rightarrow> string \<Rightarrow> jwt_error_kind + JwtUserClaims"

record JwtConfig =
  jw_secret :: string
  jw_user_expiration_secs :: nat
  jw_leeway :: nat

text \<open>\<open>from_secret\<close> panics on a secret shorter than 32 bytes: \<open>None\<close>.\<close>

definition from_secret :: "string \<Rightarrow> JwtConfig option" where
  "from_secret secret =
     (if 32 \<le> length secret
      then Some \<lparr>jw_secret = secret, jw_user_expiration_secs = 24 * 60 * 60, jw_leeway = 0\<rparr>
      else None)"

definition with_user_expiration_secs :: "nat \<Rightarrow> JwtConfig \<Rightarrow> JwtConfig" where
  "with_user_expiration_secs secs self = self\<lparr>jw_user_expiration_secs := secs\<rparr>"

definition with_leeway :: "nat \<Rightarrow> JwtConfig \<Rightarrow> JwtConfig" where
  "with_leeway secs self = self\<lparr>jw_leeway := secs\<rparr>"

definition claims_for :: "JwtConfig \<Rightarrow> nat \<Rightarrow> DreamscrollAuthUser \<Rightarrow> JwtUserClaims" where
  "claims_for self now user =
     \<lparr>jc_sub = show_int (au_id user), jc_username = au_username user, jc_is_admin = au_is_admin user,
      jc_exp = (now + jw_user_expiration_secs self) mod 2 ^ 64, jc_iat = now,
      jc_storage_shard = au_storage_shard user\<rparr>"

definition create_user_token ::
  "jsonwebtoken \<Rightarrow> JwtConfig \<Rightarrow> nat \<Rightarrow> DreamscrollAuthUser \<Rightarrow> AuthError + string" where
  "create_user_token J self now user =
     (case jwt_encode J (jw_secret self) (claims_for self now user) of
        Inl k \<Rightarrow> Inl (auth_error_of_jwt k) | Inr token \<Rightarrow> Inr token)"

definition decode_user_token ::
  "jsonwebtoken \<Rightarrow> JwtConfig \<Rightarrow> nat \<Rightarrow> string \<Rightarrow> AuthError + JwtUserClaims" where
  "decode_user_token J self now token =
     (case jwt_decode J (jw_secret self) (jw_leeway self) now token of
        Inl k \<Rightarrow> Inl (auth_error_of_jwt k) | Inr claims \<Rightarrow> Inr claims)"

text \<open>
  The extractor: the configuration comes from the request extensions, the bearer token
  from the \<open>Authorization\<close> header.
\<close>

definition from_request_parts ::
  "jsonwebtoken \<Rightarrow> nat \<Rightarrow> JwtConfig option \<Rightarrow> string option \<Rightarrow> AuthError + DreamscrollAuthUser" where
  "from_request_parts J now config bearer =
     (case config of
        None \<Rightarrow> Inl InvalidToken
      | Some jwt_config \<Rightarrow>
          (case bearer of
             None \<Rightarrow> Inl MissingOrInvalidHeader
           | Some token \<Rightarrow>
               (case decode_user_token J jwt_config now token of
                  Inl e \<Rightarrow> Inl e
                | Inr claims \<Rightarrow> try_from_claims claims)))"

section \<open>Facts\<close>

text \<open>What a signed token documents: its own secret reads back the signed claims until they expire.\<close>

definition verifies :: "jsonwebtoken \<Rightarrow> bool" where
  "verifies J \<longleftrightarrow> (\<forall>k l now c t. jwt_encode J k c = Inr t \<longrightarrow>
     jwt_decode J k l now t = (if now - l \<le> jc_exp c then Inr c else Inl KExpiredSignature))"

lemma issued_token_decodes:
  assumes "verifies J" and "create_user_token J cfg t0 user = Inr token"
    and "in_i32 (au_id user)" and "t0 + jw_user_expiration_secs cfg < 2 ^ 64"
  shows "from_request_parts J now (Some cfg) (Some token) =
           (if now \<le> t0 + jw_user_expiration_secs cfg + jw_leeway cfg
            then Inr (user\<lparr>au_method := Jwt (claims_for cfg t0 user)\<rparr>)
            else Inl InvalidToken)"
proof -
  have enc: "jwt_encode J (jw_secret cfg) (claims_for cfg t0 user) = Inr token"
    using assms(2) by (auto simp: create_user_token_def split: sum.splits)
  have "jc_exp (claims_for cfg t0 user) = t0 + jw_user_expiration_secs cfg"
    using assms(4) by (simp add: claims_for_def)
  moreover have "try_from_claims (claims_for cfg t0 user) = Inr (user\<lparr>au_method := Jwt (claims_for cfg t0 user)\<rparr>)"
    using assms(3) by (cases user) (simp add: try_from_claims_def claims_for_def)
  ultimately show ?thesis
    using assms(1) enc
    by (auto simp: from_request_parts_def decode_user_token_def verifies_def split: sum.splits)
qed

text \<open>
  A token issued to a user authenticates exactly that user, with the rights at
  issuance, until its lifetime plus the leeway is over, and is an invalid token after.
\<close>

theorem token_authenticates_issuer:
  assumes "verifies J" and "create_user_token J cfg t0 user = Inr token"
    and "in_i32 (au_id user)" and "t0 + jw_user_expiration_secs cfg < 2 ^ 64"
  shows "from_request_parts J now (Some cfg) (Some token) =
           (if now \<le> t0 + jw_user_expiration_secs cfg + jw_leeway cfg
            then Inr (user\<lparr>au_method := Jwt (claims_for cfg t0 user)\<rparr>)
            else Inl InvalidToken)"
  using assms by (rule issued_token_decodes)

text \<open>A token library that carries the claims in the clear, for one secret.\<close>

definition demo_jwt :: "JwtUserClaims \<Rightarrow> jsonwebtoken" where
  "demo_jwt c = \<lparr>jwt_encode = (\<lambda>k c'. if c' = c then Inr (''tok'' @ k) else Inl (KOther ''unsupported'')),
     jwt_decode = (\<lambda>k l now t. if t \<noteq> ''tok'' @ k then Inl KInvalidSignature
        else if now - l \<le> jc_exp c then Inr c else Inl KExpiredSignature)\<rparr>"

definition demo_user :: DreamscrollAuthUser where
  "demo_user = \<lparr>au_id = 7, au_username = ''ann'', au_is_admin = False, au_storage_shard = ''s7'',
     au_method = Session ''h''\<rparr>"

definition demo_config :: JwtConfig where
  "demo_config = \<lparr>jw_secret = ''k'', jw_user_expiration_secs = 60, jw_leeway = 5\<rparr>"

theorem token_authenticates_issuer_witness:
  "from_request_parts (demo_jwt (claims_for demo_config 100 demo_user)) 165 (Some demo_config) (Some ''tokk'') =
     Inr (demo_user\<lparr>au_method := Jwt (claims_for demo_config 100 demo_user)\<rparr>) \<and>
   from_request_parts (demo_jwt (claims_for demo_config 100 demo_user)) 166 (Some demo_config) (Some ''tokk'') =
     Inl InvalidToken"
proof -
  have "verifies (demo_jwt c)" for c by (auto simp: verifies_def demo_jwt_def)
  moreover have "create_user_token (demo_jwt (claims_for demo_config 100 demo_user)) demo_config 100 demo_user = Inr ''tokk''"
    by (simp add: create_user_token_def demo_jwt_def demo_config_def)
  moreover have "in_i32 (au_id demo_user)" "100 + jw_user_expiration_secs demo_config < 2 ^ 64"
    by (simp_all add: demo_user_def demo_config_def in_i32_def)
  ultimately show ?thesis
    using token_authenticates_issuer
      [of "demo_jwt (claims_for demo_config 100 demo_user)" demo_config 100 demo_user "''tokk''"]
    by (simp add: demo_config_def)
qed

text \<open>
  Without a database fault, logging in succeeds exactly when the first account of that
  name has a hash that parses and accepts the password, and yields that account's identity;
  a wrong password and an unknown name are both the same refusal, and nothing is written.
\<close>

theorem login_correct:
  assumes "no_faults E"
  shows "authenticate A E u p w =
           (case find_by_username u (users w) of
              None \<Rightarrow> Inl InvalidCredentials
            | Some row \<Rightarrow>
                (case parse_hash A (us_password_hash row) of
                   Inl e \<Rightarrow> Inl (PasswordHashError e)
                 | Inr h \<Rightarrow> if verify_password A h p then Inr (from_db_model row) else Inl InvalidCredentials),
            w\<lparr>tick := Suc (tick w)\<rparr>) \<and>
         fst (web_authenticate A E u p w) =
           (case fst (authenticate A E u p w) of
              Inr user \<Rightarrow> Inr (Some user)
            | Inl e \<Rightarrow> if e = InvalidCredentials then Inr None else Inl e)"
  using assms
  by (auto simp: authenticate_def web_authenticate_def verify_hash_def runs split_beta
      split: option.split sum.split prod.split)

theorem login_correct_witness:
  "\<exists>E A w. no_faults E \<and> fst (authenticate A E ''ann'' ''pw'' w) =
     Inr (from_db_model \<lparr>us_id = 7, us_username = ''ann'', us_email = ''a'', us_password_hash = ''h'',
            us_is_admin = True, us_storage_shard = ''s''\<rparr>)"
proof -
  let ?u = "\<lparr>us_id = 7, us_username = ''ann'', us_email = ''a'', us_password_hash = ''h'',
            us_is_admin = True, us_storage_shard = ''s''\<rparr>"
  let ?A = "\<lparr>hash_password = Inr, parse_hash = Inr, verify_password = (\<lambda>h p. p = ''pw'')\<rparr>"
  have e: "no_faults quiet_env" by simp
  have "fst (authenticate ?A quiet_env ''ann'' ''pw'' (empty_world\<lparr>users := [?u]\<rparr>)) = Inr (from_db_model ?u)"
    using login_correct [OF e, of ?A "''ann''" "''pw''" "empty_world\<lparr>users := [?u]\<rparr>"]
    by (simp add: find_by_username_def)
  with e show ?thesis by blast
qed

end
