(* ===== verification/Task_Master.thy ===== *)
theory Task_Master
  imports Run_Tracker Auth
begin

text \<open>
  \<open>task/taskmaster.rs\<close>: submission of tasks, the attempt lifecycle, and the decisions both
  rest on.
\<close>

section \<open>Decisions\<close>

datatype SubmitOutcome =
    Enqueued string int
  | AlreadySubmittedBackfill string int
  | RefusedAlreadyInFlight

definition decide_next_run :: "task_run_row option \<Rightarrow> int option" where
  "decide_next_run latest_run =
     (case latest_run of
        Some latest \<Rightarrow>
          (case from_i32 (tr_status_code latest) of
             Inr status \<Rightarrow> if is_in_flight status then None else Some (add_i32 (tr_run_number latest) 1)
           | Inl _ \<Rightarrow> Some (add_i32 (tr_run_number latest) 1))
      | None \<Rightarrow> Some 1)"

definition decide_next_attempt :: "task_run_row option \<Rightarrow> int option" where
  "decide_next_attempt status =
     (case status of
        Some row \<Rightarrow>
          if tr_status_code row = as_i32 CompleteSuccess then None
          else if tr_status_code row = as_i32 SubmissionFailed then None
          else Some (add_i32 (tr_attempts row) 1)
      | None \<Rightarrow> Some 1)"

definition decide_will_retry :: "ApiError \<Rightarrow> int \<Rightarrow> int \<Rightarrow> bool" where
  "decide_will_retry err attempt max_attempts \<longleftrightarrow> attempt < max_attempts \<and> is_retryable err"

definition ensure_task_submission_allowed :: "Context \<Rightarrow> task \<Rightarrow> ApiError + unit" where
  "ensure_task_submission_allowed context task =
     (if ctx_is_admin context \<or> ctx_user_id context = entity_owner_id task then Inr ()
      else Inl (forbidden (anyhow_msg ''Only the target entity owner or an admin can submit this task'')))"

text \<open>The builder's default and floor of the attempt budget.\<close>

definition max_attempts_per_run :: "int option \<Rightarrow> int" where
  "max_attempts_per_run max_attempts = max (case max_attempts of Some n \<Rightarrow> n | None \<Rightarrow> 3) 1"

section \<open>Submission\<close>

text \<open>\<open>TaskQueue::enqueue\<close>: the backend holds the run or reports why not.\<close>

definition enqueue :: "env \<Rightarrow> TaskRun \<Rightarrow> (world, anyhow, unit) comp" where
  "enqueue E run w =
     (let w' = w\<lparr>tick := Suc (tick w)\<rparr>
      in case enqueue_fault E (tick w) of
           Some e \<Rightarrow> (Inl e, w')
         | None \<Rightarrow> (Inr (), w'\<lparr>enqueued := enqueued w' @ [run]\<rparr>))"

definition already_submitted ::
  "env \<Rightarrow> string option \<Rightarrow> string \<Rightarrow> (world, anyhow, SubmitOutcome option) comp" where
  "already_submitted E bid lid =
     (case bid of
        None \<Rightarrow> returnM None
      | Some b \<Rightarrow>
          bindM (query_backfill_run E b lid) (\<lambda>row.
          returnM (map_option (\<lambda>r. AlreadySubmittedBackfill (tr_run_id r) (tr_run_number r)) row)))"

text \<open>The tail of \<open>submit_inner\<close>: the run is recorded, now it is handed to the backend.\<close>

definition dispatch_run :: "env \<Rightarrow> TaskRun \<Rightarrow> (world, anyhow, SubmitOutcome) comp" where
  "dispatch_run E run =
     bindM (catchM (enqueue E run)) (\<lambda>result.
     case result of
       Inl enqueue_err \<Rightarrow>
         (let submission_error = internal enqueue_err
          in bindM (set_status E run SubmissionFailed 0 (Some submission_error)) (\<lambda>_.
             throwM (anyhow_of_api submission_error)))
     | Inr _ \<Rightarrow> returnM (Enqueued (run_id run) (run_number run)))"

definition submit_inner ::
  "env \<Rightarrow> task \<Rightarrow> string option \<Rightarrow> (world, anyhow, SubmitOutcome) comp" where
  "submit_inner E task bid =
     (let lid = make_logical_id task in
      bindM (already_submitted E bid lid) (\<lambda>first.
      case first of
        Some outcome \<Rightarrow> returnM outcome
      | None \<Rightarrow>
          bindM (query_run_status E lid None None) (\<lambda>latest.
          case decide_next_run latest of
            None \<Rightarrow>
              bindM (already_submitted E bid lid) (\<lambda>again.
              returnM (case again of Some outcome \<Rightarrow> outcome | None \<Rightarrow> RefusedAlreadyInFlight))
          | Some next_run \<Rightarrow>
              bindM (new_uuid E) (\<lambda>uuid.
              let task_run = (task_run_new uuid task next_run)\<lparr>backfill_id := bid\<rparr> in
              bindM (insert_run E task_run) (\<lambda>inserted.
              if \<not> inserted then
                bindM (already_submitted E bid lid) (\<lambda>again.
                returnM (case again of Some outcome \<Rightarrow> outcome | None \<Rightarrow> RefusedAlreadyInFlight))
              else dispatch_run E task_run)))))"

definition submit_illuminate ::
  "env \<Rightarrow> Context \<Rightarrow> IlluminationTask \<Rightarrow> string option \<Rightarrow> (world, ApiError, SubmitOutcome) comp" where
  "submit_illuminate E context task bid =
     bindM (liftM (ensure_task_submission_allowed context (Illuminate task))) (\<lambda>_.
     map_errM internal (submit_inner E (Illuminate task) bid))"

definition submit_spark ::
  "env \<Rightarrow> Context \<Rightarrow> SparkTask \<Rightarrow> string option \<Rightarrow> (world, ApiError, SubmitOutcome) comp" where
  "submit_spark E context task bid =
     (if sk_capture_ids task = []
      then throwM (bad_request (anyhow_msg ''submit_spark requires at least one capture_id''))
      else bindM (liftM (ensure_task_submission_allowed context (Spark task))) (\<lambda>_.
           map_errM internal (submit_inner E (Spark task) bid)))"

definition submit_search_index ::
  "env \<Rightarrow> Context \<Rightarrow> SearchIndexTask \<Rightarrow> string option \<Rightarrow> (world, ApiError, SubmitOutcome) comp" where
  "submit_search_index E context task bid =
     bindM (liftM (ensure_task_submission_allowed context (SearchIndex task))) (\<lambda>_.
     map_errM internal (submit_inner E (SearchIndex task) bid))"

definition submit_search_index_from_worker ::
  "env \<Rightarrow> SearchIndexTask \<Rightarrow> string option \<Rightarrow> (world, anyhow, SubmitOutcome) comp" where
  "submit_search_index_from_worker E task bid = submit_inner E (SearchIndex task) bid"

section \<open>Attempts\<close>

definition begin_attempt :: "env \<Rightarrow> TaskRun \<Rightarrow> (world, anyhow, int option) comp" where
  "begin_attempt E run =
     bindM (query_run_by_id E (run_id run) None) (\<lambda>status.
     case decide_next_attempt status of
       None \<Rightarrow> returnM None
     | Some attempt \<Rightarrow>
         bindM (mark_in_progress E run attempt) (\<lambda>_. returnM (Some attempt)))"

definition finish_attempt ::
  "env \<Rightarrow> int \<Rightarrow> TaskRun \<Rightarrow> int \<Rightarrow> ApiError + unit \<Rightarrow> (world, anyhow, TaskRunStatus) comp" where
  "finish_attempt E max_attempts run attempt run_result =
     (case run_result of
        Inr _ \<Rightarrow>
          bindM (record_outcome E run CompleteSuccess attempt None) (\<lambda>_. returnM CompleteSuccess)
      | Inl err \<Rightarrow>
          (let status = (if decide_will_retry err attempt max_attempts then ErrorWillRetry else CompleteFailure)
           in bindM (record_outcome E run status attempt (Some err)) (\<lambda>_. returnM status)))"

definition master_query_run_status ::
  "env \<Rightarrow> Context \<Rightarrow> string \<Rightarrow> (world, anyhow, task_run_row option) comp" where
  "master_query_run_status E context rid = query_run_by_id E rid (Some (ctx_user_id context))"

section \<open>What submission decides\<close>

text \<open>
  The specification of a submission on the table alone: the row that already claims the
  backfill, refusal, or the ordinal of the new run.
\<close>

datatype submission = Claimed task_run_row | Refused | Next int

definition submission_decision :: "task_run_row list \<Rightarrow> string option \<Rightarrow> string \<Rightarrow> submission" where
  "submission_decision rows bid lid =
     (case Option.bind bid (\<lambda>b. find (\<lambda>r. tr_backfill_id r = Some b \<and> tr_logical_id r = lid) rows) of
        Some r \<Rightarrow> Claimed r
      | None \<Rightarrow>
          (case decide_next_run (latest_matching (\<lambda>r. tr_logical_id r = lid) rows) of
             None \<Rightarrow> Refused | Some n \<Rightarrow> Next n))"

text \<open>Room for one more ordinal and a supply of unused run ids.\<close>

definition fresh_ids :: "env \<Rightarrow> task_run_row list \<Rightarrow> bool" where
  "fresh_ids E rows \<longleftrightarrow> (\<forall>n. \<forall>r \<in> set rows. tr_run_id r \<noteq> uuid_at E n)"

definition ordinals_left :: "task_run_row list \<Rightarrow> bool" where
  "ordinals_left rows \<longleftrightarrow> (\<forall>r \<in> set rows. - 2147483648 \<le> tr_run_number r \<and> tr_run_number r < 2147483647)"

lemma run_already_submitted:
  "no_faults E \<Longrightarrow> \<exists>n. already_submitted E bid lid w =
     (Inr (map_option (\<lambda>r. AlreadySubmittedBackfill (tr_run_id r) (tr_run_number r))
        (Option.bind bid (\<lambda>b. find (\<lambda>r. tr_backfill_id r = Some b \<and> tr_logical_id r = lid) (task_runs w)))),
      w\<lparr>tick := n\<rparr>)"
  by (cases bid) (auto simp: already_submitted_def query_backfill_run_def runs intro: exI [of _ "tick w"])

lemma latest_matching_SomeD:
  "latest_matching p rows = Some r \<Longrightarrow> r \<in> set rows \<and> p r \<and> (\<forall>s \<in> set rows. p s \<longrightarrow> tr_run_number s \<le> tr_run_number r)"
  unfolding latest_matching_def by (drule find_max_by_SomeD) auto

lemma latest_matching_None: "latest_matching p rows = None \<longleftrightarrow> (\<forall>r \<in> set rows. \<not> p r)"
  by (auto simp: latest_matching_def filter_empty_conv)

lemma decide_next_run_fresh:
  assumes "ordinals_left rows"
    and "decide_next_run (latest_matching (\<lambda>r. tr_logical_id r = lid) rows) = Some n"
    and "r \<in> set rows" and "tr_logical_id r = lid"
  shows "tr_run_number r < n"
proof (cases "latest_matching (\<lambda>r. tr_logical_id r = lid) rows")
  case None
  with assms(3,4) show ?thesis by (auto simp: latest_matching_None)
next
  case (Some l)
  note l = latest_matching_SomeD [OF Some]
  then have "add_i32 (tr_run_number l) 1 = tr_run_number l + 1"
    using assms(1) by (intro add_i32_exact) (auto simp: ordinals_left_def in_i32_def)
  with Some assms(2) have "n = tr_run_number l + 1"
    by (auto simp: decide_next_run_def split: sum.splits if_splits)
  with l assms(3,4) show ?thesis by force
qed

lemma decide_next_run_in_i32: "decide_next_run l = Some n \<Longrightarrow> in_i32 n"
  by (auto simp: decide_next_run_def add_i32_def in_i32_def [of 1] split: option.splits sum.splits if_splits)

section \<open>Submission without a competitor\<close>

lemma conflict_free:
  assumes "\<And>r. r \<in> set rows \<Longrightarrow> tr_run_id r \<noteq> run_id run"
    and "\<And>r. r \<in> set rows \<Longrightarrow> tr_logical_id r = logical_id run \<Longrightarrow> tr_run_number r \<noteq> run_number run"
    and "\<And>r b. r \<in> set rows \<Longrightarrow> backfill_id run = Some b \<Longrightarrow> tr_backfill_id r = Some b
           \<Longrightarrow> tr_logical_id r \<noteq> logical_id run"
  shows "task_run_conflicts E rows (new_task_run_row run i now) = []"
  using assms by (auto simp: task_run_conflicts_def new_task_run_row_def)

lemma insert_run_ok:
  assumes "no_faults E" and "\<And>i now. task_run_conflicts E (task_runs w) (new_task_run_row run i now) = []"
  obtains w' where "insert_run E run w = (Inr True, w')"
    and "task_runs w' = task_runs w @ [new_task_run_row run (next_id tr_id (task_runs w)) (clock E (tick w))]"
    and "enqueued w' = enqueued w"
proof -
  let ?row = "new_task_run_row run (next_id tr_id (task_runs w)) (clock E (tick w))"
  let ?w1 = "w\<lparr>tick := Suc (tick w), task_runs := task_runs w @ [?row]\<rparr>"
  obtain w' where pub: "(publish E ?row :: (world, anyhow, unit) comp) ?w1 = (Inr (), w')"
    by (rule publishE)
  have "task_runs w' = task_runs ?w1" "enqueued w' = enqueued ?w1"
    by (rule leaves_run [OF leaves_publish pub]; simp)+
  moreover have "insert_run E run w = (Inr True, w')"
    using assms pub by (simp add: insert_run_def insert_task_run_row_def runs Let_def)
  ultimately show thesis using that by simp
qed

lemma leaves_set_status [frame]:
  assumes "\<And>w n. f (w\<lparr>tick := n\<rparr>) = f w" and "\<And>w p. f (w\<lparr>timings := p\<rparr>) = f w"
    and "\<And>w p. f (w\<lparr>published := p\<rparr>) = f w" and "\<And>w p. f (w\<lparr>task_runs := p\<rparr>) = f w"
  shows "leaves f (set_status E run status attempts err)"
  unfolding set_status_def by (rule leaves_write_status) (fact assms)+

lemma update_where_snoc:
  "(\<And>r. r \<in> set rows \<Longrightarrow> \<not> p r) \<Longrightarrow> p row \<Longrightarrow> update_where p f (rows @ [row]) = rows @ [f row]"
  by (auto simp: update_where_def intro: map_idI)

definition failed_row :: "timestamp \<Rightarrow> anyhow \<Rightarrow> task_run_row \<Rightarrow> task_run_row" where
  "failed_row now e row = with_error_columns (internal e)
     (row\<lparr>tr_status_code := as_i32 SubmissionFailed, tr_attempts := 0, tr_updated_at := now\<rparr>)"

lemma dispatch_run_result:
  assumes "no_faults E" and "task_runs w = rows @ [row]" and "tr_run_id row = run_id run"
    and "\<And>r. r \<in> set rows \<Longrightarrow> tr_run_id r \<noteq> run_id run" and "dispatch_run E run w = (res, w')"
  shows "case enqueue_fault E (tick w) of
           None \<Rightarrow> res = Inr (Enqueued (run_id run) (run_number run)) \<and> task_runs w' = rows @ [row] \<and>
                   enqueued w' = enqueued w @ [run]
         | Some e \<Rightarrow> res = Inl e \<and> (\<exists>now. task_runs w' = rows @ [failed_row now e row]) \<and>
                   enqueued w' = enqueued w"
proof (cases "enqueue_fault E (tick w)")
  case None
  with assms show ?thesis by (auto simp: dispatch_run_def enqueue_def runs Let_def)
next
  case (Some e)
  let ?w1 = "w\<lparr>tick := Suc (tick w)\<rparr>"
  obtain r2 w2 where st: "set_status E run SubmissionFailed 0 (Some (internal e)) ?w1 = (r2, w2)" by fastforce
  have "r2 = Inr () \<and> task_runs w2 = rows @ [failed_row (clock E (Suc (tick w))) e row]"
    using write_status_result [OF st [unfolded set_status_def]] assms
    by (simp add: no_faults_def update_where_snoc written_row_def failed_row_def)
  moreover have "enqueued w2 = enqueued w"
    using leaves_run [OF leaves_set_status st, of enqueued] by simp
  ultimately show ?thesis
    using Some assms(5) st
    by (auto simp: dispatch_run_def enqueue_def runs Let_def anyhow_of_api_def internal_def)
qed

lemma submission_decision_Next:
  assumes "submission_decision rows bid lid = Next k"
  shows "Option.bind bid (\<lambda>b. find (\<lambda>r. tr_backfill_id r = Some b \<and> tr_logical_id r = lid) rows) = None"
    and "decide_next_run (latest_matching (\<lambda>r. tr_logical_id r = lid) rows) = Some k"
  using assms by (auto simp: submission_decision_def split: option.splits)

lemma submit_inner_result:
  assumes "no_faults E" and "fresh_ids E (task_runs w)" and "ordinals_left (task_runs w)"
    and "submit_inner E task bid w = (res, w')"
  shows "case submission_decision (task_runs w) bid (make_logical_id task) of
           Claimed r \<Rightarrow> res = Inr (AlreadySubmittedBackfill (tr_run_id r) (tr_run_number r)) \<and>
                        (\<exists>n. w' = w\<lparr>tick := n\<rparr>)
         | Refused \<Rightarrow> res = Inr RefusedAlreadyInFlight \<and> (\<exists>n. w' = w\<lparr>tick := n\<rparr>)
         | Next k \<Rightarrow>
             \<exists>uuid now n. uuid \<in> range (uuid_at E) \<and>
               (let run = (task_run_new uuid task k)\<lparr>backfill_id := bid\<rparr>;
                    row = new_task_run_row run (next_id tr_id (task_runs w)) now
                in case enqueue_fault E n of
                     None \<Rightarrow> res = Inr (Enqueued uuid k) \<and> task_runs w' = task_runs w @ [row] \<and>
                             enqueued w' = enqueued w @ [run]
                   | Some e \<Rightarrow> res = Inl e \<and> (\<exists>now'. task_runs w' = task_runs w @ [failed_row now' e row]) \<and>
                             enqueued w' = enqueued w)"
proof -
  let ?lid = "make_logical_id task"
  let ?claim = "Option.bind bid (\<lambda>b. find (\<lambda>r. tr_backfill_id r = Some b \<and> tr_logical_id r = ?lid) (task_runs w))"
  obtain n1 where first: "already_submitted E bid ?lid w =
      (Inr (map_option (\<lambda>r. AlreadySubmittedBackfill (tr_run_id r) (tr_run_number r)) ?claim), w\<lparr>tick := n1\<rparr>)"
    using run_already_submitted [OF assms(1)] by blast
  let ?w2 = "w\<lparr>tick := Suc n1\<rparr>"
  obtain n2 where again: "already_submitted E bid ?lid ?w2 =
      (Inr (map_option (\<lambda>r. AlreadySubmittedBackfill (tr_run_id r) (tr_run_number r)) ?claim), w\<lparr>tick := n2\<rparr>)"
    using run_already_submitted [OF assms(1), of bid ?lid ?w2] by auto
  have query: "query_run_status E ?lid None None (w\<lparr>tick := n1\<rparr>) =
      (Inr (latest_matching (\<lambda>r. tr_logical_id r = ?lid) (task_runs w)), ?w2)"
    using assms(1) by (simp add: query_run_status_def runs)
  show ?thesis
  proof (cases "submission_decision (task_runs w) bid ?lid")
    case (Claimed r)
    then have "?claim = Some r" by (auto simp: submission_decision_def split: option.splits)
    with first assms(4) Claimed show ?thesis by (auto simp: submit_inner_def runs Let_def)
  next
    case Refused
    then have "?claim = None" "decide_next_run (latest_matching (\<lambda>r. tr_logical_id r = ?lid) (task_runs w)) = None"
      by (auto simp: submission_decision_def split: option.splits)
    with first query again assms(4) Refused show ?thesis by (auto simp: submit_inner_def runs Let_def)
  next
    case (Next k)
    note claim = submission_decision_Next [OF Next]
    let ?uuid = "uuid_at E (Suc n1)"
    let ?run = "(task_run_new ?uuid task k)\<lparr>backfill_id := bid\<rparr>"
    let ?w3 = "w\<lparr>tick := Suc (Suc n1)\<rparr>"
    have free: "task_run_conflicts E (task_runs ?w3) (new_task_run_row ?run i now) = []" for i now
      using assms(2) claim decide_next_run_fresh [OF assms(3) claim(2)]
      by (intro conflict_free)
         (auto simp: fresh_ids_def task_run_new_def find_None_iff dest: less_imp_neq)
    from insert_run_ok [OF assms(1) free] obtain w4 where ins: "insert_run E ?run ?w3 = (Inr True, w4)"
      and rows: "task_runs w4 = task_runs w @ [new_task_run_row ?run (next_id tr_id (task_runs w)) (clock E (Suc (Suc n1)))]"
      and queue: "enqueued w4 = enqueued w" by auto
    have disp: "dispatch_run E ?run w4 = (res, w')"
      using assms(4) first query claim ins by (simp add: submit_inner_def runs Let_def)
    have "run_id ?run = ?uuid" by (simp add: task_run_new_def)
    moreover have "run_number ?run = k" by (simp add: task_run_new_def)
    moreover have "tr_run_id (new_task_run_row ?run i now) = run_id ?run" for i now
      by (simp add: new_task_run_row_def)
    moreover have "tr_run_id r \<noteq> run_id ?run" if "r \<in> set (task_runs w)" for r
      using that assms(2) by (simp add: fresh_ids_def task_run_new_def)
    ultimately show ?thesis
      using dispatch_run_result [OF assms(1) rows _ _ disp] queue
      unfolding Next submission.case Let_def
      by (intro exI [of _ ?uuid] exI [of _ "clock E (Suc (Suc n1))"] exI [of _ "tick w4"])
         (simp split: option.splits)
  qed
qed

text \<open>
  C12: what one submission does when no statement fails, on every branch. Work that its
  backfill already claimed is reported with the claiming run; a task whose latest run is
  in flight is refused; both leave the tables and the queues as they were. Otherwise one
  run is recorded, with the ordinal after the latest, and handed to the queue; if the
  backend refuses it, its row says so, carries the error, and the error is returned.
\<close>

theorem submit_inner_correct:
  assumes "no_faults E" and "fresh_ids E (task_runs w)" and "ordinals_left (task_runs w)"
    and "submit_inner E task bid w = (res, w')"
  shows "case submission_decision (task_runs w) bid (make_logical_id task) of
           Claimed r \<Rightarrow> res = Inr (AlreadySubmittedBackfill (tr_run_id r) (tr_run_number r)) \<and>
                        (\<exists>n. w' = w\<lparr>tick := n\<rparr>)
         | Refused \<Rightarrow> res = Inr RefusedAlreadyInFlight \<and> (\<exists>n. w' = w\<lparr>tick := n\<rparr>)
         | Next k \<Rightarrow>
             \<exists>uuid now n. uuid \<in> range (uuid_at E) \<and>
               (let run = (task_run_new uuid task k)\<lparr>backfill_id := bid\<rparr>;
                    row = new_task_run_row run (next_id tr_id (task_runs w)) now
                in case enqueue_fault E n of
                     None \<Rightarrow> res = Inr (Enqueued uuid k) \<and> task_runs w' = task_runs w @ [row] \<and>
                             enqueued w' = enqueued w @ [run]
                   | Some e \<Rightarrow> res = Inl e \<and> (\<exists>now'. task_runs w' = task_runs w @ [failed_row now' e row]) \<and>
                             enqueued w' = enqueued w)"
  using assms by (rule submit_inner_result)

theorem submit_inner_correct_witness:
  "fst (submit_inner quiet_env (SearchIndex \<lparr>st_capture_id = 4, st_entity_owner_id = 1\<rparr>) None empty_world)
     = Inr (Enqueued ''id1'' 1)"
proof -
  let ?t = "SearchIndex \<lparr>st_capture_id = 4, st_entity_owner_id = 1\<rparr>"
  obtain res w' where run: "submit_inner quiet_env ?t None empty_world = (res, w')" by fastforce
  have "submission_decision (task_runs empty_world) None (make_logical_id ?t) = Next 1"
    by (simp add: submission_decision_def empty_world_def latest_matching_def decide_next_run_def)
  then have "\<exists>uuid. res = Inr (Enqueued uuid 1)"
    using submit_inner_correct [OF _ _ _ run]
    by (auto simp: fresh_ids_def ordinals_left_def empty_world_def quiet_env_def no_faults_def Let_def)
  moreover have "fst (submit_inner quiet_env ?t None empty_world) = Inr (Enqueued ''id1'' 1)"
    by code_simp
  ultimately show ?thesis by simp
qed

section \<open>Accounting under every failure\<close>

text \<open>
  Whatever fails, the table keeps its keys, every run a backend holds has its row, and no
  run was handed over twice.
\<close>

definition row_of_run :: "TaskRun \<Rightarrow> task_run_row \<Rightarrow> bool" where
  "row_of_run run row \<longleftrightarrow> tr_run_id row = run_id run \<and> tr_logical_id row = logical_id run \<and>
     tr_run_number row = run_number run \<and> tr_backfill_id row = backfill_id run"

definition accounted :: "world \<Rightarrow> bool" where
  "accounted w \<longleftrightarrow> wf_world w \<and> distinct (map run_id (enqueued w)) \<and>
     (\<forall>run \<in> set (enqueued w). \<exists>row \<in> set (task_runs w). row_of_run run row)"

lemma tick_free_accounted [simp]: "tick_free accounted"
  by (simp add: tick_free_def accounted_def)

lemma row_of_run_written [simp]:
  "status_only extras \<Longrightarrow> row_of_run run (written_row now status attempts extras row) = row_of_run run row"
  using identityD [OF identity_written_row, of extras now status attempts row] by (simp add: row_of_run_def)

lemma row_of_run_update:
  assumes "status_only extras" and "row \<in> set rows" and "row_of_run run row"
  shows "\<exists>row' \<in> set (update_where hit (written_row now status attempts extras) rows). row_of_run run row'"
  using assms
  by (intro bexI [of _ "if hit row then written_row now status attempts extras row else row"])
     (auto simp: set_update_where)

lemma keeps_accounted_write_status [keep]:
  assumes "status_only extras"
  shows "keeps accounted (write_status E run status attempts extras)"
proof (rule keepsI)
  fix w assume w: "accounted w"
  let ?w' = "snd (write_status E run status attempts extras w)"
  have "wf_world ?w'"
    using keepsD [OF keeps_wf_write_status [OF assms]] w by (simp add: accounted_def)
  moreover have "enqueued ?w' = enqueued w" by (rule leavesD [OF leaves_write_status]) simp_all
  moreover have "\<exists>row \<in> set (task_runs ?w'). row_of_run r row" if r: "r \<in> set (enqueued w)" for r
  proof -
    from w r obtain row where row: "row \<in> set (task_runs w)" "row_of_run r row"
      by (auto simp: accounted_def)
    have "task_runs ?w' = task_runs w \<or> (\<exists>now hit. task_runs ?w' = update_where hit
             (written_row now status attempts extras) (task_runs w))"
      using write_status_result [of E run status attempts extras w, OF prod.collapse [symmetric]]
      by (auto split: option.splits)
    with row row_of_run_update [OF assms row(1)] show ?thesis by metis
  qed
  ultimately show "accounted ?w'" using w by (simp add: accounted_def)
qed

lemma keeps_accounted_status [keep]:
  "keeps accounted (set_status E run status attempts err)"
  "keeps accounted (mark_in_progress E run attempts)"
  "keeps accounted (record_outcome E run status attempts err)"
  unfolding set_status_def mark_in_progress_def record_outcome_def by (intro keep status_only_extras)+

lemma insert_run_accounted [wp]:
  assumes "wf_run run"
  shows "triple accounted (insert_run E run)
           (\<lambda>inserted w. accounted w \<and> (inserted \<longrightarrow> run_id run \<notin> run_id ` set (enqueued w) \<and>
              (\<exists>row \<in> set (task_runs w). row_of_run run row)))
           (\<lambda>_. accounted)"
proof -
  have main: "case r of
          Inr b \<Rightarrow> accounted w' \<and> (b \<longrightarrow> run_id run \<notin> run_id ` set (enqueued w') \<and>
              (\<exists>row \<in> set (task_runs w'). row_of_run run row))
        | Inl e \<Rightarrow> accounted w'"
    if w: "accounted w" and res: "insert_run E run w = (r, w')" for w r w'
  proof -
    have wf: "wf_world w'" using keepsD [OF keeps_wf_insert_run [OF assms, of E], of w] w res
      by (simp add: accounted_def)
    have q: "enqueued w' = enqueued w" by (rule leaves_run [OF leaves_insert_run res]) simp_all
    from insert_run_result [OF res] show ?thesis
    proof (elim disjE conjE exE)
      fix i now
      let ?row = "new_task_run_row run i now"
      assume r: "r = Inr True" and rows: "task_runs w' = task_runs w @ [?row]"
        and free: "task_run_conflicts E (task_runs w) ?row = []"
      have "row_of_run run ?row" by (simp add: row_of_run_def new_task_run_row_def)
      moreover have "run_id run \<notin> run_id ` set (enqueued w)"
        using w free by (force simp: accounted_def row_of_run_def task_run_conflicts_def new_task_run_row_def split: if_splits)
      ultimately show ?thesis using w q wf r rows by (auto simp: accounted_def)
    qed (use w q wf in \<open>auto simp: accounted_def split: sum.split\<close>)
  qed
  show ?thesis by (rule tripleI) (use main in fastforce)+
qed

lemma dispatch_run_accounted [wp]:
  "triple (\<lambda>w. accounted w \<and> run_id run \<notin> run_id ` set (enqueued w) \<and> (\<exists>row \<in> set (task_runs w). row_of_run run row))
     (dispatch_run E run) (\<lambda>_. accounted) (\<lambda>_. accounted)"
proof -
  have "accounted (snd (dispatch_run E run w))"
    if w: "accounted w" "run_id run \<notin> run_id ` set (enqueued w)" "\<exists>row \<in> set (task_runs w). row_of_run run row" for w
  proof (cases "enqueue_fault E (tick w)")
    case None
    with w show ?thesis by (auto simp: dispatch_run_def enqueue_def runs Let_def accounted_def)
  next
    case (Some e)
    have "accounted (w\<lparr>tick := Suc (tick w)\<rparr>)" using w by (simp add: accounted_def)
    from keepsD [OF keeps_accounted_status(1) [of E run SubmissionFailed 0 "Some (internal e)"] this] Some show ?thesis
      by (auto simp: dispatch_run_def enqueue_def runs Let_def split: prod.split sum.split)
  qed
  then show ?thesis by (intro tripleI) (metis snd_conv)+
qed

lemma leaves_query [frame]:
  assumes "\<And>w n. f (w\<lparr>tick := n\<rparr>) = f w"
  shows "leaves f (query_run_status E lid num owner)" "leaves f (query_backfill_run E b lid)"
    "leaves f (query_run_by_id E rid owner)" "leaves f (already_submitted E bid lid)"
  unfolding query_run_status_def query_backfill_run_def query_run_by_id_def already_submitted_def
  by (auto intro!: frame simp: assms)

lemma leaves_enqueue [frame]:
  assumes "\<And>w n. f (w\<lparr>tick := n\<rparr>) = f w" and "\<And>w q. f (w\<lparr>enqueued := q\<rparr>) = f w"
  shows "leaves f (enqueue E run)"
  using assms by (auto simp: leaves_def enqueue_def Let_def split: option.split)

lemma leaves_submit_inner [frame]:
  assumes "\<And>w n. f (w\<lparr>tick := n\<rparr>) = f w" and "\<And>w q. f (w\<lparr>enqueued := q\<rparr>) = f w"
    and "\<And>w p. f (w\<lparr>timings := p\<rparr>) = f w" and "\<And>w p. f (w\<lparr>published := p\<rparr>) = f w"
    and "\<And>w p. f (w\<lparr>task_runs := p\<rparr>) = f w"
  shows "leaves f (submit_inner E task bid)"
  unfolding submit_inner_def dispatch_run_def Let_def
  by (intro frame) (simp_all add: assms)

lemma keeps_query [keep]:
  assumes "tick_free I"
  shows "keeps I (query_run_status E lid num owner)" "keeps I (query_backfill_run E b lid)"
    "keeps I (query_run_by_id E rid owner)" "keeps I (already_submitted E bid lid)"
  unfolding query_run_status_def query_backfill_run_def query_run_by_id_def already_submitted_def
  by (auto intro!: keep simp: assms)

lemma insert_then_dispatch_accounted [keep]:
  assumes "wf_run run" and "keeps accounted other"
  shows "keeps accounted (bindM (insert_run E run) (\<lambda>inserted. if \<not> inserted then other else dispatch_run E run))"
  by (rule triple_bindM [OF insert_run_accounted [OF assms(1)]], rule triple_if)
     (auto intro: triple_weaken [OF assms(2)] triple_weaken [OF dispatch_run_accounted])

text \<open>
  C13: submission accounts for every run under every failure of the database, the queue
  and the notifier, and under every answer of the clock and the UUID source: the keys of
  the table stay unique, no run is handed to a backend without its row, and none twice.
  An attempt that begins or ends keeps this too.
\<close>

theorem task_master_accounts_for_runs:
  "keeps accounted (submit_inner E task bid) \<and>
   keeps accounted (begin_attempt E run) \<and>
   keeps accounted (finish_attempt E max_attempts run attempt result)"
proof (intro conjI)
  have "wf_run ((task_run_new uuid task n)\<lparr>backfill_id := bid\<rparr>)" if "decide_next_run l = Some n" for uuid n l
    using decide_next_run_in_i32 [OF that] by (simp add: wf_run_def task_run_new_def)
  then show "keeps accounted (submit_inner E task bid)"
    unfolding submit_inner_def Let_def
    by (intro keep insert_then_dispatch_accounted keeps_query tick_free_accounted keeps_bindM) auto
qed (auto simp: begin_attempt_def finish_attempt_def Let_def intro!: keep)

section \<open>Authorization\<close>

text \<open>
  Only the owner of the target, or an administrator, can submit work on it. Anyone
  else is refused with 403 before anything is read or written; for the others the outcome
  is that of the submission itself, its errors reported as internal. An empty spark is a
  bad request whoever asks.
\<close>

theorem submission_authorization:
  "submit_illuminate E c it bid w =
     (if ctx_is_admin c \<or> ctx_user_id c = it_entity_owner_id it
      then map_errM internal (submit_inner E (Illuminate it) bid) w
      else (Inl (forbidden (anyhow_msg ''Only the target entity owner or an admin can submit this task'')), w)) \<and>
   submit_search_index E c st bid w =
     (if ctx_is_admin c \<or> ctx_user_id c = st_entity_owner_id st
      then map_errM internal (submit_inner E (SearchIndex st) bid) w
      else (Inl (forbidden (anyhow_msg ''Only the target entity owner or an admin can submit this task'')), w)) \<and>
   submit_spark E c sk bid w =
     (if sk_capture_ids sk = []
      then (Inl (bad_request (anyhow_msg ''submit_spark requires at least one capture_id'')), w)
      else if ctx_is_admin c \<or> ctx_user_id c = sk_entity_owner_id sk
      then map_errM internal (submit_inner E (Spark sk) bid) w
      else (Inl (forbidden (anyhow_msg ''Only the target entity owner or an admin can submit this task'')), w))"
  by (simp add: submit_illuminate_def submit_search_index_def submit_spark_def runs
      ensure_task_submission_allowed_def)

section \<open>What an attempt does\<close>

lemma write_status_no_faults:
  assumes "no_faults E"
  obtains w' where "write_status E run status attempts extras w = (Inr (), w')"
    and "task_runs w' = update_where (\<lambda>r. tr_run_id r = run_id run)
           (written_row (clock E (tick w)) status attempts extras) (task_runs w)"
    and "\<And>f. (\<And>w n. f (w\<lparr>tick := n\<rparr>) = f w) \<Longrightarrow> (\<And>w p. f (w\<lparr>timings := p\<rparr>) = f w) \<Longrightarrow>
           (\<And>w p. f (w\<lparr>published := p\<rparr>) = f w) \<Longrightarrow> (\<And>w p. f (w\<lparr>task_runs := p\<rparr>) = f w) \<Longrightarrow> f w' = f w"
proof -
  obtain r w' where run: "write_status E run status attempts extras w = (r, w')" by fastforce
  show thesis
    using write_status_result [OF run] assms run leaves_run [OF leaves_write_status run]
    by (intro that [of w']) (auto simp: no_faults_def)
qed

lemma write_status_updates:
  assumes "no_faults E" and "\<And>now. written_row now status attempts extras = g now"
  shows "\<exists>w'. write_status E run status attempts extras w = (Inr (), w') \<and>
     task_runs w' = update_where (\<lambda>r. tr_run_id r = run_id run) (g (clock E (tick w))) (task_runs w)"
  by (rule write_status_no_faults [OF assms(1), of run status attempts extras w]) (auto simp: assms(2))

definition started_row :: "timestamp \<Rightarrow> int \<Rightarrow> task_run_row \<Rightarrow> task_run_row" where
  "started_row now attempt row =
     row\<lparr>tr_status_code := as_i32 InProgress, tr_attempts := attempt, tr_updated_at := now,
         tr_processing_started_at := Some now\<rparr>"

text \<open>
  The start of an attempt. A run that completed successfully, or whose submission
  failed, is left alone and the delivery is told to stop; every other recorded run becomes
  in progress with one attempt more and a new start time, and no other row changes; a
  delivery whose run is not recorded is attempt 1 of a run that stays unrecorded.
\<close>

theorem begin_attempt_correct:
  assumes "no_faults E" and "begin_attempt E run w = (res, w')"
  shows "case find (\<lambda>r. tr_run_id r = run_id run) (task_runs w) of
           None \<Rightarrow> res = Inr (Some 1) \<and> task_runs w' = task_runs w
         | Some row \<Rightarrow>
             if tr_status_code row \<in> {as_i32 CompleteSuccess, as_i32 SubmissionFailed}
             then res = Inr None \<and> task_runs w' = task_runs w
             else res = Inr (Some (add_i32 (tr_attempts row) 1)) \<and>
                  task_runs w' = update_where (\<lambda>r. tr_run_id r = run_id run)
                    (started_row (clock E (Suc (tick w))) (add_i32 (tr_attempts row) 1)) (task_runs w)"
proof -
  let ?found = "find (\<lambda>r. tr_run_id r = run_id run) (task_runs w)"
  let ?w1 = "w\<lparr>tick := Suc (tick w)\<rparr>"
  have q: "query_run_by_id E (run_id run) None w = (Inr ?found, ?w1)"
    using assms(1) by (simp add: query_run_by_id_def runs)
  have mark: "\<exists>w'. mark_in_progress E run n ?w1 = (Inr (), w') \<and>
       task_runs w' = update_where (\<lambda>r. tr_run_id r = run_id run) (started_row (clock E (Suc (tick w))) n) (task_runs w)" for n
  proof -
    have "written_row now InProgress n (\<lambda>now row. row\<lparr>tr_processing_started_at := Some now\<rparr>) = started_row now n" for now
      by (rule ext) (simp add: written_row_def started_row_def)
    from write_status_updates [OF assms(1) this, of run ?w1] show ?thesis
      unfolding mark_in_progress_def by simp
  qed
  show ?thesis
  proof (cases ?found)
    case None
    then have "\<And>r. r \<in> set (task_runs w) \<Longrightarrow> tr_run_id r \<noteq> run_id run" by (simp add: find_None_iff)
    with None assms(2) q mark [of 1] show ?thesis
      by (auto simp: begin_attempt_def runs decide_next_attempt_def update_where_none)
  next
    case (Some row)
    with assms(2) q mark [of "add_i32 (tr_attempts row) 1"] show ?thesis
      by (auto simp: begin_attempt_def runs decide_next_attempt_def)
  qed
qed

definition finished_row :: "timestamp \<Rightarrow> TaskRunStatus \<Rightarrow> int \<Rightarrow> ApiError option \<Rightarrow> task_run_row \<Rightarrow> task_run_row" where
  "finished_row now status attempt err row =
     (let base = row\<lparr>tr_status_code := as_i32 status, tr_attempts := attempt, tr_updated_at := now\<rparr>
      in case err of
           None \<Rightarrow> base\<lparr>tr_success_duration_ms := attempt_duration_ms now row\<rparr>
         | Some e \<Rightarrow> with_error_columns e (base\<lparr>tr_last_error_duration_ms := attempt_duration_ms now row\<rparr>))"

definition attempt_status :: "int \<Rightarrow> int \<Rightarrow> ApiError + unit \<Rightarrow> TaskRunStatus" where
  "attempt_status max_attempts attempt result =
     (case result of
        Inr _ \<Rightarrow> CompleteSuccess
      | Inl err \<Rightarrow> if attempt < max_attempts \<and> is_retryable err then ErrorWillRetry else CompleteFailure)"

text \<open>
  C17: the end of an attempt. A success completes the run; a failure is retried exactly
  when it is a server error and the budget has attempts left, and is terminal otherwise.
  The row records the status, the attempt, its duration and, for a failure, the error; no
  other row changes.
\<close>

theorem finish_attempt_correct:
  assumes "no_faults E" and "finish_attempt E max_attempts run attempt result w = (res, w')"
  shows "res = Inr (attempt_status max_attempts attempt result) \<and>
         task_runs w' = update_where (\<lambda>r. tr_run_id r = run_id run)
           (finished_row (clock E (tick w)) (attempt_status max_attempts attempt result) attempt
              (case result of Inl e \<Rightarrow> Some e | Inr _ \<Rightarrow> None)) (task_runs w)"
proof -
  have dur: "attempt_duration_ms now (r\<lparr>tr_status_code := s, tr_attempts := n, tr_updated_at := t\<rparr>) = attempt_duration_ms now r"
    for now r s n t by (simp add: attempt_duration_ms_def)
  have recorded: "\<exists>w'. record_outcome E run st attempt err w = (Inr (), w') \<and>
       task_runs w' = update_where (\<lambda>r. tr_run_id r = run_id run) (finished_row (clock E (tick w)) st attempt err) (task_runs w)"
    if "st = CompleteSuccess \<and> err = None \<or> st \<in> {ErrorWillRetry, CompleteFailure} \<and> err \<noteq> None" for st err
  proof -
    have "written_row now st attempt (\<lambda>now row.
       if st = CompleteSuccess then row\<lparr>tr_success_duration_ms := attempt_duration_ms now row\<rparr>
       else if st \<notin> {ErrorWillRetry, CompleteFailure} then row
       else let row' = row\<lparr>tr_last_error_duration_ms := attempt_duration_ms now row\<rparr>
            in case err of Some e \<Rightarrow> with_error_columns e row' | None \<Rightarrow> row') = finished_row now st attempt err" for now
      using that by (intro ext) (auto simp: written_row_def finished_row_def dur Let_def)
    from write_status_updates [OF assms(1) this, of run w] show ?thesis
      unfolding record_outcome_def .
  qed
  show ?thesis
  proof (cases result)
    case (Inl err)
    with assms(2) recorded [of "attempt_status max_attempts attempt result" "Some err"] show ?thesis
      by (auto simp: finish_attempt_def runs attempt_status_def decide_will_retry_def Let_def split: if_splits)
  next
    case (Inr u)
    with assms(2) recorded [of CompleteSuccess None] show ?thesis
      by (auto simp: finish_attempt_def runs attempt_status_def)
  qed
qed

section \<open>Examples\<close>

definition demo_run :: TaskRun where
  "demo_run = \<lparr>logical_id = ''u1-search_index-capture4'', run_id = ''r1'', run_number = 1, backfill_id = None,
     run_task = SearchIndex \<lparr>st_capture_id = 4, st_entity_owner_id = 1\<rparr>\<rparr>"

definition demo_world :: world where
  "demo_world = empty_world\<lparr>task_runs := [new_task_run_row demo_run 1 0]\<rparr>"

lemma demo_world_runs [simp]: "task_runs demo_world = [new_task_run_row demo_run 1 0]" "tick demo_world = 0"
  by (simp_all add: demo_world_def empty_world_def)

lemma demo_row [simp]:
  "tr_run_id (new_task_run_row run i now) = run_id run" "tr_status_code (new_task_run_row run i now) = as_i32 Queued"
  "tr_attempts (new_task_run_row run i now) = 0"
  by (simp_all add: new_task_run_row_def)

theorem begin_attempt_correct_witness:
  "fst (begin_attempt quiet_env demo_run demo_world) = Inr (Some 1) \<and>
   task_runs (snd (begin_attempt quiet_env demo_run demo_world)) =
     [started_row 1 1 (new_task_run_row demo_run 1 0)]"
  using begin_attempt_correct [OF no_faults_quiet prod.collapse [symmetric], of demo_run demo_world]
  by (simp add: add_i32_def in_i32_def quiet_env_def update_where_def)

theorem finish_attempt_correct_witness:
  "fst (finish_attempt quiet_env 3 demo_run 1 (Inl (internal (anyhow_msg ''x''))) demo_world) = Inr ErrorWillRetry \<and>
   fst (finish_attempt quiet_env 1 demo_run 1 (Inl (internal (anyhow_msg ''x''))) demo_world) = Inr CompleteFailure \<and>
   map tr_status_code (task_runs (snd (finish_attempt quiet_env 1 demo_run 1 (Inr ()) demo_world))) = [4]"
  using finish_attempt_correct [OF no_faults_quiet prod.collapse [symmetric],
      of 3 demo_run 1 "Inl (internal (anyhow_msg ''x''))" demo_world]
    finish_attempt_correct [OF no_faults_quiet prod.collapse [symmetric],
      of 1 demo_run 1 "Inl (internal (anyhow_msg ''x''))" demo_world]
    finish_attempt_correct [OF no_faults_quiet prod.collapse [symmetric], of 1 demo_run 1 "Inr ()" demo_world]
  by (simp add: attempt_status_def update_where_def finished_row_def)

end
