(* ===== verification/Logic.thy ===== *)
theory Logic
  imports Service Task_Master
begin

text \<open>
  \<open>logic/*.rs\<close>: the work of the three task types, and \<open>Beacon\<close>, which submits the task
  that follows another.
\<close>

section \<open>Beacon\<close>

definition new_capture :: "env \<Rightarrow> Context \<Rightarrow> IlluminationTask \<Rightarrow> (world, anyhow, unit) comp" where
  "new_capture E context task =
     bindM (map_errM anyhow_of_api (submit_illuminate E context task None)) (\<lambda>_. returnM ())"

definition new_illumination :: "env \<Rightarrow> IlluminationTask \<Rightarrow> string option \<Rightarrow> (world, anyhow, unit) comp" where
  "new_illumination E t bid =
     (if it_persist_projection t \<and> it_prompt_version t = V2
      then bindM (submit_search_index_from_worker E
             \<lparr>st_capture_id = it_capture_id t, st_entity_owner_id = it_entity_owner_id t\<rparr> bid) (\<lambda>_. returnM ())
      else returnM ())"

section \<open>Work\<close>

text \<open>The output of an inference, with the provider's status attached to a failure.\<close>

definition inference_output :: "'t InferenceOutcome \<Rightarrow> (world, failure, 't) comp" where
  "inference_output out =
     liftM (case oc_output out of
        Inr x \<Rightarrow> Inr x
      | Inl error \<Rightarrow> Inl (Failed (with_inner_status_code (oc_http_status_code out) (internal error))))"

definition exec_illuminate ::
  "providers \<Rightarrow> env \<Rightarrow> TaskRun \<Rightarrow> IlluminationTask \<Rightarrow> int \<Rightarrow> (world, failure, unit) comp" where
  "exec_illuminate P E run task attempt =
     bindM (service_get_captures P E (Some [it_capture_id task])) (\<lambda>fetch.
     case fetch of
       [] \<Rightarrow> throwM (Failed (not_found (anyhow_msg (''Capture '' @ show_int (it_capture_id task)
               @ '' not found during illumination''))))
     | capture # _ \<Rightarrow>
         (case it_prompt_version task of
            V1 \<Rightarrow>
              bindM (map_errM (Failed \<circ> internal)
                 (illuminate P V1 v1_from_raw_json capture (it_model_id task) (it_thinking_level task))) (\<lambda>ill.
              bindM (record_inference E (ci_user_id capture) (run_id run) attempt ''illuminate'' (oc_metadata ill)) (\<lambda>meta.
              bindM (inference_output ill) (\<lambda>raw.
              map_errM Failed (insert_illumination_raw E capture (run_id run) meta raw))))
          | V2 \<Rightarrow>
              bindM (map_errM (Failed \<circ> internal)
                 (illuminate P V2 from_raw_json capture (it_model_id task) (it_thinking_level task))) (\<lambda>ill.
              bindM (record_inference E (ci_user_id capture) (run_id run) attempt ''illuminate'' (oc_metadata ill)) (\<lambda>meta.
              bindM (inference_output ill) (\<lambda>x.
              bindM (map_errM Failed (insert_illumination_raw E capture (run_id run) meta (lm_raw_json x))) (\<lambda>_.
              if it_persist_projection task
              then map_errM Failed (insert_illumination_v2 E capture (run_id run) meta x)
              else returnM ()))))))"

definition make_capture_info_embed_input :: "providers \<Rightarrow> CaptureInfo \<Rightarrow> (world, anyhow, json) comp" where
  "make_capture_info_embed_input P object =
     (case find_max_by ii_id (ci_illuminations object) of
        None \<Rightarrow> throwM (anyhow_msg ''Capture has no illumination, required for embedding'')
      | Some latest \<Rightarrow>
          (case ci_medias object of
             [] \<Rightarrow> throwM (anyhow_msg ''Capture has no media, required for embedding'')
           | first_media # _ \<Rightarrow>
               bindM (call_out (\<lambda>n. retrieve_bytes P n (handle_of_media_info first_media))) (\<lambda>image_bytes.
               returnM (JArr
                 [JObj [(''text'', JStr (make_text latest))],
                  JObj [(''inlineData'', JObj
                    [(''mimeType'', JStr (media_mime first_media)),
                     (''data'', JStr (base64 P image_bytes))])]]))))"

definition exec_search_index ::
  "providers \<Rightarrow> env \<Rightarrow> TaskRun \<Rightarrow> SearchIndexTask \<Rightarrow> int \<Rightarrow> (world, failure, unit) comp" where
  "exec_search_index P E run task attempt =
     bindM (service_get_captures P E (Some [st_capture_id task])) (\<lambda>fetch.
     case fetch of
       [] \<Rightarrow> returnM ()
     | capture # _ \<Rightarrow>
         if ci_illuminations capture = []
         then throwM (Failed (internal (anyhow_msg (''capture_id='' @ show_int (st_capture_id task) @ '' has no illuminations''))))
         else
           bindM (map_errM (Failed \<circ> api_of_anyhow) (make_capture_info_embed_input P capture)) (\<lambda>embed_input.
           bindM (map_errM (Failed \<circ> internal) (call_out (\<lambda>n. embed_object P n embed_input))) (\<lambda>inference.
           bindM (record_inference E (ci_user_id capture) (run_id run) attempt ''search_index'' (oc_metadata inference)) (\<lambda>_.
           bindM (inference_output inference) (\<lambda>embedding.
           map_errM (Failed \<circ> internal) (call_out (\<lambda>n. upsert_object_embedding P n capture embedding)))))))"

definition show_ids :: "int list \<Rightarrow> string" where
  "show_ids ids = ''['' @ join '', '' (map show_int ids) @ '']''"

definition exec_spark ::
  "providers \<Rightarrow> env \<Rightarrow> TaskRun \<Rightarrow> SparkTask \<Rightarrow> int \<Rightarrow> (world, failure, unit) comp" where
  "exec_spark P E run task attempt =
     (if sk_capture_ids task = []
      then throwM (Failed (bad_request (anyhow_msg ''capture_ids must contain at least one capture ID'')))
      else
        bindM (service_get_captures P E (Some (sk_capture_ids task))) (\<lambda>captures.
        if captures = []
        then throwM (Failed (not_found (anyhow_msg (''No captures found for the provided capture IDs '' @ show_ids (sk_capture_ids task)))))
        else if \<exists>c \<in> set captures. ci_user_id c \<noteq> sk_entity_owner_id task
        then throwM (Failed (bad_request (anyhow_msg ''capture_ids must belong to the spark's entity_owner_id'')))
        else
          bindM (map_errM (Failed \<circ> internal) (call_out (\<lambda>n. fire_spark P n captures))) (\<lambda>spark_result.
          bindM (record_inference E (sk_entity_owner_id task) (run_id run) attempt ''spark'' (oc_metadata spark_result)) (\<lambda>meta.
          bindM (inference_output spark_result) (\<lambda>spark.
          map_errM Failed (insert_spark E (sk_entity_owner_id task) (sk_capture_ids task) spark meta))))))"

section \<open>Frames\<close>

lemma leaves_call_out [frame]: "(\<And>w n. f (w\<lparr>tick := n\<rparr>) = f w) \<Longrightarrow> leaves f (call_out g)"
  by (simp add: leaves_def call_out_def)

lemma leaves_transaction [frame]:
  assumes "\<And>w n. f (w\<lparr>tick := n\<rparr>) = f w" and "leaves f body"
  shows "leaves f (transaction E body)"
proof -
  let ?m = "bindM (map_errM api_of_db (execute E (\<lambda>_ w. w)))
             (\<lambda>_. bindM body (\<lambda>x. bindM (map_errM api_of_db (execute E (\<lambda>_ w. w))) (\<lambda>_. returnM x)))"
  have "leaves f ?m" by (intro frame assms) simp_all
  then show ?thesis
    unfolding leaves_def transaction_def using assms(1)
    by (auto split: prod.split sum.split) (metis snd_conv)+
qed

lemma leaves_service_get_captures [frame]:
  "(\<And>w n. f (w\<lparr>tick := n\<rparr>) = f w) \<Longrightarrow> leaves f (service_get_captures P E ids)"
  unfolding service_get_captures_def service_get_capture_models_def by (auto intro!: frame)

lemma leaves_record_inference [frame]:
  assumes "\<And>w n. f (w\<lparr>tick := n\<rparr>) = f w" and "\<And>w x. f (w\<lparr>inference_metas := x\<rparr>) = f w"
  shows "leaves f (record_inference E uid rid attempt ttype md)"
  unfolding record_inference_def
  by (intro frame assms) (simp add: leaves_def Let_def assms)

lemma leaves_inference_output [frame]: "leaves f (inference_output out)"
  unfolding inference_output_def by (intro frame)

lemma leaves_illuminate [frame]:
  "(\<And>w n. f (w\<lparr>tick := n\<rparr>) = f w) \<Longrightarrow> leaves f (illuminate P v parse capture m t)"
  unfolding illuminate_def by (auto intro!: frame split: list.split)

lemma leaves_pair: "(\<And>s. f (g s) = f s) \<Longrightarrow> leaves f (\<lambda>s. (r s, g s))"
  by (simp add: leaves_def)

text \<open>No work touches the table of runs; only the follow-up submission does.\<close>

lemma leaves_insert_illumination_raw [frame]:
  "leaves task_runs (insert_illumination_raw E capture rid meta raw)"
  unfolding insert_illumination_raw_def by (auto intro!: frame split: list.split)

lemma leaves_insert_illumination_v2 [frame]:
  "leaves task_runs (insert_illumination_v2 E capture rid meta x)"
  unfolding insert_illumination_v2_def project_illumination_def replace_illumination_def insert_entity_row_def
  by (auto intro!: frame split: prod.split)

lemma leaves_insert_spark [frame]: "leaves task_runs (insert_spark E uid ids clusters meta)"
  unfolding insert_spark_def insert_cluster_def
  by (auto intro!: frame leaves_pair split: prod.split simp: Let_def)

lemma leaves_exec:
  "leaves task_runs (exec_illuminate P E run it attempt)"
  "leaves task_runs (exec_search_index P E run st attempt)"
  "leaves task_runs (exec_spark P E run sk attempt)"
  unfolding exec_illuminate_def exec_search_index_def exec_spark_def make_capture_info_embed_input_def
  by (auto intro!: frame split: list.split IlluminationVersion.split)

section \<open>Examples\<close>

definition demo_providers :: providers where
  "demo_providers = \<lparr>retrieve_bytes = (\<lambda>_ _. Inr ''x''), infer = (\<lambda>_ _. Inl (anyhow_msg ''offline'')),
     fire_spark = (\<lambda>_ _. Inl (anyhow_msg ''offline'')), embed_object = (\<lambda>_ _. Inl (anyhow_msg ''offline'')),
     upsert_object_embedding = (\<lambda>_ _ _. Inr ()), base64 = id, serde_error_text = (\<lambda>_. ''error''),
     humanize = (\<lambda>_ _. ''now''), url_maker = \<lparr>local_url_prefix = Some ''/media'', gcloud_emulator_endpoint = None\<rparr>\<rparr>"

end
