(* ===== verification/Webhook.thy ===== *)
theory Webhook
  imports Logic
begin

text \<open>
  \<open>webhook/*.rs\<close>: what a queue backend calls. Each route begins an attempt, does the work
  of its task, and ends the attempt; the status of the reply tells the backend whether to
  deliver again. The last part is the life of a run under redelivery.
\<close>

section \<open>Routes\<close>

text \<open>
  The common shape of the three handlers. A panic of the work unwinds through the handler,
  so the attempt is not ended.
\<close>

definition deliver ::
  "env \<Rightarrow> int \<Rightarrow> TaskRun \<Rightarrow> (int \<Rightarrow> (world, failure, unit) comp) \<Rightarrow> (world, failure, nat) comp" where
  "deliver E max_attempts run work =
     bindM (map_errM (Failed \<circ> internal) (begin_attempt E run)) (\<lambda>start.
     case start of
       None \<Rightarrow> returnM 204
     | Some attempt \<Rightarrow>
         bindM (catchM (work attempt)) (\<lambda>result.
         let finish = (\<lambda>r. bindM (map_errM (Failed \<circ> internal) (finish_attempt E max_attempts run attempt r))
                             (\<lambda>outcome. returnM (http_status_for_task_run outcome)))
         in case result of
              Inr _ \<Rightarrow> finish (Inr ())
            | Inl (Failed error) \<Rightarrow> finish (Inl error)
            | Inl Panicked \<Rightarrow> throwM Panicked))"

definition post_illuminate :: "providers \<Rightarrow> env \<Rightarrow> int \<Rightarrow> TaskRun \<Rightarrow> IlluminationTask \<Rightarrow> (world, failure, nat) comp" where
  "post_illuminate P E max_attempts run task =
     deliver E max_attempts run (\<lambda>attempt.
       bindM (exec_illuminate P E run task attempt) (\<lambda>_.
       map_errM (Failed \<circ> internal) (new_illumination E task (backfill_id run))))"

definition post_search_index :: "providers \<Rightarrow> env \<Rightarrow> int \<Rightarrow> TaskRun \<Rightarrow> SearchIndexTask \<Rightarrow> (world, failure, nat) comp" where
  "post_search_index P E max_attempts run task =
     deliver E max_attempts run (exec_search_index P E run task)"

definition post_spark :: "providers \<Rightarrow> env \<Rightarrow> int \<Rightarrow> TaskRun \<Rightarrow> SparkTask \<Rightarrow> (world, failure, nat) comp" where
  "post_spark P E max_attempts run task =
     (if sk_capture_ids task = []
      then throwM (Failed (bad_request (anyhow_msg ''capture_ids must contain at least one capture ID'')))
      else deliver E max_attempts run (exec_spark P E run task))"

text \<open>The route a run is posted to is the one of its task type.\<close>

definition webhook_post :: "providers \<Rightarrow> env \<Rightarrow> int \<Rightarrow> TaskRun \<Rightarrow> (world, failure, nat) comp" where
  "webhook_post P E max_attempts run =
     (case run_task run of
        Illuminate task \<Rightarrow> post_illuminate P E max_attempts run task
      | SearchIndex task \<Rightarrow> post_search_index P E max_attempts run task
      | Spark task \<Rightarrow> post_spark P E max_attempts run task)"

text \<open>The status of the reply; a panic closes the connection without one.\<close>

fun http_reply :: "failure + nat \<Rightarrow> nat option" where
  "http_reply (Inr code) = Some code"
| "http_reply (Inl (Failed e)) = Some (http_status_code e)"
| "http_reply (Inl Panicked) = None"

definition acknowledged :: "failure + nat \<Rightarrow> bool" where
  "acknowledged r \<longleftrightarrow> (case http_reply r of Some code \<Rightarrow> is_success_code code | None \<Rightarrow> False)"

section \<open>Authentication of a delivery\<close>

text \<open>
  \<open>to_str\<close> of a header value fails on a byte that is not visible ASCII, a tab apart.
\<close>

definition header_to_str :: "string \<Rightarrow> string option" where
  "header_to_str v =
     (if \<forall>c \<in> set v. of_char c = (9 :: nat) \<or> (32 \<le> (of_char c :: nat) \<and> (of_char c :: nat) < 127) then Some v else None)"

definition extract_bearer_token :: "string \<Rightarrow> string option" where
  "extract_bearer_token header =
     (case header_to_str header of
        None \<Rightarrow> None
      | Some s \<Rightarrow>
          (case strip_prefix ''Bearer '' s of
             None \<Rightarrow> None
           | Some token \<Rightarrow> if token = [] then None else Some token))"

text \<open>
  The middleware around the routes. The verifier is Google's: a parameter, the answer to
  the token at each call. \<open>None\<close> is the local queue, whose routes have no middleware.
\<close>

definition require_google_id_token ::
  "(nat \<Rightarrow> string \<Rightarrow> bool) option \<Rightarrow> string option \<Rightarrow> (world, failure, nat) comp \<Rightarrow> (world, failure, nat) comp" where
  "require_google_id_token oidc authorization next_run =
     (case oidc of
        None \<Rightarrow> next_run
      | Some verify \<Rightarrow>
          (case Option.bind authorization extract_bearer_token of
             None \<Rightarrow> returnM 401
           | Some token \<Rightarrow>
               bindM (\<lambda>w. (Inr (verify (tick w) token), w\<lparr>tick := Suc (tick w)\<rparr>)) (\<lambda>ok.
               if ok then next_run else returnM 401)))"

section \<open>The phase of a run\<close>

text \<open>What redelivery depends on: the status and the attempts of the row of a run.\<close>

definition phase :: "string \<Rightarrow> world \<Rightarrow> (int \<times> int) option" where
  "phase rid w = map_option (\<lambda>r. (tr_status_code r, tr_attempts r)) (find (\<lambda>r. tr_run_id r = rid) (task_runs w))"

lemma phase_cong: "task_runs w = task_runs w' \<Longrightarrow> phase rid w = phase rid w'"
  by (simp add: phase_def)

lemma leaves_phase: "leaves task_runs m \<Longrightarrow> leaves (phase rid) m"
  by (auto simp: leaves_def intro: phase_cong)

lemma leaves_keeps: "leaves f m \<Longrightarrow> keeps (\<lambda>w. f w = x) m"
  by (rule keepsI) (simp add: leavesD)

lemma find_update_where:
  assumes "\<And>r. tr_run_id (f r) = tr_run_id r"
  shows "find (\<lambda>r. tr_run_id r = rid) (update_where (\<lambda>r. tr_run_id r = rid') f rows) =
    (if rid = rid' then map_option f (find (\<lambda>r. tr_run_id r = rid) rows) else find (\<lambda>r. tr_run_id r = rid) rows)"
  using assms by (induction rows) (auto simp: update_where_def)

lemma phase_write_status:
  assumes "write_status E run status attempts extras w = (r, w')" and "status_only extras"
  shows "r = Inr () \<and> phase rid w' =
       (if rid = run_id run then map_option (\<lambda>_. (as_i32 status, attempts)) (phase rid w) else phase rid w) \<or>
     (\<exists>e. r = Inl e) \<and> phase rid w' = phase rid w \<and> db_fault E (tick w) \<noteq> None"
proof (cases "db_fault E (tick w)")
  case (Some e)
  with write_status_result [OF assms(1)] show ?thesis by (auto intro: phase_cong)
next
  case None
  have "tr_run_id (written_row (clock E (tick w)) status attempts extras r) = tr_run_id r" for r
    by (rule identityD(3), rule identity_written_row, rule assms(2))
  with None write_status_result [OF assms(1)] assms(2) show ?thesis
    by (auto simp: phase_def find_update_where option.map_comp comp_def)
qed

lemma phase_begin_attempt:
  assumes "begin_attempt E run w = (r, w')"
  shows "(case r of
        Inl _ \<Rightarrow> phase rid w' = phase rid w
      | Inr None \<Rightarrow> phase rid w' = phase rid w \<and>
          (\<exists>s n. phase (run_id run) w = Some (s, n) \<and> s \<in> {as_i32 CompleteSuccess, as_i32 SubmissionFailed})
      | Inr (Some a) \<Rightarrow>
          (case phase (run_id run) w of
             None \<Rightarrow> a = 1
           | Some (s, n) \<Rightarrow> s \<notin> {as_i32 CompleteSuccess, as_i32 SubmissionFailed} \<and> a = add_i32 n 1) \<and>
          phase rid w' = (if rid = run_id run then map_option (\<lambda>_. (as_i32 InProgress, a)) (phase rid w) else phase rid w)) \<and>
     (no_faults E \<longrightarrow> (\<exists>x. r = Inr x))"
proof -
  obtain q w1 where q: "query_run_by_id E (run_id run) None w = (q, w1)" by fastforce
  have w1: "task_runs w1 = task_runs w" by (rule leaves_run [OF leaves_query(3) q]) simp
  have found: "q = Inr x \<Longrightarrow> x = find (\<lambda>r. tr_run_id r = run_id run) (task_runs w)" for x
    using q by (auto simp: query_run_by_id_def select_def stmt_def runs Let_def split: option.splits prod.splits sum.splits)
  show ?thesis
  proof (cases q)
    case (Inl e)
    moreover have "\<not> no_faults E" using Inl q by (auto simp: query_run_by_id_def runs)
    ultimately show ?thesis
      using assms q w1 by (auto simp: begin_attempt_def runs intro: phase_cong)
  next
    case (Inr x)
    note x = found [OF Inr]
    have p1: "phase rid w1 = phase rid w" by (rule phase_cong) (rule w1)
    show ?thesis
    proof (cases "decide_next_attempt x")
      case None
      with Inr assms q p1 x show ?thesis
        by (auto simp: begin_attempt_def runs decide_next_attempt_def phase_def split: option.splits if_splits)
    next
      case (Some a)
      obtain m w2 where m: "mark_in_progress E run a w1 = (m, w2)" by fastforce
      have r: "r = (case m of Inl e \<Rightarrow> Inl e | Inr _ \<Rightarrow> Inr (Some a))" "w' = w2"
        using Inr Some assms q m by (auto simp: begin_attempt_def runs split: sum.splits)
      have "case phase (run_id run) w of None \<Rightarrow> a = 1
           | Some (s, n) \<Rightarrow> s \<notin> {as_i32 CompleteSuccess, as_i32 SubmissionFailed} \<and> a = add_i32 n 1"
        using Some x by (auto simp: phase_def decide_next_attempt_def split: option.splits if_splits)
      with r p1 phase_write_status [OF m [unfolded mark_in_progress_def] status_only_extras(2), of rid] show ?thesis
        by (auto simp: no_faults_def split: option.splits)
    qed
  qed
qed

lemma phase_finish_attempt:
  assumes "finish_attempt E max_attempts run attempt result w = (r, w')"
  shows "(case r of
        Inl _ \<Rightarrow> phase rid w' = phase rid w
      | Inr st \<Rightarrow> st = attempt_status max_attempts attempt result \<and>
          phase rid w' = (if rid = run_id run then map_option (\<lambda>_. (as_i32 st, attempt)) (phase rid w) else phase rid w)) \<and>
     (no_faults E \<longrightarrow> (\<exists>x. r = Inr x))"
proof -
  let ?st = "attempt_status max_attempts attempt result"
  let ?err = "case result of Inl e \<Rightarrow> Some e | Inr _ \<Rightarrow> None"
  obtain m where m: "record_outcome E run ?st attempt ?err w = (m, w')" and r: "r = (case m of Inl e \<Rightarrow> Inl e | Inr _ \<Rightarrow> Inr ?st)"
    using assms
    by (auto simp: finish_attempt_def runs attempt_status_def decide_will_retry_def Let_def split: sum.splits prod.splits if_splits)
  from r phase_write_status [OF m [unfolded record_outcome_def] status_only_extras(3), of rid] show ?thesis
    by (auto simp: no_faults_def)
qed

text \<open>A submission records new runs; it does not touch the ones there are.\<close>

lemma insert_run_phase [wp]:
  "triple (\<lambda>w. phase rid w = Some p) (insert_run E run)
     (\<lambda>inserted w. phase rid w = Some p \<and> (inserted \<longrightarrow> run_id run \<noteq> rid)) (\<lambda>_ w. phase rid w = Some p)"
proof -
  have main: "phase rid w' = Some p \<and> (r = Inr True \<longrightarrow> run_id run \<noteq> rid)"
    if w: "phase rid w = Some p" and res: "insert_run E run w = (r, w')" for w r w'
    using insert_run_result [OF res]
  proof (elim disjE conjE exE)
    fix i now assume free: "task_run_conflicts E (task_runs w) (new_task_run_row run i now) = []"
      and rows: "task_runs w' = task_runs w @ [new_task_run_row run i now]"
    from w obtain row where row: "find (\<lambda>r. tr_run_id r = rid) (task_runs w) = Some row" by (auto simp: phase_def)
    then have "row \<in> set (task_runs w)" "tr_run_id row = rid" using find_SomeD [OF row] by auto
    with free have "run_id run \<noteq> rid"
      by (force simp: task_run_conflicts_def new_task_run_row_def split: if_splits)
    moreover have "find (\<lambda>r. tr_run_id r = rid) (xs @ ys) = Some row" if "find (\<lambda>r. tr_run_id r = rid) xs = Some row" for xs ys
      using that by (induction xs) (auto split: if_splits)
    ultimately show ?thesis using w row rows by (simp add: phase_def)
  qed (use w in \<open>auto simp: phase_def\<close>)
  show ?thesis by (rule tripleI) (use main in fastforce)+
qed

lemma dispatch_run_phase [wp]:
  "triple (\<lambda>w. phase rid w = Some p \<and> run_id run \<noteq> rid) (dispatch_run E run)
     (\<lambda>_ w. phase rid w = Some p) (\<lambda>_ w. phase rid w = Some p)"
proof -
  have "phase rid (snd (dispatch_run E run w)) = Some p" if w: "phase rid w = Some p" "run_id run \<noteq> rid" for w
  proof (cases "enqueue_fault E (tick w)")
    case None
    with w show ?thesis by (auto simp: dispatch_run_def enqueue_def runs Let_def phase_def)
  next
    case (Some e)
    obtain m w2 where m: "set_status E run SubmissionFailed 0 (Some (internal e)) (w\<lparr>tick := Suc (tick w)\<rparr>) = (m, w2)"
      by fastforce
    from phase_write_status [OF m [unfolded set_status_def] status_only_extras(1), of rid] w
    have "phase rid w2 = Some p" by (auto simp: phase_def)
    with Some m show ?thesis by (auto simp: dispatch_run_def enqueue_def runs Let_def split: sum.split)
  qed
  then show ?thesis by (intro tripleI) (metis snd_conv)+
qed

lemma tick_free_phase [simp]: "tick_free (\<lambda>w. phase rid w = Some p)"
  by (simp add: tick_free_def phase_def)

lemma insert_then_dispatch_phase [keep]:
  assumes "keeps (\<lambda>w. phase rid w = Some p) other"
  shows "keeps (\<lambda>w. phase rid w = Some p)
     (bindM (insert_run E run) (\<lambda>inserted. if \<not> inserted then other else dispatch_run E run))"
  by (rule triple_bindM [OF insert_run_phase], rule triple_if)
     (auto intro: triple_weaken [OF assms] triple_weaken [OF dispatch_run_phase])

lemma submit_inner_phase [keep]: "keeps (\<lambda>w. phase rid w = Some p) (submit_inner E task bid)"
  unfolding submit_inner_def Let_def
  by (intro keep insert_then_dispatch_phase keeps_query tick_free_phase keeps_bindM)

section \<open>One delivery\<close>

text \<open>Every media the workers can load has a URL: then no work panics.\<close>

definition urls_ok :: "providers \<Rightarrow> world \<Rightarrow> bool" where
  "urls_ok P w \<longleftrightarrow> (\<forall>m \<in> set (medias w). make_url (url_maker P) (handle_of_media m) \<noteq> None)"

definition fails_softly :: "(world \<Rightarrow> bool) \<Rightarrow> (world, failure, 'a) comp \<Rightarrow> bool" where
  "fails_softly I m \<longleftrightarrow> triple I m (\<lambda>_. I) (\<lambda>e w. e \<noteq> Panicked \<and> I w)"

lemma all_some_total: "(\<And>x. x \<in> set xs \<Longrightarrow> x \<noteq> None) \<Longrightarrow> all_some xs \<noteq> None"
  by (induction xs) (auto split: option.split)

lemma make_capture_info_total:
  assumes "urls_ok P w"
  shows "make_capture_info (url_maker P) human (service_load w c) \<noteq> None"
proof -
  have "all_some (map (make_media_info (url_maker P)) (filter (\<lambda>m. md_capture_id m = ca_id c) (medias w))) \<noteq> None"
    using assms by (intro all_some_total) (auto simp: make_media_info_def urls_ok_def)
  then show ?thesis by (auto simp: make_capture_info_def service_load_def)
qed

lemma service_get_captures_soft: "fails_softly (urls_ok P) (service_get_captures P E ids)"
  unfolding fails_softly_def
proof (rule tripleI)
  fix w x w' assume w: "urls_ok P w" and r: "service_get_captures P E ids w = (Inr x, w')"
  have "medias w' = medias w" by (rule leaves_run [OF leaves_service_get_captures r]) simp
  with w show "urls_ok P w'" by (simp add: urls_ok_def)
next
  fix w e w' assume w: "urls_ok P w" and r: "service_get_captures P E ids w = (Inl e, w')"
  have "medias w' = medias w" by (rule leaves_run [OF leaves_service_get_captures r]) simp
  moreover have total: "all_some (map (make_capture_info (url_maker P) human \<circ> service_load (w\<lparr>tick := k\<rparr>)) cs) \<noteq> None"
      for human k cs
    using all_some_total [of "map (make_capture_info (url_maker P) human \<circ> service_load (w\<lparr>tick := k\<rparr>)) cs"]
      make_capture_info_total [of P "w\<lparr>tick := k\<rparr>"] w
    by (auto simp: urls_ok_def)
  have "e \<noteq> Panicked"
    using r by (auto simp: service_get_captures_def service_get_capture_models_def select_def stmt_def runs Let_def
        simp del: not_None_eq split: option.splits sum.splits prod.splits dest: notE [OF total])
  ultimately show "e \<noteq> Panicked \<and> urls_ok P w'" using w by (simp add: urls_ok_def)
qed

lemma soft_bindM: "fails_softly I m \<Longrightarrow> (\<And>x. fails_softly I (k x)) \<Longrightarrow> fails_softly I (bindM m k)"
  unfolding fails_softly_def by (rule triple_bindM)

lemma soft_if: "fails_softly I m \<Longrightarrow> fails_softly I n \<Longrightarrow> fails_softly I (if b then m else n)"
  by simp

lemma soft_map_errM: "leaves medias m \<Longrightarrow> (\<And>e. f e \<noteq> Panicked) \<Longrightarrow> fails_softly (urls_ok P) (map_errM f m)"
  unfolding fails_softly_def
  by (intro triple_map_errM tripleI) (auto simp: urls_ok_def dest: leaves_run)

lemma soft_leaves: "leaves medias m \<Longrightarrow> (\<And>w. fst (m w) \<noteq> Inl Panicked) \<Longrightarrow> fails_softly (urls_ok P) m"
  unfolding fails_softly_def
  by (intro tripleI) (auto simp: urls_ok_def dest: leaves_run, metis fst_conv)

lemma soft_returnM: "fails_softly I (returnM x)"
  by (simp add: fails_softly_def triple_returnM)

lemma soft_throwM: "e \<noteq> Panicked \<Longrightarrow> fails_softly I (throwM e)"
  by (simp add: fails_softly_def triple_throwM)

lemma soft_inference_output: "fails_softly (urls_ok P) (inference_output out)"
  by (rule soft_leaves) (auto intro!: frame simp: inference_output_def runs split: sum.split)

lemma soft_record_inference: "fails_softly (urls_ok P) (record_inference E uid rid attempt ttype md)"
  by (rule soft_leaves, rule leaves_record_inference) (simp_all add: record_inference_def runs)

lemma leaves_medias [frame]:
  "leaves medias (insert_illumination_raw E capture rid meta raw)"
  "leaves medias (insert_illumination_v2 E capture rid meta x)"
  "leaves medias (insert_spark E uid ids clusters meta)"
  "leaves medias (make_capture_info_embed_input P capture)"
  unfolding insert_illumination_raw_def insert_illumination_v2_def project_illumination_def replace_illumination_def
    insert_entity_row_def insert_spark_def insert_cluster_def make_capture_info_embed_input_def
  by (auto intro!: frame leaves_pair split: prod.split list.split simp: Let_def)

lemma leaves_medias_submit: "leaves medias (submit_inner E task bid)"
proof -
  have "leaves medias (enqueue E run)" for run
    by (auto simp: leaves_def enqueue_def Let_def split: option.split)
  then have "leaves medias (dispatch_run E run)" for run
    unfolding dispatch_run_def by (auto intro!: frame leaves_set_status simp: Let_def)
  then show ?thesis unfolding submit_inner_def Let_def by (auto intro!: frame leaves_query leaves_insert_run)
qed

lemmas soft_rules = soft_bindM soft_if soft_map_errM soft_returnM soft_throwM soft_inference_output soft_record_inference
  service_get_captures_soft

lemma exec_soft:
  "fails_softly (urls_ok P) (exec_illuminate P E run it attempt)"
  "fails_softly (urls_ok P) (exec_search_index P E run st attempt)"
  "fails_softly (urls_ok P) (exec_spark P E run sk attempt)"
  unfolding exec_illuminate_def exec_search_index_def exec_spark_def
  by (auto intro!: soft_rules frame split: list.split IlluminationVersion.split)

lemma new_illumination_soft:
  "fails_softly (urls_ok P) (map_errM (Failed \<circ> internal) (new_illumination E t bid))"
  unfolding new_illumination_def submit_search_index_from_worker_def
  by (auto intro!: soft_map_errM frame leaves_medias_submit)

text \<open>Everything a delivery of a recorded run can do, whatever fails.\<close>

lemma deliver_result:
  assumes "phase (run_id run) w = Some (s, n)"
    and "\<And>a p. keeps (\<lambda>w. phase (run_id run) w = Some p) (work a)"
    and "deliver E max_attempts run work w = (r, w')"
  shows "(r = Inr 204 \<and> s \<in> {as_i32 CompleteSuccess, as_i32 SubmissionFailed} \<and> phase (run_id run) w' = Some (s, n)) \<or>
     (\<exists>result. s \<notin> {as_i32 CompleteSuccess, as_i32 SubmissionFailed} \<and>
        r = Inr (http_status_for_task_run (attempt_status max_attempts (add_i32 n 1) result)) \<and>
        phase (run_id run) w' = Some (as_i32 (attempt_status max_attempts (add_i32 n 1) result), add_i32 n 1)) \<or>
     (\<exists>e. r = Inl (Failed (internal e))) \<or>
     (r = Inl Panicked \<and> (\<exists>a v. fst (work a v) = Inl Panicked))"
proof -
  obtain b w1 where b: "begin_attempt E run w = (b, w1)" by fastforce
  note pb = phase_begin_attempt [OF b, of "run_id run", THEN conjunct1, unfolded assms(1)]
  consider e where "b = Inl e" | "b = Inr None" | a where "b = Inr (Some a)" by (metis not_Some_eq sum.exhaust)
  then show ?thesis
  proof cases
    case 1
    with b assms(3) show ?thesis by (auto simp: deliver_def runs)
  next
    case 2
    with b assms(3) pb show ?thesis by (auto simp: deliver_def runs)
  next
    case (3 a)
    with pb have a: "a = add_i32 n 1" "s \<notin> {as_i32 CompleteSuccess, as_i32 SubmissionFailed}"
      and p1: "phase (run_id run) w1 = Some (as_i32 InProgress, a)" by auto
    obtain m w2 where m: "work a w1 = (m, w2)" by fastforce
    have p2: "phase (run_id run) w2 = Some (as_i32 InProgress, a)"
      using keepsD [OF assms(2) [of "(as_i32 InProgress, a)" a], of w1] p1 m by simp
    have finish: ?thesis if "(case finish_attempt E max_attempts run a result w2 of
        (Inl e, v) \<Rightarrow> (Inl (Failed (internal e)), v) | (Inr st, v) \<Rightarrow> (Inr (http_status_for_task_run st), v)) = (r, w')" for result
    proof -
      obtain f w3 where f: "finish_attempt E max_attempts run a result w2 = (f, w3)" by fastforce
      from phase_finish_attempt [OF f, of "run_id run", THEN conjunct1] that f p2 a show ?thesis
        by (cases f) auto
    qed
    consider x where "m = Inr x" | e where "m = Inl (Failed e)" | "m = Inl Panicked"
      by (metis failure.exhaust sum.exhaust)
    then show ?thesis
    proof cases
      case 1
      show ?thesis
        by (rule finish [of "Inr ()"]) (use 1 3 b m assms(3) in \<open>auto simp: deliver_def runs split: prod.splits sum.splits\<close>)
    next
      case (2 e)
      show ?thesis
        by (rule finish [of "Inl e"]) (use 2 3 b m assms(3) in \<open>auto simp: deliver_def runs split: prod.splits sum.splits\<close>)
    next
      case p: 3
      with 3 b m assms(3) have "r = Inl Panicked" "fst (work a w1) = Inl Panicked" by (auto simp: deliver_def runs)
      then show ?thesis by blast
    qed
  qed
qed

text \<open>Without faults and with works that do not panic, the first two cases are all there is.\<close>

lemma deliver_replies:
  assumes "no_faults E" and "I w" and "\<And>a. fails_softly I (work a)"
    and "\<And>v x. I (v\<lparr>tick := x\<rparr>) = I v" and "\<And>v x. I (v\<lparr>timings := x\<rparr>) = I v"
    and "\<And>v x. I (v\<lparr>published := x\<rparr>) = I v" and "\<And>v x. I (v\<lparr>task_runs := x\<rparr>) = I v"
    and "deliver E max_attempts run work w = (r, w')"
  shows "(\<exists>c. r = Inr c) \<and> I w'"
proof -
  have starts: "leaves I (begin_attempt E run)"
    unfolding begin_attempt_def mark_in_progress_def
    by (intro leaves_bindM leaves_query leaves_case_option leaves_write_status leaves_returnM) (simp_all add: assms)
  have finish: "leaves I (finish_attempt E max_attempts run a res)" for a res
    unfolding finish_attempt_def record_outcome_def Let_def
    by (intro leaves_bindM leaves_case_sum leaves_write_status leaves_returnM) (simp_all add: assms)
  obtain b w1 where b: "begin_attempt E run w = (b, w1)" by fastforce
  have w1: "I w1" using leaves_run [OF starts b] assms(2) by simp
  obtain x where x: "b = Inr x" using phase_begin_attempt [OF b] assms(1) by blast
  show ?thesis
  proof (cases x)
    case None
    with x b w1 assms(8) show ?thesis by (auto simp: deliver_def runs)
  next
    case (Some a)
    obtain m w2 where m: "work a w1 = (m, w2)" by fastforce
    have soft: "I w2 \<and> m \<noteq> Inl Panicked"
      using assms(3) [unfolded fails_softly_def] w1 m
      by (cases m) (auto dest: tripleD)
    have fin: ?thesis if "(case finish_attempt E max_attempts run a result w2 of
        (Inl e, v) \<Rightarrow> (Inl (Failed (internal e)), v) | (Inr st, v) \<Rightarrow> (Inr (http_status_for_task_run st), v)) = (r, w')" for result
    proof -
      obtain f w3 where f: "finish_attempt E max_attempts run a result w2 = (f, w3)" by fastforce
      moreover obtain st where "f = Inr st" using phase_finish_attempt [OF f] assms(1) by blast
      moreover have "I w3" using leaves_run [OF finish f] soft by simp
      ultimately show ?thesis using that by auto
    qed
    consider y where "m = Inr y" | e where "m = Inl (Failed e)"
      using soft by (metis failure.exhaust sum.exhaust)
    then show ?thesis
    proof cases
      case 1
      show ?thesis
        by (rule fin [of "Inr ()"]) (use 1 x Some b m assms(8) in \<open>auto simp: deliver_def runs split: prod.splits sum.splits\<close>)
    next
      case (2 e)
      show ?thesis
        by (rule fin [of "Inl e"]) (use 2 x Some b m assms(8) in \<open>auto simp: deliver_def runs split: prod.splits sum.splits\<close>)
    qed
  qed
qed

lemma webhook_post_deliver:
  assumes "\<And>sk. run_task run = Spark sk \<Longrightarrow> sk_capture_ids sk \<noteq> []"
  obtains work where "webhook_post P E max_attempts run = deliver E max_attempts run work"
    and "\<And>a p. keeps (\<lambda>w. phase (run_id run) w = Some p) (work a)" and "\<And>a. fails_softly (urls_ok P) (work a)"
proof (cases "run_task run")
  case (Illuminate t)
  have "keeps (\<lambda>w. phase (run_id run) w = Some p) (new_illumination E t bid)" for p bid
    unfolding new_illumination_def submit_search_index_from_worker_def
    by (intro keeps_bindM triple_if keeps_returnM submit_inner_phase)
  then show thesis
    by (intro that [of "\<lambda>a. bindM (exec_illuminate P E run t a)
             (\<lambda>_. map_errM (Failed \<circ> internal) (new_illumination E t (backfill_id run)))"]
          keeps_bindM keeps_map_errM soft_bindM exec_soft new_illumination_soft
          leaves_keeps [OF leaves_phase [OF leaves_exec(1)]])
       (auto simp: webhook_post_def post_illuminate_def Illuminate)
next
  case (SearchIndex t)
  show thesis
    by (rule that [of "exec_search_index P E run t"])
       (auto simp: webhook_post_def post_search_index_def SearchIndex
          intro: exec_soft leaves_keeps [OF leaves_phase [OF leaves_exec(2)]])
next
  case (Spark t)
  show thesis
    by (rule that [of "exec_spark P E run t"])
       (auto simp: webhook_post_def post_spark_def Spark assms
          intro: exec_soft leaves_keeps [OF leaves_phase [OF leaves_exec(3)]])
qed

lemma acknowledged_codes [simp]:
  "acknowledged (Inr (http_status_for_task_run st)) \<longleftrightarrow> st \<in> {CompleteSuccess, CompleteFailure}"
  "acknowledged (Inr 204)" "\<not> acknowledged (Inl (Failed (internal e)))" "\<not> acknowledged (Inl Panicked)"
  "\<not> acknowledged (Inl (Failed (bad_request e)))"
  by (cases st; simp_all add: acknowledged_def http_status_for_task_run_def is_success_code_def api_ctor_defs)+

lemma attempt_status_cases:
  "attempt_status max_attempts a result \<in> {CompleteSuccess, CompleteFailure} \<or>
   attempt_status max_attempts a result = ErrorWillRetry \<and> a < max_attempts"
  by (auto simp: attempt_status_def split: sum.split)

text \<open>
  C2: no work is lost. Whatever fails in the database, the queues and the providers, and
  even if the work panics, a delivery of a recorded run that the backend sees as done (a
  2xx reply) leaves the run in a terminal status; so the backend never drops a run that
  still has to be executed. In particular an attempt whose outcome could not be recorded
  is not acknowledged.
\<close>

theorem acknowledged_run_is_terminal:
  assumes "phase (run_id run) w = Some p" and "webhook_post P E max_attempts run w = (r, w')" and "acknowledged r"
  shows "\<exists>status attempts. phase (run_id run) w' = Some (as_i32 status, attempts) \<and>
     status \<in> {CompleteSuccess, CompleteFailure, SubmissionFailed}"
proof (cases "\<exists>sk. run_task run = Spark sk \<and> sk_capture_ids sk = []")
  case True
  with assms(2,3) show ?thesis by (auto simp: webhook_post_def post_spark_def runs)
next
  case False
  then obtain work where d: "webhook_post P E max_attempts run = deliver E max_attempts run work"
    and k: "\<And>a p. keeps (\<lambda>w. phase (run_id run) w = Some p) (work a)"
    by (rule_tac run = run and P = P and E = E in webhook_post_deliver) blast+
  obtain s n where p: "p = (s, n)" by fastforce
  have "s \<in> {as_i32 CompleteSuccess, as_i32 SubmissionFailed} \<Longrightarrow>
      \<exists>status. s = as_i32 status \<and> status \<in> {CompleteSuccess, CompleteFailure, SubmissionFailed}" by blast
  with deliver_result [OF assms(1) [unfolded p] k assms(2) [unfolded d]] assms(3) show ?thesis
    by (elim disjE exE conjE) (simp del: as_i32.simps, blast | simp)+
qed

section \<open>At-least-once delivery\<close>

text \<open>
  A backend that delivers again until a reply is acknowledged, at most as often as its
  fuel, and what a worker must promise for that to end: an unacknowledged delivery uses up
  some of a budget, an acknowledged one settles the work.
\<close>

fun redeliver :: "nat \<Rightarrow> ('s \<Rightarrow> bool \<times> 's) \<Rightarrow> 's \<Rightarrow> nat option \<times> 's" where
  "redeliver 0 post s = (None, s)"
| "redeliver (Suc n) post s =
     (case post s of
        (True, s') \<Rightarrow> (Some 1, s')
      | (False, s') \<Rightarrow> (case redeliver n post s' of (k, t) \<Rightarrow> (map_option Suc k, t)))"

locale at_least_once =
  fixes post :: "'s \<Rightarrow> bool \<times> 's"
    and live :: "'s \<Rightarrow> bool"
    and settled :: "'s \<Rightarrow> bool"
    and budget :: "'s \<Rightarrow> nat"
  assumes unacknowledged: "live s \<Longrightarrow> post s = (False, s') \<Longrightarrow> live s' \<and> budget s' < budget s"
    and ack_settles: "live s \<Longrightarrow> post s = (True, s') \<Longrightarrow> settled s'"
begin

lemma redeliver_settles:
  "live s \<Longrightarrow> budget s < n \<Longrightarrow>
     \<exists>k t. redeliver n post s = (Some k, t) \<and> 1 \<le> k \<and> k \<le> Suc (budget s) \<and> settled t"
proof (induction n arbitrary: s)
  case (Suc n)
  obtain ok s' where post: "post s = (ok, s')" by fastforce
  show ?case
  proof (cases ok)
    case True
    with Suc.prems post ack_settles show ?thesis by auto
  next
    case False
    with unacknowledged [OF Suc.prems(1), of s'] post have "live s'" "budget s' < budget s" by auto
    moreover with Suc.prems Suc.IH [of s'] obtain k t where
      "redeliver n post s' = (Some k, t)" "1 \<le> k" "k \<le> Suc (budget s')" "settled t" by auto
    ultimately show ?thesis using False post by auto
  qed
qed simp

end

text \<open>The webhook as such a worker. The state carries what a delivery needs to be answered.\<close>

definition post_acknowledged :: "providers \<Rightarrow> env \<Rightarrow> int \<Rightarrow> TaskRun \<Rightarrow> world \<Rightarrow> bool \<times> world" where
  "post_acknowledged P E max_attempts run w =
     (case webhook_post P E max_attempts run w of (r, w') \<Rightarrow> (acknowledged r, w'))"

definition deliverable :: "providers \<Rightarrow> env \<Rightarrow> int \<Rightarrow> TaskRun \<Rightarrow> int \<Rightarrow> world \<Rightarrow> bool" where
  "deliverable P E max_attempts run limit w \<longleftrightarrow>
     no_faults E \<and> urls_ok P w \<and> in_i32 limit \<and> max_attempts \<le> limit \<and>
     (\<forall>sk. run_task run = Spark sk \<longrightarrow> sk_capture_ids sk \<noteq> []) \<and>
     (\<exists>s n. phase (run_id run) w = Some (s, n) \<and> s \<noteq> as_i32 SubmissionFailed \<and> 0 \<le> n \<and>
        (n < limit \<or> s = as_i32 CompleteSuccess \<and> n \<le> limit))"

definition completed :: "TaskRun \<Rightarrow> int \<Rightarrow> world \<Rightarrow> bool" where
  "completed run limit w \<longleftrightarrow> (\<exists>status n. phase (run_id run) w = Some (as_i32 status, n) \<and>
     status \<in> {CompleteSuccess, CompleteFailure} \<and> n \<le> limit)"

definition attempts_left :: "int \<Rightarrow> TaskRun \<Rightarrow> world \<Rightarrow> nat" where
  "attempts_left max_attempts run w =
     (case phase (run_id run) w of Some (_, n) \<Rightarrow> nat (max_attempts - 1 - n) | None \<Rightarrow> 0)"

lemma post_acknowledged_step:
  assumes "deliverable P E max_attempts run limit w" and "post_acknowledged P E max_attempts run w = (ok, w')"
  shows "if ok then completed run limit w'
         else deliverable P E max_attempts run limit w' \<and> attempts_left max_attempts run w' < attempts_left max_attempts run w"
proof -
  from assms(1) obtain s n where live: "no_faults E" "urls_ok P w" "in_i32 limit" "max_attempts \<le> limit"
      "\<forall>sk. run_task run = Spark sk \<longrightarrow> sk_capture_ids sk \<noteq> []"
      and p: "phase (run_id run) w = Some (s, n)" "s \<noteq> as_i32 SubmissionFailed" "0 \<le> n"
        "n < limit \<or> s = as_i32 CompleteSuccess \<and> n \<le> limit"
    unfolding deliverable_def by blast
  obtain work where d: "webhook_post P E max_attempts run = deliver E max_attempts run work"
    and k: "\<And>a p. keeps (\<lambda>w. phase (run_id run) w = Some p) (work a)" and soft: "\<And>a. fails_softly (urls_ok P) (work a)"
    by (rule webhook_post_deliver [of run P E max_attempts]) (use live(5) in blast)+
  obtain r where r: "deliver E max_attempts run work w = (r, w')" and ok: "ok = acknowledged r"
    using assms(2) d by (auto simp: post_acknowledged_def split: prod.splits)
  have reply: "(\<exists>c. r = Inr c) \<and> urls_ok P w'"
    by (rule deliver_replies [OF live(1,2) soft _ _ _ _ r]) (simp_all add: urls_ok_def)
  have next_attempt: "add_i32 n 1 = n + 1" if "n < limit"
    using live(3) p(3) that by (intro add_i32_exact) (simp add: in_i32_def)
  from deliver_result [OF p(1) k r] reply consider
      "r = Inr 204" "s \<in> {as_i32 CompleteSuccess, as_i32 SubmissionFailed}" "phase (run_id run) w' = Some (s, n)"
    | result where "s \<notin> {as_i32 CompleteSuccess, as_i32 SubmissionFailed}"
        "r = Inr (http_status_for_task_run (attempt_status max_attempts (add_i32 n 1) result))"
        "phase (run_id run) w' = Some (as_i32 (attempt_status max_attempts (add_i32 n 1) result), add_i32 n 1)"
    by blast
  then show ?thesis
  proof cases
    case 1
    with p have "completed run limit w'"
      unfolding completed_def by (intro exI [of _ CompleteSuccess] exI [of _ n]) auto
    with 1 ok show ?thesis by simp
  next
    case (2 result)
    with p next_attempt have n: "n < limit" "add_i32 n 1 = n + 1" by auto
    show ?thesis
    proof (cases ok)
      case True
      with 2 ok n show ?thesis unfolding completed_def by auto
    next
      case False
      with 2 ok attempt_status_cases [of max_attempts "n + 1" result] n
      have "phase (run_id run) w' = Some (as_i32 ErrorWillRetry, n + 1)" "n + 1 < max_attempts" by auto
      with False live p reply show ?thesis by (auto simp: deliverable_def attempts_left_def)
    qed
  qed
qed

interpretation webhook_worker: at_least_once "post_acknowledged P E max_attempts run"
  "deliverable P E max_attempts run limit" "completed run limit" "attempts_left max_attempts run"
  for P E max_attempts run limit
  by unfold_locales (use post_acknowledged_step in fastforce)+

text \<open>
  C3: a recorded run settles. With a working database, and media whose URLs can be made, a
  backend that redelivers until it gets a 2xx reply gets one, after no more deliveries than
  the run has attempts left (at least one); the run is then complete, successfully or not,
  and its attempts do not exceed the budget. This holds whatever the providers answer and
  for each of the three task types.
\<close>

theorem recorded_run_settles:
  assumes "no_faults E" and "urls_ok P w"
    and "phase (run_id run) w = Some (as_i32 status, n)" and "status \<noteq> SubmissionFailed" and "0 \<le> n" and "n < max_attempts"
    and "max_attempts < 2147483648" and "\<And>sk. run_task run = Spark sk \<Longrightarrow> sk_capture_ids sk \<noteq> []"
  shows "\<exists>k w'. redeliver (nat (max_attempts - n)) (post_acknowledged P E max_attempts run) w = (Some k, w') \<and>
     1 \<le> k \<and> int k \<le> max_attempts - n \<and>
     (\<exists>final m. phase (run_id run) w' = Some (as_i32 final, m) \<and> final \<in> {CompleteSuccess, CompleteFailure} \<and> m \<le> max_attempts)"
proof -
  have "as_i32 status \<noteq> as_i32 SubmissionFailed" using assms(4) by (cases status) simp_all
  with assms have "deliverable P E max_attempts run max_attempts w"
    by (auto simp: deliverable_def in_i32_def)
  moreover have left: "attempts_left max_attempts run w = nat (max_attempts - 1 - n)" using assms(3) by (simp add: attempts_left_def)
  ultimately show ?thesis
    using webhook_worker.redeliver_settles [of P E max_attempts run max_attempts w "nat (max_attempts - n)"] assms(5,6)
    by (fastforce simp: completed_def)
qed

text \<open>
  With the verifier in place, a request reaches its handler exactly when its
  \<open>Authorization\<close> header is \<open>Bearer\<close>, a space and a non-empty printable token that the verifier
  accepts; any other request is answered 401 and changes no table.
\<close>

theorem unauthenticated_delivery_refused:
  "case authorization of
     Some header \<Rightarrow>
       (if \<exists>token. header = ''Bearer '' @ token \<and> token \<noteq> [] \<and> header_to_str header = Some header \<and> verify (tick w) token
        then require_google_id_token (Some verify) authorization handler w = handler (w\<lparr>tick := Suc (tick w)\<rparr>)
        else \<exists>n. require_google_id_token (Some verify) authorization handler w = (Inr 401, w\<lparr>tick := n\<rparr>))
   | None \<Rightarrow> require_google_id_token (Some verify) authorization handler w = (Inr 401, w)"
proof (cases authorization)
  case None
  then show ?thesis by (simp add: require_google_id_token_def runs)
next
  case (Some header)
  have same: "header_to_str header = Some h \<Longrightarrow> h = header" for h
    by (auto simp: header_to_str_def split: if_splits)
  show ?thesis
  proof (cases "extract_bearer_token header")
    case None
    then have "\<not> (\<exists>token. header = ''Bearer '' @ token \<and> token \<noteq> [] \<and> header_to_str header = Some header \<and> verify (tick w) token)"
      by (auto simp: extract_bearer_token_def strip_prefix_def split: option.splits if_splits)
    moreover have "require_google_id_token (Some verify) authorization handler w = (Inr 401, w\<lparr>tick := tick w\<rparr>)"
      using Some None by (simp add: require_google_id_token_def runs)
    ultimately show ?thesis unfolding Some option.case by (simp only: if_False) blast
  next
    case token: (Some token)
    then have "header_to_str header = Some header" "header = ''Bearer '' @ token" "token \<noteq> []"
      using same by (auto simp: extract_bearer_token_def strip_prefix_Some split: option.splits if_splits)
    with Some token show ?thesis by (auto simp: require_google_id_token_def runs)
  qed
qed

section \<open>Examples\<close>

lemma demo_phase: "phase (run_id demo_run) demo_world = Some (as_i32 Queued, 0)"
  by (simp add: phase_def)

theorem recorded_run_settles_witness:
  "\<exists>k w'. redeliver 3 (post_acknowledged demo_providers quiet_env 3 demo_run) demo_world = (Some k, w') \<and>
     1 \<le> k \<and> int k \<le> 3 - 0 \<and>
     (\<exists>final m. phase (run_id demo_run) w' = Some (as_i32 final, m) \<and> final \<in> {CompleteSuccess, CompleteFailure} \<and> m \<le> 3)"
proof -
  have "urls_ok demo_providers demo_world" by (simp add: urls_ok_def demo_world_def empty_world_def)
  from recorded_run_settles [OF no_faults_quiet this demo_phase, of 3] show ?thesis
    by (simp add: demo_run_def)
qed

text \<open>A redelivery of a run that has completed.\<close>

definition demo_done :: world where
  "demo_done = empty_world\<lparr>task_runs := [(new_task_run_row demo_run 1 0)\<lparr>tr_status_code := as_i32 CompleteSuccess\<rparr>]\<rparr>"

theorem acknowledged_run_is_terminal_witness:
  "\<exists>w'. webhook_post demo_providers quiet_env 3 demo_run demo_done = (Inr 204, w') \<and>
     (\<exists>status attempts. phase (run_id demo_run) w' = Some (as_i32 status, attempts) \<and>
        status \<in> {CompleteSuccess, CompleteFailure, SubmissionFailed})"
proof -
  obtain r w' where r: "webhook_post demo_providers quiet_env 3 demo_run demo_done = (r, w')" by fastforce
  have rows: "task_runs demo_done = [(new_task_run_row demo_run 1 0)\<lparr>tr_status_code := 4\<rparr>]"
    by (simp add: demo_done_def empty_world_def)
  then have p: "phase (run_id demo_run) demo_done = Some (4, 0)" by (simp add: phase_def)
  have "run_task demo_run = SearchIndex \<lparr>st_capture_id = 4, st_entity_owner_id = 1\<rparr>" by (simp add: demo_run_def)
  with r rows have "r = Inr 204"
    by (auto simp: webhook_post_def post_search_index_def deliver_def begin_attempt_def query_run_by_id_def runs
        decide_next_attempt_def)
  with acknowledged_run_is_terminal [OF p r] r show ?thesis by simp
qed

end
