(* ===== verification/Submission_Race.thy ===== *)
theory Submission_Race
  imports Task_Master
begin

text \<open>
  Concurrent submitters. Any number of processes run \<open>submit_inner\<close> at once, interleaved
  at every database statement, while workers write the status of the runs they hold. The
  single-threaded steps are those of \<open>submit_inner\<close>: run to the end they compute it.
\<close>

section \<open>One submitter, statement by statement\<close>

datatype submit_pc =
    Looking task "string option"
  | Deciding task "string option"
  | Rechecking task "string option"
  | Inserting task "string option" TaskRun
  | Dispatching task "string option" TaskRun
  | Failing task "string option" TaskRun anyhow
  | Finished task "string option" "anyhow + SubmitOutcome"

text \<open>
  \<open>Inserting\<close> includes the notification after the insert, which touches neither the table
  nor the queues; drawing the UUID is local to the process.
\<close>

fun submit_step :: "env \<Rightarrow> submit_pc \<times> world \<Rightarrow> submit_pc \<times> world" where
  "submit_step E (Looking t b, w) =
     (case already_submitted E b (make_logical_id t) w of
        (Inl e, w') \<Rightarrow> (Finished t b (Inl e), w')
      | (Inr (Some outcome), w') \<Rightarrow> (Finished t b (Inr outcome), w')
      | (Inr None, w') \<Rightarrow> (Deciding t b, w'))"
| "submit_step E (Deciding t b, w) =
     (case query_run_status E (make_logical_id t) None None w of
        (Inl e, w') \<Rightarrow> (Finished t b (Inl e), w')
      | (Inr latest, w') \<Rightarrow>
          (case decide_next_run latest of
             None \<Rightarrow> (Rechecking t b, w')
           | Some n \<Rightarrow> (Inserting t b ((task_run_new (uuid_at E (tick w')) t n)\<lparr>backfill_id := b\<rparr>),
                        w'\<lparr>tick := Suc (tick w')\<rparr>)))"
| "submit_step E (Rechecking t b, w) =
     (case already_submitted E b (make_logical_id t) w of
        (Inl e, w') \<Rightarrow> (Finished t b (Inl e), w')
      | (Inr (Some outcome), w') \<Rightarrow> (Finished t b (Inr outcome), w')
      | (Inr None, w') \<Rightarrow> (Finished t b (Inr RefusedAlreadyInFlight), w'))"
| "submit_step E (Inserting t b run, w) =
     (case insert_run E run w of
        (Inl e, w') \<Rightarrow> (Finished t b (Inl e), w')
      | (Inr inserted, w') \<Rightarrow> (if inserted then Dispatching t b run else Rechecking t b, w'))"
| "submit_step E (Dispatching t b run, w) =
     (case enqueue E run w of
        (Inl e, w') \<Rightarrow> (Failing t b run e, w')
      | (Inr _, w') \<Rightarrow> (Finished t b (Inr (Enqueued (run_id run) (run_number run))), w'))"
| "submit_step E (Failing t b run e, w) =
     (case set_status E run SubmissionFailed 0 (Some (internal e)) w of
        (Inl e', w') \<Rightarrow> (Finished t b (Inl e'), w')
      | (Inr _, w') \<Rightarrow> (Finished t b (Inl (anyhow_of_api (internal e))), w'))"
| "submit_step E (Finished t b r, w) = (Finished t b r, w)"

text \<open>Run alone, a submitter needs at most five steps, and they compute \<open>submit_inner\<close>.\<close>

lemma submit_steps_run:
  "(submit_step E ^^ 5) (Looking t b, w) =
     (Finished t b (fst (submit_inner E t b w)), snd (submit_inner E t b w))"
proof -
  have five: "f ^^ 5 = f \<circ> f \<circ> f \<circ> f \<circ> f" for f :: "submit_pc \<times> world \<Rightarrow> submit_pc \<times> world"
    by (simp add: eval_nat_numeral comp_assoc)
  obtain r1 w1 where a: "already_submitted E b (make_logical_id t) w = (r1, w1)" by fastforce
  obtain r2 w2 where q: "query_run_status E (make_logical_id t) None None w1 = (r2, w2)" by fastforce
  show ?thesis
  proof (cases r1)
    case (Inl e)
    with a show ?thesis by (simp add: five submit_inner_def runs Let_def)
  next
    case (Inr first)
    show ?thesis
    proof (cases first)
      case (Some outcome)
      with a Inr show ?thesis by (simp add: five submit_inner_def runs Let_def)
    next
      case None
      with a q Inr show ?thesis
        by (auto simp: five submit_inner_def dispatch_run_def runs Let_def
            split: sum.split option.split prod.split)
    qed
  qed
qed

section \<open>The system\<close>

definition row_in_flight :: "task_run_row \<Rightarrow> bool" where
  "row_in_flight r = (case from_i32 (tr_status_code r) of Inr s \<Rightarrow> is_in_flight s | Inl _ \<Rightarrow> False)"

type_synonym system = "world \<times> (nat \<Rightarrow> submit_pc option)"

text \<open>
  Processes arrive and take steps; a worker writes the status of a run only while that run
  is in flight. The guard on the size of the table is the range of its 32-bit serial key.
\<close>

inductive sys_step :: "env \<Rightarrow> system \<Rightarrow> system \<Rightarrow> bool" for E where
  arrive: "pcs p = None \<Longrightarrow> sys_step E (w, pcs) (w, pcs(p \<mapsto> Looking t b))"
| submit: "pcs p = Some pc \<Longrightarrow> length (task_runs w) < 2147483647 \<Longrightarrow> submit_step E (pc, w) = (pc', w')
    \<Longrightarrow> sys_step E (w, pcs) (w', pcs(p \<mapsto> pc'))"
| worker_starts: "row \<in> set (task_runs w) \<Longrightarrow> tr_run_id row = run_id run \<Longrightarrow> row_in_flight row
    \<Longrightarrow> mark_in_progress E run n w = (r, w') \<Longrightarrow> sys_step E (w, pcs) (w', pcs)"
| worker_finishes: "row \<in> set (task_runs w) \<Longrightarrow> tr_run_id row = run_id run \<Longrightarrow> row_in_flight row
    \<Longrightarrow> record_outcome E run st n err w = (r, w') \<Longrightarrow> sys_step E (w, pcs) (w', pcs)"

inductive reachable :: "env \<Rightarrow> system \<Rightarrow> bool" for E where
  initial: "task_runs w = [] \<Longrightarrow> reachable E (w, Map.empty)"
| step: "reachable E s \<Longrightarrow> sys_step E s s' \<Longrightarrow> reachable E s'"

inductive_cases sys_stepE: "sys_step E (w, pcs) s'"

section \<open>Ordinals are handed out one by one\<close>

text \<open>Every ordinal below \<open>n\<close> belongs to a settled run of the logical task.\<close>

definition precedes :: "task_run_row list \<Rightarrow> string \<Rightarrow> int \<Rightarrow> bool" where
  "precedes rows lid n \<longleftrightarrow> 1 \<le> n \<and>
     (\<forall>k \<in> {1..<n}. \<exists>s \<in> set rows. tr_logical_id s = lid \<and> tr_run_number s = k \<and> \<not> row_in_flight s)"

definition sequential :: "task_run_row list \<Rightarrow> bool" where
  "sequential rows \<longleftrightarrow> (\<forall>r \<in> set rows. precedes rows (tr_logical_id r) (tr_run_number r))"

definition backs :: "task_run_row list \<Rightarrow> task \<Rightarrow> string option \<Rightarrow> string \<Rightarrow> int \<Rightarrow> bool" where
  "backs rows t b rid n \<longleftrightarrow> (\<exists>r \<in> set rows. tr_run_id r = rid \<and> tr_run_number r = n \<and>
     tr_logical_id r = make_logical_id t \<and> tr_backfill_id r = b)"

fun outcome_backed :: "task_run_row list \<Rightarrow> task \<Rightarrow> string option \<Rightarrow> SubmitOutcome \<Rightarrow> bool" where
  "outcome_backed rows t b (Enqueued rid n) = backs rows t b rid n"
| "outcome_backed rows t b (AlreadySubmittedBackfill rid n) = backs rows t b rid n"
| "outcome_backed rows t b RefusedAlreadyInFlight = True"

definition run_for :: "task \<Rightarrow> string option \<Rightarrow> TaskRun \<Rightarrow> bool" where
  "run_for t b run \<longleftrightarrow> wf_run run \<and> run_task run = t \<and> backfill_id run = b"

fun pc_ok :: "task_run_row list \<Rightarrow> submit_pc \<Rightarrow> bool" where
  "pc_ok rows (Inserting t b run) = (run_for t b run \<and> precedes rows (logical_id run) (run_number run))"
| "pc_ok rows (Dispatching t b run) = (run_for t b run \<and> backs rows t b (run_id run) (run_number run))"
| "pc_ok rows (Finished t b (Inr outcome)) = outcome_backed rows t b outcome"
| "pc_ok rows _ = True"

definition sys_inv :: "system \<Rightarrow> bool" where
  "sys_inv s \<longleftrightarrow> wf_world (fst s) \<and> sequential (task_runs (fst s)) \<and>
     (\<forall>p pc. snd s p = Some pc \<longrightarrow> pc_ok (task_runs (fst s)) pc)"

text \<open>Rows keep their identity and stay settled once they are.\<close>

definition evolves :: "task_run_row list \<Rightarrow> task_run_row list \<Rightarrow> bool" where
  "evolves rows rows' \<longleftrightarrow>
     (\<forall>r \<in> set rows. \<exists>r' \<in> set rows'. identity r' = identity r \<and> (\<not> row_in_flight r \<longrightarrow> \<not> row_in_flight r'))"

lemma evolves_refl [simp]: "evolves rows rows"
  by (auto simp: evolves_def)

lemma evolves_snoc [simp]: "evolves rows (rows @ [r])"
  by (auto simp: evolves_def)

lemma precedes_evolves: "evolves rows rows' \<Longrightarrow> precedes rows lid n \<Longrightarrow> precedes rows' lid n"
  unfolding precedes_def evolves_def by (metis identityD(2,4))

lemma backs_evolves: "evolves rows rows' \<Longrightarrow> backs rows t b rid n \<Longrightarrow> backs rows' t b rid n"
  unfolding backs_def evolves_def by (metis identityD(2-5))

lemma outcome_backed_evolves:
  "evolves rows rows' \<Longrightarrow> outcome_backed rows t b outcome \<Longrightarrow> outcome_backed rows' t b outcome"
  by (cases outcome) (auto intro: backs_evolves)

lemma pc_ok_evolves: "evolves rows rows' \<Longrightarrow> pc_ok rows pc \<Longrightarrow> pc_ok rows' pc"
  by (cases "(rows, pc)" rule: pc_ok.cases) (auto intro: precedes_evolves backs_evolves outcome_backed_evolves)

lemma sequential_update:
  assumes "status_only extras" and "sequential rows"
    and "evolves rows (update_where hit (written_row now st n extras) rows)"
  shows "sequential (update_where hit (written_row now st n extras) rows)"
  unfolding sequential_def
proof
  fix r' assume "r' \<in> set (update_where hit (written_row now st n extras) rows)"
  then obtain r where r: "r \<in> set rows" and "identity r' = identity r"
    using assms(1) by (auto simp: set_update_where split: if_splits)
  from this(2) have "tr_logical_id r' = tr_logical_id r" "tr_run_number r' = tr_run_number r"
    by (auto dest: identityD)
  then show "precedes (update_where hit (written_row now st n extras) rows) (tr_logical_id r') (tr_run_number r')"
    using assms(2) r precedes_evolves [OF assms(3)] by (simp add: sequential_def)
qed

lemma evolves_update:
  assumes "status_only extras"
    and "\<not> is_in_flight st \<or> (\<forall>r \<in> set rows. hit r \<longrightarrow> row_in_flight r)"
  shows "evolves rows (update_where hit (written_row now st n extras) rows)"
  unfolding evolves_def
proof
  let ?f = "\<lambda>r. if hit r then written_row now st n extras r else r"
  fix r assume r: "r \<in> set rows"
  have "identity (?f r) = identity r" using assms(1) by simp
  moreover have "\<not> row_in_flight (?f r)" if "\<not> row_in_flight r"
    using assms r that by (auto simp: row_in_flight_def)
  moreover have "?f r \<in> set (update_where hit (written_row now st n extras) rows)"
    using r by (auto simp: set_update_where)
  ultimately show "\<exists>r' \<in> set (update_where hit (written_row now st n extras) rows).
      identity r' = identity r \<and> (\<not> row_in_flight r \<longrightarrow> \<not> row_in_flight r')"
    by blast
qed

lemma run_number_le_length:
  assumes "sequential rows" and "r \<in> set rows"
  shows "tr_run_number r \<le> int (length rows)"
proof -
  have "{1..tr_run_number r} \<subseteq> tr_run_number ` set rows"
  proof
    fix k assume k: "k \<in> {1..tr_run_number r}"
    show "k \<in> tr_run_number ` set rows"
    proof (cases "k = tr_run_number r")
      case False
      with k assms show ?thesis unfolding sequential_def precedes_def by force
    qed (use assms(2) in auto)
  qed
  then have "card {1..tr_run_number r} \<le> card (tr_run_number ` set rows)" by (intro card_mono) auto
  also have "\<dots> \<le> length rows" by (metis card_image_le card_length finite_set le_trans)
  finally show ?thesis by simp
qed

lemma decide_next_run_precedes:
  assumes "sequential rows" and "length rows < 2147483647"
    and "decide_next_run (latest_matching (\<lambda>r. tr_logical_id r = lid) rows) = Some n"
  shows "precedes rows lid n"
proof (cases "latest_matching (\<lambda>r. tr_logical_id r = lid) rows")
  case None
  with assms(3) show ?thesis by (auto simp: decide_next_run_def precedes_def)
next
  case (Some l)
  note l = latest_matching_SomeD [OF Some]
  have le: "tr_run_number l < 2147483647" using run_number_le_length [OF assms(1), of l] l assms(2) by simp
  have pre: "precedes rows lid (tr_run_number l)" using assms(1) l by (auto simp: sequential_def)
  then have "add_i32 (tr_run_number l) 1 = tr_run_number l + 1"
    using le by (intro add_i32_exact) (simp add: in_i32_def precedes_def)
  with Some assms(3) have n: "n = tr_run_number l + 1" and settled: "\<not> row_in_flight l"
    by (auto simp: decide_next_run_def row_in_flight_def split: sum.splits if_splits)
  show ?thesis
    unfolding precedes_def
  proof (intro conjI ballI)
    show "1 \<le> n" using pre n by (simp add: precedes_def)
    fix k assume "k \<in> {1..<n}"
    then consider "k \<in> {1..<tr_run_number l}" | "k = tr_run_number l" using n by force
    then show "\<exists>s\<in>set rows. tr_logical_id s = lid \<and> tr_run_number s = k \<and> \<not> row_in_flight s"
      by cases (use pre l settled in \<open>auto simp: precedes_def\<close>)
  qed
qed

section \<open>Every step keeps the order\<close>

lemma already_submitted_result:
  assumes "already_submitted E b (make_logical_id t) w = (r, w')"
  shows "task_runs w' = task_runs w" and "r = Inr (Some outcome) \<Longrightarrow> outcome_backed (task_runs w) t b outcome"
proof -
  show "task_runs w' = task_runs w" by (rule leaves_run [OF leaves_query(4) assms]) simp
  show "outcome_backed (task_runs w) t b outcome" if "r = Inr (Some outcome)"
  proof -
    from assms that obtain bid where b: "b = Some bid"
      by (cases b) (auto simp: already_submitted_def runs)
    with assms that obtain row
      where "find (\<lambda>r. tr_backfill_id r = Some bid \<and> tr_logical_id r = make_logical_id t) (task_runs w) = Some row"
        and o: "outcome = AlreadySubmittedBackfill (tr_run_id row) (tr_run_number row)"
      by (auto simp: already_submitted_def query_backfill_run_def select_def stmt_def runs Let_def split: option.splits)
    with b show ?thesis by (auto simp: backs_def dest!: find_SomeD)
  qed
qed

lemma query_run_status_result:
  assumes "query_run_status E lid None None w = (r, w')"
  shows "task_runs w' = task_runs w" and "r = Inr latest \<Longrightarrow> latest = latest_matching (\<lambda>r. tr_logical_id r = lid) (task_runs w)"
  using assms by (auto simp: query_run_status_def select_def stmt_def runs Let_def split: option.splits)

lemma write_evolves:
  assumes "status_only extras" and "wf_world w" and "sequential (task_runs w)"
    and "\<not> is_in_flight st \<or> (\<forall>r \<in> set (task_runs w). tr_run_id r = run_id run \<longrightarrow> row_in_flight r)"
    and "write_status E run st n extras w = (r, w')"
  shows "evolves (task_runs w) (task_runs w') \<and> sequential (task_runs w') \<and> wf_world w'"
proof -
  have "wf_world w'" using keepsD [OF keeps_wf_write_status [OF assms(1), of E run st n], of w] assms(2,5) by simp
  moreover have "evolves (task_runs w) (task_runs w') \<and> sequential (task_runs w')"
  proof (cases "db_fault E (tick w)")
    case None
    let ?upd = "update_where (\<lambda>r. tr_run_id r = run_id run) (written_row (clock E (tick w)) st n extras) (task_runs w)"
    have "evolves (task_runs w) ?upd" by (rule evolves_update [OF assms(1,4)])
    with sequential_update [OF assms(1,3) this] write_status_result [OF assms(5)] None show ?thesis by simp
  qed (use write_status_result [OF assms(5)] assms(3) in simp)
  ultimately show ?thesis by simp
qed

lemma insert_evolves:
  assumes "wf_world w" and "sequential (task_runs w)" and "wf_run run"
    and "precedes (task_runs w) (logical_id run) (run_number run)" and "insert_run E run w = (r, w')"
  shows "evolves (task_runs w) (task_runs w') \<and> sequential (task_runs w') \<and> wf_world w' \<and>
     (r = Inr True \<longrightarrow> (\<exists>row \<in> set (task_runs w'). row_of_run run row))"
proof -
  have wf: "wf_world w'" using keepsD [OF keeps_wf_insert_run [OF assms(3), of E], of w] assms(1,5) by simp
  have seq: "sequential (task_runs w @ [new_task_run_row run i now])" for i now
    unfolding sequential_def
  proof
    fix r assume "r \<in> set (task_runs w @ [new_task_run_row run i now])"
    then have "precedes (task_runs w) (tr_logical_id r) (tr_run_number r)"
      using assms(2,4) by (auto simp: sequential_def new_task_run_row_def)
    then show "precedes (task_runs w @ [new_task_run_row run i now]) (tr_logical_id r) (tr_run_number r)"
      by (rule precedes_evolves [OF evolves_snoc])
  qed
  from insert_run_result [OF assms(5)] show ?thesis
  proof (elim disjE conjE exE)
    fix i now assume "task_runs w' = task_runs w @ [new_task_run_row run i now]"
    with seq wf show ?thesis by (auto simp: row_of_run_def new_task_run_row_def)
  qed (use assms(2) wf in simp)
qed

lemma submit_step_keeps:
  assumes "submit_step E (pc, w) = (pc', w')" and "wf_world w" and "sequential (task_runs w)"
    and "pc_ok (task_runs w) pc" and "length (task_runs w) < 2147483647"
  shows "evolves (task_runs w) (task_runs w') \<and> sequential (task_runs w') \<and> wf_world w' \<and> pc_ok (task_runs w') pc'"
proof (cases pc)
  case (Looking t b)
  obtain r v where a: "already_submitted E b (make_logical_id t) w = (r, v)" by fastforce
  with assms Looking already_submitted_result [OF a] show ?thesis
    by (auto split: sum.splits option.splits)
next
  case (Rechecking t b)
  obtain r v where a: "already_submitted E b (make_logical_id t) w = (r, v)" by fastforce
  with assms Rechecking already_submitted_result [OF a] show ?thesis
    by (auto split: sum.splits option.splits)
next
  case (Deciding t b)
  obtain r v where a: "query_run_status E (make_logical_id t) None None w = (r, v)" by fastforce
  note q = query_run_status_result [OF a]
  show ?thesis
  proof (cases r)
    case (Inr latest)
    with q(2) decide_next_run_precedes [OF assms(3,5)] decide_next_run_in_i32
    have "precedes (task_runs w) (make_logical_id t) n \<and> in_i32 n" if "decide_next_run latest = Some n" for n
      using that by blast
    with Inr assms Deciding a q(1) show ?thesis
      by (auto simp: run_for_def wf_run_def task_run_new_def split: option.splits)
  qed (use assms Deciding a q(1) in auto)
next
  case (Inserting t b run)
  obtain r v where a: "insert_run E run w = (r, v)" by fastforce
  have ok: "run_for t b run" "precedes (task_runs w) (logical_id run) (run_number run)"
    using assms(4) Inserting by auto
  note ins = insert_evolves [OF assms(2,3) _ ok(2) a]
  show ?thesis
    using assms(1) Inserting a ins ok(1)
    by (auto simp: run_for_def wf_run_def row_of_run_def backs_def split: sum.splits if_splits)
next
  case (Dispatching t b run)
  with assms show ?thesis by (auto simp: enqueue_def Let_def split: option.splits)
next
  case (Failing t b run e)
  obtain r v where a: "set_status E run SubmissionFailed 0 (Some (internal e)) w = (r, v)" by fastforce
  have "evolves (task_runs w) (task_runs v) \<and> sequential (task_runs v) \<and> wf_world v"
    by (rule write_evolves [OF status_only_extras(1) assms(2,3) _ a [unfolded set_status_def]]) simp
  with assms(1) Failing a show ?thesis by (auto split: sum.splits)
next
  case (Finished t b r)
  with assms show ?thesis by simp
qed

lemma wf_runs_same_id:
  "wf_runs rows \<Longrightarrow> r \<in> set rows \<Longrightarrow> s \<in> set rows \<Longrightarrow> tr_run_id r = tr_run_id s \<Longrightarrow> r = s"
  by (auto simp: wf_runs_def distinct_map inj_on_def)

lemma sys_step_keeps:
  assumes "sys_step E s s'" and "sys_inv s"
  shows "sys_inv s'"
  using assms
proof (induction rule: sys_step.induct)
  case (arrive pcs p w t b)
  then show ?case by (auto simp: sys_inv_def)
next
  case (submit pcs p pc w pc' w')
  then have "evolves (task_runs w) (task_runs w') \<and> sequential (task_runs w') \<and> wf_world w' \<and> pc_ok (task_runs w') pc'"
    by (intro submit_step_keeps) (auto simp: sys_inv_def)
  with submit show ?case by (auto simp: sys_inv_def intro: pc_ok_evolves)
next
  case (worker_starts row w run n r w' pcs)
  then have "evolves (task_runs w) (task_runs w') \<and> sequential (task_runs w') \<and> wf_world w'"
    by (intro write_evolves [OF status_only_extras(2) _ _ _ worker_starts.hyps(4) [unfolded mark_in_progress_def]])
       (auto simp: sys_inv_def dest: wf_runs_same_id [of _ _ row])
  with worker_starts show ?case by (auto simp: sys_inv_def intro: pc_ok_evolves)
next
  case (worker_finishes row w run st n err r w' pcs)
  then have "evolves (task_runs w) (task_runs w') \<and> sequential (task_runs w') \<and> wf_world w'"
    by (intro write_evolves [OF status_only_extras(3) _ _ _ worker_finishes.hyps(4) [unfolded record_outcome_def]])
       (auto simp: sys_inv_def dest: wf_runs_same_id [of _ _ row])
  with worker_finishes show ?case by (auto simp: sys_inv_def intro: pc_ok_evolves)
qed

lemma reachable_inv: "reachable E s \<Longrightarrow> sys_inv s"
proof (induction rule: reachable.induct)
  case (initial w)
  then show ?case by (simp add: sys_inv_def wf_runs_def sequential_def)
next
  case (step s s')
  then show ?case by (blast intro: sys_step_keeps)
qed

lemma in_flight_unique:
  assumes "wf_runs rows" and "sequential rows" and "r \<in> set rows" and "s \<in> set rows"
    and "tr_logical_id r = tr_logical_id s" and "row_in_flight r" and "row_in_flight s"
  shows "r = s"
proof -
  have key: "x = y" if "x \<in> set rows" "y \<in> set rows" "tr_logical_id x = tr_logical_id y"
      "tr_run_number x = tr_run_number y" for x y
    using assms(1) that by (auto simp: wf_runs_def distinct_map inj_on_def)
  have "\<not> tr_run_number x < tr_run_number y"
    if xy: "x \<in> set rows" "y \<in> set rows" "tr_logical_id x = tr_logical_id y" "row_in_flight x" for x y
  proof
    assume "tr_run_number x < tr_run_number y"
    moreover have "1 \<le> tr_run_number x" using assms(2) xy by (auto simp: sequential_def precedes_def)
    ultimately obtain z where "z \<in> set rows" "tr_logical_id z = tr_logical_id y"
      "tr_run_number z = tr_run_number x" "\<not> row_in_flight z"
      using assms(2) xy(2) by (force simp: sequential_def precedes_def)
    with key [of z x] xy show False by simp
  qed
  from this [of r s] this [of s r] assms have "tr_run_number r = tr_run_number s"
    by (simp add: not_less)
  with key [of r s] assms show ?thesis by simp
qed

text \<open>A submitter takes its steps while the others of the system pause.\<close>

lemma submit_step_length: "length (task_runs (snd (submit_step E (pc, w)))) \<le> Suc (length (task_runs w))"
proof (cases pc)
  case (Inserting t b run)
  obtain r w' where a: "insert_run E run w = (r, w')" by fastforce
  with Inserting insert_run_result [OF a] show ?thesis by (auto split: sum.split)
next
  case (Failing t b run e)
  obtain r w' where a: "set_status E run SubmissionFailed 0 (Some (internal e)) w = (r, w')" by fastforce
  with Failing write_status_result [OF a [unfolded set_status_def]] show ?thesis
    by (auto simp: update_where_def split: option.splits sum.split)
qed (auto simp: enqueue_def Let_def split: prod.split sum.split option.split
     dest: already_submitted_result(1) query_run_status_result(1))

lemma lone_submitter:
  assumes "reachable E (w, pcs(p \<mapsto> pc))" and "length (task_runs w) + n < 2147483647"
    and "(submit_step E ^^ n) (pc, w) = (pc', w')"
  shows "reachable E (w', pcs(p \<mapsto> pc')) \<and> length (task_runs w') \<le> length (task_runs w) + n"
  using assms(2,3)
proof (induction n arbitrary: pc' w')
  case 0
  then have "pc' = pc" "w' = w" by simp_all
  with assms(1) show ?case by (simp only: add_0_right order_refl simp_thms)
next
  case (Suc n)
  obtain pc1 w1 where st: "(submit_step E ^^ n) (pc, w) = (pc1, w1)" by fastforce
  have "length (task_runs w) + n < 2147483647" using Suc.prems(1) by simp
  note IH = conjunct1 [OF Suc.IH [OF this st]] conjunct2 [OF Suc.IH [OF this st]]
  have st': "submit_step E (pc1, w1) = (pc', w')" using Suc.prems(2) st by simp
  have "sys_step E (w1, pcs(p \<mapsto> pc1)) (w', (pcs(p \<mapsto> pc1))(p \<mapsto> pc'))"
    by (rule sys_step.submit [OF _ _ st']) (use IH(2) Suc.prems in auto)
  with IH(1) have "reachable E (w', pcs(p \<mapsto> pc'))" by (metis fun_upd_upd reachable.step)
  moreover have "length (task_runs w') \<le> length (task_runs w) + Suc n"
    using submit_step_length [of E pc1 w1] st' IH(2) by simp
  ultimately show ?case by blast
qed

definition demo_task :: task where
  "demo_task = SearchIndex \<lparr>st_capture_id = 4, st_entity_owner_id = 1\<rparr>"

definition demo_end :: world where
  "demo_end = snd (submit_inner quiet_env demo_task (Some ''b'') empty_world)"

lemma demo_end_row: "map (\<lambda>r. (tr_run_id r, tr_run_number r, tr_logical_id r, tr_backfill_id r, tr_status_code r)) (task_runs demo_end)
    = [(''id2'', 1, make_logical_id demo_task, Some ''b'', 1)]"
  by code_simp

lemma reachable_demo:
  "reachable quiet_env (demo_end, [0 \<mapsto> Finished demo_task (Some ''b'') (Inr (Enqueued ''id2'' 1))])"
proof -
  let ?pc = "Looking demo_task (Some ''b'')"
  have "reachable quiet_env (empty_world, [0 \<mapsto> ?pc])"
    by (rule reachable.step [OF reachable.initial sys_step.arrive]) (simp_all add: empty_world_def)
  moreover have "fst (submit_inner quiet_env demo_task (Some ''b'') empty_world) = Inr (Enqueued ''id2'' 1)"
    by code_simp
  then have "(submit_step quiet_env ^^ 5) (?pc, empty_world) = (Finished demo_task (Some ''b'') (Inr (Enqueued ''id2'' 1)), demo_end)"
    by (simp add: submit_steps_run demo_end_def)
  moreover have "length (task_runs empty_world) + 5 < 2147483647" by (simp add: empty_world_def)
  ultimately show ?thesis by (blast dest: lone_submitter)
qed

text \<open>
  C1: at most one run of a logical task is in flight, whatever submitters race and
  whatever fails, as long as workers leave settled runs alone. The check of the latest
  run and the insert are separate statements; the unique key on the ordinal closes the
  window between them.
\<close>

theorem one_run_in_flight:
  assumes "reachable E (w, pcs)" and "r \<in> set (task_runs w)" and "s \<in> set (task_runs w)"
    and "tr_logical_id r = tr_logical_id s" and "row_in_flight r" and "row_in_flight s"
  shows "r = s"
  using reachable_inv [OF assms(1)] assms(2-) by (auto simp: sys_inv_def intro: in_flight_unique)

theorem one_run_in_flight_witness:
  "\<exists>r \<in> set (task_runs demo_end). row_in_flight r \<and>
     (\<forall>s \<in> set (task_runs demo_end). tr_logical_id s = tr_logical_id r \<and> row_in_flight s \<longrightarrow> s = r)"
proof -
  obtain r where r: "task_runs demo_end = [r]" and "tr_status_code r = 1" using demo_end_row by auto
  then have "row_in_flight r" by (simp add: row_in_flight_def)
  with one_run_in_flight [OF reachable_demo, of _ r] r show ?thesis by auto
qed

text \<open>
  C16: what a submitter is told is true in every reachable state: a run reported as
  enqueued, or as already submitted for the backfill, is in the table under that id and
  ordinal, for that task and that backfill. All submitters of one task of one backfill
  that get an identity get the same one.
\<close>

theorem submit_outcomes_backed:
  assumes "reachable E (w, pcs)" and "pcs p = Some (Finished t b (Inr outcome))"
  shows "outcome_backed (task_runs w) t b outcome \<and>
         (\<forall>q t' rid n rid' n'. b \<noteq> None \<longrightarrow> make_logical_id t' = make_logical_id t \<longrightarrow>
            outcome \<in> {Enqueued rid n, AlreadySubmittedBackfill rid n} \<longrightarrow>
            pcs q \<in> {Some (Finished t' b (Inr (Enqueued rid' n'))),
                      Some (Finished t' b (Inr (AlreadySubmittedBackfill rid' n')))} \<longrightarrow> rid' = rid \<and> n' = n)"
proof -
  from reachable_inv [OF assms(1)] have inv: "wf_world w" "\<And>q pc. pcs q = Some pc \<Longrightarrow> pc_ok (task_runs w) pc"
    by (auto simp: sys_inv_def)
  have same: "rid' = rid \<and> n' = n"
    if "backs (task_runs w) t b rid n" "backs (task_runs w) t' b rid' n'" "b \<noteq> None"
      "make_logical_id t' = make_logical_id t" for rid n t' rid' n'
  proof -
    from that obtain r s where "r \<in> set (task_runs w)" "s \<in> set (task_runs w)"
      "tr_backfill_id r = b" "tr_backfill_id s = b" "tr_logical_id r = tr_logical_id s"
      and ids: "tr_run_id r = rid" "tr_run_number r = n" "tr_run_id s = rid'" "tr_run_number s = n'"
      by (auto simp: backs_def)
    with inv(1) that(3) have "r = s" by (auto simp: wf_runs_def distinct_map inj_on_def)
    with ids show ?thesis by simp
  qed
  have own: "outcome_backed (task_runs w) t b outcome" using inv(2) [OF assms(2)] by simp
  have "backs (task_runs w) t' b rid' n'"
    if "pcs q \<in> {Some (Finished t' b (Inr (Enqueued rid' n'))), Some (Finished t' b (Inr (AlreadySubmittedBackfill rid' n')))}"
    for q t' rid' n' using that by (auto dest: inv(2))
  then have "rid' = rid \<and> n' = n"
    if "b \<noteq> None" "make_logical_id t' = make_logical_id t" "outcome \<in> {Enqueued rid n, AlreadySubmittedBackfill rid n}"
      "pcs q \<in> {Some (Finished t' b (Inr (Enqueued rid' n'))), Some (Finished t' b (Inr (AlreadySubmittedBackfill rid' n')))}"
    for q t' rid n rid' n'
    using that own by (intro same [of rid n t' rid' n']) auto
  with own show ?thesis by blast
qed

theorem submit_outcomes_backed_witness:
  "outcome_backed (task_runs demo_end) demo_task (Some ''b'') (Enqueued ''id2'' 1)"
  using submit_outcomes_backed [OF reachable_demo, of 0] by simp

lemma set_update_one:
  assumes "x \<in> set rows" and "\<And>r. r \<in> set rows \<Longrightarrow> hit r \<longleftrightarrow> r = x"
  shows "set (update_where hit f rows) = insert (f x) (set rows - {x})"
  using assms by (auto simp: set_update_where)

lemma two_left:
  "P a \<Longrightarrow> s \<in> R \<Longrightarrow> s \<noteq> f \<Longrightarrow> P s \<Longrightarrow> (\<And>x. x \<in> R \<Longrightarrow> P x \<Longrightarrow> x = s) \<Longrightarrow> {x \<in> insert a (R - {f}). P x} = {a, s}"
  by blast

text \<open>
  C18: the assumption on workers is needed. Take any reachable state in which a run has failed
  for good and a later run of its task is in flight, and let the failed run be delivered once
  more, without a fault. The start of the attempt puts the failed run back in progress and tells
  the worker to run it: of this task exactly these two runs are then in flight, a state the
  system does not reach by the workers' rules.
\<close>

theorem failed_run_resurrected:
  assumes "no_faults E" and "reachable E (w, pcs)"
    and "failed \<in> set (task_runs w)" and "tr_run_id failed = run_id run" and "tr_status_code failed = as_i32 CompleteFailure"
    and "successor \<in> set (task_runs w)" and "tr_logical_id successor = tr_logical_id failed" and "row_in_flight successor"
    and "begin_attempt E run w = (r, w')"
  shows "let attempt = add_i32 (tr_attempts failed) 1;
             again = started_row (clock E (Suc (tick w))) attempt failed
         in r = Inr (Some attempt) \<and> again \<noteq> successor \<and>
            {x \<in> set (task_runs w'). tr_logical_id x = tr_logical_id failed \<and> row_in_flight x} = {again, successor} \<and>
            (\<forall>pcs'. \<not> reachable E (w', pcs'))"
proof -
  let ?again = "started_row (clock E (Suc (tick w))) (add_i32 (tr_attempts failed) 1) failed"
  from reachable_inv [OF assms(2)] have wf: "wf_world w" and seq: "sequential (task_runs w)" by (simp_all add: sys_inv_def)
  have same: "x = failed" if "x \<in> set (task_runs w)" "tr_run_id x = run_id run" for x
    using wf_runs_same_id [OF wf that(1) assms(3)] that(2) assms(4) by simp
  have "find (\<lambda>r. tr_run_id r = run_id run) (task_runs w) \<noteq> None"
    unfolding find_None_iff using assms(3,4) by blast
  then obtain y where y: "find (\<lambda>r. tr_run_id r = run_id run) (task_runs w) = Some y" by blast
  from same [of y] find_SomeD [OF y] have found: "find (\<lambda>r. tr_run_id r = run_id run) (task_runs w) = Some failed"
    using y by simp
  have w': "r = Inr (Some (add_i32 (tr_attempts failed) 1))" "task_runs w' = update_where (\<lambda>r. tr_run_id r = run_id run)
      (started_row (clock E (Suc (tick w))) (add_i32 (tr_attempts failed) 1)) (task_runs w)"
    using begin_attempt_correct [OF assms(1,9)] found assms(5) by simp_all
  have settled: "\<not> row_in_flight failed" using assms(5) by (simp add: row_in_flight_def)
  have "tr_run_id x = run_id run \<longleftrightarrow> x = failed" if "x \<in> set (task_runs w)" for x using same [OF that] assms(4) by blast
  from set_update_one [OF assms(3) this] have rows: "set (task_runs w') = insert ?again (set (task_runs w) - {failed})"
    unfolding w'(2) .
  have again: "tr_logical_id ?again = tr_logical_id failed" "row_in_flight ?again" "tr_run_id ?again = tr_run_id failed"
    by (simp_all add: started_row_def row_in_flight_def)
  have other: "successor \<noteq> failed" using settled assms(8) by blast
  then have "tr_run_id successor \<noteq> tr_run_id failed" using same assms(4,6) by metis
  with again(3) have ne: "?again \<noteq> successor" by metis
  have only: "x = successor" if "x \<in> set (task_runs w)" "tr_logical_id x = tr_logical_id failed \<and> row_in_flight x" for x
    using in_flight_unique [OF wf seq that(1) assms(6) _ _ assms(8)] that(2) assms(7) by simp
  have two: "{x \<in> set (task_runs w'). tr_logical_id x = tr_logical_id failed \<and> row_in_flight x} = {?again, successor}"
    unfolding rows by (rule two_left [OF _ assms(6) other _ only]) (simp_all only: again assms(7,8) simp_thms)
  have "\<not> reachable E (w', pcs')" for pcs'
  proof
    assume "reachable E (w', pcs')"
    from reachable_inv [OF this] have "wf_world w'" "sequential (task_runs w')" by (simp_all add: sys_inv_def)
    moreover have "?again \<in> set (task_runs w')" "successor \<in> set (task_runs w')"
      unfolding rows using assms(6) other by blast+
    ultimately have "?again = successor"
      by (rule in_flight_unique) (simp_all only: again assms(7,8))
    with ne show False ..
  qed
  with w'(1) ne two show ?thesis by (simp add: Let_def)
qed

text \<open>
  A reachable state of this kind: the first run is started, fails for good, and the task is
  submitted again.
\<close>

definition demo_first :: TaskRun where
  "demo_first = (task_run_new ''id2'' demo_task 1)\<lparr>backfill_id := Some ''b''\<rparr>"

definition demo_started :: world where
  "demo_started = snd (mark_in_progress quiet_env demo_first 1 demo_end)"

definition demo_failed :: world where
  "demo_failed = snd (record_outcome quiet_env demo_first CompleteFailure 1 (Some (internal (anyhow_msg ''x''))) demo_started)"

definition demo_resubmitted :: world where
  "demo_resubmitted = snd (submit_inner quiet_env demo_task None demo_failed)"

abbreviation run_facts :: "world \<Rightarrow> (string \<times> int \<times> bool \<times> string \<times> bool) list" where
  "run_facts w \<equiv> map (\<lambda>r. (tr_run_id r, tr_status_code r, row_in_flight r, tr_logical_id r, tr_attempts r = 1)) (task_runs w)"

lemma demo_failed_runs:
  "run_facts demo_end = [(''id2'', 1, True, make_logical_id demo_task, False)] \<and>
   run_facts demo_started = [(''id2'', 2, True, make_logical_id demo_task, True)] \<and>
   run_facts demo_failed = [(''id2'', 5, False, make_logical_id demo_task, True)] \<and>
   run_facts demo_resubmitted = [(''id2'', 5, False, make_logical_id demo_task, True), (''id10'', 1, True, make_logical_id demo_task, False)]"
  by code_simp

lemma reachable_resubmitted: "\<exists>pcs. reachable quiet_env (demo_resubmitted, pcs)"
proof -
  let ?pcs = "[0 \<mapsto> Finished demo_task (Some ''b'') (Inr (Enqueued ''id2'' 1))]"
  have id: "run_id demo_first = ''id2''" by (simp add: demo_first_def task_run_new_def)
  obtain r1 where r1: "r1 \<in> set (task_runs demo_end)" "tr_run_id r1 = ''id2''" "row_in_flight r1"
    using demo_failed_runs by (cases "task_runs demo_end") auto
  obtain r2 where r2: "r2 \<in> set (task_runs demo_started)" "tr_run_id r2 = ''id2''" "row_in_flight r2"
    using demo_failed_runs by (cases "task_runs demo_started") auto
  have "reachable quiet_env (demo_started, ?pcs)"
    using reachable.step [OF reachable_demo sys_step.worker_starts [OF r1(1) _ r1(3) prod.collapse [symmetric],
        where run = demo_first and n = 1]] r1(2) by (simp add: id demo_started_def)
  then have "reachable quiet_env (demo_failed, ?pcs)"
    using reachable.step [OF _ sys_step.worker_finishes [OF r2(1) _ r2(3) prod.collapse [symmetric], where run = demo_first
        and st = CompleteFailure and n = 1 and err = "Some (internal (anyhow_msg ''x''))"]] r2(2) by (simp add: id demo_failed_def)
  then have "reachable quiet_env (demo_failed, ?pcs(1 \<mapsto> Looking demo_task None))"
    by (rule reachable.step [OF _ sys_step.arrive]) simp
  moreover have "length (run_facts demo_failed) = 1" using demo_failed_runs by simp
  then have "length (task_runs demo_failed) + 5 < 2147483647" by simp
  moreover have "(submit_step quiet_env ^^ 5) (Looking demo_task None, demo_failed) =
      (Finished demo_task None (fst (submit_inner quiet_env demo_task None demo_failed)), demo_resubmitted)"
    by (simp add: submit_steps_run demo_resubmitted_def)
  ultimately show ?thesis by (blast dest: lone_submitter)
qed

theorem failed_run_resurrected_witness:
  "\<exists>pcs attempt. reachable quiet_env (demo_resubmitted, pcs) \<and>
     fst (begin_attempt quiet_env demo_first demo_resubmitted) = Inr (Some attempt) \<and>
     card {x \<in> set (task_runs (snd (begin_attempt quiet_env demo_first demo_resubmitted))).
        tr_logical_id x = make_logical_id demo_task \<and> row_in_flight x} = 2"
proof -
  obtain pcs where reach: "reachable quiet_env (demo_resubmitted, pcs)" using reachable_resubmitted ..
  have id: "run_id demo_first = ''id2''" by (simp add: demo_first_def task_run_new_def)
  obtain f s where rows: "task_runs demo_resubmitted = [f, s]" "tr_run_id f = ''id2''" "tr_status_code f = 5"
      "tr_logical_id f = make_logical_id demo_task" "tr_logical_id s = make_logical_id demo_task" "row_in_flight s"
    using demo_failed_runs by (auto simp: map_eq_Cons_conv)
  have "f \<in> set (task_runs demo_resubmitted)" "s \<in> set (task_runs demo_resubmitted)" by (simp_all add: rows(1))
  from failed_run_resurrected [OF no_faults_quiet reach this(1) _ _ this(2) _ rows(6) prod.collapse [symmetric], of demo_first]
    rows id reach show ?thesis by (auto simp: Let_def)
qed

end
