(* ===== verification/One_Shot_Queue.thy ===== *)
theory One_Shot_Queue
  imports Prelude
begin

text \<open>
  \<open>common/oneshotqueue.rs\<close>: a queue that hands out every item at most once, however often
  it is enqueued. What a client relies on is the interface \<open>once_queue\<close>: a first-in
  first-out order over the items not seen before, and operations that never panic.
\<close>

section \<open>The queue\<close>

datatype QueueStatus = Pending | Reserved | Completed

record 'a OneShotQueue =
  pending :: "'a list"
  status_map :: "'a \<Rightarrow> QueueStatus option"

definition queue_new :: "'a OneShotQueue" where
  "queue_new = \<lparr>pending = [], status_map = Map.empty\<rparr>"

definition queue_enqueue :: "'a \<Rightarrow> 'a OneShotQueue \<Rightarrow> bool \<times> 'a OneShotQueue" where
  "queue_enqueue item q =
     (case status_map q item of
        None \<Rightarrow> (True, q\<lparr>status_map := (status_map q)(item \<mapsto> Pending), pending := pending q @ [item]\<rparr>)
      | Some _ \<Rightarrow> (False, q))"

fun enqueue_iter :: "'a list \<Rightarrow> 'a OneShotQueue \<Rightarrow> nat \<times> 'a OneShotQueue" where
  "enqueue_iter [] q = (0, q)"
| "enqueue_iter (item # items) q =
     (let (fresh, q') = queue_enqueue item q; (count, q'') = enqueue_iter items q'
      in ((if fresh then 1 else 0) + count, q''))"

text \<open>\<open>pop_next\<close>: the outer \<open>None\<close> is the panic of a broken invariant.\<close>

definition pop_next :: "'a OneShotQueue \<Rightarrow> ('a option \<times> 'a OneShotQueue) option" where
  "pop_next q =
     (case pending q of
        [] \<Rightarrow> Some (None, q)
      | item # rest \<Rightarrow>
          (case status_map q item of
             Some Pending \<Rightarrow>
               Some (Some item, q\<lparr>pending := rest, status_map := (status_map q)(item \<mapsto> Reserved)\<rparr>)
           | _ \<Rightarrow> None))"

definition complete :: "'a \<Rightarrow> 'a OneShotQueue \<Rightarrow> bool \<times> 'a OneShotQueue" where
  "complete item q =
     (case status_map q item of
        Some Reserved \<Rightarrow> (True, q\<lparr>status_map := (status_map q)(item \<mapsto> Completed)\<rparr>)
      | _ \<Rightarrow> (False, q))"

section \<open>The interface\<close>

datatype 'a queue_op = Enq 'a | Pop | Done 'a

text \<open>A history of operations, with the items it hands out; \<open>None\<close> if one panics.\<close>

fun queue_run ::
  "('a \<Rightarrow> 'q \<Rightarrow> bool \<times> 'q) \<Rightarrow> ('q \<Rightarrow> ('a option \<times> 'q) option) \<Rightarrow> ('a \<Rightarrow> 'q \<Rightarrow> bool \<times> 'q)
     \<Rightarrow> 'a queue_op list \<Rightarrow> 'q \<Rightarrow> ('a list \<times> 'q) option" where
  "queue_run enq pop don [] q = Some ([], q)"
| "queue_run enq pop don (Enq x # ops) q = queue_run enq pop don ops (snd (enq x q))"
| "queue_run enq pop don (Done x # ops) q = queue_run enq pop don ops (snd (don x q))"
| "queue_run enq pop don (Pop # ops) q =
     (case pop q of
        None \<Rightarrow> None
      | Some (got, q') \<Rightarrow>
          map_option (\<lambda>(out, q''). ((case got of None \<Rightarrow> out | Some x \<Rightarrow> x # out), q''))
            (queue_run enq pop don ops q'))"

text \<open>The first occurrences of the enqueued items that are not already known.\<close>

fun first_seen :: "'a set \<Rightarrow> 'a queue_op list \<Rightarrow> 'a list" where
  "first_seen known [] = []"
| "first_seen known (Enq x # ops) =
     (if x \<in> known then first_seen known ops else x # first_seen (insert x known) ops)"
| "first_seen known (_ # ops) = first_seen known ops"

lemma distinct_first_seen: "distinct (first_seen known ops) \<and> set (first_seen known ops) \<inter> known = {}"
  by (induction known ops rule: first_seen.induct) auto

locale once_queue =
  fixes fresh :: "'q"
    and enq :: "'a \<Rightarrow> 'q \<Rightarrow> bool \<times> 'q"
    and pop :: "'q \<Rightarrow> ('a option \<times> 'q) option"
    and don :: "'a \<Rightarrow> 'q \<Rightarrow> bool \<times> 'q"
    and inv :: "'q \<Rightarrow> bool"
    and todo :: "'q \<Rightarrow> 'a list"
    and known :: "'q \<Rightarrow> 'a set"
  assumes fresh_queue: "inv fresh" "todo fresh = []" "known fresh = {}"
    and enq_law: "inv q \<Longrightarrow> inv (snd (enq x q)) \<and> fst (enq x q) = (x \<notin> known q) \<and>
          todo (snd (enq x q)) = todo q @ (if x \<in> known q then [] else [x]) \<and>
          known (snd (enq x q)) = insert x (known q)"
    and pop_empty: "inv q \<Longrightarrow> todo q = [] \<Longrightarrow> pop q = Some (None, q)"
    and pop_first: "inv q \<Longrightarrow> todo q = x # xs \<Longrightarrow>
          \<exists>q'. pop q = Some (Some x, q') \<and> inv q' \<and> todo q' = xs \<and> known q' = known q"
    and don_law: "inv q \<Longrightarrow> inv (snd (don x q)) \<and> todo (snd (don x q)) = todo q \<and> known (snd (don x q)) = known q"
begin

lemma run_fifo:
  "inv q \<Longrightarrow> \<exists>out q'. queue_run enq pop don ops q = Some (out, q') \<and> inv q' \<and>
     out @ todo q' = todo q @ first_seen (known q) ops"
proof (induction ops arbitrary: q)
  case (Cons op ops)
  show ?case
  proof (cases op)
    case (Enq x)
    with Cons.IH [of "snd (enq x q)"] enq_law [OF Cons.prems, of x] show ?thesis
      by (auto simp: insert_absorb)
  next
    case Pop
    show ?thesis
    proof (cases "todo q")
      case Nil
      with Pop Cons pop_empty show ?thesis by fastforce
    next
      case (Cons x xs)
      with pop_first [OF Cons.prems] obtain q' where
        "pop q = Some (Some x, q')" "inv q'" "todo q' = xs" "known q' = known q" by blast
      with Pop Cons Cons.IH [of q'] show ?thesis by auto
    qed
  next
    case (Done x)
    with Cons.IH [of "snd (don x q)"] don_law [OF Cons.prems, of x] show ?thesis by auto
  qed
qed auto

lemma run_fresh:
  "\<exists>out q'. queue_run enq pop don ops fresh = Some (out, q') \<and> inv q' \<and> out @ todo q' = first_seen {} ops"
  using run_fifo [OF fresh_queue(1), of ops] fresh_queue by simp

end

section \<open>The implementation meets the interface\<close>

definition queue_inv :: "'a OneShotQueue \<Rightarrow> bool" where
  "queue_inv q \<longleftrightarrow> distinct (pending q) \<and> (\<forall>x. status_map q x = Some Pending \<longleftrightarrow> x \<in> set (pending q))"

interpretation oneshot: once_queue queue_new queue_enqueue pop_next complete queue_inv pending "\<lambda>q. dom (status_map q)"
proof unfold_locales
  show "queue_inv queue_new" "pending queue_new = []" "dom (status_map queue_new) = {}"
    by (simp_all add: queue_inv_def queue_new_def)
next
  fix q :: "'a OneShotQueue" and x
  assume "queue_inv q"
  then show "queue_inv (snd (queue_enqueue x q)) \<and> fst (queue_enqueue x q) = (x \<notin> dom (status_map q)) \<and>
       pending (snd (queue_enqueue x q)) = pending q @ (if x \<in> dom (status_map q) then [] else [x]) \<and>
       dom (status_map (snd (queue_enqueue x q))) = insert x (dom (status_map q))"
    by (cases "status_map q x") (auto simp: queue_inv_def queue_enqueue_def)
next
  fix q :: "'a OneShotQueue"
  assume "queue_inv q" "pending q = []"
  then show "pop_next q = Some (None, q)" by (simp add: pop_next_def)
next
  fix q :: "'a OneShotQueue" and x xs
  assume q: "queue_inv q" "pending q = x # xs"
  then have "status_map q x = Some Pending" by (auto simp: queue_inv_def)
  then have "pop_next q = Some (Some x, q\<lparr>pending := xs, status_map := (status_map q)(x \<mapsto> Reserved)\<rparr>)"
    using q by (simp add: pop_next_def)
  moreover have "queue_inv (q\<lparr>pending := xs, status_map := (status_map q)(x \<mapsto> Reserved)\<rparr>)"
    using q by (auto simp: queue_inv_def)
  moreover have "insert x (dom (status_map q)) = dom (status_map q)"
    using \<open>status_map q x = Some Pending\<close> by auto
  ultimately show "\<exists>q'. pop_next q = Some (Some x, q') \<and> queue_inv q' \<and> pending q' = xs \<and> dom (status_map q') = dom (status_map q)"
    by simp
next
  fix q :: "'a OneShotQueue" and x
  assume "queue_inv q"
  then show "queue_inv (snd (complete x q)) \<and> pending (snd (complete x q)) = pending q \<and>
      dom (status_map (snd (complete x q))) = dom (status_map q)"
    by (auto simp: complete_def queue_inv_def split: option.split QueueStatus.split)
       (metis QueueStatus.distinct(1) option.inject)
qed

text \<open>
  Whatever the history of a one-shot queue, no operation panics, and the items handed
  out, followed by those still waiting, are exactly the enqueued items at their first
  occurrence, in order: nothing is lost and nothing is handed out twice.
\<close>

theorem oneshot_exactly_once:
  "\<exists>out q'. queue_run queue_enqueue pop_next complete ops queue_new = Some (out, q') \<and>
     out @ pending q' = first_seen {} ops \<and> distinct (out @ pending q')"
  using oneshot.run_fresh [of ops] distinct_first_seen [of "{}" ops] by metis

text \<open>
  The bulk insert adds the new items in order, once each, counts them, and keeps the
  queue consistent; completing an item succeeds exactly once, between its hand-out and its
  completion.
\<close>

theorem oneshot_bulk_and_complete:
  "enqueue_iter items q = (n, q') \<longrightarrow> queue_inv q \<longrightarrow>
     queue_inv q' \<and> pending q' = pending q @ first_seen (dom (status_map q)) (map Enq items) \<and>
     n = length (first_seen (dom (status_map q)) (map Enq items)) \<and>
     (fst (complete x q') \<longleftrightarrow> status_map q' x = Some Reserved) \<and> \<not> fst (complete x (snd (complete x q')))"
proof (intro impI)
  assume "enqueue_iter items q = (n, q')" "queue_inv q"
  then have "queue_inv q' \<and> pending q' = pending q @ first_seen (dom (status_map q)) (map Enq items) \<and>
     n = length (first_seen (dom (status_map q)) (map Enq items))"
  proof (induction items arbitrary: q n)
    case (Cons a items)
    obtain b q1 where e: "queue_enqueue a q = (b, q1)" by fastforce
    obtain m where r: "enqueue_iter items q1 = (m, q')" "n = (if b then 1 else 0) + m"
      using Cons.prems(1) e by (auto split: prod.splits)
    have law: "queue_inv q1" "b = (a \<notin> dom (status_map q))" "dom (status_map q1) = insert a (dom (status_map q))"
        "pending q1 = pending q @ (if a \<in> dom (status_map q) then [] else [a])"
      using oneshot.enq_law [OF Cons.prems(2), of a] e by auto
    show ?case
      using Cons.IH [OF r(1) law(1)] law(2-) r(2) by (auto simp: insert_absorb)
  qed simp
  moreover have "(fst (complete x q') \<longleftrightarrow> status_map q' x = Some Reserved) \<and> \<not> fst (complete x (snd (complete x q')))"
    by (auto simp: complete_def split: option.split QueueStatus.split)
  ultimately show "queue_inv q' \<and> pending q' = pending q @ first_seen (dom (status_map q)) (map Enq items) \<and>
     n = length (first_seen (dom (status_map q)) (map Enq items)) \<and>
     (fst (complete x q') \<longleftrightarrow> status_map q' x = Some Reserved) \<and> \<not> fst (complete x (snd (complete x q')))" by simp
qed

theorem oneshot_bulk_and_complete_witness:
  "fst (enqueue_iter [1, 2, 1 :: int] queue_new) = 2 \<and> pending (snd (enqueue_iter [1, 2, 1 :: int] queue_new)) = [1, 2]"
proof -
  have inv: "queue_inv (queue_new :: int OneShotQueue)" by (simp add: queue_inv_def queue_new_def)
  have "first_seen (dom (status_map (queue_new :: int OneShotQueue))) (map Enq [1, 2, 1]) = [1, 2]"
    by (simp add: queue_new_def)
  then show ?thesis
    using oneshot_bulk_and_complete [rule_format, OF prod.collapse [symmetric] inv, of "[1, 2, 1]"]
    by (simp add: queue_new_def)
qed

end
