(* ===== verification/Capture_Api.thy ===== *)
theory Capture_Api
  imports Schema_Info Auth
begin

text \<open>
  \<open>api/user/*.rs\<close>: what a user can read and change of their own captures. Every operation
  is scoped by the user of the context. A query without an order returns rows in the order
  of the table; the operations that promise an order sort.
\<close>

section \<open>Loading captures\<close>

definition load_capture :: "world \<Rightarrow> capture_row \<Rightarrow> capture_ex" where
  "load_capture w c =
     \<lparr>cx_row = c,
      cx_medias = Some (filter (\<lambda>m. md_capture_id m = ca_id c) (medias w)),
      cx_illuminations = Some (map (\<lambda>i.
         \<lparr>ix_row = i, ix_knowledge_entities =
            Some (filter (\<lambda>e. ke_illumination_id e = il_id i) (knowledge_entities w))\<rparr>)
         (filter (\<lambda>i. il_capture_id i = ca_id c) (illuminations w))),
      cx_annotations = Some (filter (\<lambda>a. an_capture_id a = ca_id c) (annotations w))\<rparr>"

text \<open>
  \<open>order_captures\<close>: a map from id to capture (the last one of an id wins), emptied in the
  order of the requested ids.
\<close>

fun take_by_id :: "int list \<Rightarrow> (int \<Rightarrow> 'c option) \<Rightarrow> 'c list" where
  "take_by_id [] by_id = []"
| "take_by_id (i # ids) by_id =
     (case by_id i of
        Some c \<Rightarrow> c # take_by_id ids (by_id(i := None))
      | None \<Rightarrow> take_by_id ids by_id)"

definition order_captures :: "capture_ex list \<Rightarrow> int list \<Rightarrow> capture_ex list" where
  "order_captures cs ids = take_by_id ids (map_of (rev (map (\<lambda>c. (ca_id (cx_row c), c)) cs)))"

definition load_captures ::
  "env \<Rightarrow> Context \<Rightarrow> int list \<Rightarrow> bool \<Rightarrow> (world, ApiError, capture_ex list) comp" where
  "load_captures E context ids include_archived =
     (if ids = [] then throwM (bad_request (anyhow_msg ''capture_ids must contain at least one capture ID''))
      else bindM (map_errM api_of_db (select E (\<lambda>w.
             map (load_capture w) (filter (\<lambda>c. ca_user_id c = ctx_user_id context \<and> ca_id c \<in> set ids \<and>
               (include_archived \<or> ca_archived_at c = None)) (captures w)))))
           (\<lambda>cs. returnM (order_captures cs ids)))"

definition get_captures :: "env \<Rightarrow> Context \<Rightarrow> int list \<Rightarrow> (world, ApiError, capture_ex list) comp" where
  "get_captures E context ids = load_captures E context ids False"

definition get_captures_including_archived ::
  "env \<Rightarrow> Context \<Rightarrow> int list \<Rightarrow> (world, ApiError, capture_ex list) comp" where
  "get_captures_including_archived E context ids = load_captures E context ids True"

definition get_capture :: "env \<Rightarrow> Context \<Rightarrow> int \<Rightarrow> (world, ApiError, capture_ex) comp" where
  "get_capture E context i =
     bindM (load_captures E context [i] True) (\<lambda>cs.
     case cs of
       c # _ \<Rightarrow> returnM c
     | [] \<Rightarrow> throwM (not_found (anyhow_msg (''Capture with id '' @ show_int i @ '' not found''))))"

definition get_captures_for_previews ::
  "env \<Rightarrow> Context \<Rightarrow> int list \<Rightarrow> (world, ApiError, capture_ex list) comp" where
  "get_captures_for_previews E context ids =
     (if ids = [] then returnM []
      else bindM (map_errM api_of_db (select E (\<lambda>w.
             map (\<lambda>c. (load_capture w c)\<lparr>cx_annotations := None,
                   cx_illuminations := Some (map (\<lambda>i. \<lparr>ix_row = i, ix_knowledge_entities = None\<rparr>)
                     (filter (\<lambda>i. il_capture_id i = ca_id c) (illuminations w)))\<rparr>)
               (filter (\<lambda>c. ca_user_id c = ctx_user_id context \<and> ca_archived_at c = None \<and> ca_id c \<in> set ids)
                 (captures w)))))
           (\<lambda>cs. returnM (order_captures cs ids)))"

definition get_timeline_captures :: "env \<Rightarrow> Context \<Rightarrow> nat \<Rightarrow> (world, ApiError, capture_ex list) comp" where
  "get_timeline_captures E context limit =
     (if limit = 0 then returnM []
      else bindM (map_errM api_of_db (select E (\<lambda>w.
             map ca_id (take limit (sort_key (\<lambda>c. - ca_created_at c)
               (filter (\<lambda>c. ca_user_id c = ctx_user_id context \<and> ca_archived_at c = None) (captures w)))))))
           (\<lambda>ids. if ids = [] then returnM [] else get_captures E context ids))"

definition get_captures_archived :: "env \<Rightarrow> Context \<Rightarrow> nat \<Rightarrow> (world, ApiError, capture_ex list) comp" where
  "get_captures_archived E context limit =
     (if limit = 0 then returnM []
      else bindM (map_errM api_of_db (select E (\<lambda>w.
             map ca_id (take limit (sort_key (\<lambda>c. - the (ca_archived_at c)) (sort_key (\<lambda>c. - ca_id c)
               (filter (\<lambda>c. ca_user_id c = ctx_user_id context \<and> ca_archived_at c \<noteq> None) (captures w))))))))
           (\<lambda>ids. if ids = [] then returnM [] else get_captures_including_archived E context ids))"

section \<open>Other reads\<close>

text \<open>The inner join with \<open>captures\<close>: the capture of the row exists and is not archived.\<close>

definition in_active_capture :: "world \<Rightarrow> int \<Rightarrow> bool" where
  "in_active_capture w cid = (\<exists>c \<in> set (captures w). ca_id c = cid \<and> ca_archived_at c = None)"

definition get_knowledge_entity :: "env \<Rightarrow> Context \<Rightarrow> int \<Rightarrow> (world, ApiError, knowledge_entity_row) comp" where
  "get_knowledge_entity E context i =
     bindM (map_errM api_of_db (select E (\<lambda>w. find (\<lambda>e. ke_user_id e = ctx_user_id context \<and> ke_id e = i \<and>
        in_active_capture w (ke_capture_id e)) (knowledge_entities w)))) (\<lambda>found.
     case found of
       Some e \<Rightarrow> returnM e
     | None \<Rightarrow> throwM (not_found (anyhow_msg (''Knowledge entity with id '' @ show_int i @ '' not found''))))"

definition get_knowledge_entities_by_type ::
  "env \<Rightarrow> Context \<Rightarrow> string \<Rightarrow> (world, ApiError, knowledge_entity_row list) comp" where
  "get_knowledge_entities_by_type E context etype =
     map_errM api_of_db (select E (\<lambda>w. sort_key ke_id (filter (\<lambda>e. ke_user_id e = ctx_user_id context \<and>
        in_active_capture w (ke_capture_id e) \<and> ke_entity_type e = etype) (knowledge_entities w))))"

definition get_illuminations :: "env \<Rightarrow> Context \<Rightarrow> int list \<Rightarrow> (world, ApiError, (illumination_ex \<times> capture_row option) list) comp" where
  "get_illuminations E context ids =
     map_errM api_of_db (select E (\<lambda>w.
       map (\<lambda>i. (\<lparr>ix_row = i, ix_knowledge_entities =
                   Some (filter (\<lambda>e. ke_illumination_id e = il_id i) (knowledge_entities w))\<rparr>,
                 find (\<lambda>c. ca_id c = il_capture_id i) (captures w)))
         (filter (\<lambda>i. il_user_id i = ctx_user_id context \<and> il_id i \<in> set ids) (illuminations w))))"

definition get_illumination_ids_need_search :: "env \<Rightarrow> Context \<Rightarrow> (world, ApiError, int list) comp" where
  "get_illumination_ids_need_search E context =
     map_errM api_of_db (select E (\<lambda>w.
       remdups (map il_id (filter (\<lambda>i. il_user_id i = ctx_user_id context \<and>
          (\<forall>s \<in> set (search_indexes w). si_illumination_id s \<noteq> il_id i)) (illuminations w)))))"

definition get_illumination_raw :: "env \<Rightarrow> Context \<Rightarrow> string \<Rightarrow> (world, ApiError, json) comp" where
  "get_illumination_raw E context rid =
     bindM (map_errM api_of_db (select E (\<lambda>w. find (\<lambda>r. ir_user_id r = ctx_user_id context \<and> ir_task_run_id r = rid)
        (illumination_raws w)))) (\<lambda>found.
     case found of
       Some r \<Rightarrow> returnM (ir_content r)
     | None \<Rightarrow> throwM (not_found (anyhow_msg (''Raw illumination result not found for TaskRun '' @ rid))))"

section \<open>Changes\<close>

definition access_denied :: "int \<Rightarrow> ApiError" where
  "access_denied cid =
     not_found (anyhow_msg (''Capture with id '' @ show_int cid @ '' not found or access denied''))"

definition own_capture :: "env \<Rightarrow> Context \<Rightarrow> int \<Rightarrow> (world, ApiError, capture_row) comp" where
  "own_capture E context cid =
     bindM (map_errM api_of_db (select E (\<lambda>w. find (\<lambda>c. ca_id c = cid \<and> ca_user_id c = ctx_user_id context) (captures w))))
       (\<lambda>found. case found of None \<Rightarrow> throwM (access_denied cid) | Some c \<Rightarrow> returnM c)"

definition set_capture_archive_state ::
  "env \<Rightarrow> Context \<Rightarrow> int \<Rightarrow> bool \<Rightarrow> (world, ApiError, unit) comp" where
  "set_capture_archive_state E context cid archived =
     bindM (own_capture E context cid) (\<lambda>c.
     bindM (if archived then bindM (utc_now E) (\<lambda>now. returnM (Some now)) else returnM None) (\<lambda>stamp.
     map_errM api_of_db (execute E (\<lambda>_ w. w\<lparr>captures :=
       update_where (\<lambda>r. ca_id r = ca_id c) (\<lambda>r. r\<lparr>ca_archived_at := stamp\<rparr>) (captures w)\<rparr>))))"

definition archive_capture :: "env \<Rightarrow> Context \<Rightarrow> int \<Rightarrow> (world, ApiError, unit) comp" where
  "archive_capture E context cid = set_capture_archive_state E context cid True"

definition unarchive_capture :: "env \<Rightarrow> Context \<Rightarrow> int \<Rightarrow> (world, ApiError, unit) comp" where
  "unarchive_capture E context cid = set_capture_archive_state E context cid False"

definition active_annotation :: "env \<Rightarrow> Context \<Rightarrow> int \<Rightarrow> (world, ApiError, annotation_row option) comp" where
  "active_annotation E context cid =
     map_errM api_of_db (select E (\<lambda>w. find_max_by an_id (filter (\<lambda>a. an_user_id a = ctx_user_id context \<and>
        an_capture_id a = cid \<and> an_archived_at a = None) (annotations w))))"

text \<open>
  The second half of \<open>set_annotation\<close>: the write, and the row read back. An insertion has the
  targets of its foreign keys: \<open>own_capture\<close> has found the capture, with its owner, before.
\<close>

definition store_annotation ::
  "env \<Rightarrow> int \<Rightarrow> int \<Rightarrow> string \<Rightarrow> annotation_row option \<Rightarrow> timestamp \<Rightarrow> (world, ApiError, annotation_row) comp" where
  "store_annotation E uid cid content existing now =
     bindM (map_errM api_of_db (case existing of
         Some a \<Rightarrow>
           if an_content a \<noteq> content
           then bindM (execute E (\<lambda>_ w. w\<lparr>annotations :=
                  update_where (\<lambda>r. an_id r = an_id a) (\<lambda>r. r\<lparr>an_content := content, an_updated_at := now\<rparr>)
                    (annotations w)\<rparr>)) (\<lambda>_. returnM (an_id a))
           else returnM (an_id a)
       | None \<Rightarrow>
           stmt E (\<lambda>_ w.
             let i = next_id an_id (annotations w)
             in (Inr i, w\<lparr>annotations := annotations w @ [\<lparr>an_id = i, an_user_id = uid,
                   an_capture_id = cid, an_created_at = now, an_updated_at = now, an_archived_at = None,
                   an_content = content\<rparr>]\<rparr>)))) (\<lambda>aid.
     bindM (map_errM api_of_db (select E (\<lambda>w. find (\<lambda>r. an_id r = aid) (annotations w)))) (\<lambda>loaded.
     case loaded of
       Some a \<Rightarrow> returnM a
     | None \<Rightarrow> throwM (internal (anyhow_msg (''failed to load annotation '' @ show_int aid @ '' after write'')))))"

definition set_annotation :: "env \<Rightarrow> Context \<Rightarrow> int \<Rightarrow> string \<Rightarrow> (world, ApiError, annotation_row) comp" where
  "set_annotation E context cid content0 =
     (let content = trim content0 in
      if content = [] then throwM (bad_request (anyhow_msg ''annotation content must not be empty''))
      else bindM (own_capture E context cid) (\<lambda>_.
           bindM (active_annotation E context cid) (\<lambda>existing.
           bindM (utc_now E) (\<lambda>now.
           store_annotation E (ctx_user_id context) cid content existing now))))"

definition soft_delete_annotation :: "env \<Rightarrow> Context \<Rightarrow> int \<Rightarrow> (world, ApiError, unit) comp" where
  "soft_delete_annotation E context cid =
     bindM (own_capture E context cid) (\<lambda>_.
     bindM (active_annotation E context cid) (\<lambda>existing.
     case existing of
       None \<Rightarrow> returnM ()
     | Some a \<Rightarrow>
         bindM (utc_now E) (\<lambda>now.
         map_errM api_of_db (execute E (\<lambda>_ w. w\<lparr>annotations :=
           update_where (\<lambda>r. an_id r = an_id a) (\<lambda>r. r\<lparr>an_archived_at := Some now\<rparr>) (annotations w)\<rparr>)))))"

definition MIN_PASSWORD_LENGTH :: nat where
  "MIN_PASSWORD_LENGTH = 8"

definition change_password ::
  "argon2 \<Rightarrow> env \<Rightarrow> Context \<Rightarrow> string \<Rightarrow> string \<Rightarrow> (world, ApiError, unit) comp" where
  "change_password A E context current_password new_password =
     (if trim new_password = [] then throwM (bad_request (anyhow_msg ''New password cannot be empty''))
      else if length new_password < MIN_PASSWORD_LENGTH
      then throwM (bad_request (anyhow_msg (''New password must be at least '' @ show_nat MIN_PASSWORD_LENGTH @ '' characters'')))
      else if current_password = new_password
      then throwM (bad_request (anyhow_msg ''New password must be different from current password''))
      else bindM (map_errM api_of_db (select E (\<lambda>w. find (\<lambda>u. us_id u = ctx_user_id context) (users w)))) (\<lambda>found.
        case found of
          None \<Rightarrow> throwM (unauthorized (anyhow_msg ''Authenticated user not found''))
        | Some db_user \<Rightarrow>
            (case verify_hash A (us_password_hash db_user) current_password of
               Inl e \<Rightarrow> throwM (internal (anyhow_msg (''Current password verification failed: '' @ auth_error_display e)))
             | Inr current_ok \<Rightarrow>
                 if \<not> current_ok then throwM (unauthorized (anyhow_msg ''Invalid current password''))
                 else (case hash A new_password of
                   Inl e \<Rightarrow> throwM (internal (anyhow_msg (''Password hashing failed: '' @ auth_error_display e)))
                 | Inr new_hash \<Rightarrow>
                     map_errM api_of_db (execute E (\<lambda>_ w. w\<lparr>users :=
                       update_where (\<lambda>u. us_id u = us_id db_user) (\<lambda>u. u\<lparr>us_password_hash := new_hash\<rparr>) (users w)\<rparr>))))))"

section \<open>Deletion\<close>

text \<open>
  A \<open>DELETE\<close> whose rows are still referenced is refused by the foreign key. The references
  are those of the \<open>belongs_to\<close> fields in \<open>model/*.rs\<close>.
\<close>

definition guarded_delete ::
  "env \<Rightarrow> (world \<Rightarrow> bool) \<Rightarrow> (world \<Rightarrow> world) \<Rightarrow> (world, db_err, unit) comp" where
  "guarded_delete E referenced f = stmt E (\<lambda>_ w.
     if referenced w
     then (Inl (DbExec (SqlxError (SqlxDatabase (Some ''23503'') None (conflict_text E (tick w))))), w)
     else (Inr (), f w))"

definition illumination_referenced :: "(illumination_row \<Rightarrow> bool) \<Rightarrow> world \<Rightarrow> bool" where
  "illumination_referenced p w = (\<exists>i \<in> set (illuminations w). p i \<and>
     ((\<exists>e \<in> set (knowledge_entities w). ke_illumination_id e = il_id i) \<or>
      (\<exists>s \<in> set (search_indexes w). si_illumination_id s = il_id i)))"

definition media_referenced :: "(media_row \<Rightarrow> bool) \<Rightarrow> world \<Rightarrow> bool" where
  "media_referenced p w = (\<exists>m \<in> set (medias w). p m \<and> (\<exists>r \<in> set (illumination_raws w). ir_media_id r = md_id m))"

definition capture_referenced :: "int \<Rightarrow> world \<Rightarrow> bool" where
  "capture_referenced cid w =
     ((\<exists>m \<in> set (medias w). md_capture_id m = cid) \<or> (\<exists>a \<in> set (annotations w). an_capture_id a = cid) \<or>
      (\<exists>i \<in> set (illuminations w). il_capture_id i = cid) \<or> (\<exists>r \<in> set (illumination_raws w). ir_capture_id r = cid) \<or>
      (\<exists>e \<in> set (knowledge_entities w). ke_capture_id e = cid) \<or> (\<exists>s \<in> set (search_indexes w). si_capture_id s = cid) \<or>
      (\<exists>r \<in> set (spark_input_refs w). sr_capture_id r = cid) \<or> (\<exists>r \<in> set (spark_output_refs w). so_capture_id r = cid))"

definition delete_capture :: "env \<Rightarrow> Context \<Rightarrow> int \<Rightarrow> (world, ApiError, unit) comp" where
  "delete_capture E context cid =
     bindM (map_errM api_of_db (select E (\<lambda>w. find (\<lambda>c. ca_id c = cid) (captures w)))) (\<lambda>found.
     case found of
       None \<Rightarrow> throwM (not_found (anyhow_msg (''Capture with id '' @ show_int cid @ '' not found'')))
     | Some c \<Rightarrow>
         if ca_user_id c \<noteq> ctx_user_id context then throwM (access_denied cid)
         else let uid = ctx_user_id context in
           map_errM api_of_db (
           bindM (execute E (\<lambda>_ w. w\<lparr>search_indexes :=
              delete_where (\<lambda>r. si_user_id r = uid \<and> si_capture_id r = cid) (search_indexes w)\<rparr>)) (\<lambda>_.
           bindM (execute E (\<lambda>_ w. w\<lparr>knowledge_entities :=
              delete_where (\<lambda>r. ke_user_id r = uid \<and> ke_capture_id r = cid) (knowledge_entities w)\<rparr>)) (\<lambda>_.
           bindM (execute E (\<lambda>_ w. w\<lparr>illumination_raws :=
              delete_where (\<lambda>r. ir_user_id r = uid \<and> ir_capture_id r = cid) (illumination_raws w)\<rparr>)) (\<lambda>_.
           bindM (guarded_delete E (illumination_referenced (\<lambda>i. il_user_id i = uid \<and> il_capture_id i = cid))
              (\<lambda>w. w\<lparr>illuminations := delete_where (\<lambda>r. il_user_id r = uid \<and> il_capture_id r = cid) (illuminations w)\<rparr>)) (\<lambda>_.
           bindM (guarded_delete E (media_referenced (\<lambda>m. md_user_id m = uid \<and> md_capture_id m = cid))
              (\<lambda>w. w\<lparr>medias := delete_where (\<lambda>r. md_user_id r = uid \<and> md_capture_id r = cid) (medias w)\<rparr>)) (\<lambda>_.
           bindM (execute E (\<lambda>_ w. w\<lparr>annotations :=
              delete_where (\<lambda>r. an_user_id r = uid \<and> an_capture_id r = cid) (annotations w)\<rparr>)) (\<lambda>_.
           guarded_delete E (capture_referenced cid)
              (\<lambda>w. w\<lparr>captures := delete_where (\<lambda>c. ca_id c = cid) (captures w)\<rparr>)))))))))"

section \<open>Order and scope of the reads\<close>

lemma take_by_id_keys:
  "(\<And>i c. by_id i = Some c \<Longrightarrow> k c = i) \<Longrightarrow>
     map k (take_by_id ids by_id) = filter (\<lambda>i. i \<in> dom by_id) (distinct_on (\<lambda>i. i) ids)"
proof (induction ids by_id rule: take_by_id.induct)
  case (2 i ids by_id)
  show ?case
  proof (cases "by_id i")
    case None
    then have "filter (\<lambda>j. j \<in> dom by_id) (filter (\<lambda>j. j \<noteq> i) xs) = filter (\<lambda>j. j \<in> dom by_id) xs" for xs
      by (induction xs) auto
    with 2 None show ?thesis by auto
  next
    case (Some c)
    have "k c' = j" if "(by_id(i := None)) j = Some c'" for j c'
      using that 2(3) by (auto split: if_splits)
    with 2(2) [OF Some] have "map k (take_by_id ids (by_id(i := None))) =
        filter (\<lambda>j. j \<in> dom (by_id(i := None))) (distinct_on (\<lambda>i. i) ids)" by blast
    moreover have "filter (\<lambda>j. j \<in> dom (by_id(i := None))) xs = filter (\<lambda>j. j \<in> dom by_id) (filter (\<lambda>j. j \<noteq> i) xs)" for xs
      by (induction xs) auto
    ultimately show ?thesis using Some 2(3) [OF Some] by auto
  qed
qed simp

lemma take_by_id_values: "set (take_by_id ids by_id) \<subseteq> ran by_id"
proof (induction ids by_id rule: take_by_id.induct)
  case (2 i ids by_id)
  show ?case
  proof (cases "by_id i")
    case None
    with 2(1) show ?thesis by simp
  next
    case (Some c)
    have "ran (by_id(i := None)) \<subseteq> ran by_id" by (auto simp: ran_def)
    with 2(2) [OF Some] have "set (take_by_id ids (by_id(i := None))) \<subseteq> ran by_id" by (rule subset_trans)
    with Some ranI [of by_id i c, OF Some] show ?thesis by (simp del: fun_upd_apply)
  qed
qed simp

lemma take_by_id_map:
  "distinct (map k xs) \<Longrightarrow> (\<And>x. x \<in> set xs \<Longrightarrow> by_id (k x) = Some (f x)) \<Longrightarrow> take_by_id (map k xs) by_id = map f xs"
proof (induction xs arbitrary: by_id)
  case (Cons x xs)
  have "take_by_id (map k xs) (by_id(k x := None)) = map f xs"
    using Cons.prems by (intro Cons.IH) (auto simp: image_iff)
  with Cons.prems show ?case by simp
qed simp

lemma set_order_captures: "set (order_captures cs ids) \<subseteq> set cs"
proof -
  let ?m = "map_of (rev (map (\<lambda>c. (ca_id (cx_row c), c)) cs))"
  have "ran ?m \<subseteq> set cs"
    by (auto simp: ran_def dest!: map_of_SomeD)
  with take_by_id_values [of ids ?m] show ?thesis unfolding order_captures_def by (rule subset_trans)
qed

lemma order_captures_ids:
  "map (ca_id \<circ> cx_row) (order_captures cs ids) =
     filter (\<lambda>i. i \<in> (ca_id \<circ> cx_row) ` set cs) (distinct_on (\<lambda>i. i) ids)"
proof -
  let ?m = "map_of (rev (map (\<lambda>c. (ca_id (cx_row c), c)) cs))"
  have "map (ca_id \<circ> cx_row) (take_by_id ids ?m) = filter (\<lambda>i. i \<in> dom ?m) (distinct_on (\<lambda>i. i) ids)"
    by (rule take_by_id_keys) (auto dest!: map_of_SomeD)
  moreover have "dom ?m = (ca_id \<circ> cx_row) ` set cs"
    by (simp add: dom_map_of_conv_image_fst image_image)
  ultimately show ?thesis by (simp add: order_captures_def)
qed

lemma order_captures_rows:
  assumes "distinct (map ca_id rows)" and "set sel \<subseteq> set rows" and "distinct (map ca_id sel)"
    and "\<And>r. cx_row (f r) = r"
  shows "order_captures (map f rows) (map ca_id sel) = map f sel"
  unfolding order_captures_def
proof (rule take_by_id_map [OF assms(3)])
  fix x assume "x \<in> set sel"
  then have "(ca_id x, f x) \<in> set (rev (map (\<lambda>c. (ca_id (cx_row c), c)) (map f rows)))"
    using assms(2,4) by force
  moreover have "distinct (map fst (rev (map (\<lambda>c. (ca_id (cx_row c), c)) (map f rows))))"
    using assms(1,4) by (simp add: rev_map [symmetric] comp_def)
  ultimately show "map_of (rev (map (\<lambda>c. (ca_id (cx_row c), c)) (map f rows))) (ca_id x) = Some (f x)"
    by (rule map_of_is_SomeI [rotated])
qed

lemma cx_row_load_capture [simp]: "cx_row (load_capture w c) = c"
  by (simp add: load_capture_def)

lemma map_cx_row_load: "map cx_row (map (load_capture w) cs) = cs"
  by (simp add: comp_def)

lemma load_captures_result:
  assumes "load_captures E context ids include_archived w = (r, w')"
  shows "(\<exists>n. w' = w\<lparr>tick := n\<rparr>) \<and>
         (case r of
            Inr cs \<Rightarrow>
              (\<forall>c \<in> set cs. ca_user_id (cx_row c) = ctx_user_id context \<and> cx_row c \<in> set (captures w) \<and>
                 (include_archived \<or> ca_archived_at (cx_row c) = None)) \<and>
              map (ca_id \<circ> cx_row) cs = filter (\<lambda>i. \<exists>c \<in> set (captures w). ca_id c = i \<and>
                 ca_user_id c = ctx_user_id context \<and> (include_archived \<or> ca_archived_at c = None)) (distinct_on (\<lambda>i. i) ids)
          | Inl e \<Rightarrow> ids = [] \<and> http_status_code e = 400 \<or> http_status_code e = 500)"
proof (cases "ids = [] \<or> db_fault E (tick w) \<noteq> None")
  case True
  with assms show ?thesis
    by (auto simp: load_captures_def runs select_def stmt_def Let_def api_ctor_defs
        intro: exI [of _ "tick w"] split: if_splits)
next
  case False
  let ?P = "\<lambda>c. ca_user_id c = ctx_user_id context \<and> ca_id c \<in> set ids \<and> (include_archived \<or> ca_archived_at c = None)"
  let ?w = "w\<lparr>tick := Suc (tick w)\<rparr>"
  let ?cs = "map (load_capture ?w) (filter ?P (captures w))"
  have run: "r = Inr (order_captures ?cs ids)" "w' = ?w"
    using assms False by (auto simp: load_captures_def runs select_def stmt_def Let_def)
  have "set (order_captures ?cs ids) \<subseteq> set ?cs" by (rule set_order_captures)
  moreover have "filter (\<lambda>i. i \<in> (ca_id \<circ> cx_row) ` set ?cs) (distinct_on (\<lambda>i. i) ids) =
      filter (\<lambda>i. \<exists>c \<in> set (captures w). ca_id c = i \<and> ca_user_id c = ctx_user_id context \<and>
        (include_archived \<or> ca_archived_at c = None)) (distinct_on (\<lambda>i. i) ids)"
    using set_distinct_on [of "\<lambda>i. i" ids] by (intro filter_cong) (auto simp: image_iff)
  ultimately show ?thesis using order_captures_ids [of ?cs ids] run by auto
qed

text \<open>
  A read of captures by id, whatever fails, returns only captures of the caller and,
  unless asked otherwise, none that is archived; it changes nothing. When the database
  answers, the captures come in the order of the requested ids, each once, and none that
  qualifies is missing.
\<close>

theorem load_captures_correct:
  assumes "load_captures E context ids include_archived w = (r, w')"
  shows "(\<exists>n. w' = w\<lparr>tick := n\<rparr>) \<and>
         (case r of
            Inr cs \<Rightarrow>
              (\<forall>c \<in> set cs. ca_user_id (cx_row c) = ctx_user_id context \<and> cx_row c \<in> set (captures w) \<and>
                 (include_archived \<or> ca_archived_at (cx_row c) = None)) \<and>
              map (ca_id \<circ> cx_row) cs = filter (\<lambda>i. \<exists>c \<in> set (captures w). ca_id c = i \<and>
                 ca_user_id c = ctx_user_id context \<and> (include_archived \<or> ca_archived_at c = None)) (distinct_on (\<lambda>i. i) ids)
          | Inl e \<Rightarrow> ids = [] \<and> http_status_code e = 400 \<or> http_status_code e = 500)"
  using assms by (rule load_captures_result)

text \<open>
  The timeline shows the newest captures first. Without a fault and with unique ids it
  returns exactly the \<open>limit\<close> newest captures of the caller that are not archived, newest
  first.
\<close>

theorem timeline_correct:
  assumes "no_faults E" and "distinct (map ca_id (captures w))"
  shows "\<exists>cs n. get_timeline_captures E context limit w = (Inr cs, w\<lparr>tick := n\<rparr>) \<and>
     map cx_row cs = take limit (sort_key (\<lambda>c. - ca_created_at c)
       (filter (\<lambda>c. ca_user_id c = ctx_user_id context \<and> ca_archived_at c = None) (captures w)))"
proof -
  let ?own = "filter (\<lambda>c. ca_user_id c = ctx_user_id context \<and> ca_archived_at c = None) (captures w)"
  let ?sel = "take limit (sort_key (\<lambda>c. - ca_created_at c) ?own)"
  let ?rows = "filter (\<lambda>c. ca_user_id c = ctx_user_id context \<and> ca_id c \<in> set (map ca_id ?sel) \<and> ca_archived_at c = None) (captures w)"
  let ?f = "load_capture (w\<lparr>tick := Suc (Suc (tick w))\<rparr>)"
  have sub: "set ?sel \<subseteq> set ?own" using set_take_subset [of limit "sort_key (\<lambda>c. - ca_created_at c) ?own"] by simp
  have "distinct (map ca_id ?own)" using assms(2) by (simp add: distinct_map_filter)
  then have "inj_on ca_id (set ?own)" "distinct ?own" by (simp_all add: distinct_map)
  then have dis: "distinct (map ca_id ?sel)"
    using inj_on_subset [OF _ sub] by (simp add: distinct_map)
  have "order_captures (map ?f ?rows) (map ca_id ?sel) = map ?f ?sel"
    using assms(2) sub by (intro order_captures_rows dis) (auto simp: distinct_map_filter)
  then have c1: "limit \<noteq> 0 \<Longrightarrow> ?sel \<noteq> [] \<Longrightarrow> get_timeline_captures E context limit w = (Inr (map ?f ?sel), w\<lparr>tick := Suc (Suc (tick w))\<rparr>)"
    using assms(1) by (simp add: get_timeline_captures_def get_captures_def load_captures_def runs)
  have c2: "limit = 0 \<Longrightarrow> get_timeline_captures E context limit w = (Inr [], w\<lparr>tick := tick w\<rparr>)"
    by (simp add: get_timeline_captures_def runs)
  have c3: "limit \<noteq> 0 \<Longrightarrow> ?sel = [] \<Longrightarrow> get_timeline_captures E context limit w = (Inr [], w\<lparr>tick := Suc (tick w)\<rparr>)"
    using assms(1) by (simp add: get_timeline_captures_def runs)
  consider "limit = 0" | "limit \<noteq> 0" "?sel = []" | "limit \<noteq> 0" "?sel \<noteq> []" by blast
  then show ?thesis
  proof cases
    case 1
    from c2 [OF 1] 1 show ?thesis by (intro exI [of _ "[]"] exI [of _ "tick w"] conjI) simp_all
  next
    case 2
    from c3 [OF 2] 2(2) show ?thesis by (intro exI [of _ "[]"] exI [of _ "Suc (tick w)"] conjI) simp_all
  next
    case 3
    from c1 [OF 3] show ?thesis by (intro exI conjI) (assumption, rule map_cx_row_load)
  qed
qed

section \<open>Annotations\<close>

definition active_annotations :: "int \<Rightarrow> int \<Rightarrow> world \<Rightarrow> annotation_row set" where
  "active_annotations uid cid w =
     {a \<in> set (annotations w). an_user_id a = uid \<and> an_capture_id a = cid \<and> an_archived_at a = None}"

text \<open>Ids identify, and a user has at most one active annotation of a capture.\<close>

definition annotations_ok :: "world \<Rightarrow> bool" where
  "annotations_ok w \<longleftrightarrow> distinct (map an_id (annotations w)) \<and>
     (\<forall>uid cid a b. a \<in> active_annotations uid cid w \<longrightarrow> b \<in> active_annotations uid cid w \<longrightarrow> a = b)"

definition owns_capture :: "int \<Rightarrow> int \<Rightarrow> world \<Rightarrow> bool" where
  "owns_capture uid cid w \<longleftrightarrow> (\<exists>c \<in> set (captures w). ca_id c = cid \<and> ca_user_id c = uid)"

lemma run_own_capture:
  "no_faults E \<Longrightarrow> own_capture E context cid w =
     ((case find (\<lambda>c. ca_id c = cid \<and> ca_user_id c = ctx_user_id context) (captures w) of
         None \<Rightarrow> Inl (access_denied cid) | Some c \<Rightarrow> Inr c), w\<lparr>tick := Suc (tick w)\<rparr>)"
  by (simp add: own_capture_def runs split: option.split)

lemma own_captureE:
  assumes "no_faults E"
  obtains c where "owns_capture (ctx_user_id ctx) cid w" "own_capture E ctx cid w = (Inr c, w\<lparr>tick := Suc (tick w)\<rparr>)"
      "c \<in> set (captures w)" "ca_id c = cid" "ca_user_id c = ctx_user_id ctx"
    | "\<not> owns_capture (ctx_user_id ctx) cid w" "own_capture E ctx cid w = (Inl (access_denied cid), w\<lparr>tick := Suc (tick w)\<rparr>)"
proof (cases "find (\<lambda>c. ca_id c = cid \<and> ca_user_id c = ctx_user_id ctx) (captures w)")
  case None
  then have "own_capture E ctx cid w = (Inl (access_denied cid), w\<lparr>tick := Suc (tick w)\<rparr>)"
    using assms by (simp add: run_own_capture)
  moreover from None have "\<not> owns_capture (ctx_user_id ctx) cid w"
    by (auto simp: owns_capture_def find_None_iff)
  ultimately show ?thesis by (rule that(2) [rotated])
next
  case (Some c)
  from find_SomeD [OF this] Some show ?thesis
    using that(1) [of c] assms by (auto simp: run_own_capture owns_capture_def)
qed

lemma active_annotationE:
  assumes "no_faults E" and "annotations_ok w"
  obtains a where "active_annotation E ctx cid w = (Inr (Some a), w\<lparr>tick := Suc (tick w)\<rparr>)"
      "active_annotations (ctx_user_id ctx) cid w = {a}"
    | "active_annotation E ctx cid w = (Inr None, w\<lparr>tick := Suc (tick w)\<rparr>)"
      "active_annotations (ctx_user_id ctx) cid w = {}"
proof -
  let ?rows = "filter (\<lambda>a. an_user_id a = ctx_user_id ctx \<and> an_capture_id a = cid \<and> an_archived_at a = None) (annotations w)"
  have run: "active_annotation E ctx cid w = (Inr (find_max_by an_id ?rows), w\<lparr>tick := Suc (tick w)\<rparr>)"
    using assms(1) by (simp add: active_annotation_def runs)
  have set: "set ?rows = active_annotations (ctx_user_id ctx) cid w" by (auto simp: active_annotations_def)
  show thesis
  proof (cases "find_max_by an_id ?rows")
    case None
    then have "set ?rows = {}" by simp
    with None run set show thesis by (intro that(2)) simp_all
  next
    case (Some a)
    then have "a \<in> active_annotations (ctx_user_id ctx) cid w" using find_max_by_SomeD [OF Some] set by blast
    with assms(2) have "active_annotations (ctx_user_id ctx) cid w = {a}" unfolding annotations_ok_def by blast
    with Some run show thesis by (intro that(1)) simp_all
  qed
qed

lemma set_update_id:
  assumes "distinct (map key rows)" and "a \<in> set rows"
  shows "set (update_where (\<lambda>r. key r = key a) f rows) = insert (f a) (set rows - {a})"
proof -
  have "key r = key a \<longleftrightarrow> r = a" if "r \<in> set rows" for r
    using assms that by (auto simp: distinct_map inj_on_def)
  with assms(2) show ?thesis by (auto simp: set_update_where)
qed

lemma find_by_id:
  "distinct (map key rows) \<Longrightarrow> a \<in> set rows \<Longrightarrow> find (\<lambda>r. key r = key a) rows = Some a"
  by (induction rows) auto

lemma update_id_keys:
  "(\<And>r. key (f r) = key r) \<Longrightarrow> map key (update_where p f rows) = map key rows"
  by (rule map_update_where)

text \<open>Rewriting one row, or adding one, changes only its own group of active annotations.\<close>

lemma active_update:
  assumes "distinct (map an_id (annotations w))" and "a \<in> set (annotations w)"
    and "\<And>r. an_id (f r) = an_id r \<and> an_user_id (f r) = an_user_id r \<and> an_capture_id (f r) = an_capture_id r"
  shows "active_annotations uid cid (w\<lparr>annotations := update_where (\<lambda>r. an_id r = an_id a) f (annotations w)\<rparr>) =
     (active_annotations uid cid w - {a}) \<union>
       (if an_user_id a = uid \<and> an_capture_id a = cid \<and> an_archived_at (f a) = None then {f a} else {})"
  using assms(3) by (auto simp: active_annotations_def set_update_id [OF assms(1,2)])

lemma annotations_ok_tick [simp]: "annotations_ok (w\<lparr>tick := n\<rparr>) = annotations_ok w"
  by (simp add: annotations_ok_def active_annotations_def)

lemma active_tick [simp]: "active_annotations uid cid (w\<lparr>tick := n\<rparr>) = active_annotations uid cid w"
  by (simp add: active_annotations_def)

lemma annotations_ok_update:
  assumes "annotations_ok w" and "active_annotations uid cid w = {a}"
    and f: "\<And>r. an_id (f r) = an_id r \<and> an_user_id (f r) = an_user_id r \<and> an_capture_id (f r) = an_capture_id r"
  shows "annotations_ok (w\<lparr>annotations := update_where (\<lambda>r. an_id r = an_id a) f (annotations w)\<rparr>) \<and>
     active_annotations uid cid (w\<lparr>annotations := update_where (\<lambda>r. an_id r = an_id a) f (annotations w)\<rparr>) =
       (if an_archived_at (f a) = None then {f a} else {}) \<and>
     (\<forall>u c. (u, c) \<noteq> (uid, cid) \<longrightarrow>
       active_annotations u c (w\<lparr>annotations := update_where (\<lambda>r. an_id r = an_id a) f (annotations w)\<rparr>) = active_annotations u c w)"
proof -
  let ?w = "w\<lparr>annotations := update_where (\<lambda>r. an_id r = an_id a) f (annotations w)\<rparr>"
  have a: "a \<in> set (annotations w)" "an_user_id a = uid" "an_capture_id a = cid"
    using assms(2) by (auto simp: active_annotations_def)
  have dis: "distinct (map an_id (annotations w))" using assms(1) by (simp add: annotations_ok_def)
  note upd = active_update [OF dis a(1), of f, OF f]
  have own: "active_annotations uid cid ?w = (if an_archived_at (f a) = None then {f a} else {})"
    using upd [of uid cid] assms(2) a by simp
  have other: "active_annotations u c ?w = active_annotations u c w" if "(u, c) \<noteq> (uid, cid)" for u c
    using upd [of u c] that a by (auto simp: active_annotations_def)
  have "map an_id (annotations ?w) = map an_id (annotations w)"
    using f by (simp add: update_id_keys)
  moreover have "x = y" if "x \<in> active_annotations u c ?w" "y \<in> active_annotations u c ?w" for u c x y
    using that own other [of u c] assms(1) by (cases "(u, c) = (uid, cid)") (auto simp: annotations_ok_def split: if_splits)
  ultimately have "annotations_ok ?w" using dis by (simp add: annotations_ok_def)
  with own other show ?thesis by blast
qed

lemma annotations_ok_insert:
  assumes "annotations_ok w" and "active_annotations uid cid w = {}" and "an_user_id a = uid" "an_capture_id a = cid"
    and "an_archived_at a = None" and "an_id a = next_id an_id (annotations w)"
  shows "annotations_ok (w\<lparr>annotations := annotations w @ [a]\<rparr>) \<and>
     active_annotations uid cid (w\<lparr>annotations := annotations w @ [a]\<rparr>) = {a} \<and>
     (\<forall>u c. (u, c) \<noteq> (uid, cid) \<longrightarrow> active_annotations u c (w\<lparr>annotations := annotations w @ [a]\<rparr>) = active_annotations u c w)"
proof -
  let ?w = "w\<lparr>annotations := annotations w @ [a]\<rparr>"
  have ins: "active_annotations u c ?w = active_annotations u c w \<union> (if (u, c) = (uid, cid) then {a} else {})" for u c
    using assms(3-5) by (auto simp: active_annotations_def)
  have "distinct (map an_id (annotations ?w))"
    using assms(1,6) next_id_fresh [of an_id "annotations w"] by (simp add: annotations_ok_def)
  moreover have "x = y" if "x \<in> active_annotations u c ?w" "y \<in> active_annotations u c ?w" for u c x y
    using that ins [of u c] assms(1,2) by (cases "(u, c) = (uid, cid)") (auto simp: annotations_ok_def)
  ultimately have "annotations_ok ?w" by (simp add: annotations_ok_def)
  with ins assms(2) show ?thesis by auto
qed

lemma store_annotation_existing:
  assumes "no_faults E" and "annotations_ok w" and "active_annotations uid cid w = {a}"
    and "store_annotation E uid cid content (Some a) now w = (r, w')"
  shows "annotations_ok w' \<and> (\<forall>u c. (u, c) \<noteq> (uid, cid) \<longrightarrow> active_annotations u c w' = active_annotations u c w) \<and>
     (\<exists>b. r = Inr b \<and> an_content b = content \<and> active_annotations uid cid w' = {b})"
proof -
  let ?f = "\<lambda>r. r\<lparr>an_content := content, an_updated_at := now\<rparr>"
  let ?w2 = "w\<lparr>annotations := update_where (\<lambda>r. an_id r = an_id a) ?f (annotations w)\<rparr>"
  have a: "a \<in> set (annotations w)" "an_archived_at a = None" using assms(3) by (auto simp: active_annotations_def)
  have dis: "distinct (map an_id (annotations w))" using assms(2) by (simp add: annotations_ok_def)
  note upd = annotations_ok_update [OF assms(2,3), of ?f]
  show ?thesis
  proof (cases "an_content a = content")
    case True
    have "find (\<lambda>r. an_id r = an_id a) (annotations w) = Some a" using dis a(1) by (rule find_by_id)
    then have "r = Inr a \<and> w' = w\<lparr>tick := Suc (tick w)\<rparr>"
      using assms(1,4) True by (auto simp: store_annotation_def runs)
    with assms(2,3) True show ?thesis by auto
  next
    case False
    have "map an_id (annotations ?w2) = map an_id (annotations w)" by (simp add: update_id_keys)
    moreover have "?f a \<in> set (annotations ?w2)" using dis a(1) by (simp add: set_update_id)
    ultimately have "find (\<lambda>r. an_id r = an_id a) (annotations ?w2) = Some (?f a)"
      using find_by_id [of an_id "annotations ?w2" "?f a"] dis by simp
    then have "r = Inr (?f a) \<and> w' = ?w2\<lparr>tick := Suc (Suc (tick w))\<rparr>"
      using assms(1,4) False by (auto simp: store_annotation_def runs)
    with upd a(2) show ?thesis by auto
  qed
qed

lemma store_annotation_fresh:
  assumes "no_faults E" and "annotations_ok w" and "active_annotations uid cid w = {}"
    and "store_annotation E uid cid content None now w = (r, w')"
  shows "annotations_ok w' \<and> (\<forall>u c. (u, c) \<noteq> (uid, cid) \<longrightarrow> active_annotations u c w' = active_annotations u c w) \<and>
     (\<exists>b. r = Inr b \<and> an_content b = content \<and> active_annotations uid cid w' = {b})"
proof -
  let ?a = "\<lparr>an_id = next_id an_id (annotations w), an_user_id = uid, an_capture_id = cid, an_created_at = now,
    an_updated_at = now, an_archived_at = None, an_content = content\<rparr>"
  let ?w2 = "w\<lparr>annotations := annotations w @ [?a]\<rparr>"
  have ins: "annotations_ok ?w2" "active_annotations uid cid ?w2 = {?a}"
      "\<And>u c. (u, c) \<noteq> (uid, cid) \<Longrightarrow> active_annotations u c ?w2 = active_annotations u c w"
    using annotations_ok_insert [OF assms(2,3), of ?a] by simp_all
  have "find (\<lambda>r. an_id r = next_id an_id (annotations w)) (annotations w @ [?a]) = Some ?a"
    using find_by_id [of an_id "annotations ?w2" ?a] ins(1) by (simp add: annotations_ok_def)
  then have "r = Inr ?a \<and> w' = ?w2\<lparr>tick := Suc (Suc (tick w))\<rparr>"
    using assms(1,4) by (auto simp: store_annotation_def runs Let_def)
  with ins show ?thesis by auto
qed

text \<open>
  Setting an annotation, without a fault. Blank content is a bad request and a foreign
  or missing capture is not found, and neither changes anything. Otherwise the caller has
  exactly one active annotation of the capture afterwards, it is the one returned, and it
  holds the trimmed content; the active annotations of everyone else and of every other
  capture are as before, and the table keeps at most one active annotation per capture.
\<close>

theorem set_annotation_correct:
  assumes "no_faults E" and "annotations_ok w" and "set_annotation E ctx cid content w = (r, w')"
  shows "annotations_ok w' \<and>
     (\<forall>u c. (u, c) \<noteq> (ctx_user_id ctx, cid) \<longrightarrow> active_annotations u c w' = active_annotations u c w) \<and>
     (case r of
        Inr a \<Rightarrow> trim content \<noteq> [] \<and> owns_capture (ctx_user_id ctx) cid w \<and> an_content a = trim content \<and>
                active_annotations (ctx_user_id ctx) cid w' = {a}
      | Inl e \<Rightarrow> annotations w' = annotations w \<and>
                (if trim content = [] then http_status_code e = 400
                 else e = access_denied cid \<and> \<not> owns_capture (ctx_user_id ctx) cid w))"
proof (cases "trim content = []")
  case True
  with assms show ?thesis by (auto simp: set_annotation_def runs bad_request_def)
next
  case nonblank: False
  let ?uid = "ctx_user_id ctx"
  let ?w1 = "w\<lparr>tick := Suc (tick w)\<rparr>"
  let ?w3 = "w\<lparr>tick := Suc (Suc (Suc (tick w)))\<rparr>"
  show ?thesis
  proof (rule own_captureE [OF assms(1), of ctx cid w])
    assume "\<not> owns_capture ?uid cid w" "own_capture E ctx cid w = (Inl (access_denied cid), ?w1)"
    with assms nonblank show ?thesis by (auto simp: set_annotation_def runs Let_def)
  next
    fix c assume own: "owns_capture ?uid cid w" "own_capture E ctx cid w = (Inr c, ?w1)"
    have ok1: "annotations_ok ?w1" using assms(2) by simp
    have store: "\<exists>now. store_annotation E ?uid cid (trim content) x now ?w3 = (r, w')"
      if "active_annotation E ctx cid ?w1 = (Inr x, ?w1\<lparr>tick := Suc (tick ?w1)\<rparr>)" for x
      using assms(3) own(2) nonblank that by (auto simp: set_annotation_def runs Let_def)
    have "annotations_ok w' \<and> (\<forall>u c. (u, c) \<noteq> (?uid, cid) \<longrightarrow> active_annotations u c w' = active_annotations u c w) \<and>
       (\<exists>b. r = Inr b \<and> an_content b = trim content \<and> active_annotations ?uid cid w' = {b})"
    proof (rule active_annotationE [OF assms(1) ok1, of ctx cid])
      fix a assume "active_annotation E ctx cid ?w1 = (Inr (Some a), ?w1\<lparr>tick := Suc (tick ?w1)\<rparr>)"
        and one: "active_annotations ?uid cid ?w1 = {a}"
      from store [OF this(1)] one assms(2) show ?thesis
        using store_annotation_existing [OF assms(1), of ?w3 ?uid cid a "trim content"] by fastforce
    next
      assume "active_annotation E ctx cid ?w1 = (Inr None, ?w1\<lparr>tick := Suc (tick ?w1)\<rparr>)"
        and none: "active_annotations ?uid cid ?w1 = {}"
      from store [OF this(1)] none assms(2) show ?thesis
        using store_annotation_fresh [OF assms(1), of ?w3 ?uid cid "trim content"] by fastforce
    qed
    with own(1) nonblank show ?thesis by auto
  qed
qed

text \<open>
  Removing an annotation, without a fault. A foreign or missing capture is not found
  and nothing changes; otherwise the caller has no active annotation of the capture
  afterwards, whether there was one or not, and no other active annotation changes.
\<close>

theorem soft_delete_annotation_correct:
  assumes "no_faults E" and "annotations_ok w" and "soft_delete_annotation E ctx cid w = (r, w')"
  shows "annotations_ok w' \<and>
     (\<forall>u c. (u, c) \<noteq> (ctx_user_id ctx, cid) \<longrightarrow> active_annotations u c w' = active_annotations u c w) \<and>
     (if owns_capture (ctx_user_id ctx) cid w then r = Inr () \<and> active_annotations (ctx_user_id ctx) cid w' = {}
      else r = Inl (access_denied cid) \<and> annotations w' = annotations w)"
proof -
  let ?uid = "ctx_user_id ctx"
  let ?w1 = "w\<lparr>tick := Suc (tick w)\<rparr>"
  show ?thesis
  proof (rule own_captureE [OF assms(1), of ctx cid w])
    assume "\<not> owns_capture ?uid cid w" "own_capture E ctx cid w = (Inl (access_denied cid), ?w1)"
    with assms show ?thesis by (auto simp: soft_delete_annotation_def runs)
  next
    fix c assume own: "owns_capture ?uid cid w" "own_capture E ctx cid w = (Inr c, ?w1)"
    have ok1: "annotations_ok ?w1" using assms(2) by simp
    show ?thesis
    proof (rule active_annotationE [OF assms(1) ok1, of ctx cid])
      fix a assume act: "active_annotation E ctx cid ?w1 = (Inr (Some a), ?w1\<lparr>tick := Suc (tick ?w1)\<rparr>)"
        and one: "active_annotations ?uid cid ?w1 = {a}"
      let ?f = "\<lambda>r. r\<lparr>an_archived_at := Some (clock E (Suc (Suc (tick w))))\<rparr>"
      let ?w2 = "w\<lparr>annotations := update_where (\<lambda>r. an_id r = an_id a) ?f (annotations w)\<rparr>"
      have "r = Inr () \<and> (\<exists>n. w' = ?w2\<lparr>tick := n\<rparr>)"
        using assms(1,3) own(2) act by (auto simp: soft_delete_annotation_def runs intro!: only_tickI)
      then show ?thesis using annotations_ok_update [of w ?uid cid a ?f] assms(2) one own(1) by auto
    next
      assume "active_annotation E ctx cid ?w1 = (Inr None, ?w1\<lparr>tick := Suc (tick ?w1)\<rparr>)"
        and "active_annotations ?uid cid ?w1 = {}"
      with assms own show ?thesis by (auto simp: soft_delete_annotation_def runs)
    qed
  qed
qed

section \<open>Deleting a capture\<close>

text \<open>The children of a capture belong to its owner, and their own references stay inside it.\<close>

definition capture_data_ok :: "world \<Rightarrow> bool" where
  "capture_data_ok w \<longleftrightarrow> distinct (map ca_id (captures w)) \<and>
     (\<forall>c \<in> set (captures w).
        (\<forall>m \<in> set (medias w). md_capture_id m = ca_id c \<longrightarrow> md_user_id m = ca_user_id c) \<and>
        (\<forall>a \<in> set (annotations w). an_capture_id a = ca_id c \<longrightarrow> an_user_id a = ca_user_id c) \<and>
        (\<forall>i \<in> set (illuminations w). il_capture_id i = ca_id c \<longrightarrow> il_user_id i = ca_user_id c) \<and>
        (\<forall>r \<in> set (illumination_raws w). ir_capture_id r = ca_id c \<longrightarrow> ir_user_id r = ca_user_id c) \<and>
        (\<forall>e \<in> set (knowledge_entities w). ke_capture_id e = ca_id c \<longrightarrow> ke_user_id e = ca_user_id c) \<and>
        (\<forall>s \<in> set (search_indexes w). si_capture_id s = ca_id c \<longrightarrow> si_user_id s = ca_user_id c)) \<and>
     (\<forall>i \<in> set (illuminations w).
        (\<forall>e \<in> set (knowledge_entities w). ke_illumination_id e = il_id i \<longrightarrow> ke_capture_id e = il_capture_id i) \<and>
        (\<forall>s \<in> set (search_indexes w). si_illumination_id s = il_id i \<longrightarrow> si_capture_id s = il_capture_id i)) \<and>
     (\<forall>m \<in> set (medias w). \<forall>r \<in> set (illumination_raws w). ir_media_id r = md_id m \<longrightarrow> ir_capture_id r = md_capture_id m)"

definition in_spark :: "int \<Rightarrow> world \<Rightarrow> bool" where
  "in_spark cid w \<longleftrightarrow> (\<exists>r \<in> set (spark_input_refs w). sr_capture_id r = cid) \<or>
     (\<exists>r \<in> set (spark_output_refs w). so_capture_id r = cid)"

text \<open>Everything of a capture but the capture itself.\<close>

definition purge :: "int \<Rightarrow> world \<Rightarrow> world" where
  "purge cid w = w\<lparr>search_indexes := delete_where (\<lambda>r. si_capture_id r = cid) (search_indexes w),
     knowledge_entities := delete_where (\<lambda>r. ke_capture_id r = cid) (knowledge_entities w),
     illumination_raws := delete_where (\<lambda>r. ir_capture_id r = cid) (illumination_raws w),
     illuminations := delete_where (\<lambda>r. il_capture_id r = cid) (illuminations w),
     medias := delete_where (\<lambda>r. md_capture_id r = cid) (medias w),
     annotations := delete_where (\<lambda>r. an_capture_id r = cid) (annotations w)\<rparr>"

lemma delete_owned:
  "(\<And>r. r \<in> set rows \<Longrightarrow> cap r = cid \<Longrightarrow> usr r = uid) \<Longrightarrow>
     delete_where (\<lambda>r. usr r = uid \<and> cap r = cid) rows = delete_where (\<lambda>r. cap r = cid) rows"
  unfolding delete_where_def by (rule filter_cong) auto

lemma run_guarded_delete [runs]:
  "no_faults E \<Longrightarrow> guarded_delete E ref f w =
     (let w' = w\<lparr>tick := Suc (tick w)\<rparr>
      in if ref w' then (Inl (DbExec (SqlxError (SqlxDatabase (Some ''23503'') None (conflict_text E (tick w'))))), w')
         else (Inr (), f w'))"
  by (simp add: guarded_delete_def runs Let_def)

text \<open>
  C15: deleting a capture, without a fault, on consistent data. A missing capture is not
  found and another user's capture is refused, and nothing changes. The owner's capture
  goes with its media, annotations, illuminations, raw results, entities and search text,
  and nothing else changes. But when a spark refers to the capture the last statement is
  refused: the call fails with 500 after every child of the capture is gone.
\<close>

theorem delete_capture_correct:
  assumes "no_faults E" and "capture_data_ok w" and "delete_capture E ctx cid w = (r, w')"
  shows "case find (\<lambda>c. ca_id c = cid) (captures w) of
      None \<Rightarrow> (\<exists>e n. r = Inl e \<and> http_status_code e = 404 \<and> w' = w\<lparr>tick := n\<rparr>)
    | Some c \<Rightarrow>
        if ca_user_id c \<noteq> ctx_user_id ctx then r = Inl (access_denied cid) \<and> (\<exists>n. w' = w\<lparr>tick := n\<rparr>)
        else if in_spark cid w then (\<exists>e n. r = Inl e \<and> http_status_code e = 500 \<and> w' = (purge cid w)\<lparr>tick := n\<rparr>)
        else r = Inr () \<and> (\<exists>n. w' = (purge cid w)\<lparr>captures := delete_where (\<lambda>c. ca_id c = cid) (captures w), tick := n\<rparr>)"
proof (cases "find (\<lambda>c. ca_id c = cid) (captures w)")
  case None
  with assms show ?thesis by (auto simp: delete_capture_def runs not_found_def)
next
  case (Some c)
  note c = find_SomeD [OF Some]
  show ?thesis
  proof (cases "ca_user_id c = ctx_user_id ctx")
    case False
    with Some assms show ?thesis by (auto simp: delete_capture_def runs)
  next
    case True
    have own: "delete_where (\<lambda>r. si_user_id r = ctx_user_id ctx \<and> si_capture_id r = cid) (search_indexes w) = delete_where (\<lambda>r. si_capture_id r = cid) (search_indexes w)"
      "delete_where (\<lambda>r. ke_user_id r = ctx_user_id ctx \<and> ke_capture_id r = cid) (knowledge_entities w) = delete_where (\<lambda>r. ke_capture_id r = cid) (knowledge_entities w)"
      "delete_where (\<lambda>r. ir_user_id r = ctx_user_id ctx \<and> ir_capture_id r = cid) (illumination_raws w) = delete_where (\<lambda>r. ir_capture_id r = cid) (illumination_raws w)"
      "delete_where (\<lambda>r. il_user_id r = ctx_user_id ctx \<and> il_capture_id r = cid) (illuminations w) = delete_where (\<lambda>r. il_capture_id r = cid) (illuminations w)"
      "delete_where (\<lambda>r. md_user_id r = ctx_user_id ctx \<and> md_capture_id r = cid) (medias w) = delete_where (\<lambda>r. md_capture_id r = cid) (medias w)"
      "delete_where (\<lambda>r. an_user_id r = ctx_user_id ctx \<and> an_capture_id r = cid) (annotations w) = delete_where (\<lambda>r. an_capture_id r = cid) (annotations w)"
      using assms(2) c True by (auto simp: capture_data_ok_def intro!: delete_owned)
    have free: "\<not> illumination_referenced (\<lambda>i. il_user_id i = ctx_user_id ctx \<and> il_capture_id i = cid) v"
      if "illuminations v = illuminations w"
        "search_indexes v = delete_where (\<lambda>r. si_capture_id r = cid) (search_indexes w)"
        "knowledge_entities v = delete_where (\<lambda>r. ke_capture_id r = cid) (knowledge_entities w)" for v
      using assms(2) that by (auto simp: illumination_referenced_def capture_data_ok_def)
    have free': "\<not> media_referenced (\<lambda>m. md_user_id m = ctx_user_id ctx \<and> md_capture_id m = cid) v"
      if "medias v = medias w"
        "illumination_raws v = delete_where (\<lambda>r. ir_capture_id r = cid) (illumination_raws w)" for v
      using assms(2) that by (auto simp: media_referenced_def capture_data_ok_def)
    have cap: "capture_referenced cid v = in_spark cid w"
      if "v\<lparr>tick := tick w\<rparr> = purge cid w" for v
    proof -
      have "capture_referenced cid v = capture_referenced cid (v\<lparr>tick := tick w\<rparr>)" by (simp add: capture_referenced_def)
      also have "\<dots> = in_spark cid w" unfolding that by (auto simp: capture_referenced_def purge_def in_spark_def)
      finally show ?thesis .
    qed
    show ?thesis
      using assms(1,3) Some True
      by (auto simp: delete_capture_def runs own free free' cap purge_def Let_def api_of_db_def
          split: if_splits intro!: only_tickI)
  qed
qed

section \<open>Changing the password\<close>

text \<open>
  After a password change that reported success the new password logs the same user
  in, the old one had been verified, the new one has at least eight bytes and differs from
  it, and no other account changed.
\<close>

theorem change_password_then_login:
  assumes "no_faults E" and "distinct (map us_id (users w))" and "distinct (map us_username (users w))"
    and "\<And>h. hash_password A new = Inr h \<Longrightarrow> \<exists>p. parse_hash A h = Inr p \<and> verify_password A p new"
    and "change_password A E ctx cur new w = (Inr (), w')"
  shows "8 \<le> length new \<and> cur \<noteq> new \<and>
     (\<exists>u \<in> set (users w). us_id u = ctx_user_id ctx \<and>
        (\<exists>p. parse_hash A (us_password_hash u) = Inr p \<and> verify_password A p cur) \<and>
        (\<exists>user. fst (authenticate A E (us_username u) new w') = Inr user \<and> au_id user = ctx_user_id ctx)) \<and>
     (\<forall>v \<in> set (users w). us_id v \<noteq> ctx_user_id ctx \<longrightarrow> v \<in> set (users w'))"
proof -
  from assms(1,5) obtain u h p where u: "find (\<lambda>u. us_id u = ctx_user_id ctx) (users w) = Some u"
      and old: "parse_hash A (us_password_hash u) = Inr p" "verify_password A p cur"
      and new: "hash_password A new = Inr h"
      and len: "8 \<le> length new" "cur \<noteq> new"
      and w': "w' = w\<lparr>tick := Suc (Suc (tick w)), users :=
         update_where (\<lambda>v. us_id v = us_id u) (\<lambda>v. v\<lparr>us_password_hash := h\<rparr>) (users w)\<rparr>"
    by (auto simp: change_password_def runs verify_hash_def hash_def MIN_PASSWORD_LENGTH_def
        split: if_splits option.splits sum.splits)
  from find_SomeD [OF u] have ui: "u \<in> set (users w)" "us_id u = ctx_user_id ctx" by auto
  let ?u = "u\<lparr>us_password_hash := h\<rparr>"
  let ?rows = "update_where (\<lambda>v. us_id v = us_id u) (\<lambda>v. v\<lparr>us_password_hash := h\<rparr>) (users w)"
  have rows: "set ?rows = insert ?u (set (users w) - {u})" by (rule set_update_id [OF assms(2) ui(1)])
  have "map us_username ?rows = map us_username (users w)" by (simp add: update_id_keys)
  then have "find_by_username (us_username u) ?rows = Some ?u"
    using find_by_id [of us_username ?rows ?u] assms(3) rows by (simp add: find_by_username_def)
  moreover obtain q where "parse_hash A h = Inr q" "verify_password A q new" using assms(4) [OF new] by blast
  ultimately have "fst (authenticate A E (us_username u) new w') = Inr (from_db_model ?u)"
    using assms(1) w' by (simp add: authenticate_def runs verify_hash_def)
  moreover have "au_id (from_db_model ?u) = ctx_user_id ctx" using ui by (simp add: from_db_model_def)
  moreover have "v \<in> set (users w')" if "v \<in> set (users w)" "us_id v \<noteq> ctx_user_id ctx" for v
    using that ui rows w' by auto
  ultimately show ?thesis using len old ui by blast
qed

section \<open>Examples\<close>

definition demo_ctx :: Context where
  "demo_ctx = context_from demo_user"

definition demo_data :: world where
  "demo_data = empty_world\<lparr>
     captures := [\<lparr>ca_id = 1, ca_user_id = 7, ca_created_at = 10, ca_archived_at = None\<rparr>,
                  \<lparr>ca_id = 2, ca_user_id = 7, ca_created_at = 20, ca_archived_at = None\<rparr>,
                  \<lparr>ca_id = 3, ca_user_id = 8, ca_created_at = 30, ca_archived_at = None\<rparr>],
     annotations := [\<lparr>an_id = 5, an_user_id = 7, an_capture_id = 1, an_created_at = 0, an_updated_at = 0,
                      an_archived_at = None, an_content = ''old''\<rparr>],
     spark_input_refs := [\<lparr>sr_id = 1, sr_user_id = 7, sr_spark_id = 1, sr_capture_id = 2, sr_position = 0, sr_created_at = 0\<rparr>]\<rparr>"

lemma demo_ctx_id [simp]: "ctx_user_id demo_ctx = 7"
  by (simp add: demo_ctx_def context_from_def ctx_user_id_def demo_user_def)

lemma demo_data_ok: "capture_data_ok demo_data" "annotations_ok demo_data"
  by (simp_all add: capture_data_ok_def annotations_ok_def active_annotations_def demo_data_def empty_world_def)

theorem load_captures_correct_witness:
  "\<exists>cs. fst (load_captures quiet_env demo_ctx [2, 3, 1, 2] False demo_data) = Inr cs \<and> map (ca_id \<circ> cx_row) cs = [2, 1]"
proof -
  obtain r w' where run: "load_captures quiet_env demo_ctx [2, 3, 1, 2] False demo_data = (r, w')" by fastforce
  have "\<exists>cs. r = Inr cs" using run by (auto simp: load_captures_def runs)
  with load_captures_correct [OF run] run show ?thesis by (auto simp: demo_data_def)
qed

theorem timeline_correct_witness:
  "\<exists>cs. fst (get_timeline_captures quiet_env demo_ctx 1 demo_data) = Inr cs \<and> map (ca_id \<circ> cx_row) cs = [2]"
proof -
  have "distinct (map ca_id (captures demo_data))" by (simp add: demo_data_def)
  from timeline_correct [OF no_faults_quiet this, of demo_ctx 1] obtain cs n where
    "get_timeline_captures quiet_env demo_ctx 1 demo_data = (Inr cs, demo_data\<lparr>tick := n\<rparr>)" and
    rows: "map cx_row cs = take 1 (sort_key (\<lambda>c. - ca_created_at c)
       (filter (\<lambda>c. ca_user_id c = ctx_user_id demo_ctx \<and> ca_archived_at c = None) (captures demo_data)))" by blast
  moreover have "map (ca_id \<circ> cx_row) cs = map ca_id (map cx_row cs)" by simp
  ultimately show ?thesis by (simp add: rows demo_data_def)
qed

theorem set_annotation_correct_witness:
  "\<exists>a w'. set_annotation quiet_env demo_ctx 1 '' new '' demo_data = (Inr a, w') \<and> an_content a = ''new'' \<and>
     active_annotations 7 1 w' = {a}"
proof -
  obtain r w' where run: "set_annotation quiet_env demo_ctx 1 '' new '' demo_data = (r, w')" by fastforce
  have t: "trim '' new '' = ''new''" by code_simp
  have "owns_capture 7 1 demo_data" by (simp add: owns_capture_def demo_data_def)
  with set_annotation_correct [OF no_faults_quiet demo_data_ok(2) run] run t show ?thesis by (cases r) auto
qed

theorem soft_delete_annotation_correct_witness:
  "\<exists>w'. soft_delete_annotation quiet_env demo_ctx 1 demo_data = (Inr (), w') \<and> active_annotations 7 1 w' = {}"
proof -
  obtain r w' where run: "soft_delete_annotation quiet_env demo_ctx 1 demo_data = (r, w')" by fastforce
  have "owns_capture 7 1 demo_data" by (simp add: owns_capture_def demo_data_def)
  with soft_delete_annotation_correct [OF no_faults_quiet demo_data_ok(2) run] run show ?thesis by auto
qed

theorem delete_capture_correct_witness:
  "fst (delete_capture quiet_env demo_ctx 1 demo_data) = Inr () \<and>
   map ca_id (captures (snd (delete_capture quiet_env demo_ctx 1 demo_data))) = [2, 3] \<and>
   map ca_id (captures (snd (delete_capture quiet_env demo_ctx 2 demo_data))) = [1, 2, 3] \<and>
   fst (delete_capture quiet_env demo_ctx 3 demo_data) = Inl (access_denied 3)"
proof -
  have i: "in_spark 2 demo_data" "\<not> in_spark 1 demo_data" by (simp_all add: in_spark_def demo_data_def empty_world_def)
  note d = delete_capture_correct [OF no_faults_quiet demo_data_ok(1) prod.collapse [symmetric], of demo_ctx]
  have "fst (delete_capture quiet_env demo_ctx 1 demo_data) = Inr () \<and>
     map ca_id (captures (snd (delete_capture quiet_env demo_ctx 1 demo_data))) = [2, 3]"
    using d [of 1] i by (auto simp: demo_data_def delete_where_def)
  moreover have "map ca_id (captures (snd (delete_capture quiet_env demo_ctx 2 demo_data))) = [1, 2, 3]"
    using d [of 2] i by (auto simp: demo_data_def purge_def)
  moreover have "fst (delete_capture quiet_env demo_ctx 3 demo_data) = Inl (access_denied 3)"
    using d [of 3] by (auto simp: demo_data_def)
  ultimately show ?thesis by blast
qed

definition demo_argon :: argon2 where
  "demo_argon = \<lparr>hash_password = Inr, parse_hash = Inr, verify_password = (\<lambda>h p. h = p)\<rparr>"

definition demo_users :: world where
  "demo_users = empty_world\<lparr>users := [\<lparr>us_id = 7, us_username = ''ann'', us_email = ''a'', us_password_hash = ''old'',
      us_is_admin = False, us_storage_shard = ''s''\<rparr>]\<rparr>"

theorem change_password_then_login_witness:
  "\<exists>w'. change_password demo_argon quiet_env demo_ctx ''old'' ''new-password'' demo_users = (Inr (), w') \<and>
     (\<exists>user. fst (authenticate demo_argon quiet_env ''ann'' ''new-password'' w') = Inr user \<and> au_id user = 7)"
proof -
  have t: "trim ''new-password'' \<noteq> []" by code_simp
  obtain w' where run: "change_password demo_argon quiet_env demo_ctx ''old'' ''new-password'' demo_users = (Inr (), w')"
    using t by (auto simp: change_password_def runs MIN_PASSWORD_LENGTH_def demo_users_def verify_hash_def hash_def demo_argon_def)
  have "distinct (map us_id (users demo_users))" "distinct (map us_username (users demo_users))"
    by (simp_all add: demo_users_def)
  from change_password_then_login [OF no_faults_quiet this _ run] run show ?thesis
    by (auto simp: demo_users_def demo_argon_def)
qed

end
