(* ===== verification/Backfill.thy ===== *)
theory Backfill
  imports Task_Master Schema_Info
begin

text \<open>
  \<open>backfill/*.rs\<close>: batch workloads. A pump selects a bounded batch of the targets that
  have no run tagged with the backfill, submits them, and records whether it found any; a
  backfill that was found dry is not pumped again unless forced.
\<close>

section \<open>Definitions of workloads\<close>

record BackfillTarget =
  bt_entity_id :: int
  bt_owner_id :: int

text \<open>The trait \<open>Backfill\<close>; the static task and entity type of its task are fields too.\<close>

record Backfill =
  bd_id :: string
  bd_task_type :: string
  bd_entity_type :: string
  bd_targets :: "world \<Rightarrow> BackfillTarget list"
  bd_make_task :: "BackfillTarget \<Rightarrow> IlluminationTask"

definition ILLUMINATE_V2_BACKFILL_ID :: string where
  "ILLUMINATE_V2_BACKFILL_ID = ''illuminate-v2-all-captures-2026-10-16''"

definition capture_targets :: "world \<Rightarrow> BackfillTarget list" where
  "capture_targets w = map (\<lambda>c. \<lparr>bt_entity_id = ca_id c, bt_owner_id = ca_user_id c\<rparr>) (captures w)"

definition illuminate_v2_task :: "BackfillTarget \<Rightarrow> IlluminationTask" where
  "illuminate_v2_task target =
     illumination_task_new (bt_entity_id target) (bt_owner_id target) ''gemini-3.8-flash'' V2"

definition illuminate_v2_backfill :: Backfill where
  "illuminate_v2_backfill = \<lparr>bd_id = ILLUMINATE_V2_BACKFILL_ID, bd_task_type = ''illuminate'', bd_entity_type = ''capture'',
     bd_targets = capture_targets, bd_make_task = illuminate_v2_task\<rparr>"

definition BATCH_SIZE :: nat where
  "BATCH_SIZE = 100"

definition backfill_definition :: "env \<Rightarrow> string \<Rightarrow> ApiError + Backfill" where
  "backfill_definition E i =
     (if i = bd_id illuminate_v2_backfill then Inr illuminate_v2_backfill
      else Inl (not_found (anyhow_msg (''Unknown backfill '' @ debug_fmt E i))))"

section \<open>Pumping\<close>

record BackfillPumpRequest =
  rq_backfill_id :: string
  rq_limit :: "nat option"
  rq_force :: bool

record BackfillSubmissionError =
  be_entity_id :: int
  be_error :: string

record BackfillPumpResponse =
  rp_backfill_id :: string
  rp_selected_count :: nat
  rp_enqueued_count :: nat
  rp_already_submitted_count :: nat
  rp_refused_in_flight_count :: nat
  rp_errors :: "BackfillSubmissionError list"
  rp_dry_since :: "timestamp option"
  rp_pumped_at :: timestamp

text \<open>The anti-join with the runs tagged with this backfill, the order, and the limit.\<close>

definition submitted :: "Backfill \<Rightarrow> task_run_row list \<Rightarrow> BackfillTarget \<Rightarrow> bool" where
  "submitted B rows t \<longleftrightarrow> (\<exists>r \<in> set rows. tr_backfill_id r = Some (bd_id B) \<and> tr_task_type r = bd_task_type B \<and>
     tr_entity_type r = bd_entity_type B \<and> tr_entity_owner_id r = bt_owner_id t \<and> tr_entity_id r = bt_entity_id t)"

definition remaining :: "Backfill \<Rightarrow> world \<Rightarrow> BackfillTarget list" where
  "remaining B w = filter (\<lambda>t. \<not> submitted B (task_runs w) t) (bd_targets B w)"

definition select_targets :: "env \<Rightarrow> Backfill \<Rightarrow> nat \<Rightarrow> (world, ApiError, BackfillTarget list) comp" where
  "select_targets E B limit =
     map_errM api_of_db (select E (\<lambda>w.
       take limit (sort_key (\<lambda>t. (- bt_entity_id t, - bt_owner_id t)) (remaining B w))))"

definition find_backfill :: "env \<Rightarrow> string \<Rightarrow> (world, ApiError, backfill_row option) comp" where
  "find_backfill E bid = map_errM api_of_db (select E (\<lambda>w. find (\<lambda>r. bf_backfill_id r = bid) (backfills w)))"

definition ensure_not_dry :: "env \<Rightarrow> string \<Rightarrow> bool \<Rightarrow> (world, ApiError, unit) comp" where
  "ensure_not_dry E bid force =
     (if force then returnM ()
      else bindM (find_backfill E bid) (\<lambda>found.
           case found of
             None \<Rightarrow> returnM ()
           | Some record \<Rightarrow>
               (case bf_dry_since record of
                  None \<Rightarrow> returnM ()
                | Some dry_since \<Rightarrow> throwM (conflict (anyhow_msg (
                    ''Backfill '' @ debug_fmt E bid @ '' has had no eligible targets since '' @ rfc3339 E dry_since
                    @ '' (last pumped '' @ rfc3339 E (bf_last_pumped_at record)
                    @ ''); pass force=true (CLI --force) to pump again''))))))"

text \<open>The upsert of the pump's observation, and the columns it returns.\<close>

definition pumped_row :: "bool \<Rightarrow> timestamp \<Rightarrow> backfill_row \<Rightarrow> backfill_row" where
  "pumped_row dry now row =
     row\<lparr>bf_last_pumped_at := now,
         bf_dry_since := (if dry then Some (case bf_dry_since row of Some t \<Rightarrow> t | None \<Rightarrow> now) else None)\<rparr>"

definition record_pump :: "env \<Rightarrow> string \<Rightarrow> bool \<Rightarrow> (world, ApiError, timestamp \<times> timestamp option) comp" where
  "record_pump E bid dry =
     map_errM api_of_db (stmt E (\<lambda>now w.
       case find (\<lambda>r. bf_backfill_id r = bid) (backfills w) of
         None \<Rightarrow>
           let row = \<lparr>bf_backfill_id = bid, bf_last_pumped_at = now, bf_dry_since = (if dry then Some now else None)\<rparr>
           in (Inr (now, bf_dry_since row), w\<lparr>backfills := backfills w @ [row]\<rparr>)
       | Some row \<Rightarrow>
           (Inr (now, bf_dry_since (pumped_row dry now row)),
            w\<lparr>backfills := update_where (\<lambda>r. bf_backfill_id r = bid) (pumped_row dry now) (backfills w)\<rparr>)))"

record pump_tally =
  tl_enqueued :: nat
  tl_already_submitted :: nat
  tl_refused_in_flight :: nat
  tl_errors :: "BackfillSubmissionError list"

definition count_outcome :: "BackfillTarget \<Rightarrow> ApiError + SubmitOutcome \<Rightarrow> pump_tally \<Rightarrow> pump_tally" where
  "count_outcome target result tally =
     (case result of
        Inr (Enqueued _ _) \<Rightarrow> tally\<lparr>tl_enqueued := Suc (tl_enqueued tally)\<rparr>
      | Inr (AlreadySubmittedBackfill _ _) \<Rightarrow> tally\<lparr>tl_already_submitted := Suc (tl_already_submitted tally)\<rparr>
      | Inr RefusedAlreadyInFlight \<Rightarrow> tally\<lparr>tl_refused_in_flight := Suc (tl_refused_in_flight tally)\<rparr>
      | Inl error \<Rightarrow> tally\<lparr>tl_errors := tl_errors tally @
          [\<lparr>be_entity_id = bt_entity_id target, be_error = anyhow_display (into_inner error)\<rparr>]\<rparr>)"

definition submit_target ::
  "(IlluminationTask \<Rightarrow> string \<Rightarrow> (world, ApiError, SubmitOutcome) comp) \<Rightarrow> Backfill \<Rightarrow> BackfillTarget \<Rightarrow> pump_tally
     \<Rightarrow> (world, ApiError, pump_tally) comp" where
  "submit_target submit B target tally =
     bindM (catchM (submit (bd_make_task B target) (bd_id B))) (\<lambda>result.
     returnM (count_outcome target result tally))"

definition submit_targets ::
  "(IlluminationTask \<Rightarrow> string \<Rightarrow> (world, ApiError, SubmitOutcome) comp) \<Rightarrow> Backfill \<Rightarrow> BackfillTarget list
     \<Rightarrow> (world, ApiError, pump_tally) comp" where
  "submit_targets submit B targets =
     foldM (submit_target submit B) targets \<lparr>tl_enqueued = 0, tl_already_submitted = 0, tl_refused_in_flight = 0, tl_errors = []\<rparr>"

definition pump_definition ::
  "env \<Rightarrow> Backfill \<Rightarrow> nat \<Rightarrow> bool \<Rightarrow> (IlluminationTask \<Rightarrow> string \<Rightarrow> (world, ApiError, SubmitOutcome) comp)
     \<Rightarrow> (world, ApiError, BackfillPumpResponse) comp" where
  "pump_definition E B limit force submit =
     (if limit = 0 then throwM (bad_request (anyhow_msg ''Candidate limit must be greater than zero''))
      else
        bindM (ensure_not_dry E (bd_id B) force) (\<lambda>_.
        bindM (select_targets E B limit) (\<lambda>targets.
        bindM (submit_targets submit B targets) (\<lambda>tally.
        bindM (record_pump E (bd_id B) (targets = [])) (\<lambda>(pumped_at, dry_since).
        returnM \<lparr>rp_backfill_id = bd_id B, rp_selected_count = length targets, rp_enqueued_count = tl_enqueued tally,
          rp_already_submitted_count = tl_already_submitted tally,
          rp_refused_in_flight_count = tl_refused_in_flight tally, rp_errors = tl_errors tally,
          rp_dry_since = dry_since, rp_pumped_at = pumped_at\<rparr>)))))"

definition pump :: "env \<Rightarrow> Context \<Rightarrow> BackfillPumpRequest \<Rightarrow> (world, ApiError, BackfillPumpResponse) comp" where
  "pump E context req =
     bindM (liftM (backfill_definition E (rq_backfill_id req))) (\<lambda>backfill.
     pump_definition E backfill (case rq_limit req of Some n \<Rightarrow> n | None \<Rightarrow> BATCH_SIZE) (rq_force req)
       (\<lambda>task i. submit_illuminate E context task (Some i)))"

section \<open>Reports\<close>

record BackfillStatusCount =
  sn_task_type :: string
  sn_status :: TaskRunStatus
  sn_count :: nat

record BackfillStatusResponse =
  sr_backfill_id :: string
  sr_last_pumped_at :: "timestamp option"
  sr_dry_since :: "timestamp option"
  sr_counts :: "BackfillStatusCount list"

text \<open>\<open>GROUP BY task_type, status_code\<close> with the count of each group, in order.\<close>

definition status_groups :: "task_run_row list \<Rightarrow> (string \<times> int \<times> nat) list" where
  "status_groups rows =
     map (\<lambda>(t, c). (t, c, length (filter (\<lambda>r. tr_task_type r = t \<and> tr_status_code r = c) rows)))
       (sort (remdups (map (\<lambda>r. (tr_task_type r, tr_status_code r)) rows)))"

definition status_count :: "string \<times> int \<times> nat \<Rightarrow> ApiError + BackfillStatusCount" where
  "status_count = (\<lambda>(t, c, n).
     case from_i32 c of
       Inl e \<Rightarrow> Inl (internal (anyhow_msg e))
     | Inr status \<Rightarrow> Inr \<lparr>sn_task_type = t, sn_status = status, sn_count = n\<rparr>)"

definition backfill_status :: "env \<Rightarrow> string \<Rightarrow> (world, ApiError, BackfillStatusResponse) comp" where
  "backfill_status E bid =
     bindM (liftM (backfill_definition E bid)) (\<lambda>B.
     bindM (find_backfill E (bd_id B)) (\<lambda>record.
     bindM (map_errM api_of_db (select E (\<lambda>w.
        status_groups (filter (\<lambda>r. tr_backfill_id r = Some (bd_id B)) (task_runs w))))) (\<lambda>rows.
     bindM (liftM (collect (map status_count rows))) (\<lambda>counts.
     returnM \<lparr>sr_backfill_id = bd_id B, sr_last_pumped_at = map_option bf_last_pumped_at record,
       sr_dry_since = Option.bind record bf_dry_since, sr_counts = counts\<rparr>))))"

definition backfill_failures :: "env \<Rightarrow> string \<Rightarrow> (world, ApiError, string \<times> TaskRunInfo list) comp" where
  "backfill_failures E bid =
     bindM (liftM (backfill_definition E bid)) (\<lambda>B.
     bindM (map_errM api_of_db (select E (\<lambda>w.
        sort_key (\<lambda>r. (tr_entity_id r, tr_task_type r, tr_id r))
          (filter (\<lambda>r. tr_backfill_id r = Some (bd_id B) \<and>
             tr_status_code r \<in> {as_i32 CompleteFailure, as_i32 SubmissionFailed}) (task_runs w))))) (\<lambda>rows.
     bindM (liftM (collect (map (\<lambda>row. case task_run_info_try_from row of Inl e \<Rightarrow> Inl (internal e) | Inr i \<Rightarrow> Inr i) rows)))
       (\<lambda>failures. returnM (bd_id B, failures))))"

section \<open>What a pump needs of a submission\<close>

text \<open>
  The engine is generic in how a task is submitted. It relies on this: a submission never
  removes a target from the recorded work or changes the candidates, and one that reports
  the target as enqueued or already submitted has recorded it. \<open>ok\<close> is what the store
  guarantees of its tables.
\<close>

locale recording_submitter =
  fixes B :: Backfill
    and submit :: "IlluminationTask \<Rightarrow> string \<Rightarrow> (world, ApiError, SubmitOutcome) comp"
    and ok :: "world \<Rightarrow> bool"
  assumes keeps_ok: "keeps ok (submit task i)"
    and records: "ok w \<Longrightarrow> submit (bd_make_task B t) (bd_id B) w = (Inr out, w') \<Longrightarrow> out \<noteq> RefusedAlreadyInFlight
           \<Longrightarrow> submitted B (task_runs w') t"
    and persists: "ok w \<Longrightarrow> submit task i w = (r, w') \<Longrightarrow> submitted B (task_runs w) t \<Longrightarrow> submitted B (task_runs w') t"
    and same_targets: "submit task i w = (r, w') \<Longrightarrow> bd_targets B w' = bd_targets B w"
    and ok_stmt: "ok (w\<lparr>tick := n\<rparr>) = ok w" "ok (w\<lparr>backfills := b\<rparr>) = ok w"
    and targets_stmt: "bd_targets B (w\<lparr>tick := n\<rparr>) = bd_targets B w" "bd_targets B (w\<lparr>backfills := b\<rparr>) = bd_targets B w"
begin

lemma run_submit_target:
  obtains res w' where "submit (bd_make_task B t) (bd_id B) w = (res, w')" and "submit_target submit B t a w = (Inr (count_outcome t res a), w')"
  by (cases "submit (bd_make_task B t) (bd_id B) w") (simp add: submit_target_def runs)

text \<open>A batch: every target is counted once, and those counted as recorded are recorded.\<close>

lemma submit_batch:
  "ok w \<Longrightarrow> distinct ts \<Longrightarrow>
   \<exists>b w' S. foldM (submit_target submit B) ts a w = (Inr b, w') \<and> ok w' \<and> bd_targets B w' = bd_targets B w \<and>
     (\<forall>t. submitted B (task_runs w) t \<longrightarrow> submitted B (task_runs w') t) \<and>
     S \<subseteq> set ts \<and> (\<forall>t \<in> S. submitted B (task_runs w') t) \<and>
     tl_enqueued b + tl_already_submitted b = tl_enqueued a + tl_already_submitted a + card S \<and>
     tl_enqueued b + tl_already_submitted b + tl_refused_in_flight b + length (tl_errors b) =
       tl_enqueued a + tl_already_submitted a + tl_refused_in_flight a + length (tl_errors a) + length ts"
proof (induction ts arbitrary: a w)
  case Nil
  then show ?case by (intro exI [of _ a] exI [of _ w] exI [of _ "{}"]) (simp add: runs)
next
  case (Cons t ts)
  obtain res v where sub: "submit (bd_make_task B t) (bd_id B) w = (res, v)"
    and one: "submit_target submit B t a w = (Inr (count_outcome t res a), v)" by (rule run_submit_target)
  have v: "ok v" using keepsD [OF keeps_ok Cons.prems(1)] sub by (metis snd_conv)
  let ?a = "count_outcome t res a"
  from Cons.IH [OF v, of ?a] Cons.prems obtain b w' S where IH:
    "foldM (submit_target submit B) ts ?a v = (Inr b, w')" "ok w'" "bd_targets B w' = bd_targets B v"
    "\<forall>t. submitted B (task_runs v) t \<longrightarrow> submitted B (task_runs w') t"
    "S \<subseteq> set ts" "\<forall>t \<in> S. submitted B (task_runs w') t"
    "tl_enqueued b + tl_already_submitted b = tl_enqueued ?a + tl_already_submitted ?a + card S"
    "tl_enqueued b + tl_already_submitted b + tl_refused_in_flight b + length (tl_errors b) =
       tl_enqueued ?a + tl_already_submitted ?a + tl_refused_in_flight ?a + length (tl_errors ?a) + length ts" by auto
  let ?recorded = "\<exists>out. res = Inr out \<and> out \<noteq> RefusedAlreadyInFlight"
  let ?S = "if ?recorded then insert t S else S"
  have "t \<notin> S" "finite S" using IH(5) Cons.prems(2) by (auto intro: finite_subset)
  then have "tl_enqueued ?a + tl_already_submitted ?a + card S = tl_enqueued a + tl_already_submitted a + card ?S"
    by (auto simp: count_outcome_def split: sum.split SubmitOutcome.split)
  moreover have "tl_enqueued ?a + tl_already_submitted ?a + tl_refused_in_flight ?a + length (tl_errors ?a) =
      tl_enqueued a + tl_already_submitted a + tl_refused_in_flight a + length (tl_errors a) + 1"
    by (auto simp: count_outcome_def split: sum.split SubmitOutcome.split)
  moreover have "submitted B (task_runs v) t" if "?recorded" using that records [OF Cons.prems(1)] sub by auto
  moreover have "submitted B (task_runs v) s" if "submitted B (task_runs w) s" for s
    using persists [OF Cons.prems(1) sub that] .
  ultimately show ?case using IH one same_targets [OF sub]
    by (intro exI [of _ b] exI [of _ w'] exI [of _ ?S]) (auto simp: runs)
qed

lemma remaining_after_batch:
  assumes "distinct (bd_targets B w)" and "bd_targets B w' = bd_targets B w"
    and "\<forall>t. submitted B (task_runs w) t \<longrightarrow> submitted B (task_runs w') t"
    and "S \<subseteq> set (remaining B w)" and "\<forall>t \<in> S. submitted B (task_runs w') t"
  shows "set (remaining B w') \<subseteq> set (remaining B w)" and "length (remaining B w') + card S \<le> length (remaining B w)"
proof -
  show sub: "set (remaining B w') \<subseteq> set (remaining B w)" using assms(2,3) by (auto simp: remaining_def)
  have "distinct (remaining B w)" "distinct (remaining B w')" using assms(1,2) by (simp_all add: remaining_def)
  then have len: "length (remaining B w) = card (set (remaining B w))" "length (remaining B w') = card (set (remaining B w'))"
    by (simp_all add: distinct_card)
  have "set (remaining B w') \<inter> S = {}" using assms(5) by (auto simp: remaining_def)
  then have "card (set (remaining B w')) + card S = card (set (remaining B w') \<union> S)"
    using finite_subset [OF assms(4)] by (simp add: card_Un_disjoint)
  also have "\<dots> \<le> card (set (remaining B w))" using sub assms(4) by (intro card_mono) auto
  finally show "length (remaining B w') + card S \<le> length (remaining B w)" using len by simp
qed

lemma ensure_not_dry_frame:
  assumes "ensure_not_dry E i force w = (r, w')"
  obtains n where "w' = w\<lparr>tick := n\<rparr>"
proof (cases force)
  case True
  with assms that [of "tick w"] show thesis by (auto simp: ensure_not_dry_def runs)
next
  case False
  with assms that [of "Suc (tick w)"] show thesis
    by (auto simp: ensure_not_dry_def find_backfill_def select_def stmt_def runs Let_def split: option.splits)
qed

lemma record_pump_frame:
  assumes "record_pump E i dry w = (r, w')"
  obtains n b where "w' = w\<lparr>tick := n, backfills := b\<rparr>"
proof -
  have "\<exists>n b. w' = w\<lparr>tick := n, backfills := b\<rparr>"
  proof (cases "db_fault E (tick w)")
    case (Some e)
    with assms show ?thesis
      by (intro exI [of _ "Suc (tick w)"] exI [of _ "backfills w"]) (auto simp: record_pump_def stmt_def runs Let_def)
  next
    case None
    with assms show ?thesis
      by (auto simp: record_pump_def stmt_def runs Let_def split: option.splits)
  qed
  then show thesis using that by blast
qed

lemma remaining_cong: "task_runs w = task_runs w' \<Longrightarrow> bd_targets B w = bd_targets B w' \<Longrightarrow> remaining B w = remaining B w'"
  by (simp add: remaining_def)

lemma pump_progress:
  assumes "ok w" and "distinct (bd_targets B w)" and "pump_definition E B limit force submit w = (Inr resp, w')"
  shows "rp_selected_count resp = min limit (length (remaining B w))"
    and "rp_selected_count resp = rp_enqueued_count resp + rp_already_submitted_count resp
           + rp_refused_in_flight_count resp + length (rp_errors resp)"
    and "set (remaining B w') \<subseteq> set (remaining B w)"
    and "length (remaining B w') + rp_enqueued_count resp + rp_already_submitted_count resp \<le> length (remaining B w)"
    and "ok w'"
proof -
  from assms(3) have "limit \<noteq> 0" by (cases "limit = 0") (simp_all add: pump_definition_def throwM_def)
  with assms(3) obtain w1 ts w2 b w3 p d where
      dry: "ensure_not_dry E (bd_id B) force w = (Inr (), w1)" and sel: "select_targets E B limit w1 = (Inr ts, w2)"
      and sub: "submit_targets submit B ts w2 = (Inr b, w3)" and rec: "record_pump E (bd_id B) (ts = []) w3 = (Inr (p, d), w')"
      and resp: "rp_selected_count resp = length ts" "rp_enqueued_count resp = tl_enqueued b"
        "rp_already_submitted_count resp = tl_already_submitted b" "rp_refused_in_flight_count resp = tl_refused_in_flight b"
        "rp_errors resp = tl_errors b"
    by (auto simp: pump_definition_def returnM_def elim!: bindM_InrE split: prod.splits)
  obtain n where w1: "w1 = w\<lparr>tick := n\<rparr>" by (rule ensure_not_dry_frame [OF dry])
  have r1: "remaining B w1 = remaining B w" by (rule remaining_cong) (simp_all add: w1 targets_stmt)
  have w2: "w2 = w\<lparr>tick := Suc n\<rparr>"
    and ts: "ts = take limit (sort_key (\<lambda>t. (- bt_entity_id t, - bt_owner_id t)) (remaining B w))"
    using sel r1 remaining_cong [of "w\<lparr>tick := Suc n\<rparr>" w1] w1
    by (auto simp: select_targets_def select_def stmt_def runs Let_def targets_stmt split: option.splits)
  have "distinct ts" using assms(2) ts by (simp add: remaining_def)
  moreover have "ok w2" using assms(1) w2 ok_stmt by simp
  ultimately obtain b' w3' S where batch: "foldM (submit_target submit B) ts \<lparr>tl_enqueued = 0, tl_already_submitted = 0, tl_refused_in_flight = 0, tl_errors = []\<rparr> w2 = (Inr b', w3')"
    "ok w3'" "bd_targets B w3' = bd_targets B w2" "\<forall>t. submitted B (task_runs w2) t \<longrightarrow> submitted B (task_runs w3') t"
    "S \<subseteq> set ts" "\<forall>t \<in> S. submitted B (task_runs w3') t" "tl_enqueued b' + tl_already_submitted b' = card S"
    "tl_enqueued b' + tl_already_submitted b' + tl_refused_in_flight b' + length (tl_errors b') = length ts"
    using submit_batch [of w2 ts "\<lparr>tl_enqueued = 0, tl_already_submitted = 0, tl_refused_in_flight = 0, tl_errors = []\<rparr>"] by auto
  with sub have b: "b' = b" "w3' = w3" by (simp_all add: submit_targets_def)
  obtain m bs where w': "w' = w3\<lparr>tick := m, backfills := bs\<rparr>" by (rule record_pump_frame [OF rec])
  have r': "remaining B w' = remaining B w3" by (rule remaining_cong) (simp_all add: w' targets_stmt)
  have r2: "remaining B w2 = remaining B w" by (rule remaining_cong) (simp_all add: w2 targets_stmt)
  have "set ts \<subseteq> set (remaining B w)" using ts set_take_subset by fastforce
  with batch(5) have S: "S \<subseteq> set (remaining B w2)" using r2 by auto
  have tg: "bd_targets B w3 = bd_targets B w2" "distinct (bd_targets B w2)"
    using batch(3) b assms(2) by (simp_all add: w2 targets_stmt)
  show "rp_selected_count resp = min limit (length (remaining B w))" using resp ts by simp
  show "rp_selected_count resp = rp_enqueued_count resp + rp_already_submitted_count resp
           + rp_refused_in_flight_count resp + length (rp_errors resp)" using resp batch(8) b by simp
  show "set (remaining B w') \<subseteq> set (remaining B w)"
    using remaining_after_batch(1) [OF tg(2,1) _ S] batch(4,6) b r' r2 by simp
  show "length (remaining B w') + rp_enqueued_count resp + rp_already_submitted_count resp \<le> length (remaining B w)"
    using remaining_after_batch(2) [OF tg(2,1) _ S] batch(4,6,7) b r' r2 resp by simp
  show "ok w'" using batch(2) b w' ok_stmt by simp
qed

end

section \<open>The task master as a submitter\<close>

text \<open>No write takes a row out of the recorded work.\<close>

lemma submitted_mono:
  assumes "\<And>r. r \<in> set rows \<Longrightarrow> \<exists>r' \<in> set rows'. identity r' = identity r" and "submitted B rows t"
  shows "submitted B rows' t"
proof -
  from assms(2) obtain r where r: "r \<in> set rows" "tr_backfill_id r = Some (bd_id B)" "tr_task_type r = bd_task_type B"
     "tr_entity_type r = bd_entity_type B" "tr_entity_owner_id r = bt_owner_id t" "tr_entity_id r = bt_entity_id t"
    by (auto simp: submitted_def)
  from assms(1) [OF r(1)] obtain r' where "r' \<in> set rows'" "identity r' = identity r" by blast
  with r identityD [of r' r] show ?thesis unfolding submitted_def by (intro bexI [of _ r']) auto
qed

lemma write_status_identities:
  assumes "status_only extras"
  shows "identity ` set (task_runs (snd (write_status E run status attempts extras w))) = identity ` set (task_runs w)"
proof -
  have "map identity (update_where hit (written_row now status attempts extras) rows) = map identity rows" for hit now rows
    by (rule map_update_where) (rule identity_written_row [OF assms])
  then have "identity ` set (update_where hit (written_row now status attempts extras) rows) = identity ` set rows" for hit now rows
    by (metis set_map)
  then show ?thesis
    using write_status_result [of E run status attempts extras w, OF prod.collapse [symmetric]]
    by (auto split: option.splits)
qed

lemma same_identity:
  "identity ` set rows' = identity ` set rows \<Longrightarrow> r \<in> set rows \<Longrightarrow> \<exists>r' \<in> set rows'. identity r' = identity r"
  by (metis (no_types, opaque_lifting) imageE imageI)

lemma keeps_submitted_write_status [keep]:
  assumes "status_only extras"
  shows "keeps (\<lambda>w. submitted B (task_runs w) t) (write_status E run status attempts extras)"
proof (rule keepsI)
  fix w :: world assume w: "submitted B (task_runs w) t"
  let ?w' = "snd (write_status E run status attempts extras w)"
  have "\<exists>r' \<in> set (task_runs ?w'). identity r' = identity r" if "r \<in> set (task_runs w)" for r
    using same_identity [OF write_status_identities [OF assms, of E run status attempts w] that] .
  from submitted_mono [OF this w] show "submitted B (task_runs ?w') t" .
qed

lemma keeps_submitted_insert_run [keep]: "keeps (\<lambda>w. submitted B (task_runs w) t) (insert_run E run)"
proof (rule keepsI)
  fix w :: world assume w: "submitted B (task_runs w) t"
  have "\<exists>r' \<in> set (task_runs (snd (insert_run E run w))). identity r' = identity r" if "r \<in> set (task_runs w)" for r
    using insert_run_result [of E run w, OF prod.collapse [symmetric]] that by auto
  from submitted_mono [OF this w] show "submitted B (task_runs (snd (insert_run E run w))) t" .
qed

lemma keeps_submitted_enqueue [keep]: "keeps (\<lambda>w. submitted B (task_runs w) t) (enqueue E run)"
  by (rule keepsI) (simp add: leavesD [OF leaves_enqueue])

lemma tick_free_submitted [simp]: "tick_free (\<lambda>w. submitted B (task_runs w) t)"
  by (simp add: tick_free_def)

lemma keeps_submitted_dispatch_run [keep]: "keeps (\<lambda>w. submitted B (task_runs w) t) (dispatch_run E run)"
  unfolding dispatch_run_def Let_def set_status_def
  by (intro keeps_bindM keeps_catchM triple_case_sum keeps_returnM keeps_throwM
        keeps_submitted_enqueue keeps_submitted_write_status status_only_extras)

lemma keeps_submitted_submit [keep]: "keeps (\<lambda>w. submitted B (task_runs w) t) (submit_inner E task bid)"
  unfolding submit_inner_def Let_def
  by (auto intro!: keeps_bindM triple_if triple_case_option keeps_returnM keeps_query keeps_new_uuid
        keeps_submitted_insert_run keeps_submitted_dispatch_run)

text \<open>Every row was made from a task.\<close>

definition row_of_task :: "task_run_row \<Rightarrow> task \<Rightarrow> bool" where
  "row_of_task r t \<longleftrightarrow> tr_task_type r = task_type t \<and> tr_entity_type r = entity_type t \<and>
     tr_entity_owner_id r = entity_owner_id t \<and> tr_entity_id r = entity_id t \<and> tr_logical_id r = make_logical_id t"

definition rows_of_tasks :: "world \<Rightarrow> bool" where
  "rows_of_tasks w \<longleftrightarrow> (\<forall>r \<in> set (task_runs w). \<exists>t. row_of_task r t)"

lemma tick_free_rows_of_tasks [simp]: "tick_free rows_of_tasks"
  by (simp add: tick_free_def rows_of_tasks_def)

lemma row_of_task_new: "logical_id run = make_logical_id (run_task run) \<Longrightarrow> row_of_task (new_task_run_row run i now) (run_task run)"
  by (simp add: row_of_task_def new_task_run_row_def)

lemma row_of_task_identity: "identity r = identity r' \<Longrightarrow> row_of_task r t = row_of_task r' t"
  by (simp add: row_of_task_def identity_def)

lemma keeps_rows_of_tasks_write_status [keep]:
  assumes "status_only extras"
  shows "keeps rows_of_tasks (write_status E run status attempts extras)"
proof (rule keepsI)
  fix w :: world assume w: "rows_of_tasks w"
  let ?w' = "snd (write_status E run status attempts extras w)"
  have "\<exists>r' \<in> set (task_runs w). identity r' = identity r" if "r \<in> set (task_runs ?w')" for r
    by (rule same_identity [OF write_status_identities [OF assms, symmetric] that])
  then have "\<exists>t. row_of_task r t" if "r \<in> set (task_runs ?w')" for r
    using that w row_of_task_identity unfolding rows_of_tasks_def by metis
  then show "rows_of_tasks ?w'" unfolding rows_of_tasks_def by blast
qed

lemma keeps_rows_of_tasks_insert_run [keep]:
  assumes "logical_id run = make_logical_id (run_task run)"
  shows "keeps rows_of_tasks (insert_run E run)"
proof (rule keepsI)
  fix w :: world assume "rows_of_tasks w"
  with row_of_task_new [OF assms] insert_run_result [of E run w, OF prod.collapse [symmetric]]
  show "rows_of_tasks (snd (insert_run E run w))" by (elim disjE conjE exE) (auto simp: rows_of_tasks_def)
qed

lemma keeps_rows_of_tasks_dispatch_run [keep]: "keeps rows_of_tasks (dispatch_run E run)"
proof -
  have "keeps rows_of_tasks (enqueue E run)"
    by (rule keepsI) (simp add: rows_of_tasks_def leavesD [OF leaves_enqueue, of task_runs])
  then show ?thesis
    unfolding dispatch_run_def Let_def set_status_def
    by (intro keeps_bindM keeps_catchM triple_case_sum keeps_returnM keeps_throwM
        keeps_rows_of_tasks_write_status status_only_extras)
qed

lemma keeps_rows_of_tasks_submit [keep]: "keeps rows_of_tasks (submit_inner E task bid)"
  unfolding submit_inner_def Let_def
  by (intro keeps_bindM triple_if triple_case_option keeps_returnM keeps_query keeps_new_uuid
        keeps_rows_of_tasks_insert_run keeps_rows_of_tasks_dispatch_run tick_free_rows_of_tasks)
     (simp_all add: task_run_new_def)

text \<open>A submission that is not refused has recorded its task.\<close>

definition recorded :: "string \<Rightarrow> task \<Rightarrow> world \<Rightarrow> bool" where
  "recorded bid t w \<longleftrightarrow> (\<exists>r \<in> set (task_runs w). tr_backfill_id r = Some bid \<and> row_of_task r t)"

lemma keeps_recorded_dispatch_run: "keeps (recorded bid t) (dispatch_run E run)"
proof -
  have enq: "keeps (recorded bid t) (enqueue E run)"
    by (rule keepsI) (simp add: recorded_def leavesD [OF leaves_enqueue, of task_runs])
  have wr: "keeps (recorded bid t) (write_status E run status attempts extras)" if "status_only extras" for status attempts extras
  proof (rule keepsI)
    fix w :: world assume w: "recorded bid t w"
    let ?w' = "snd (write_status E run status attempts extras w)"
    have "\<exists>r' \<in> set (task_runs ?w'). identity r' = identity r" if "r \<in> set (task_runs w)" for r
      by (rule same_identity [OF write_status_identities [OF \<open>status_only extras\<close>] that])
    with w show "recorded bid t ?w'" unfolding recorded_def by (metis identityD(5) row_of_task_identity)
  qed
  show ?thesis
    unfolding dispatch_run_def Let_def set_status_def
    by (intro keeps_bindM keeps_catchM triple_case_sum keeps_returnM keeps_throwM enq wr status_only_extras)
qed

lemma already_submitted_recorded:
  assumes "rows_of_tasks w" and "already_submitted E (Some bid) (make_logical_id t) w = (Inr (Some out), w')"
  shows "recorded bid t w'"
proof -
  from assms(2) obtain r where "find (\<lambda>r. tr_backfill_id r = Some bid \<and> tr_logical_id r = make_logical_id t) (task_runs w) = Some r"
    and "task_runs w' = task_runs w"
    by (auto simp: already_submitted_def query_backfill_run_def select_def stmt_def runs Let_def split: option.splits)
  with find_SomeD [OF this(1)] have r: "r \<in> set (task_runs w')" "tr_backfill_id r = Some bid" "tr_logical_id r = make_logical_id t"
    by auto
  with assms(1) \<open>task_runs w' = task_runs w\<close> obtain t' where "row_of_task r t'" by (auto simp: rows_of_tasks_def)
  with r have "row_of_task r t" using make_logical_id_parts [of t' t] by (auto simp: row_of_task_def)
  with r show ?thesis by (auto simp: recorded_def)
qed

lemma submit_inner_records:
  assumes "rows_of_tasks w" and "submit_inner E t (Some bid) w = (Inr out, w')" and "out \<noteq> RefusedAlreadyInFlight"
  shows "recorded bid t w'"
proof -
  let ?again = "bindM (already_submitted E (Some bid) (make_logical_id t)) (\<lambda>again.
       returnM (case again of Some outcome \<Rightarrow> outcome | None \<Rightarrow> RefusedAlreadyInFlight))"
  have again: "recorded bid t w'" if "rows_of_tasks v" "?again v = (Inr out, w')" for v
    using that assms(3) by (auto simp: returnM_def elim!: bindM_InrE split: option.splits intro: already_submitted_recorded)
  obtain first w1 where first: "already_submitted E (Some bid) (make_logical_id t) w = (Inr first, w1)"
    using assms(2) by (auto simp: submit_inner_def Let_def elim!: bindM_InrE)
  have w1: "rows_of_tasks w1" using keepsD [OF keeps_query(4) [OF tick_free_rows_of_tasks] assms(1)] first by (metis snd_conv)
  show ?thesis
  proof (cases first)
    case (Some o1)
    with first assms(1) have "recorded bid t w1" by (auto intro: already_submitted_recorded)
    with Some first assms(2) show ?thesis by (auto simp: submit_inner_def runs Let_def)
  next
    case None
    then obtain latest w2 where latest: "query_run_status E (make_logical_id t) None None w1 = (Inr latest, w2)"
      using assms(2) first by (auto simp: submit_inner_def runs Let_def split: prod.splits sum.splits)
    have w2: "rows_of_tasks w2" using keepsD [OF keeps_query(1) [OF tick_free_rows_of_tasks] w1] latest by (metis snd_conv)
    show ?thesis
    proof (cases "decide_next_run latest")
      case no: None
      then have "?again w2 = (Inr out, w')" using None first latest assms(2) by (simp add: submit_inner_def runs Let_def)
      from again [OF w2 this] show ?thesis .
    next
      case (Some k)
      let ?run = "(task_run_new (uuid_at E (tick w2)) t k)\<lparr>backfill_id := Some bid\<rparr>" and ?v = "w2\<lparr>tick := Suc (tick w2)\<rparr>"
      have v: "rows_of_tasks ?v" using w2 by (simp add: rows_of_tasks_def)
      from Some None first latest assms(2) obtain ins w3 where ins: "insert_run E ?run ?v = (Inr ins, w3)"
        and rest: "(if \<not> ins then ?again else dispatch_run E ?run) w3 = (Inr out, w')"
        by (auto simp: submit_inner_def runs Let_def split: prod.splits sum.splits)
      show ?thesis
      proof (cases ins)
        case True
        with insert_run_result [OF ins] obtain i now where "task_runs w3 = task_runs ?v @ [new_task_run_row ?run i now]" by auto
        moreover have "row_of_task (new_task_run_row ?run i now) t" using row_of_task_new [of ?run] by (simp add: task_run_new_def)
        ultimately have "recorded bid t w3" by (auto simp: recorded_def new_task_run_row_def)
        from keepsD [OF keeps_recorded_dispatch_run this, of E ?run] True rest show ?thesis by simp
      next
        case False
        have "rows_of_tasks w3" using keepsD [OF keeps_rows_of_tasks_insert_run v, of ?run E] ins by (simp add: task_run_new_def)
        from again [OF this] False rest show ?thesis by simp
      qed
    qed
  qed
qed

lemma keeps_liftM_bind: "(\<And>x. keeps I (m x)) \<Longrightarrow> keeps I (bindM (liftM r) m)"
  by (intro keeps_bindM keeps_liftM)

lemma leaves_captures_submit: "leaves captures (submit_inner E task bid)"
proof -
  have "leaves captures (dispatch_run E run)" for run
    unfolding dispatch_run_def Let_def by (auto intro!: frame leaves_enqueue leaves_set_status)
  then show ?thesis unfolding submit_inner_def Let_def by (auto intro!: frame leaves_query leaves_insert_run)
qed

lemma submit_illuminate_cases:
  assumes "submit_illuminate E ctx task bid w = (r, w')"
  obtains "w' = w" and "\<And>out. r \<noteq> Inr out"
    | res where "submit_inner E (Illuminate task) bid w = (res, w')" and "\<And>out. r = Inr out \<longleftrightarrow> res = Inr out"
  using assms by (auto simp: submit_illuminate_def ensure_task_submission_allowed_def runs split: if_splits prod.splits sum.splits)

interpretation illuminate_v2: recording_submitter illuminate_v2_backfill
  "\<lambda>task i. submit_illuminate E ctx task (Some i)" rows_of_tasks for E ctx
proof unfold_locales
  show "keeps rows_of_tasks (submit_illuminate E ctx task (Some i))" for task i
    unfolding submit_illuminate_def by (intro keeps_liftM_bind keeps_map_errM keeps_rows_of_tasks_submit)
next
  fix w t out w'
  assume w: "rows_of_tasks w" and out: "out \<noteq> RefusedAlreadyInFlight"
    and sub: "submit_illuminate E ctx (bd_make_task illuminate_v2_backfill t) (Some (bd_id illuminate_v2_backfill)) w = (Inr out, w')"
  let ?t = "Illuminate (bd_make_task illuminate_v2_backfill t)"
  from sub have "submit_inner E ?t (Some (bd_id illuminate_v2_backfill)) w = (Inr out, w')"
    by (rule submit_illuminate_cases) auto
  from submit_inner_records [OF w this out] show "submitted illuminate_v2_backfill (task_runs w') t"
    by (auto simp: recorded_def submitted_def row_of_task_def illuminate_v2_backfill_def illuminate_v2_task_def illumination_task_new_def)
next
  fix w task i r w' t
  assume sub: "submit_illuminate E ctx task (Some i) w = (r, w')" and t: "submitted illuminate_v2_backfill (task_runs w) t"
  from sub show "submitted illuminate_v2_backfill (task_runs w') t"
  proof (rule submit_illuminate_cases)
    fix res assume "submit_inner E (Illuminate task) (Some i) w = (res, w')"
    with keepsD [OF keeps_submitted_submit t] show ?thesis by (metis snd_conv)
  qed (use t in simp)
next
  fix task i w r w'
  assume "submit_illuminate E ctx task (Some i) w = (r, w')"
  then show "bd_targets illuminate_v2_backfill w' = bd_targets illuminate_v2_backfill w"
    by (rule submit_illuminate_cases)
       (auto simp: illuminate_v2_backfill_def capture_targets_def dest: leaves_run [OF leaves_captures_submit])
qed (simp_all add: rows_of_tasks_def illuminate_v2_backfill_def capture_targets_def)

lemma distinct_targets: "distinct (map ca_id (captures w)) \<Longrightarrow> distinct (bd_targets illuminate_v2_backfill w)"
  by (simp add: illuminate_v2_backfill_def capture_targets_def distinct_map inj_on_def)

text \<open>
  C19: every pump makes the progress it reports, whatever fails while it runs. It selects
  as many targets as the limit allows and there are left, counts each of them exactly once
  (enqueued, already submitted, refused, failed), never brings a recorded target back, and
  afterwards at least as many targets are recorded as it reported enqueued or already
  submitted. So pumps that refuse nothing and fail nothing drain the workload.
\<close>

theorem backfill_progress:
  assumes "rows_of_tasks w" and "distinct (map ca_id (captures w))"
    and "pump E ctx req w = (Inr resp, w')"
  shows "rp_selected_count resp =
           min (case rq_limit req of Some n \<Rightarrow> n | None \<Rightarrow> BATCH_SIZE) (length (remaining illuminate_v2_backfill w)) \<and>
         rp_selected_count resp = rp_enqueued_count resp + rp_already_submitted_count resp
           + rp_refused_in_flight_count resp + length (rp_errors resp) \<and>
         set (remaining illuminate_v2_backfill w') \<subseteq> set (remaining illuminate_v2_backfill w) \<and>
         length (remaining illuminate_v2_backfill w') + rp_enqueued_count resp + rp_already_submitted_count resp
           \<le> length (remaining illuminate_v2_backfill w) \<and> rows_of_tasks w'"
proof -
  from assms(3) have "pump_definition E illuminate_v2_backfill (case rq_limit req of Some n \<Rightarrow> n | None \<Rightarrow> BATCH_SIZE)
      (rq_force req) (\<lambda>task i. submit_illuminate E ctx task (Some i)) w = (Inr resp, w')"
    by (auto simp: pump_def backfill_definition_def liftM_def elim!: bindM_InrE split: if_splits)
  from illuminate_v2.pump_progress [OF assms(1) distinct_targets [OF assms(2)] this] show ?thesis by simp
qed

section \<open>The dry latch\<close>

lemma submit_target_Inr: "\<exists>b w'. submit_target submit B t a w = (Inr b, w')"
  by (cases "submit (bd_make_task B t) (bd_id B) w") (simp add: submit_target_def runs)

lemma submit_targets_Inr: "\<exists>b w'. foldM (submit_target submit B) ts a w = (Inr b, w')"
proof (induction ts arbitrary: a w)
  case (Cons t ts)
  obtain b w1 where "submit_target submit B t a w = (Inr b, w1)" using submit_target_Inr by blast
  with Cons [of b w1] show ?case by (simp add: runs)
qed (simp add: runs)

lemma leaves_backfills_submit: "leaves backfills (submit_illuminate E ctx task bid)"
proof -
  have "leaves backfills (dispatch_run E run)" for run
    unfolding dispatch_run_def Let_def by (auto intro!: frame leaves_enqueue leaves_set_status)
  then show ?thesis
    unfolding submit_illuminate_def submit_inner_def Let_def by (auto intro!: frame leaves_query leaves_insert_run)
qed

lemma leaves_backfills_submit_targets:
  "leaves backfills (submit_targets (\<lambda>task i. submit_illuminate E ctx task (Some i)) B ts)"
  unfolding submit_targets_def submit_target_def
  by (intro leaves_foldM leaves_bindM leaves_catchM leaves_backfills_submit leaves_returnM)

text \<open>The latch of a backfill, from its row.\<close>

definition dry_latch :: "string \<Rightarrow> world \<Rightarrow> timestamp option" where
  "dry_latch bid w = Option.bind (find (\<lambda>r. bf_backfill_id r = bid) (backfills w)) bf_dry_since"

lemma find_pumped:
  "find (\<lambda>r. bf_backfill_id r = bid) (update_where (\<lambda>r. bf_backfill_id r = bid) (pumped_row dry now) rows) =
     map_option (pumped_row dry now) (find (\<lambda>r. bf_backfill_id r = bid) rows)"
  by (induction rows) (auto simp: update_where_def pumped_row_def)

lemma find_snoc: "find p (xs @ [x]) = (case find p xs of Some y \<Rightarrow> Some y | None \<Rightarrow> if p x then Some x else None)"
  by (induction xs) auto

lemma record_pump_latch:
  assumes "no_faults E"
  obtains w' where "record_pump E bid dry w = (Inr (clock E (tick w), dry_latch bid w'), w')"
    and "dry_latch bid w' = (if dry then Some (case dry_latch bid w of Some t \<Rightarrow> t | None \<Rightarrow> clock E (tick w)) else None)"
    and "filter (\<lambda>r. bf_backfill_id r \<noteq> bid) (backfills w') = filter (\<lambda>r. bf_backfill_id r \<noteq> bid) (backfills w)"
proof (cases "find (\<lambda>r. bf_backfill_id r = bid) (backfills w)")
  case None
  let ?now = "clock E (tick w)"
  let ?w' = "w\<lparr>tick := Suc (tick w), backfills := backfills w @
     [\<lparr>bf_backfill_id = bid, bf_last_pumped_at = ?now, bf_dry_since = (if dry then Some ?now else None)\<rparr>]\<rparr>"
  show thesis
    by (rule that [of ?w']) (use None assms in \<open>simp_all add: record_pump_def runs dry_latch_def find_snoc\<close>)
next
  case (Some row)
  let ?now = "clock E (tick w)"
  let ?w' = "w\<lparr>tick := Suc (tick w), backfills := update_where (\<lambda>r. bf_backfill_id r = bid) (pumped_row dry ?now) (backfills w)\<rparr>"
  have "filter (\<lambda>r. bf_backfill_id r \<noteq> bid) (update_where (\<lambda>r. bf_backfill_id r = bid) (pumped_row dry ?now) rows) =
      filter (\<lambda>r. bf_backfill_id r \<noteq> bid) rows" for rows
    by (induction rows) (auto simp: update_where_def pumped_row_def)
  then show thesis
    by (intro that [of ?w']) (use Some assms in \<open>simp_all add: record_pump_def runs dry_latch_def find_pumped pumped_row_def\<close>)
qed

text \<open>
  The dry latch, with a working database. An unforced pump of a backfill that was found
  dry is refused with 409 and changes nothing. Any other pump with a positive limit runs:
  it sets the latch if there was nothing left to select, keeping the start of a streak that
  was already recorded, and clears it otherwise, reports the latch it leaves, and touches no
  other backfill. An unknown backfill is not found, a zero limit is a bad request.
\<close>

theorem backfill_dry_latch:
  assumes "no_faults E" and "pump E ctx req w = (r, w')"
  shows "let bid = ILLUMINATE_V2_BACKFILL_ID; limit = (case rq_limit req of Some n \<Rightarrow> n | None \<Rightarrow> BATCH_SIZE) in
     if rq_backfill_id req \<noteq> bid then (\<exists>e. r = Inl (not_found e)) \<and> w' = w
     else if limit = 0 then (\<exists>e. r = Inl (bad_request e)) \<and> w' = w
     else if \<not> rq_force req \<and> dry_latch bid w \<noteq> None then (\<exists>e. r = Inl (conflict e)) \<and> (\<exists>n. w' = w\<lparr>tick := n\<rparr>)
     else \<exists>resp now. r = Inr resp \<and> rp_dry_since resp = dry_latch bid w' \<and>
       dry_latch bid w' =
         (if remaining illuminate_v2_backfill w = [] then Some (case dry_latch bid w of Some t \<Rightarrow> t | None \<Rightarrow> now) else None) \<and>
       filter (\<lambda>r. bf_backfill_id r \<noteq> bid) (backfills w') = filter (\<lambda>r. bf_backfill_id r \<noteq> bid) (backfills w)"
proof -
  let ?bid = ILLUMINATE_V2_BACKFILL_ID and ?B = illuminate_v2_backfill
  let ?limit = "case rq_limit req of Some n \<Rightarrow> n | None \<Rightarrow> BATCH_SIZE"
  let ?submit = "\<lambda>task i. submit_illuminate E ctx task (Some i)"
  have id: "bd_id ?B = ?bid" by (simp add: illuminate_v2_backfill_def)
  consider "rq_backfill_id req \<noteq> ?bid" | "rq_backfill_id req = ?bid" "?limit = 0"
    | "rq_backfill_id req = ?bid" "?limit \<noteq> 0" "\<not> rq_force req \<and> dry_latch ?bid w \<noteq> None"
    | "rq_backfill_id req = ?bid" "?limit \<noteq> 0" "\<not> (\<not> rq_force req \<and> dry_latch ?bid w \<noteq> None)" by blast
  then show ?thesis
  proof cases
    case 1
    with assms(2) id show ?thesis by (auto simp: pump_def backfill_definition_def runs Let_def)
  next
    case 2
    with assms(2) id show ?thesis by (auto simp: pump_def backfill_definition_def pump_definition_def runs Let_def)
  next
    case 3
    then obtain row d where "find (\<lambda>r. bf_backfill_id r = ?bid) (backfills w) = Some row" "bf_dry_since row = Some d"
      by (auto simp: dry_latch_def split: option.splits Option.bind_splits)
    with 3 assms id show ?thesis
      by (auto simp: pump_def backfill_definition_def pump_definition_def ensure_not_dry_def find_backfill_def runs Let_def)
  next
    case 4
    obtain n1 where dry: "ensure_not_dry E ?bid (rq_force req) w = (Inr (), w\<lparr>tick := n1\<rparr>)"
    proof (cases "rq_force req")
      case True
      with that [of "tick w"] show thesis by (simp add: ensure_not_dry_def runs)
    next
      case False
      with 4 that [of "Suc (tick w)"] assms(1) show thesis
        by (auto simp: ensure_not_dry_def find_backfill_def dry_latch_def runs split: option.splits Option.bind_splits)
    qed
    let ?w2 = "w\<lparr>tick := Suc n1\<rparr>"
    let ?ts = "take ?limit (sort_key (\<lambda>t. (- bt_entity_id t, - bt_owner_id t)) (remaining ?B w))"
    have "remaining ?B ?w2 = remaining ?B w" by (rule illuminate_v2.remaining_cong) (simp_all add: illuminate_v2.targets_stmt)
    then have sel: "select_targets E ?B ?limit (w\<lparr>tick := n1\<rparr>) = (Inr ?ts, ?w2)"
      using assms(1) by (simp add: select_targets_def runs)
    obtain b w3 where sub: "submit_targets ?submit ?B ?ts ?w2 = (Inr b, w3)"
      using submit_targets_Inr unfolding submit_targets_def by blast
    have w3: "backfills w3 = backfills w" using leaves_run [OF leaves_backfills_submit_targets sub] by simp
    have empty: "?ts = [] \<longleftrightarrow> remaining ?B w = []"
      using 4(2) by (simp add: length_0_conv [symmetric] min_def del: length_0_conv)
    obtain w4 where rec: "record_pump E ?bid (?ts = []) w3 = (Inr (clock E (tick w3), dry_latch ?bid w4), w4)"
      and latch: "dry_latch ?bid w4 = (if ?ts = [] then Some (case dry_latch ?bid w3 of Some t \<Rightarrow> t | None \<Rightarrow> clock E (tick w3)) else None)"
      and others: "filter (\<lambda>r. bf_backfill_id r \<noteq> ?bid) (backfills w4) = filter (\<lambda>r. bf_backfill_id r \<noteq> ?bid) (backfills w3)"
      by (rule record_pump_latch [OF assms(1)])
    obtain resp where w': "w' = w4" and resp: "r = Inr resp" "rp_dry_since resp = dry_latch ?bid w4"
      using assms(2) 4(1,2) dry sel sub rec id
      by (auto simp: pump_def backfill_definition_def pump_definition_def runs)
    have "dry_latch ?bid w3 = dry_latch ?bid w" using w3 by (simp add: dry_latch_def)
    then have "r = Inr resp \<and> rp_dry_since resp = dry_latch ?bid w' \<and> dry_latch ?bid w' =
         (if remaining ?B w = [] then Some (case dry_latch ?bid w of Some t \<Rightarrow> t | None \<Rightarrow> clock E (tick w3)) else None) \<and>
       filter (\<lambda>r. bf_backfill_id r \<noteq> ?bid) (backfills w') = filter (\<lambda>r. bf_backfill_id r \<noteq> ?bid) (backfills w)"
      using w' resp latch others w3 empty by simp
    then have "\<exists>resp now. r = Inr resp \<and> rp_dry_since resp = dry_latch ?bid w' \<and> dry_latch ?bid w' =
         (if remaining ?B w = [] then Some (case dry_latch ?bid w of Some t \<Rightarrow> t | None \<Rightarrow> now) else None) \<and>
       filter (\<lambda>r. bf_backfill_id r \<noteq> ?bid) (backfills w') = filter (\<lambda>r. bf_backfill_id r \<noteq> ?bid) (backfills w)" by blast
    with 4 show ?thesis unfolding Let_def by argo
  qed
qed

section \<open>Examples\<close>

definition demo_admin :: Context where
  "demo_admin = context_from (demo_user\<lparr>au_is_admin := True\<rparr>)"

definition demo_captures :: world where
  "demo_captures = empty_world\<lparr>captures :=
     [\<lparr>ca_id = 1, ca_user_id = 7, ca_created_at = 10, ca_archived_at = None\<rparr>,
      \<lparr>ca_id = 2, ca_user_id = 8, ca_created_at = 20, ca_archived_at = None\<rparr>]\<rparr>"

definition demo_pump :: "nat \<Rightarrow> BackfillPumpRequest" where
  "demo_pump n = \<lparr>rq_backfill_id = ILLUMINATE_V2_BACKFILL_ID, rq_limit = Some n, rq_force = False\<rparr>"

theorem backfill_progress_witness:
  "\<exists>resp w'. pump quiet_env demo_admin (demo_pump 1) demo_captures = (Inr resp, w') \<and> rp_selected_count resp = 1 \<and>
     rp_enqueued_count resp = 1 \<and> length (remaining illuminate_v2_backfill w') \<le> 1"
proof -
  obtain r w' where run: "pump quiet_env demo_admin (demo_pump 1) demo_captures = (r, w')" by fastforce
  have "case fst (pump quiet_env demo_admin (demo_pump 1) demo_captures) of Inr resp \<Rightarrow> rp_enqueued_count resp = 1 | Inl _ \<Rightarrow> False"
    by code_simp
  with run obtain resp where r: "r = Inr resp" "rp_enqueued_count resp = 1" by (cases r) auto
  have "length (remaining illuminate_v2_backfill demo_captures) = 2"
    by (simp add: remaining_def submitted_def illuminate_v2_backfill_def capture_targets_def demo_captures_def empty_world_def)
  with backfill_progress [OF _ _ run [unfolded r]] r run show ?thesis
    by (auto simp: rows_of_tasks_def demo_captures_def empty_world_def demo_pump_def)
qed

theorem backfill_dry_latch_witness:
  "(\<exists>e. fst (pump quiet_env demo_admin (demo_pump 1) (empty_world\<lparr>backfills :=
      [\<lparr>bf_backfill_id = ILLUMINATE_V2_BACKFILL_ID, bf_last_pumped_at = 3, bf_dry_since = Some 2\<rparr>]\<rparr>)) = Inl (conflict e)) \<and>
   dry_latch ILLUMINATE_V2_BACKFILL_ID (snd (pump quiet_env demo_admin (demo_pump 1) empty_world)) \<noteq> None"
  using backfill_dry_latch [OF no_faults_quiet prod.collapse [symmetric], of "demo_pump 1" demo_admin empty_world]
    backfill_dry_latch [OF no_faults_quiet prod.collapse [symmetric], of "demo_pump 1" demo_admin "empty_world\<lparr>backfills :=
      [\<lparr>bf_backfill_id = ILLUMINATE_V2_BACKFILL_ID, bf_last_pumped_at = 3, bf_dry_since = Some 2\<rparr>]\<rparr>"]
  by (auto simp: demo_pump_def dry_latch_def remaining_def illuminate_v2_backfill_def capture_targets_def Let_def empty_world_def)

end
