(* ===== verification/Events.thy ===== *)
theory Events
  imports Run_Tracker
begin

text \<open>
  \<open>task/statuscatchup.rs\<close>, \<open>sse/notifier.rs\<close>, \<open>sse/listener.rs\<close>, \<open>sse/http.rs\<close>,
  \<open>webui/v2/r_events.rs\<close>: how a status change reaches the browser of its owner. A status
  write is announced through \<open>pg_notify\<close>; each instance decodes the announcements and
  fans them out; a connection first replays the latest runs, then carries the
  announcements of its user until it ends.
\<close>

section \<open>The JSON form of an announcement\<close>

text \<open>How \<open>chrono\<close> prints and reads a \<open>DateTime<Utc>\<close> in JSON.\<close>

record time_codec =
  print_time :: "timestamp \<Rightarrow> string"
  parse_time :: "string \<Rightarrow> timestamp option"

fun kind_name :: "ServerEventKind \<Rightarrow> string" where
  "kind_name TaskStatusEvent = ''task_status''"

definition payload_json :: "time_codec \<Rightarrow> TaskStatusPayload \<Rightarrow> json" where
  "payload_json T p = JObj (
     [(''task_type'', JStr (pl_task_type p)), (''status'', status_serialize (pl_status p)),
      (''logical_id'', JStr (pl_logical_id p)), (''run_id'', JStr (pl_run_id p)),
      (''run_number'', JNum (pl_run_number p)), (''attempts'', JNum (pl_attempts p))]
     @ opt_member ''processing_started_at'' (JStr \<circ> print_time T) (pl_processing_started_at p)
     @ opt_member ''estimated_duration_ms_p50'' JNum (pl_estimated_duration_ms_p50 p))"

definition update_json :: "time_codec \<Rightarrow> TaskStatusUpdate \<Rightarrow> json" where
  "update_json T e = JObj (
     [(''schema_version'', JNum (ev_schema_version e)), (''event_type'', JStr (kind_name (ev_event_type e))),
      (''timestamp'', JStr (print_time T (ev_timestamp e))), (''entity_type'', JStr (ev_entity_type e)),
      (''entity_id'', JNum (ev_entity_id e))]
     @ opt_member ''entity_owner_id'' JNum (ev_entity_owner_id e)
     @ [(''payload'', payload_json T (ev_payload e))])"

definition as_time :: "time_codec \<Rightarrow> json \<Rightarrow> timestamp option" where
  "as_time T j = Option.bind (as_string j) (parse_time T)"

definition as_i64_num :: "json \<Rightarrow> int option" where
  "as_i64_num j = (case j of JNum n \<Rightarrow> if in_i64 n then Some n else None | _ \<Rightarrow> None)"

definition as_u8_num :: "json \<Rightarrow> int option" where
  "as_u8_num j = (case j of JNum n \<Rightarrow> if 0 \<le> n \<and> n < 256 then Some n else None | _ \<Rightarrow> None)"

definition as_u64_num :: "json \<Rightarrow> int option" where
  "as_u64_num j = (case j of JNum n \<Rightarrow> if 0 \<le> n \<and> n < 18446744073709551616 then Some n else None | _ \<Rightarrow> None)"

definition as_status :: "json \<Rightarrow> TaskRunStatus option" where
  "as_status j = (case status_deserialize id j of Inr s \<Rightarrow> Some s | Inl _ \<Rightarrow> None)"

definition kind_of_json :: "json \<Rightarrow> ServerEventKind option" where
  "kind_of_json j = (if j = JStr ''task_status'' then Some TaskStatusEvent else None)"

definition payload_of_json :: "time_codec \<Rightarrow> json \<Rightarrow> TaskStatusPayload option" where
  "payload_of_json T j =
     (case (req_member j ''task_type'' as_string, req_member j ''status'' as_status,
            req_member j ''logical_id'' as_string, req_member j ''run_id'' as_string,
            req_member j ''run_number'' as_i32_num, req_member j ''attempts'' as_i32_num,
            nullable_member j ''processing_started_at'' (as_time T),
            nullable_member j ''estimated_duration_ms_p50'' as_i64_num) of
        (Some ty, Some st, Some l, Some r, Some n, Some a, Some p, Some d) \<Rightarrow>
          Some \<lparr>pl_task_type = ty, pl_status = st, pl_logical_id = l, pl_run_id = r, pl_run_number = n,
                pl_attempts = a, pl_processing_started_at = p, pl_estimated_duration_ms_p50 = d\<rparr>
      | _ \<Rightarrow> None)"

definition update_of_json :: "time_codec \<Rightarrow> json \<Rightarrow> TaskStatusUpdate option" where
  "update_of_json T j =
     (case (req_member j ''schema_version'' as_u8_num, req_member j ''event_type'' kind_of_json,
            req_member j ''timestamp'' (as_time T), req_member j ''entity_type'' as_string,
            req_member j ''entity_id'' as_i32_num, nullable_member j ''entity_owner_id'' as_i32_num,
            req_member j ''payload'' (payload_of_json T)) of
        (Some v, Some k, Some t, Some ty, Some i, Some u, Some p) \<Rightarrow>
          Some \<lparr>ev_schema_version = v, ev_event_type = k, ev_timestamp = t, ev_entity_type = ty, ev_entity_id = i,
                ev_entity_owner_id = u, ev_payload = p\<rparr>
      | _ \<Rightarrow> None)"

section \<open>The listener\<close>

definition decode_task_status_update :: "time_codec \<Rightarrow> json \<Rightarrow> TaskStatusUpdate option" where
  "decode_task_status_update T value =
     (case update_of_json T value of
        None \<Rightarrow> None
      | Some event \<Rightarrow>
          if (case ev_entity_owner_id event of Some owner \<Rightarrow> 0 < owner | None \<Rightarrow> False) then Some event else None)"

text \<open>The argument is the payload as \<open>serde_json\<close> reads it; \<open>None\<close> is text that is not JSON.\<close>

definition decode_server_event :: "time_codec \<Rightarrow> json option \<Rightarrow> TaskStatusUpdate option" where
  "decode_server_event T payload =
     (case payload of
        None \<Rightarrow> None
      | Some value \<Rightarrow>
          if Option.bind (member value ''schema_version'') as_u64_num \<noteq> Some CURRENT_SCHEMA_VERSION then None
          else (case member value ''event_type'' of
                  None \<Rightarrow> None
                | Some kind_value \<Rightarrow>
                    (case kind_of_json kind_value of
                       None \<Rightarrow> None
                     | Some TaskStatusEvent \<Rightarrow> decode_task_status_update T value)))"

text \<open>
  \<open>spawn_local_fanout\<close>: what the task sends, from what it sees: a change of the shutdown
  value (\<open>None\<close>: its sender is gone), or a result of \<open>recv\<close>.
\<close>

datatype fanout_input = ShutdownSeen "bool option" | Notified "json option" | RecvFailed

fun fanout :: "time_codec \<Rightarrow> fanout_input list \<Rightarrow> TaskStatusUpdate list" where
  "fanout T [] = []"
| "fanout T (ShutdownSeen v # rest) = (if v = None \<or> v = Some True then [] else fanout T rest)"
| "fanout T (Notified payload # rest) =
     (case decode_server_event T payload of Some event \<Rightarrow> event # fanout T rest | None \<Rightarrow> fanout T rest)"
| "fanout T (RecvFailed # rest) = []"

section \<open>Catch-up\<close>

definition is_running :: "task_run_row \<Rightarrow> bool" where
  "is_running row \<longleftrightarrow> tr_status_code row = as_i32 InProgress"

type_synonym estimates = "string \<Rightarrow> TaskTimingEstimate option option"

definition look_up_estimate :: "env \<Rightarrow> task_run_row \<Rightarrow> estimates \<Rightarrow> (world, ApiError, estimates) comp" where
  "look_up_estimate E row known =
     (if known (tr_task_type row) \<noteq> None then returnM known
      else bindM (client_estimate E (tr_task_type row)) (\<lambda>e. returnM (known(tr_task_type row \<mapsto> e))))"

definition catchup_events ::
  "env \<Rightarrow> int \<Rightarrow> string \<Rightarrow> int list \<Rightarrow> (world, ApiError, TaskStatusUpdate list) comp" where
  "catchup_events E owner etype ids =
     bindM (map_errM internal (query_latest_task_runs E owner etype ids)) (\<lambda>rows.
     bindM (foldM (look_up_estimate E) (filter is_running rows) Map.empty) (\<lambda>known.
     returnM (List.map_filter (\<lambda>row.
       from_row row (if is_running row then Option.bind (known (tr_task_type row)) id else None)) rows)))"

section \<open>The stream of a connection\<close>

datatype HttpStreamItem = Heartbeat | TaskStatusItem TaskStatusUpdate

definition filtered_json :: "time_codec \<Rightarrow> TaskStatusUpdate \<Rightarrow> json" where
  "filtered_json T update = update_json T (update\<lparr>ev_entity_owner_id := None\<rparr>)"

text \<open>The frame of an item: its event name and its data.\<close>

fun frame_of :: "time_codec \<Rightarrow> HttpStreamItem \<Rightarrow> string \<times> json" where
  "frame_of T (TaskStatusItem update) = (''task-status'', filtered_json T update)"
| "frame_of T Heartbeat = (''heartbeat'', JNum 1)"

text \<open>
  One turn of the loop: the shutdown value at its head, and the branch of \<open>select!\<close> that
  became ready. The timers and the channel decide which one that is.
\<close>

datatype stream_ready =
    DeadlineReached
  | HeartbeatDue
  | ShutdownChanged "bool option"
  | Received TaskStatusUpdate
  | Lagged
  | ChannelClosed

text \<open>The items produced, and whether the stream has ended.\<close>

fun live_events :: "int \<Rightarrow> (bool \<times> stream_ready) list \<Rightarrow> HttpStreamItem list \<times> bool" where
  "live_events user_id [] = ([], False)"
| "live_events user_id ((shutdown, ready) # turns) =
     (if shutdown then ([], True)
      else case ready of
        DeadlineReached \<Rightarrow> ([], True)
      | HeartbeatDue \<Rightarrow> (case live_events user_id turns of (items, ended) \<Rightarrow> (Heartbeat # items, ended))
      | ShutdownChanged v \<Rightarrow> if v = None \<or> v = Some True then ([], True) else live_events user_id turns
      | Received event \<Rightarrow>
          if ev_entity_owner_id event = Some user_id
          then (case live_events user_id turns of (items, ended) \<Rightarrow> (TaskStatusItem event # items, ended))
          else live_events user_id turns
      | Lagged \<Rightarrow> ([], True)
      | ChannelClosed \<Rightarrow> ([], True))"

definition make_sse_stream ::
  "int \<Rightarrow> TaskStatusUpdate list option \<Rightarrow> (bool \<times> stream_ready) list \<Rightarrow> HttpStreamItem list \<times> bool" where
  "make_sse_stream user_id catchup turns =
     (case live_events user_id turns of (items, ended) \<Rightarrow>
        (map TaskStatusItem (case catchup of Some events \<Rightarrow> events | None \<Rightarrow> []) @ items, ended))"

section \<open>The route\<close>

definition MAX_CATCHUP_ENTITIES :: nat where
  "MAX_CATCHUP_ENTITIES = 200"

fun parse_ids :: "env \<Rightarrow> int list \<Rightarrow> string list \<Rightarrow> ApiError + int list" where
  "parse_ids E ids [] = Inr ids"
| "parse_ids E ids (value # rest) =
     (case parse_i32 value of
        None \<Rightarrow> Inl (bad_request (anyhow_msg (''invalid capture_ids value '' @ debug_fmt E value @ '': '' @ int_error value)))
      | Some i \<Rightarrow>
          if i \<le> 0 then Inl (bad_request (anyhow_msg ''capture_ids must contain positive IDs''))
          else let ids' = (if i \<in> set ids then ids else ids @ [i]) in
            if MAX_CATCHUP_ENTITIES < length ids'
            then Inl (bad_request (anyhow_msg (''capture_ids accepts at most '' @ show_nat MAX_CATCHUP_ENTITIES @ '' IDs'')))
            else parse_ids E ids' rest)"

definition parse_capture_ids :: "env \<Rightarrow> string option \<Rightarrow> ApiError + int list" where
  "parse_capture_ids E raw =
     (case raw of
        None \<Rightarrow> Inr []
      | Some s \<Rightarrow> if s = [] then Inr [] else parse_ids E [] (split_on (CHR '','') s))"

definition catchup_or_skip :: "ApiError + TaskStatusUpdate list \<Rightarrow> TaskStatusUpdate list option" where
  "catchup_or_skip result = (case result of Inr events \<Rightarrow> Some events | Inl _ \<Rightarrow> None)"

definition get_events ::
  "env \<Rightarrow> int \<Rightarrow> string option \<Rightarrow> (bool \<times> stream_ready) list \<Rightarrow> (world, ApiError, HttpStreamItem list \<times> bool) comp" where
  "get_events E user_id capture_ids turns =
     bindM (liftM (parse_capture_ids E capture_ids)) (\<lambda>ids.
     bindM (if ids = [] then returnM None
            else bindM (catchM (catchup_events E user_id ''capture'' ids)) (\<lambda>r. returnM (catchup_or_skip r))) (\<lambda>catchup.
     returnM (make_sse_stream user_id catchup turns)))"

section \<open>Announcements arrive\<close>

definition time_roundtrip :: "time_codec \<Rightarrow> bool" where
  "time_roundtrip T \<longleftrightarrow> (\<forall>t. parse_time T (print_time T t) = Some t)"

definition update_in_range :: "TaskStatusUpdate \<Rightarrow> bool" where
  "update_in_range e \<longleftrightarrow> in_i32 (ev_entity_id e) \<and> in_i32 (pl_run_number (ev_payload e)) \<and>
     in_i32 (pl_attempts (ev_payload e)) \<and> (\<forall>u. ev_entity_owner_id e = Some u \<longrightarrow> in_i32 u) \<and>
     (\<forall>d. pl_estimated_duration_ms_p50 (ev_payload e) = Some d \<longrightarrow> in_i64 d)"

lemma as_time_print [simp]: "time_roundtrip T \<Longrightarrow> as_time T (JStr (print_time T t)) = Some t"
  by (simp add: as_time_def time_roundtrip_def)

lemma as_status_serialize [simp]: "as_status (status_serialize s) = Some s"
  by (cases s) (simp_all add: as_status_def status_deserialize_def status_serialize_def wire_of_json_def from_i32_def in_i32_def)

lemma payload_roundtrip:
  assumes "time_roundtrip T" and "in_i32 (pl_run_number p)" and "in_i32 (pl_attempts p)"
    and "\<And>d. pl_estimated_duration_ms_p50 p = Some d \<Longrightarrow> in_i64 d"
  shows "payload_of_json T (payload_json T p) = Some p"
  using assms
  by (cases p; cases "pl_processing_started_at p"; cases "pl_estimated_duration_ms_p50 p")
     (auto simp: payload_of_json_def payload_json_def json_field_defs as_i64_num_def)

lemma update_roundtrip:
  assumes "time_roundtrip T" and "update_in_range e" and "ev_schema_version e = CURRENT_SCHEMA_VERSION"
  shows "update_of_json T (update_json T e) = Some e"
proof -
  have "payload_of_json T (payload_json T (ev_payload e)) = Some (ev_payload e)"
    using assms by (intro payload_roundtrip) (auto simp: update_in_range_def)
  moreover have "kind_of_json (JStr (kind_name (ev_event_type e))) = Some (ev_event_type e)"
    by (cases "ev_event_type e") (simp add: kind_of_json_def)
  ultimately show ?thesis
    using assms
    by (cases e; cases "ev_entity_owner_id e")
       (auto simp: update_of_json_def update_json_def json_field_defs as_u8_num_def CURRENT_SCHEMA_VERSION_def update_in_range_def)
qed

text \<open>
  An announcement that names its owner arrives as it was sent. What the listener decodes
  from the notification of a status update is that update; a notification of another schema
  version, or of a kind this build does not know, or without an owner, is skipped and does
  not stop the fan-out.
\<close>

theorem announcement_roundtrip:
  assumes "time_roundtrip T" and "update_in_range e" and "ev_schema_version e = CURRENT_SCHEMA_VERSION"
  shows "fanout T (Notified (Some (update_json T e)) # rest) =
           (if \<exists>u > 0. ev_entity_owner_id e = Some u then e # fanout T rest else fanout T rest) \<and>
         (Option.bind (member j ''schema_version'') as_u64_num \<noteq> Some CURRENT_SCHEMA_VERSION \<or>
          Option.bind (member j ''event_type'') kind_of_json = None \<longrightarrow>
            fanout T (Notified (Some j) # rest) = fanout T rest) \<and>
         fanout T (Notified None # rest) = fanout T rest"
proof -
  have "member (update_json T e) ''schema_version'' = Some (JNum 4)"
    "member (update_json T e) ''event_type'' = Some (JStr ''task_status'')"
    using assms(3) by (cases "ev_event_type e"; simp add: update_json_def CURRENT_SCHEMA_VERSION_def)+
  then have "decode_server_event T (Some (update_json T e)) = (if \<exists>u > 0. ev_entity_owner_id e = Some u then Some e else None)"
    using update_roundtrip [OF assms]
    by (auto simp: decode_server_event_def as_u64_num_def CURRENT_SCHEMA_VERSION_def kind_of_json_def
        decode_task_status_update_def split: option.splits)
  moreover have "decode_server_event T (Some j) = None"
    if "Option.bind (member j ''schema_version'') as_u64_num \<noteq> Some CURRENT_SCHEMA_VERSION \<or>
        Option.bind (member j ''event_type'') kind_of_json = None"
    using that by (auto simp: decode_server_event_def split: option.splits)
  moreover have "decode_server_event T None = None" by (simp add: decode_server_event_def)
  ultimately show ?thesis by auto
qed

section \<open>A stream carries its own user\<close>

definition item_updates :: "HttpStreamItem list \<Rightarrow> TaskStatusUpdate list" where
  "item_updates items = List.map_filter (\<lambda>i. case i of TaskStatusItem e \<Rightarrow> Some e | Heartbeat \<Rightarrow> None) items"

lemma item_updates_simps [simp]:
  "item_updates [] = []" "item_updates (Heartbeat # is) = item_updates is"
  "item_updates (TaskStatusItem e # is) = e # item_updates is"
  "item_updates (is @ js) = item_updates is @ item_updates js"
  by (simp_all add: item_updates_def map_filter_def)

lemma item_updates_map [simp]: "item_updates (map TaskStatusItem es) = es"
  by (induction es) simp_all

text \<open>The turns before the stream ends.\<close>

fun turns_until_end :: "(bool \<times> stream_ready) list \<Rightarrow> stream_ready list" where
  "turns_until_end [] = []"
| "turns_until_end ((shutdown, ready) # turns) =
     (if shutdown \<or> ready \<in> {DeadlineReached, ShutdownChanged None, ShutdownChanged (Some True), Lagged, ChannelClosed}
      then [] else ready # turns_until_end turns)"

definition received_for :: "int \<Rightarrow> stream_ready list \<Rightarrow> TaskStatusUpdate list" where
  "received_for u rs = List.map_filter (\<lambda>r. case r of
     Received e \<Rightarrow> if ev_entity_owner_id e = Some u then Some e else None | _ \<Rightarrow> None) rs"

lemma received_for_owner: "e \<in> set (received_for u rs) \<Longrightarrow> ev_entity_owner_id e = Some u"
  by (auto simp: received_for_def List.map_filter_def split: stream_ready.splits if_splits)

lemma live_events_spec:
  "item_updates (fst (live_events u turns)) = received_for u (turns_until_end turns) \<and>
   (snd (live_events u turns) \<longleftrightarrow> length (turns_until_end turns) < length turns)"
proof (induction turns)
  case (Cons turn turns)
  obtain sd ready where turn: "turn = (sd, ready)" by fastforce
  have "length (turns_until_end ts) \<le> length ts" for ts by (induction ts rule: turns_until_end.induct) auto
  with Cons turn show ?case
    by (cases ready) (auto simp: received_for_def map_filter_def split: prod.split if_splits)
qed (simp add: received_for_def map_filter_def)

lemma look_up_estimate_run: "\<exists>k n. look_up_estimate E row known w = (Inr k, w\<lparr>tick := n\<rparr>)"
proof (cases "known (tr_task_type row)")
  case None
  then show ?thesis
    by (auto simp: look_up_estimate_def client_estimate_def select_def stmt_def runs Let_def split: option.split)
next
  case (Some x)
  then show ?thesis by (intro exI [of _ known] exI [of _ "tick w"]) (simp add: look_up_estimate_def runs)
qed

lemma look_up_estimates_run: "\<exists>k n. foldM (look_up_estimate E) rows known w = (Inr k, w\<lparr>tick := n\<rparr>)"
proof (induction rows arbitrary: known w)
  case Nil
  show ?case by (intro exI [of _ known] exI [of _ "tick w"]) (simp add: runs)
next
  case (Cons row rows)
  obtain k n where "look_up_estimate E row known w = (Inr k, w\<lparr>tick := n\<rparr>)" using look_up_estimate_run by blast
  with Cons [of k "w\<lparr>tick := n\<rparr>"] show ?case by (simp add: runs)
qed

text \<open>A replayed update is the announcement of its row, the estimate apart.\<close>

definition announces :: "TaskStatusUpdate \<Rightarrow> task_run_row \<Rightarrow> bool" where
  "announces e row \<longleftrightarrow> (\<exists>est. from_row row est = Some e)"

lemma announces_fields:
  "announces e row \<Longrightarrow> ev_entity_owner_id e = Some (tr_entity_owner_id row) \<and> ev_entity_type e = tr_entity_type row \<and>
     ev_entity_id e = tr_entity_id row \<and> pl_run_id (ev_payload e) = tr_run_id row \<and>
     as_i32 (pl_status (ev_payload e)) = tr_status_code row"
  by (auto simp: announces_def from_row_def envelope_new_def Let_def from_i32_def split: sum.splits if_splits)

lemma catchup_events_result:
  assumes "catchup_events E owner etype ids w = (Inr es, w')"
  shows "\<exists>f. es = List.map_filter (\<lambda>row. from_row row (f row)) (if ids = [] then [] else latest_task_runs owner etype ids (task_runs w))"
proof -
  obtain rows w1 where rows: "map_errM internal (query_latest_task_runs E owner etype ids) w = (Inr rows, w1)"
    using assms by (auto simp: catchup_events_def elim!: bindM_InrE)
  then have "rows = (if ids = [] then [] else latest_task_runs owner etype ids (task_runs w))"
    by (auto simp: query_latest_task_runs_def select_def stmt_def runs Let_def split: if_splits option.splits)
  moreover obtain k n where "foldM (look_up_estimate E) (filter is_running rows) Map.empty w1 = (Inr k, w1\<lparr>tick := n\<rparr>)"
    using look_up_estimates_run by blast
  ultimately show ?thesis
    using assms rows
    by (intro exI [of _ "\<lambda>row. if is_running row then Option.bind (k (tr_task_type row)) id else None"])
       (simp add: catchup_events_def run_bindM run_returnM)
qed

lemma set_latest_task_runs:
  "row \<in> set (latest_task_runs owner etype ids rows) \<Longrightarrow> row \<in> set rows \<and> tr_entity_owner_id row = owner \<and>
     tr_entity_type row = etype \<and> tr_entity_id row \<in> set ids"
  by (auto simp: latest_task_runs_def dest!: set_distinct_on [THEN subsetD])

lemma set_map_filter_D: "y \<in> set (List.map_filter f xs) \<Longrightarrow> \<exists>x \<in> set xs. f x = Some y"
  by (auto simp: List.map_filter_def)

lemma map_filter_all:
  assumes "\<And>x. x \<in> set xs \<Longrightarrow> \<exists>y. f x = Some y \<and> g y = h x"
  shows "map g (List.map_filter f xs) = map h xs"
  using assms by (induction xs) (fastforce simp: List.map_filter_def)+

lemma catchup_events_no_faults:
  assumes "fst (catchup_events E u etype ids w) = Inl e" "no_faults E"
  shows "ids = []"
proof (rule ccontr)
  let ?rows = "latest_task_runs u etype ids (task_runs w)"
  assume "ids \<noteq> []"
  then have "query_latest_task_runs E u etype ids w = (Inr ?rows, w\<lparr>tick := Suc (tick w)\<rparr>)"
    using assms(2) by (simp add: query_latest_task_runs_def runs)
  moreover obtain k n where "foldM (look_up_estimate E) (filter is_running ?rows) Map.empty (w\<lparr>tick := Suc (tick w)\<rparr>) =
      (Inr k, w\<lparr>tick := n\<rparr>)" using look_up_estimates_run [of E "filter is_running ?rows" Map.empty "w\<lparr>tick := Suc (tick w)\<rparr>"] by auto
  ultimately show False using assms(1) by (simp add: catchup_events_def run_bindM run_map_errM run_returnM)
qed

lemma replayed_rows:
  assumes "(if ids = [] then returnM None
       else bindM (catchM (catchup_events E u etype ids)) (\<lambda>r. returnM (catchup_or_skip r)) :: (world, ApiError, TaskStatusUpdate list option) comp) w = (Inr catchup, w1)"
  defines "replay \<equiv> case catchup of Some events \<Rightarrow> events | None \<Rightarrow> []"
    and "rows \<equiv> latest_task_runs u etype ids (task_runs w)"
  shows "replay = [] \<and> (no_faults E \<longrightarrow> rows = []) \<or> (\<exists>f. replay = List.map_filter (\<lambda>row. from_row row (f row)) rows)"
proof (cases "ids = [] \<or> (\<exists>e. fst (catchup_events E u etype ids w) = Inl e)")
  case True
  then have "replay = [] \<and> (no_faults E \<longrightarrow> ids = [])"
    using assms(1) catchup_events_no_faults [of E u etype ids w]
    by (auto simp: replay_def runs catchup_or_skip_def split: if_splits)
  moreover have "rows = []" if "ids = []" using that by (simp add: rows_def latest_task_runs_def)
  ultimately show ?thesis by blast
next
  case False
  then obtain es v where es: "catchup_events E u etype ids w = (Inr es, v)"
    by (metis prod.collapse sum.exhaust)
  with assms(1) False have "replay = es" by (auto simp: replay_def runs catchup_or_skip_def split: if_splits)
  with catchup_events_result [OF es] False show ?thesis by (auto simp: rows_def)
qed

lemma replay_announces:
  assumes "e \<in> set (List.map_filter (\<lambda>row. from_row row (f row)) rows)"
  shows "\<exists>row \<in> set rows. announces e row"
  using set_map_filter_D [OF assms] by (auto simp: announces_def)

lemma replay_complete:
  assumes "\<And>row. row \<in> set rows \<Longrightarrow> wf_row row"
  shows "map (\<lambda>e. pl_run_id (ev_payload e)) (List.map_filter (\<lambda>row. from_row row (f row)) rows) = map tr_run_id rows"
proof (rule map_filter_all)
  fix row assume "row \<in> set rows"
  then obtain st where "tr_status_code row = as_i32 st" using assms unfolding wf_row_def by blast
  then show "\<exists>e. from_row row (f row) = Some e \<and> pl_run_id (ev_payload e) = tr_run_id row"
    by (simp add: from_row_def envelope_new_def Let_def)
qed

text \<open>
  C20: a connection carries exactly its own user. Whatever the database does, the stream is
  the replay of current rows followed by every update received for that user, in order and
  with nothing left out, until the turn at which it ends; every update in it belongs to the
  user; a replayed update announces the latest run of a requested capture of that user; and
  no frame shows an owner. A request whose ids do not parse is a bad request.
\<close>

theorem event_stream_correct:
  assumes "get_events E u capture_ids turns w = (r, w')"
  shows "case r of
      Inl e \<Rightarrow> parse_capture_ids E capture_ids = Inl e \<and> w' = w
    | Inr (items, ended) \<Rightarrow>
        (\<exists>ids replay. parse_capture_ids E capture_ids = Inr ids \<and>
           item_updates items = replay @ received_for u (turns_until_end turns) \<and>
           (\<forall>e \<in> set replay. \<exists>row \<in> set (latest_task_runs u ''capture'' ids (task_runs w)). announces e row) \<and>
           (no_faults E \<and> wf_world w \<longrightarrow>
              map (\<lambda>e. pl_run_id (ev_payload e)) replay = map tr_run_id (latest_task_runs u ''capture'' ids (task_runs w)))) \<and>
        (\<forall>e \<in> set (item_updates items). ev_entity_owner_id e = Some u) \<and>
        (\<forall>i \<in> set items. member (snd (frame_of T i)) ''entity_owner_id'' = None) \<and>
        (ended \<longleftrightarrow> length (turns_until_end turns) < length turns)"
proof (cases "parse_capture_ids E capture_ids")
  case (Inl e)
  with assms show ?thesis by (auto simp: get_events_def runs)
next
  case (Inr ids)
  obtain catchup w1 where c: "(if ids = [] then returnM None
       else bindM (catchM (catchup_events E u ''capture'' ids)) (\<lambda>r. returnM (catchup_or_skip r)) :: (world, ApiError, TaskStatusUpdate list option) comp) w = (Inr catchup, w1)"
    by (cases "ids = []") (auto simp: runs)
  let ?replay = "case catchup of Some events \<Rightarrow> events | None \<Rightarrow> []"
  let ?rows = "latest_task_runs u ''capture'' ids (task_runs w)"
  have r: "r = Inr (make_sse_stream u catchup turns)" using assms Inr c by (simp add: get_events_def run_bindM run_liftM run_returnM)
  obtain items ended where s: "make_sse_stream u catchup turns = (items, ended)" by fastforce
  have items: "item_updates items = ?replay @ received_for u (turns_until_end turns)" "ended \<longleftrightarrow> length (turns_until_end turns) < length turns"
    using s live_events_spec [of u turns] by (auto simp: make_sse_stream_def split: prod.splits)
  note replayed = replayed_rows [OF c]
  have ann: "\<exists>row \<in> set ?rows. announces e row" if "e \<in> set ?replay" for e
    using replayed that replay_announces by fastforce
  have own: "ev_entity_owner_id e = Some u" if "e \<in> set (item_updates items)" for e
  proof -
    from that items(1) consider "e \<in> set ?replay" | "e \<in> set (received_for u (turns_until_end turns))" by auto
    then show ?thesis
    proof cases
      case 1
      from ann [OF this] obtain row where row: "row \<in> set ?rows" and e: "announces e row" by blast
      from announces_fields [OF e] set_latest_task_runs [OF row] show ?thesis by simp
    qed (rule received_for_owner)
  qed
  have all: "map (\<lambda>e. pl_run_id (ev_payload e)) ?replay = map tr_run_id ?rows" if "no_faults E" "wf_world w"
  proof -
    have "wf_row row" if "row \<in> set ?rows" for row using set_latest_task_runs [OF that] \<open>wf_world w\<close> by (simp add: wf_runs_def)
    with replayed replay_complete [of ?rows] \<open>no_faults E\<close> show ?thesis by auto
  qed
  have hidden: "member (snd (frame_of T i)) ''entity_owner_id'' = None" for i
    by (cases i) (simp_all add: filtered_json_def update_json_def opt_member_def member_def)
  show ?thesis
    unfolding r s sum.case prod.case
    using Inr items ann own all hidden by blast
qed

lemma parse_ids_accepts:
  assumes "parse_ids E ids vs = Inr ids'" "distinct ids" "length ids \<le> 200" "\<forall>i \<in> set ids. 0 < i \<and> in_i32 i"
  shows "distinct ids' \<and> length ids' \<le> 200 \<and> (\<forall>i \<in> set ids'. 0 < i \<and> in_i32 i) \<and>
    (\<exists>values. map parse_i32 vs = map Some values \<and> ids' = push_unique ids values)"
  using assms
proof (induction E ids vs rule: parse_ids.induct)
  case (2 E ids val rest)
  from "2.prems"(1) obtain i where i: "parse_i32 val = Some i" by (cases "parse_i32 val") simp_all
  let ?ids = "if i \<in> set ids then ids else ids @ [i]"
  from "2.prems"(1) i have pos: "\<not> i \<le> 0" by (cases "i \<le> 0") simp_all
  with "2.prems"(1) i have short: "\<not> MAX_CATCHUP_ENTITIES < length ?ids" by (cases "MAX_CATCHUP_ENTITIES < length ?ids") simp_all
  with "2.prems"(1) i pos have rest: "parse_ids E ?ids rest = Inr ids'" by simp
  have "distinct ?ids" "length ?ids \<le> 200" "\<forall>i \<in> set ?ids. 0 < i \<and> in_i32 i"
    using "2.prems" short pos parse_i32_range [OF i] by (auto simp: MAX_CATCHUP_ENTITIES_def)
  from "2.IH" [OF i pos refl short rest this] obtain vals where vals: "map parse_i32 rest = map Some vals" "ids' = push_unique ?ids vals"
    and "distinct ids' \<and> length ids' \<le> 200 \<and> (\<forall>i \<in> set ids'. 0 < i \<and> in_i32 i)" by blast
  moreover from vals i have "map parse_i32 (val # rest) = map Some (i # vals) \<and> ids' = push_unique ids (i # vals)" by simp
  ultimately show ?case by blast
qed auto

lemma parse_ids_refuses:
  assumes "parse_ids E ids vs = Inl e" "distinct ids"
  shows "http_status_code e = 400 \<and> ((\<exists>v \<in> set vs. parse_i32 v = None \<or> (\<exists>i \<le> 0. parse_i32 v = Some i)) \<or>
      200 < card (set ids \<union> {i. \<exists>v \<in> set vs. parse_i32 v = Some i}))"
  using assms
proof (induction E ids vs rule: parse_ids.induct)
  case (2 E ids val rest)
  let ?all = "\<lambda>vs. {i. \<exists>v \<in> set vs. parse_i32 v = Some i}"
  have fin: "finite (?all vs)" for vs
    by (rule finite_subset [of _ "the ` parse_i32 ` set vs"]) (force simp: image_iff, simp)
  show ?case
  proof (cases "parse_i32 val")
    case None
    with 2 show ?thesis by (auto simp: bad_request_def)
  next
    case (Some i)
    let ?ids = "if i \<in> set ids then ids else ids @ [i]"
    have d: "distinct ?ids" using "2.prems"(2) by auto
    have eq: "set ?ids \<union> ?all rest = set ids \<union> ?all (val # rest)" using Some by auto
    consider "i \<le> 0" | "0 < i" "200 < length ?ids" | "0 < i" "length ?ids \<le> 200" by linarith
    then show ?thesis
    proof cases
      case 1
      with Some 2 show ?thesis by (auto simp: bad_request_def)
    next
      case 2
      have "length ?ids = card (set ?ids)" using d by (simp add: distinct_card)
      also have "\<dots> \<le> card (set ids \<union> ?all (val # rest))" using fin by (intro card_mono) (auto simp: Some)
      finally show ?thesis using 2 Some "2.prems" by (auto simp: bad_request_def Let_def MAX_CATCHUP_ENTITIES_def split: if_splits)
    next
      case 3
      then have "\<not> i \<le> 0" "\<not> MAX_CATCHUP_ENTITIES < length ?ids" by (simp_all add: MAX_CATCHUP_ENTITIES_def)
      moreover from this Some "2.prems"(1) have "parse_ids E ?ids rest = Inl e" by (simp add: Let_def split: if_splits)
      ultimately show ?thesis using "2.IH" [OF Some _ refl _ _ d] eq by auto
    qed
  qed
qed simp

text \<open>
  The ids of a request. They are read exactly when the parameter is absent, empty or a
  comma-separated list of positive 32-bit numbers with at most 200 distinct values; the
  result lists the distinct values in the order of their first occurrence.
\<close>

theorem parse_capture_ids_correct:
  "case parse_capture_ids E raw of
     Inr ids \<Rightarrow> distinct ids \<and> length ids \<le> 200 \<and> (\<forall>i \<in> set ids. 0 < i \<and> in_i32 i) \<and>
       (case raw of None \<Rightarrow> ids = []
        | Some s \<Rightarrow> if s = [] then ids = [] else
            \<exists>values. map parse_i32 (split_on (CHR '','') s) = map Some values \<and> ids = push_unique [] values)
   | Inl e \<Rightarrow> \<exists>s. raw = Some s \<and> s \<noteq> [] \<and> http_status_code e = 400 \<and>
       ((\<exists>v \<in> set (split_on (CHR '','') s). parse_i32 v = None \<or> (\<exists>i \<le> 0. parse_i32 v = Some i)) \<or>
        200 < card {i. \<exists>v \<in> set (split_on (CHR '','') s). parse_i32 v = Some i})"
  using parse_ids_accepts [of E "[]"] parse_ids_refuses [of E "[]"]
  by (cases raw) (auto simp: parse_capture_ids_def split: sum.split)

section \<open>Examples\<close>

definition demo_update :: "int \<Rightarrow> TaskStatusUpdate" where
  "demo_update owner = the (from_row ((demo_row_number 1)\<lparr>tr_entity_owner_id := owner\<rparr>) None)"

definition demo_codec :: time_codec where
  "demo_codec = \<lparr>print_time = show_int, parse_time = parse_int\<rparr>"

lemma demo_update_fields:
  "ev_schema_version (demo_update u) = CURRENT_SCHEMA_VERSION" "ev_entity_owner_id (demo_update u) = Some u"
  "in_i32 u \<Longrightarrow> update_in_range (demo_update u)"
  by (simp_all add: demo_update_def demo_row_number_def new_task_run_row_def task_run_new_def from_row_def envelope_new_def
      from_i32_def update_in_range_def in_i32_def)

theorem parse_capture_ids_correct_witness:
  "\<exists>ids. parse_capture_ids quiet_env (Some ''3,5,3'') = Inr ids \<and> ids = [3, 5] \<and> distinct ids"
proof -
  have "parse_capture_ids quiet_env (Some ''3,5,3'') = Inr [3, 5]" by code_simp
  with parse_capture_ids_correct [of "Some ''3,5,3''" quiet_env] show ?thesis by simp
qed

theorem announcement_roundtrip_witness:
  "fanout demo_codec [Notified (Some (update_json demo_codec (demo_update 7))), Notified (Some JNull),
     Notified (Some (update_json demo_codec (demo_update 7)))] = [demo_update 7, demo_update 7]"
proof -
  have T: "time_roundtrip demo_codec" by (simp add: time_roundtrip_def demo_codec_def)
  have e: "update_in_range (demo_update 7)" by (rule demo_update_fields(3)) (simp add: in_i32_def)
  note round = announcement_roundtrip [OF T e demo_update_fields(1)]
  show ?thesis
    using round [of "[Notified (Some JNull), Notified (Some (update_json demo_codec (demo_update 7)))]"]
      round [of "[Notified (Some (update_json demo_codec (demo_update 7)))]" JNull] round [of "[]"]
    by (simp add: demo_update_fields member_def)
qed

theorem event_stream_correct_witness:
  "\<exists>items w'. get_events quiet_env 7 None [(False, Received (demo_update 8)), (False, HeartbeatDue), (False, Received (demo_update 7)),
       (True, Received (demo_update 7))] empty_world = (Inr (items, True), w') \<and>
     item_updates items = [demo_update 7]"
proof -
  let ?turns = "[(False, Received (demo_update 8)), (False, HeartbeatDue), (False, Received (demo_update 7)),
       (True, Received (demo_update 7))]"
  obtain r w' where r: "get_events quiet_env 7 None ?turns empty_world = (r, w')" by fastforce
  have ids: "parse_capture_ids quiet_env None = Inr []" by (simp add: parse_capture_ids_def)
  have none: "latest_task_runs 7 ''capture'' [] rows = []" for rows by (simp add: latest_task_runs_def)
  from event_stream_correct [OF r, of demo_codec] ids obtain items ended where "r = Inr (items, ended)"
    and "item_updates items = received_for 7 (turns_until_end ?turns)" and "ended \<longleftrightarrow> length (turns_until_end ?turns) < length ?turns"
    by (cases r) (auto simp: none)
  moreover have "received_for 7 (turns_until_end ?turns) = [demo_update 7]"
    by (simp add: received_for_def map_filter_def demo_update_fields)
  ultimately show ?thesis using r by auto
qed

end
