(* ===== verification/Search.thy ===== *)
theory Search
  imports Illumination Auth
begin

text \<open>
  \<open>search/*.rs\<close>, \<open>search/gcloud/*.rs\<close>: embeddings, the vector store, and the search of a
  user's captures by text or by similarity. The vector search service and the embedding
  endpoint are remote: their calls are the fields of \<open>vertex\<close>, computations on a state of
  any type. Floating-point arithmetic is a parameter as well (\<open>floats\<close>): \<open>'f\<close> stands for
  \<open>f32\<close>, \<open>'d\<close> for \<open>f64\<close>. The marker types \<open>Raw\<close> and \<open>Unit\<close> have no run-time content: an
  embedding is the list of its values.
\<close>

section \<open>Embeddings\<close>

record ('f, 'd) floats =
  f32_is_finite :: "'f \<Rightarrow> bool"
  f32_div :: "'f \<Rightarrow> 'f \<Rightarrow> 'f"
  f64_of :: "'f \<Rightarrow> 'd"
  f32_of :: "'d \<Rightarrow> 'f"
  f64_zero :: 'd
  f64_one :: 'd
  UNIT_NORM_SQ_EPSILON :: 'd
  f64_add :: "'d \<Rightarrow> 'd \<Rightarrow> 'd"
  f64_sub :: "'d \<Rightarrow> 'd \<Rightarrow> 'd"
  f64_mul :: "'d \<Rightarrow> 'd \<Rightarrow> 'd"
  f64_abs :: "'d \<Rightarrow> 'd"
  f64_sqrt :: "'d \<Rightarrow> 'd"
  f64_le :: "'d \<Rightarrow> 'd \<Rightarrow> bool"
  f64_is_finite :: "'d \<Rightarrow> bool"

definition validate_values :: "('f, 'd) floats \<Rightarrow> 'f list \<Rightarrow> anyhow + unit" where
  "validate_values F values =
     (if values = [] then Inl (anyhow_msg ''Embedding is empty'')
      else if \<exists>v \<in> set values. \<not> f32_is_finite F v
      then Inl (anyhow_msg ''Embedding contains non-finite values (NaN or +/-Inf)'')
      else Inr ())"

definition norm_sq :: "('f, 'd) floats \<Rightarrow> 'f list \<Rightarrow> 'd" where
  "norm_sq F values = foldl (\<lambda>acc v. let x = f64_of F v in f64_add F acc (f64_mul F x x)) (f64_zero F) values"

text \<open>The test of the fast path.\<close>

definition near_unit :: "('f, 'd) floats \<Rightarrow> 'f list \<Rightarrow> bool" where
  "near_unit F values \<longleftrightarrow> f64_le F (f64_abs F (f64_sub F (norm_sq F values) (f64_one F))) (UNIT_NORM_SQ_EPSILON F)"

definition normalize_l2_in_place :: "('f, 'd) floats \<Rightarrow> 'f list \<Rightarrow> anyhow + 'f list" where
  "normalize_l2_in_place F values =
     (let n = norm_sq F values in
      if \<not> f64_is_finite F n \<or> f64_le F n (f64_zero F)
      then Inl (anyhow_msg ''Embedding has zero or invalid L2 norm; cannot normalize'')
      else if near_unit F values then Inr values
      else let norm = f32_of F (f64_sqrt F n) in Inr (map (\<lambda>v. f32_div F v norm) values))"

definition from_vec :: "('f, 'd) floats \<Rightarrow> 'f list \<Rightarrow> anyhow + 'f list" where
  "from_vec F values = (case validate_values F values of Inl e \<Rightarrow> Inl e | Inr _ \<Rightarrow> Inr values)"

definition from_vec_normalizing :: "('f, 'd) floats \<Rightarrow> 'f list \<Rightarrow> anyhow + 'f list" where
  "from_vec_normalizing F values =
     (case validate_values F values of Inl e \<Rightarrow> Inl e | Inr _ \<Rightarrow> normalize_l2_in_place F values)"

definition normalized :: "('f, 'd) floats \<Rightarrow> 'f list \<Rightarrow> anyhow + 'f list" where
  "normalized F self = (case from_vec F self of Inl e \<Rightarrow> Inl e | Inr values \<Rightarrow> normalize_l2_in_place F values)"

section \<open>Data objects\<close>

definition object_id :: "int \<Rightarrow> int \<Rightarrow> string" where
  "object_id user capture = ''u'' @ show_int user @ ''-c'' @ show_int capture"

definition data_object_id :: "CaptureInfo \<Rightarrow> string" where
  "data_object_id self = object_id (ci_user_id self) (ci_id self)"

definition data_object_json :: "CaptureInfo \<Rightarrow> anyhow + (string \<times> json) list" where
  "data_object_json self =
     (case find_max_by ii_id (ci_illuminations self) of
        None \<Rightarrow> Inl (anyhow_msg ''Capture has no illumination, required for embedding'')
      | Some latest \<Rightarrow> Inr
          [(''user_id'', JStr (show_int (ci_user_id self))), (''capture_id'', JStr (show_int (ci_id self))),
           (''illumination_id'', JStr (show_int (ii_id latest))), (''illumination_text'', JStr (make_text latest))])"

definition parse_segment :: "string \<Rightarrow> string \<Rightarrow> string \<Rightarrow> string \<Rightarrow> anyhow + int" where
  "parse_segment prefix missing_prefix not_an_integer segment =
     (case strip_prefix prefix segment of
        None \<Rightarrow> Inl (anyhow_msg missing_prefix)
      | Some digits \<Rightarrow>
          (case parse_i32 digits of
             None \<Rightarrow> Inl (with_context not_an_integer (anyhow_msg (int_error digits)))
           | Some i \<Rightarrow> Inr i))"

definition parse_fields :: "string \<Rightarrow> anyhow + int \<times> int" where
  "parse_fields doc_id =
     (case split_on (CHR ''-'') doc_id of
        [] \<Rightarrow> Inl (anyhow_msg ''data_object_id missing user'')
      | [_] \<Rightarrow> Inl (anyhow_msg ''data_object_id missing capture'')
      | user # capture # rest \<Rightarrow>
          if rest \<noteq> [] then Inl (anyhow_msg ''unexpected extra doc_id segments'')
          else (case parse_segment ''u'' ''data_object_id user missing 'u' prefix'' ''user id is not an integer'' user of
             Inl e \<Rightarrow> Inl e
           | Inr user_id \<Rightarrow>
               (case parse_segment ''c'' ''data_object_id capture missing 'c' prefix''
                       ''capture id is not an integer'' capture of
                  Inl e \<Rightarrow> Inl e
                | Inr capture_id \<Rightarrow> Inr (user_id, capture_id))))"

section \<open>The service\<close>

record QueryParams =
  qp_base_filter :: "(string \<times> json) list"
  qp_limit :: nat
  qp_page_token :: "string option"

record 'd SearchHit =
  hit_object_id :: string
  hit_score :: 'd

record 'd SearchResultPage =
  hits :: "'d SearchHit list"
  next_page_token :: "string option"

record TextSearch =
  ts_search_text :: string
  ts_data_field_names :: "string list"
  ts_top_k :: int
  ts_filter :: "(string \<times> json) list"

record 'f VectorSearch =
  vs_search_field :: string
  vs_values :: "'f list"
  vs_top_k :: int
  vs_filter :: "(string \<times> json) list"

datatype 'f search_type = ByText TextSearch | ByVector "'f VectorSearch"

text \<open>A result: the id of its data object, if it has one, and its distance; a response with its page token.\<close>

record 'd search_result =
  rs_data_object_id :: "string option"
  rs_distance :: "'d option"

record 'd SearchDataObjectsResponse =
  rp_results :: "'d search_result list"
  rp_next_page_token :: string

datatype 'f object_vector = Dense "'f list" | NotDense

record 'f data_object =
  do_name :: string
  do_data :: "(string \<times> json) list"
  do_vectors :: "(string \<times> 'f object_vector) list"

record service_error =
  se_status_code :: "int option"
  se_http_status :: "int option"
  se_display :: string

record ('s, 'f, 'd) vertex =
  collection_full_path :: string
  dense_vector_name :: string
  dense_vector_dims :: nat
  search_data_objects ::
    "string \<Rightarrow> 'f search_type \<Rightarrow> string option \<Rightarrow> ('s, service_error, 'd SearchDataObjectsResponse) comp"
  batch_search_data_objects ::
    "string \<Rightarrow> 'f search_type list \<Rightarrow> int \<Rightarrow> ('s, service_error, 'd SearchDataObjectsResponse list) comp"
  get_data_object :: "string \<Rightarrow> ('s, service_error, 'f data_object) comp"
  update_data_object :: "'f data_object \<Rightarrow> ('s, service_error, unit) comp"
  create_data_object :: "string \<Rightarrow> string \<Rightarrow> 'f data_object \<Rightarrow> ('s, service_error, unit) comp"
  embed_normalizing :: "json \<Rightarrow> string \<Rightarrow> ('s, anyhow, 'f list InferenceOutcome) comp"

definition collection_path :: "string \<Rightarrow> string \<Rightarrow> string \<Rightarrow> string" where
  "collection_path project region collection =
     ''projects/'' @ project @ ''/locations/'' @ region @ ''/collections/'' @ collection"

section \<open>Searching\<close>

definition debug_opt :: "int option \<Rightarrow> string" where
  "debug_opt x = (case x of None \<Rightarrow> ''None'' | Some i \<Rightarrow> ''Some('' @ show_int i @ '')'')"

definition search_failed :: "string \<Rightarrow> service_error \<Rightarrow> anyhow" where
  "search_failed kind err =
     anyhow_msg (''Vertex '' @ kind @ '' search failed status_code='' @ debug_opt (se_status_code err)
       @ '' http_status='' @ debug_opt (se_http_status err))"

definition query_top_k :: "nat \<Rightarrow> int" where
  "query_top_k limit = int (min (max limit 1) 1000)"

definition make_text_search :: "string \<Rightarrow> QueryParams \<Rightarrow> TextSearch" where
  "make_text_search query_text params =
     \<lparr>ts_search_text = query_text, ts_data_field_names = [''illumination_text''],
      ts_top_k = query_top_k (qp_limit params), ts_filter = qp_base_filter params\<rparr>"

definition make_vector_search :: "('s, 'f, 'd) vertex \<Rightarrow> 'f list \<Rightarrow> QueryParams \<Rightarrow> 'f VectorSearch" where
  "make_vector_search V query_embed params =
     \<lparr>vs_search_field = dense_vector_name V, vs_values = query_embed,
      vs_top_k = query_top_k (qp_limit params), vs_filter = qp_base_filter params\<rparr>"

definition hit_of :: "'d search_result \<Rightarrow> 'd SearchHit option" where
  "hit_of result =
     (case (rs_data_object_id result, rs_distance result) of
        (Some i, Some score) \<Rightarrow> Some \<lparr>hit_object_id = i, hit_score = score\<rparr>
      | _ \<Rightarrow> None)"

definition map_search_data_objects_response :: "'d SearchDataObjectsResponse \<Rightarrow> 'd SearchResultPage" where
  "map_search_data_objects_response response =
     \<lparr>hits = List.map_filter hit_of (rp_results response),
      next_page_token = (if rp_next_page_token response = [] then None else Some (rp_next_page_token response))\<rparr>"

definition no_hits :: "'d SearchResultPage" where
  "no_hits = \<lparr>hits = [], next_page_token = None\<rparr>"

definition search_text ::
  "('s, 'f, 'd) vertex \<Rightarrow> string \<Rightarrow> QueryParams \<Rightarrow> ('s, anyhow, 'd SearchResultPage) comp" where
  "search_text V query_text params =
     (if trim query_text = [] then returnM no_hits
      else bindM (map_errM (search_failed ''text'') (search_data_objects V (collection_full_path V)
             (ByText (make_text_search query_text params)) (qp_page_token params)))
           (\<lambda>response. returnM (map_search_data_objects_response response)))"

definition search_embedding ::
  "('s, 'f, 'd) vertex \<Rightarrow> 'f list \<Rightarrow> QueryParams \<Rightarrow> ('s, anyhow, 'd SearchResultPage) comp" where
  "search_embedding V query_embed params =
     (if query_embed = [] then returnM no_hits
      else bindM (map_errM (search_failed ''vector'') (search_data_objects V (collection_full_path V)
             (ByVector (make_vector_search V query_embed params)) (qp_page_token params)))
           (\<lambda>response. returnM (map_search_data_objects_response response)))"

definition search_hybrid ::
  "('s, 'f, 'd) vertex \<Rightarrow> string \<Rightarrow> 'f list \<Rightarrow> QueryParams \<Rightarrow> ('s, anyhow, 'd SearchResultPage) comp" where
  "search_hybrid V query_text query_embed params =
     (if query_embed = [] \<or> trim query_text = [] then returnM no_hits
      else bindM (map_errM (search_failed ''hybrid'') (batch_search_data_objects V (collection_full_path V)
             [ByVector (make_vector_search V query_embed params), ByText (make_text_search query_text params)]
             (query_top_k (qp_limit params))))
           (\<lambda>pages. returnM (case pages of
                [] \<Rightarrow> no_hits
              | combined_page # _ \<Rightarrow> map_search_data_objects_response combined_page)))"

section \<open>Embedding and storing\<close>

definition embed_query :: "('s, 'f, 'd) vertex \<Rightarrow> string \<Rightarrow> ('s, anyhow, 'f list) comp" where
  "embed_query V query =
     (if trim query = [] then throwM (anyhow_msg ''Query text is empty, cannot embed'')
      else bindM (embed_normalizing V (JArr [JObj [(''text'', JStr query)]]) ''RETRIEVAL_QUERY'') (\<lambda>outcome.
           liftM (oc_output outcome)))"

definition embed_object_gemini :: "('s, 'f, 'd) vertex \<Rightarrow> json \<Rightarrow> ('s, anyhow, 'f list InferenceOutcome) comp" where
  "embed_object_gemini V object = embed_normalizing V object ''RETRIEVAL_DOCUMENT''"

definition service_not_found :: "service_error \<Rightarrow> bool" where
  "service_not_found err \<longleftrightarrow> se_status_code err = Some 5 \<or> se_http_status err = Some 404"

definition already_exists :: "service_error \<Rightarrow> bool" where
  "already_exists err \<longleftrightarrow> se_status_code err = Some 6 \<or> se_http_status err = Some 409"

record VectorUpsertResult =
  ur_id :: string
  ur_fq_id :: "string option"
  ur_dims :: nat

definition object_path :: "('s, 'f, 'd) vertex \<Rightarrow> string \<Rightarrow> string" where
  "object_path V oid = collection_full_path V @ ''/dataObjects/'' @ oid"

definition put_data_object ::
  "('s, 'f, 'd) vertex \<Rightarrow> string \<Rightarrow> 'f data_object \<Rightarrow> ('s, anyhow, unit) comp" where
  "put_data_object V oid object =
     bindM (catchM (update_data_object V object)) (\<lambda>updated.
     case updated of
       Inr _ \<Rightarrow> returnM ()
     | Inl update_err \<Rightarrow>
         if service_not_found update_err then
           bindM (catchM (create_data_object V (collection_full_path V) oid object)) (\<lambda>created.
           case created of
             Inr _ \<Rightarrow> returnM ()
           | Inl create_err \<Rightarrow>
               if already_exists create_err then returnM ()
               else throwM (anyhow_msg (''Failed to create vector data object after update miss: '' @ se_display create_err)))
         else throwM (anyhow_msg (''Failed to upsert vector data object via update: '' @ se_display update_err)))"

definition upsert_object_embedding_vertex ::
  "('s, 'f, 'd) vertex \<Rightarrow> CaptureInfo \<Rightarrow> 'f list \<Rightarrow> ('s, anyhow, VectorUpsertResult) comp" where
  "upsert_object_embedding_vertex V data embedding =
     (if length embedding \<noteq> dense_vector_dims V
      then throwM (anyhow_msg (''Dimension mismatch: VectorStore dims: '' @ show_nat (dense_vector_dims V)
             @ '', embedding dims: '' @ show_nat (length embedding)))
      else let oid = data_object_id data; path = object_path V oid in
        bindM (liftM (data_object_json data)) (\<lambda>object_data.
        bindM (put_data_object V oid
           \<lparr>do_name = path, do_data = object_data, do_vectors = [(dense_vector_name V, Dense embedding)]\<rparr>) (\<lambda>_.
        returnM \<lparr>ur_id = oid, ur_fq_id = Some path, ur_dims = dense_vector_dims V\<rparr>)))"

definition fetch_object_embedding ::
  "('f, 'd) floats \<Rightarrow> ('s, 'f, 'd) vertex \<Rightarrow> string \<Rightarrow> ('s, anyhow, 'f list option) comp" where
  "fetch_object_embedding F V oid =
     (let name = object_path V oid in
      bindM (catchM (get_data_object V name)) (\<lambda>got.
      case got of
        Inl err \<Rightarrow>
          if service_not_found err then returnM None
          else throwM (anyhow_msg (''Failed to fetch vector data object '' @ name @ '': '' @ se_display err))
      | Inr object \<Rightarrow>
          (case map_of (do_vectors object) (dense_vector_name V) of
             None \<Rightarrow> throwM (anyhow_msg (''Data object '' @ name @ '' missing vector field '' @ [CHR 0x27]
                       @ dense_vector_name V @ [CHR 0x27]))
           | Some NotDense \<Rightarrow> throwM (anyhow_msg (''Data object '' @ name @ '' vector field '' @ [CHR 0x27]
                       @ dense_vector_name V @ [CHR 0x27] @ '' is not dense''))
           | Some (Dense values) \<Rightarrow>
               bindM (liftM (from_vec_normalizing F values)) (\<lambda>embedding. returnM (Some embedding)))))"

section \<open>Searching captures\<close>

definition user_filter :: "int \<Rightarrow> (string \<times> json) list" where
  "user_filter user = [(''user_id'', JObj [(''$eq'', JStr (show_int user))])]"

definition search_limit :: "nat option \<Rightarrow> nat" where
  "search_limit limit = min (max (case limit of Some n \<Rightarrow> n | None \<Rightarrow> 100) 1) 1000"

definition user_query :: "Context \<Rightarrow> nat option \<Rightarrow> QueryParams" where
  "user_query context limit =
     \<lparr>qp_base_filter = user_filter (ctx_user_id context), qp_limit = search_limit limit, qp_page_token = None\<rparr>"

text \<open>The loop over the hits of a page; \<open>skip\<close> is the capture of a similarity query.\<close>

fun collect_hits :: "int \<Rightarrow> int option \<Rightarrow> int list \<Rightarrow> 'd SearchHit list \<Rightarrow> int list" where
  "collect_hits user skip acc [] = acc"
| "collect_hits user skip acc (hit # rest) =
     (case parse_fields (hit_object_id hit) of
        Inl _ \<Rightarrow> collect_hits user skip acc rest
      | Inr (hit_user, capture) \<Rightarrow>
          if hit_user \<noteq> user then collect_hits user skip acc rest
          else if skip = Some capture then collect_hits user skip acc rest
          else collect_hits user skip (if capture \<in> set acc then acc else acc @ [capture]) rest)"

definition capture_search ::
  "('s, 'f, 'd) vertex \<Rightarrow> Context \<Rightarrow> string \<Rightarrow> nat option \<Rightarrow> ('s, ApiError, int list) comp" where
  "capture_search V context query0 limit =
     (let query = trim query0 in
      if query = [] then returnM []
      else bindM (map_errM internal (embed_query V query)) (\<lambda>query_embedding.
           bindM (map_errM internal (search_hybrid V query query_embedding (user_query context limit))) (\<lambda>page.
           returnM (collect_hits (ctx_user_id context) None [] (hits page)))))"

definition capture_search_similar ::
  "('f, 'd) floats \<Rightarrow> ('s, 'f, 'd) vertex \<Rightarrow> Context \<Rightarrow> int \<Rightarrow> nat option \<Rightarrow> ('s, ApiError, int list) comp" where
  "capture_search_similar F V context capture limit =
     bindM (map_errM internal (fetch_object_embedding F V (object_id (ctx_user_id context) capture))) (\<lambda>found.
     case found of
       None \<Rightarrow> returnM []
     | Some query_embedding \<Rightarrow>
         bindM (map_errM internal (search_embedding V query_embedding (user_query context limit))) (\<lambda>page.
         returnM (collect_hits (ctx_user_id context) (Some capture) [] (hits page))))"


section \<open>Object ids\<close>

lemma show_int_no_dash: "0 \<le> i \<Longrightarrow> CHR ''-'' \<notin> set (show_int i)"
  using show_int_nonneg_digits [of i "CHR ''-''"] by auto

lemma parse_fields_object_id:
  assumes "0 \<le> u" "in_i32 u" "0 \<le> c" "in_i32 c"
  shows "parse_fields (object_id u c) = Inr (u, c)"
proof -
  have "split_on (CHR ''-'') (object_id u c) = [''u'' @ show_int u, ''c'' @ show_int c]"
    using split_on_append [of "CHR ''-''" "''u'' @ show_int u" "''c'' @ show_int c"]
      split_on_no_delim [of "CHR ''-''" "''c'' @ show_int c"] assms
    by (simp add: object_id_def show_int_no_dash)
  moreover have "strip_prefix ''u'' (CHR ''u'' # s) = Some s" "strip_prefix ''c'' (CHR ''c'' # s) = Some s" for s
    by (simp_all add: strip_prefix_def)
  ultimately show ?thesis using assms by (simp add: parse_fields_def parse_segment_def)
qed

lemma parse_fields_Inr:
  assumes "parse_fields s = Inr (u, c)"
  shows "\<exists>a b. s = ''u'' @ a @ ''-c'' @ b \<and> parse_i32 a = Some u \<and> parse_i32 b = Some c"
proof -
  from assms obtain x y where xy: "split_on (CHR ''-'') s = [x, y]"
    by (auto simp: parse_fields_def split: list.splits if_splits)
  with assms obtain a b where "x = ''u'' @ a" "y = ''c'' @ b" "parse_i32 a = Some u" "parse_i32 b = Some c"
    by (auto simp: parse_fields_def parse_segment_def strip_prefix_Some split: sum.splits option.splits)
  moreover have "s = x @ ''-'' @ y" using join_split_on [of "CHR ''-''" s] xy by simp
  ultimately show ?thesis by auto
qed

section \<open>What a search returns\<close>

text \<open>The capture a result of the service stands for, if it is one of the user's and not the one skipped.\<close>

definition own_capture_of :: "int \<Rightarrow> int option \<Rightarrow> 'd search_result \<Rightarrow> int option" where
  "own_capture_of user skip result =
     Option.bind (hit_of result) (\<lambda>hit.
       case parse_fields (hit_object_id hit) of
         Inr (u, c) \<Rightarrow> if u = user \<and> skip \<noteq> Some c then Some c else None
       | Inl _ \<Rightarrow> None)"

text \<open>A request that can only see the user's objects, and asks for between 1 and 1000 of them.\<close>

fun scoped :: "int \<Rightarrow> 'f search_type \<Rightarrow> bool" where
  "scoped user (ByText t) \<longleftrightarrow> ts_filter t = user_filter user \<and> 1 \<le> ts_top_k t \<and> ts_top_k t \<le> 1000"
| "scoped user (ByVector v) \<longleftrightarrow> vs_filter v = user_filter user \<and> 1 \<le> vs_top_k v \<and> vs_top_k v \<le> 1000"

lemma collect_hits_push_unique:
  "collect_hits user skip acc (List.map_filter hit_of results) =
     push_unique acc (List.map_filter (own_capture_of user skip) results)"
proof (induction results arbitrary: acc)
  case Nil
  then show ?case by (simp add: List.map_filter_def)
next
  case (Cons r rs)
  then show ?case
    by (cases "hit_of r"; cases "parse_fields (hit_object_id (the (hit_of r)))")
       (auto simp: List.map_filter_def own_capture_of_def)
qed

lemma scoped_user_query:
  "scoped (ctx_user_id context) (ByText (make_text_search q (user_query context limit)))"
  "scoped (ctx_user_id context) (ByVector (make_vector_search V e (user_query context limit)))"
  by (auto simp: make_text_search_def make_vector_search_def user_query_def query_top_k_def search_limit_def)

lemma hits_no_hits [simp]: "hits no_hits = []"
  by (simp add: no_hits_def)

lemma hits_of_response [simp]: "hits (map_search_data_objects_response p) = List.map_filter hit_of (rp_results p)"
  by (simp add: map_search_data_objects_response_def)

definition captures_in :: "int \<Rightarrow> int option \<Rightarrow> 'd SearchDataObjectsResponse \<Rightarrow> int list" where
  "captures_in user skip p = push_unique [] (List.map_filter (own_capture_of user skip) (rp_results p))"

lemma capture_search_result:
  assumes run: "capture_search V context query limit s = (Inr ids, s')"
  shows "if trim query = [] then ids = [] \<and> s' = s
     else \<exists>e t. embed_query V (trim query) s = (Inr e, t) \<and>
       (if e = [] then ids = [] \<and> s' = t
        else \<exists>searches k pages. batch_search_data_objects V (collection_full_path V) searches k t = (Inr pages, s') \<and>
           list_all (scoped (ctx_user_id context)) searches \<and>
           ids = (case pages of [] \<Rightarrow> [] | p # _ \<Rightarrow> captures_in (ctx_user_id context) None p))"
proof (cases "trim query = []")
  case False
  let ?params = "user_query context limit"
  let ?searches = "\<lambda>e. [ByVector (make_vector_search V e ?params), ByText (make_text_search (trim query) ?params)]"
  from run False obtain e t page where e: "embed_query V (trim query) s = (Inr e, t)"
    and page: "search_hybrid V (trim query) e ?params t = (Inr page, s')"
    and ids: "ids = collect_hits (ctx_user_id context) None [] (hits page)"
    by (auto simp: capture_search_def Let_def runs split: prod.splits sum.splits)
  show ?thesis
  proof (cases "e = []")
    case True
    with e page ids False show ?thesis by (simp add: search_hybrid_def runs)
  next
    case nonempty: False
    with page False obtain pages where "batch_search_data_objects V (collection_full_path V) (?searches e)
        (query_top_k (qp_limit ?params)) t = (Inr pages, s')"
      and "page = (case pages of [] \<Rightarrow> no_hits | p # _ \<Rightarrow> map_search_data_objects_response p)"
      by (auto simp: search_hybrid_def runs split: prod.splits sum.splits)
    moreover have "list_all (scoped (ctx_user_id context)) (?searches e)"
      by (simp add: scoped_user_query del: scoped.simps)
    moreover from calculation(2) ids have "ids = (case pages of [] \<Rightarrow> [] | p # _ \<Rightarrow> captures_in (ctx_user_id context) None p)"
      by (cases pages) (simp_all add: captures_in_def collect_hits_push_unique)
    ultimately have "\<exists>searches k pages. batch_search_data_objects V (collection_full_path V) searches k t = (Inr pages, s') \<and>
        list_all (scoped (ctx_user_id context)) searches \<and>
        ids = (case pages of [] \<Rightarrow> [] | p # _ \<Rightarrow> captures_in (ctx_user_id context) None p)" by blast
    with e False nonempty show ?thesis by auto
  qed
qed (use run in \<open>simp add: capture_search_def runs\<close>)

lemma capture_search_similar_result:
  assumes run: "capture_search_similar F V context capture limit s = (Inr ids, s')"
  shows "\<exists>found t. fetch_object_embedding F V (object_id (ctx_user_id context) capture) s = (Inr found, t) \<and>
     (if found \<in> {None, Some []} then ids = [] \<and> s' = t
      else \<exists>request p. search_data_objects V (collection_full_path V) request None t = (Inr p, s') \<and>
         scoped (ctx_user_id context) request \<and> ids = captures_in (ctx_user_id context) (Some capture) p)"
proof -
  let ?params = "user_query context limit"
  from run obtain found t where f: "fetch_object_embedding F V (object_id (ctx_user_id context) capture) s = (Inr found, t)"
    by (auto simp: capture_search_similar_def runs split: prod.splits sum.splits)
  show ?thesis
  proof (cases "found \<in> {None, Some []}")
    case True
    with run f show ?thesis by (auto simp: capture_search_similar_def search_embedding_def runs)
  next
    case False
    then obtain e where e: "found = Some e" "e \<noteq> []" by auto
    with run f obtain p where "search_data_objects V (collection_full_path V) (ByVector (make_vector_search V e ?params)) None t = (Inr p, s')"
      and "ids = collect_hits (ctx_user_id context) (Some capture) [] (hits (map_search_data_objects_response p))"
      by (auto simp: capture_search_similar_def search_embedding_def user_query_def runs split: prod.splits sum.splits)
    moreover have "scoped (ctx_user_id context) (ByVector (make_vector_search V e ?params))" by (rule scoped_user_query)
    ultimately show ?thesis
      using f e by (auto simp: captures_in_def collect_hits_push_unique simp del: scoped.simps intro!: exI)
  qed
qed

text \<open>
  C26: a search is confined to its user. A text search sends nothing for a blank query;
  otherwise every search of the one batch it sends carries the filter of the user and a
  size between 1 and 1000, and the answer is exactly the user's captures among the results
  of the first page, each once, in the order of the results. A similarity search sends one
  such request and leaves the capture it starts from out; a capture without a stored
  embedding has no similar ones.
\<close>

theorem search_confined_to_user:
  "(\<forall>ids s'. capture_search V context query limit s = (Inr ids, s') \<longrightarrow>
      (if trim query = [] then ids = [] \<and> s' = s
       else \<exists>e t. embed_query V (trim query) s = (Inr e, t) \<and>
         (if e = [] then ids = [] \<and> s' = t
          else \<exists>searches k pages. batch_search_data_objects V (collection_full_path V) searches k t = (Inr pages, s') \<and>
             list_all (scoped (ctx_user_id context)) searches \<and>
             ids = (case pages of [] \<Rightarrow> [] | p # _ \<Rightarrow> captures_in (ctx_user_id context) None p)))) \<and>
   (\<forall>ids s'. capture_search_similar F V context capture limit s = (Inr ids, s') \<longrightarrow>
      (\<exists>found t. fetch_object_embedding F V (object_id (ctx_user_id context) capture) s = (Inr found, t) \<and>
         (if found \<in> {None, Some []} then ids = [] \<and> s' = t
          else \<exists>request p. search_data_objects V (collection_full_path V) request None t = (Inr p, s') \<and>
             scoped (ctx_user_id context) request \<and> ids = captures_in (ctx_user_id context) (Some capture) p)))"
  using capture_search_result [of V "context" query limit s] capture_search_similar_result [of F V "context" capture limit s]
  by blast

section \<open>What the store keeps\<close>

text \<open>
  The documented behaviour of the vector service on a view of its objects by name: an
  update replaces an existing object, a creation adds a missing one, a read returns what is
  there. Every call may fail and then changes nothing; the codes of \<open>NOT_FOUND\<close> and
  \<open>ALREADY_EXISTS\<close> say which objects exist.
\<close>

definition store_laws :: "('s, 'f, 'd) vertex \<Rightarrow> ('s \<Rightarrow> string \<rightharpoonup> 'f data_object) \<Rightarrow> bool" where
  "store_laws V objects \<longleftrightarrow>
     (\<forall>s x. case update_data_object V x s of
        (Inr _, t) \<Rightarrow> objects s (do_name x) \<noteq> None \<and> objects t = (objects s)(do_name x \<mapsto> x)
      | (Inl e, t) \<Rightarrow> objects t = objects s \<and> (service_not_found e \<longleftrightarrow> objects s (do_name x) = None)) \<and>
     (\<forall>s parent i x. case create_data_object V parent i x s of
        (Inr _, t) \<Rightarrow> objects t = (objects s)(parent @ ''/dataObjects/'' @ i \<mapsto> x)
      | (Inl e, t) \<Rightarrow> objects t = objects s \<and> (already_exists e \<longrightarrow> objects s (parent @ ''/dataObjects/'' @ i) \<noteq> None)) \<and>
     (\<forall>s name. case get_data_object V name s of
        (Inr x, t) \<Rightarrow> objects s name = Some x \<and> objects t = objects s
      | (Inl e, t) \<Rightarrow> objects t = objects s \<and> (service_not_found e \<longleftrightarrow> objects s name = None))"

lemma store_lawsD:
  assumes "store_laws V objects"
  shows "update_data_object V x s = (r, t) \<Longrightarrow> case r of
        Inr _ \<Rightarrow> objects s (do_name x) \<noteq> None \<and> objects t = (objects s)(do_name x \<mapsto> x)
      | Inl e \<Rightarrow> objects t = objects s \<and> (service_not_found e \<longleftrightarrow> objects s (do_name x) = None)"
    and "create_data_object V parent i x s = (r, t) \<Longrightarrow> case r of
        Inr _ \<Rightarrow> objects t = (objects s)(parent @ ''/dataObjects/'' @ i \<mapsto> x)
      | Inl e \<Rightarrow> objects t = objects s \<and> (already_exists e \<longrightarrow> objects s (parent @ ''/dataObjects/'' @ i) \<noteq> None)"
    and "get_data_object V name s = (r', t) \<Longrightarrow> case r' of
        Inr x \<Rightarrow> objects s name = Some x \<and> objects t = objects s
      | Inl e \<Rightarrow> objects t = objects s \<and> (service_not_found e \<longleftrightarrow> objects s name = None)"
proof -
  note laws = assms [unfolded store_laws_def]
  show "update_data_object V x s = (r, t) \<Longrightarrow> case r of
        Inr _ \<Rightarrow> objects s (do_name x) \<noteq> None \<and> objects t = (objects s)(do_name x \<mapsto> x)
      | Inl e \<Rightarrow> objects t = objects s \<and> (service_not_found e \<longleftrightarrow> objects s (do_name x) = None)"
    using laws [THEN conjunct1, THEN spec [of _ s], THEN spec [of _ x]] by simp
  show "create_data_object V parent i x s = (r, t) \<Longrightarrow> case r of
        Inr _ \<Rightarrow> objects t = (objects s)(parent @ ''/dataObjects/'' @ i \<mapsto> x)
      | Inl e \<Rightarrow> objects t = objects s \<and> (already_exists e \<longrightarrow> objects s (parent @ ''/dataObjects/'' @ i) \<noteq> None)"
    using laws [THEN conjunct2, THEN conjunct1, THEN spec [of _ s], THEN spec [of _ parent], THEN spec [of _ i], THEN spec [of _ x]]
    by simp
  show "get_data_object V name s = (r', t) \<Longrightarrow> case r' of
        Inr x \<Rightarrow> objects s name = Some x \<and> objects t = objects s
      | Inl e \<Rightarrow> objects t = objects s \<and> (service_not_found e \<longleftrightarrow> objects s name = None)"
    using laws [THEN conjunct2, THEN conjunct2, THEN spec [of _ s], THEN spec [of _ name]] by simp
qed

lemma put_data_object_stores:
  assumes laws: "store_laws V objects" and run: "put_data_object V oid x s = (r, t)"
    and name: "do_name x = object_path V oid"
  shows "case r of Inr _ \<Rightarrow> objects t = (objects s)(object_path V oid \<mapsto> x) | Inl _ \<Rightarrow> objects t = objects s"
proof -
  obtain u s1 where u: "update_data_object V x s = (u, s1)" by fastforce
  note up = store_lawsD(1) [OF laws u]
  show ?thesis
  proof (cases u)
    case (Inr y)
    with u run up name show ?thesis by (auto simp: put_data_object_def runs)
  next
    case (Inl e)
    show ?thesis
    proof (cases "service_not_found e")
      case True
      obtain c s2 where c: "create_data_object V (collection_full_path V) oid x s1 = (c, s2)" by fastforce
      note cr = store_lawsD(2) [OF laws c]
      from up Inl True name have "objects s1 = objects s" "objects s (object_path V oid) = None" by simp_all
      with run u Inl True c cr show ?thesis
        by (cases c) (auto simp: put_data_object_def runs object_path_def split: if_splits)
    qed (use run u up Inl in \<open>auto simp: put_data_object_def runs\<close>)
  qed
qed

lemma from_vec_normalizing_keeps:
  "from_vec_normalizing F values = Inr e \<Longrightarrow> length e = length values \<and> (near_unit F values \<longrightarrow> e = values)"
  by (auto simp: from_vec_normalizing_def normalize_l2_in_place_def Let_def split: sum.splits if_splits)

text \<open>Ids as the tables hand them out: non-negative 32-bit numbers.\<close>

definition indexable :: "CaptureInfo \<Rightarrow> bool" where
  "indexable c \<longleftrightarrow> 0 \<le> ci_user_id c \<and> in_i32 (ci_user_id c) \<and> 0 \<le> ci_id c \<and> in_i32 (ci_id c)"

lemma data_object_id_inject:
  assumes "indexable a" "indexable b"
  shows "data_object_id a = data_object_id b \<longleftrightarrow> ci_user_id a = ci_user_id b \<and> ci_id a = ci_id b"
proof -
  have "parse_fields (data_object_id c) = Inr (ci_user_id c, ci_id c)" if "indexable c" for c
    using that parse_fields_object_id by (simp add: data_object_id_def indexable_def)
  from this [OF assms(1)] this [OF assms(2)] show ?thesis
    by (metis data_object_id_def old.sum.inject(2) prod.inject)
qed

text \<open>
  What is indexed is found again. A successful upsert of a capture stores its data and
  its embedding, of the configured dimension, under a name that no other capture of any
  user has, and changes no other object. A read of that name that reaches the service then
  returns the embedding normalized, which is the embedding itself if its norm was already
  near 1. A failed upsert changes nothing.
\<close>

theorem upsert_then_fetch:
  assumes "store_laws V objects" and "upsert_object_embedding_vertex V data embedding s = (r, t)" and "indexable data"
  shows "case r of
      Inl _ \<Rightarrow> objects t = objects s
    | Inr result \<Rightarrow>
        length embedding = dense_vector_dims V \<and>
        (\<exists>x. data_object_json data = Inr (do_data x) \<and> objects t = (objects s)(object_path V (ur_id result) \<mapsto> x)) \<and>
        (\<forall>other. indexable other \<longrightarrow>
           (object_path V (data_object_id other) = object_path V (ur_id result) \<longleftrightarrow>
            ci_user_id other = ci_user_id data \<and> ci_id other = ci_id data)) \<and>
        (\<forall>x t'. get_data_object V (object_path V (ur_id result)) t = (Inr x, t') \<longrightarrow>
           fetch_object_embedding F V (ur_id result) t = (map_sum id Some (from_vec_normalizing F embedding), t')) \<and>
        (\<forall>e. from_vec_normalizing F embedding = Inr e \<longrightarrow>
           length e = dense_vector_dims V \<and> (near_unit F embedding \<longrightarrow> e = embedding))"
proof (cases "length embedding = dense_vector_dims V \<and> (\<exists>d. data_object_json data = Inr d)")
  case False
  with assms(2) show ?thesis
    by (auto simp: upsert_object_embedding_vertex_def Let_def runs split: if_splits sum.splits)
next
  case True
  then obtain d where d: "data_object_json data = Inr d" and len: "length embedding = dense_vector_dims V" by blast
  let ?oid = "data_object_id data"
  let ?x = "\<lparr>do_name = object_path V ?oid, do_data = d, do_vectors = [(dense_vector_name V, Dense embedding)]\<rparr>"
  obtain p u where p: "put_data_object V ?oid ?x s = (p, u)" by fastforce
  note put = put_data_object_stores [OF assms(1) p]
  show ?thesis
  proof (cases p)
    case (Inl e)
    with assms(2) p put d len show ?thesis by (auto simp: upsert_object_embedding_vertex_def Let_def runs)
  next
    case (Inr y)
    with assms(2) p d len have r: "r = Inr \<lparr>ur_id = ?oid, ur_fq_id = Some (object_path V ?oid), ur_dims = dense_vector_dims V\<rparr>" "t = u"
      by (auto simp: upsert_object_embedding_vertex_def Let_def runs)
    from put Inr r have stored: "objects t = (objects s)(object_path V ?oid \<mapsto> ?x)" by simp
    have "fetch_object_embedding F V ?oid t = (map_sum id Some (from_vec_normalizing F embedding), t')"
      if "get_data_object V (object_path V ?oid) t = (Inr x, t')" for x t'
    proof -
      from store_lawsD(3) [OF assms(1) that] stored have "x = ?x" by simp
      with that show ?thesis
        by (cases "from_vec_normalizing F embedding") (simp_all add: fetch_object_embedding_def Let_def runs)
    qed
    moreover have "\<forall>other. indexable other \<longrightarrow> (object_path V (data_object_id other) = object_path V ?oid \<longleftrightarrow>
        ci_user_id other = ci_user_id data \<and> ci_id other = ci_id data)"
      using data_object_id_inject [OF _ assms(3)] by (simp add: object_path_def)
    moreover have "\<exists>x. data_object_json data = Inr (do_data x) \<and> objects t = (objects s)(object_path V ?oid \<mapsto> x)"
      using stored d by (intro exI [of _ ?x]) simp
    ultimately show ?thesis
      using r(1) len from_vec_normalizing_keeps [of F embedding] by simp
  qed
qed

section \<open>Examples\<close>

text \<open>Integers for floats, and a service that keeps its objects in a map.\<close>

definition demo_floats :: "(int, int) floats" where
  "demo_floats = \<lparr>f32_is_finite = (\<lambda>_. True), f32_div = (div), f64_of = id, f32_of = id, f64_zero = 0, f64_one = 1,
     UNIT_NORM_SQ_EPSILON = 0, f64_add = (+), f64_sub = (-), f64_mul = (*), f64_abs = abs,
     f64_sqrt = id, f64_le = (\<le>), f64_is_finite = (\<lambda>_. True)\<rparr>"

definition demo_vertex :: "(string \<rightharpoonup> int data_object, int, int) vertex" where
  "demo_vertex = \<lparr>collection_full_path = ''c'', dense_vector_name = ''v'', dense_vector_dims = 2,
     search_data_objects = (\<lambda>path request token s. (Inr \<lparr>rp_results =
        [\<lparr>rs_data_object_id = Some (object_id 7 1), rs_distance = Some 0\<rparr>,
         \<lparr>rs_data_object_id = Some (object_id 8 2), rs_distance = Some 0\<rparr>], rp_next_page_token = []\<rparr>, s)),
     batch_search_data_objects = (\<lambda>path searches k s. (Inr [\<lparr>rp_results =
        [\<lparr>rs_data_object_id = Some (object_id 7 1), rs_distance = Some 0\<rparr>,
         \<lparr>rs_data_object_id = Some (object_id 8 2), rs_distance = Some 0\<rparr>], rp_next_page_token = []\<rparr>], s)),
     get_data_object = (\<lambda>name s. case s name of
        Some x \<Rightarrow> (Inr x, s) | None \<Rightarrow> (Inl \<lparr>se_status_code = Some 5, se_http_status = None, se_display = []\<rparr>, s)),
     update_data_object = (\<lambda>x s. case s (do_name x) of
        Some _ \<Rightarrow> (Inr (), s(do_name x \<mapsto> x))
      | None \<Rightarrow> (Inl \<lparr>se_status_code = Some 5, se_http_status = None, se_display = []\<rparr>, s)),
     create_data_object = (\<lambda>parent i x s. (Inr (), s(parent @ ''/dataObjects/'' @ i \<mapsto> x))),
     embed_normalizing = (\<lambda>parts task_type s. (Inr \<lparr>oc_output = Inr [1, 0], oc_metadata =
        \<lparr>me_tokens_in = None, me_tokens_in_cached = None, me_tokens_out = None, me_tokens_thought = None,
         me_provider_name = [], me_backend_name = [], me_model_id = [], me_duration_ms = 0, me_params = [],
         me_provider_metadata = []\<rparr>, oc_http_status_code = Some 200\<rparr>, s))\<rparr>"

definition demo_indexed :: CaptureInfo where
  "demo_indexed = \<lparr>ci_id = 1, ci_user_id = 7, ci_created_at = 0, ci_created_at_human = [], ci_archived_at = None,
     ci_medias = [], ci_illuminations = [\<lparr>ii_id = 3, ii_capture_id = 1, ii_summary = ''s'', ii_details = ''d'',
       ii_suggested_searches = [], ii_knowledge_entities = []\<rparr>], ci_annotation = None\<rparr>"

lemma demo_store_laws: "store_laws demo_vertex id"
  by (auto simp: store_laws_def demo_vertex_def service_not_found_def split: option.splits)

theorem upsert_then_fetch_witness:
  "\<exists>result t t'. upsert_object_embedding_vertex demo_vertex demo_indexed [1, 0] Map.empty = (Inr result, t) \<and>
     fetch_object_embedding demo_floats demo_vertex (ur_id result) t = (Inr (Some [1, 0]), t')"
proof -
  have ix: "indexable demo_indexed" by (simp add: indexable_def demo_indexed_def in_i32_def)
  obtain r t where run: "upsert_object_embedding_vertex demo_vertex demo_indexed [1, 0] Map.empty = (r, t)" by fastforce
  then obtain result where r: "r = Inr result" and id: "ur_id result = data_object_id demo_indexed"
    by (auto simp: upsert_object_embedding_vertex_def put_data_object_def demo_vertex_def demo_indexed_def
        data_object_json_def find_max_by_def service_not_found_def Let_def runs split: if_splits)
  note main = upsert_then_fetch [OF demo_store_laws run ix, of demo_floats, unfolded r sum.case]
  then obtain x where "t (object_path demo_vertex (ur_id result)) = Some x" by auto
  then have "get_data_object demo_vertex (object_path demo_vertex (ur_id result)) t = (Inr x, t)"
    by (simp add: demo_vertex_def)
  with main have "fetch_object_embedding demo_floats demo_vertex (ur_id result) t =
      (map_sum id Some (from_vec_normalizing demo_floats [1, 0]), t)" by blast
  moreover have "from_vec_normalizing demo_floats [1, 0] = Inr [1, 0]" by code_simp
  ultimately show ?thesis using run r by auto
qed

theorem search_confined_to_user_witness:
  "\<exists>ids s'. capture_search demo_vertex (context_from demo_user) ''cat'' None Map.empty = (Inr ids, s') \<and> ids = [1]"
proof -
  let ?u = "ctx_user_id (context_from demo_user)"
  have u: "?u = 7" by (simp add: context_from_def ctx_user_id_def demo_user_def)
  have t: "trim ''cat'' = ''cat''" by code_simp
  have e: "embed_query demo_vertex ''cat'' s = (Inr [1, 0], s)" for s
    by (simp add: embed_query_def t demo_vertex_def runs)
  have batch: "batch_search_data_objects demo_vertex path searches k s = (Inr pages, s') \<Longrightarrow>
      (case pages of [] \<Rightarrow> [] | p # _ \<Rightarrow> captures_in 7 None p) = [1]" for path searches k s pages s'
    by (auto simp: demo_vertex_def captures_in_def map_filter_def own_capture_of_def hit_of_def
        parse_fields_object_id in_i32_def)
  have "\<exists>ids s'. capture_search demo_vertex (context_from demo_user) ''cat'' None Map.empty = (Inr ids, s')"
  proof -
    have "\<exists>pages. \<forall>path searches k s. batch_search_data_objects demo_vertex path searches k s = (Inr pages, s)"
      by (simp add: demo_vertex_def)
    then obtain pages where "\<And>path searches k s. batch_search_data_objects demo_vertex path searches k s = (Inr pages, s)" by blast
    then show ?thesis by (simp add: capture_search_def Let_def t e search_hybrid_def runs)
  qed
  then obtain ids s' where run: "capture_search demo_vertex (context_from demo_user) ''cat'' None Map.empty = (Inr ids, s')" by blast
  from search_confined_to_user [of demo_vertex "context_from demo_user" "''cat''" None Map.empty demo_floats 0,
      THEN conjunct1, rule_format, OF run, unfolded u] t e batch
  have "ids = [1]" by (auto split: if_splits)
  with run show ?thesis by blast
qed

end
