(* ===== verification/User_Client.thy ===== *)
theory User_Client
  imports Capture_Api Logic Search
begin

text \<open>
  \<open>api/user/client.rs\<close>, \<open>api/user/insert_capture.rs\<close>, \<open>api/user/get_spark.rs\<close>: the API a
  user's session works with. It composes the reads and writes of \<open>Capture_Api\<close>, the
  submission of tasks and the search, and turns rows into what the API shows. The file type
  detection, the content hash and the object store are parameters (\<open>uploads\<close>). Making the
  URL of a media can panic, so the operations that show captures end in a \<open>failure\<close>.
\<close>

section \<open>Uploads\<close>

record uploads =
  infer_get :: "string \<Rightarrow> (string \<times> string) option"
  blake3_hex :: "string \<Rightarrow> string"
  store_bytes :: "nat \<Rightarrow> string \<Rightarrow> string \<Rightarrow> string option \<Rightarrow> string option \<Rightarrow> anyhow + StorageHandle"

text \<open>The detected type is its MIME type and its extension.\<close>

definition supported_image :: "uploads \<Rightarrow> string \<Rightarrow> ApiError + string \<times> string" where
  "supported_image S bytes =
     (case infer_get S bytes of
        None \<Rightarrow> Inl (unsupported_media_type (anyhow_msg
          (''Could not identify the uploaded file format ('' @ show_nat (length bytes) @ '' bytes)'')))
      | Some (mime, ext) \<Rightarrow>
          if \<not> starts_with mime ''image/'' then Inl (bad_request (anyhow_msg ''Uploaded media is not an image.''))
          else if mime = ''image/heic'' \<or> mime = ''image/heif''
          then Inl (unsupported_media_type (anyhow_msg (''Refused '' @ show_nat (length bytes) @ '' bytes of '' @ mime
             @ '': no browser outside Safari renders it'')))
          else Inr (mime, ext))"

text \<open>
  The two insertions of \<open>save\<close>, which runs them in a transaction: the row of the media finds its
  capture and its user there.
\<close>

definition insert_capture_row :: "env \<Rightarrow> int \<Rightarrow> timestamp \<Rightarrow> (world, ApiError, capture_row) comp" where
  "insert_capture_row E uid created_at =
     map_errM api_of_db (stmt E (\<lambda>_ w.
       if \<exists>u \<in> set (users w). us_id u = uid
       then let c = \<lparr>ca_id = next_id ca_id (captures w), ca_user_id = uid, ca_created_at = created_at,
                     ca_archived_at = None\<rparr>
            in (Inr c, w\<lparr>captures := captures w @ [c]\<rparr>)
       else (Inl (DbExec (SqlxError (SqlxDatabase (Some ''23503'') None (conflict_text E (tick w))))), w)))"

definition media_row_for :: "int \<Rightarrow> int \<Rightarrow> nat \<Rightarrow> string \<Rightarrow> string \<Rightarrow> StorageHandle \<Rightarrow> int \<Rightarrow> media_row" where
  "media_row_for uid cid bytes mime hex handle i =
     \<lparr>md_id = i, md_user_id = uid, md_capture_id = cid, md_bytes = int bytes, md_mime_type = Some mime,
      md_hash_blake3 = Some hex, md_storage_provider = sh_provider handle, md_storage_bucket = sh_bucket handle,
      md_storage_user_shard = sh_user_shard handle, md_storage_uuid = sh_uuid handle,
      md_storage_extension = sh_extension handle\<rparr>"

definition insert_media_row ::
  "env \<Rightarrow> (int \<Rightarrow> media_row) \<Rightarrow> (world, ApiError, media_row) comp" where
  "insert_media_row E mk =
     map_errM api_of_db (stmt E (\<lambda>_ w.
       let m = mk (next_id md_id (medias w)) in (Inr m, w\<lparr>medias := medias w @ [m]\<rparr>)))"

definition insert_capture ::
  "uploads \<Rightarrow> env \<Rightarrow> Context \<Rightarrow> string \<Rightarrow> bool \<Rightarrow> timestamp option \<Rightarrow> (world, ApiError, capture_ex) comp" where
  "insert_capture S E context bytes dedupe created_at =
     (let uid = ctx_user_id context; hex = blake3_hex S bytes in
      bindM (liftM (supported_image S bytes)) (\<lambda>(mime, ext).
      bindM (if dedupe
             then map_errM api_of_db (select E (\<lambda>w. \<exists>m \<in> set (medias w). md_user_id m = uid \<and> md_hash_blake3 m = Some hex))
             else returnM False) (\<lambda>duplicate.
      if duplicate
      then throwM (conflict (anyhow_msg ''An image with the same blake3 content hash already exists for this account.''))
      else
        bindM (map_errM api_of_anyhow (call_out (\<lambda>n. store_bytes S n bytes (ctx_storage_shard context) (Some ext) (Some mime)))) (\<lambda>handle.
        bindM (case created_at of Some t \<Rightarrow> returnM t | None \<Rightarrow> utc_now E) (\<lambda>stamp.
        transaction E (
          bindM (insert_capture_row E uid stamp) (\<lambda>c.
          bindM (insert_media_row E (media_row_for uid (ca_id c) (length bytes) mime hex handle)) (\<lambda>m.
          returnM \<lparr>cx_row = c, cx_medias = Some [m], cx_illuminations = None, cx_annotations = None\<rparr>))))))))"

section \<open>Sparks\<close>

definition load_spark :: "world \<Rightarrow> spark_row \<Rightarrow> spark_ex" where
  "load_spark w s =
     \<lparr>sx_row = s,
      sx_spark_clusters = Some (map (\<lambda>k.
         \<lparr>kx_row = k,
          kx_spark_links = Some (filter (\<lambda>l. sl_spark_cluster_id l = sc_id k) (spark_links w)),
          kx_spark_output_refs = Some (filter (\<lambda>r. so_spark_cluster_id r = sc_id k) (spark_output_refs w))\<rparr>)
         (filter (\<lambda>k. sc_spark_id k = sp_id s) (spark_clusters w))),
      sx_spark_input_refs = Some (filter (\<lambda>r. sr_spark_id r = sp_id s) (spark_input_refs w)),
      sx_inference_meta = Some (Option.bind (sp_inference_meta_id s) (\<lambda>i. find (\<lambda>m. im_id m = i) (inference_metas w)))\<rparr>"

definition get_sparks :: "env \<Rightarrow> Context \<Rightarrow> int list option \<Rightarrow> (world, ApiError, spark_ex list) comp" where
  "get_sparks E context ids =
     map_errM api_of_db (select E (\<lambda>w. map (load_spark w) (filter (\<lambda>s. sp_user_id s = ctx_user_id context \<and>
       (case ids of Some is \<Rightarrow> sp_id s \<in> set is | None \<Rightarrow> True)) (sparks w))))"

definition get_timeline_sparks :: "env \<Rightarrow> Context \<Rightarrow> nat \<Rightarrow> (world, ApiError, spark_ex list) comp" where
  "get_timeline_sparks E context limit =
     (if limit = 0 then returnM []
      else bindM (map_errM api_of_db (select E (\<lambda>w.
             map sp_id (take limit (sort_key (\<lambda>s. - sp_created_at s)
               (filter (\<lambda>s. sp_user_id s = ctx_user_id context) (sparks w))))))) (\<lambda>ids.
           if ids = [] then returnM []
           else bindM (get_sparks E context (Some ids)) (\<lambda>found.
                returnM (take_by_id ids (map_of (rev (map (\<lambda>s. (sp_id (sx_row s), s)) found)))))))"

section \<open>The client\<close>

record ('f, 'd) UserApiClient =
  uc_providers :: providers
  uc_uploads :: uploads
  uc_default_illumination_model_id :: "string option"
  uc_vertex :: "(world, 'f, 'd) vertex"
  uc_floats :: "('f, 'd) floats"

text \<open>What the API shows of loaded captures, at the time of the call.\<close>

definition capture_infos :: "providers \<Rightarrow> capture_ex list \<Rightarrow> (world, failure, CaptureInfo list) comp" where
  "capture_infos P models =
     bindM (getM tick) (\<lambda>n.
     case all_some (map (make_capture_info (url_maker P) (humanize P n)) models) of
       Some infos \<Rightarrow> returnM infos
     | None \<Rightarrow> throwM Panicked)"

definition capture_info :: "providers \<Rightarrow> capture_ex \<Rightarrow> (world, failure, CaptureInfo) comp" where
  "capture_info P m =
     bindM (getM tick) (\<lambda>n.
     case make_capture_info (url_maker P) (humanize P n) m of Some i \<Rightarrow> returnM i | None \<Rightarrow> throwM Panicked)"

definition client_get_captures ::
  "('f, 'd) UserApiClient \<Rightarrow> env \<Rightarrow> Context \<Rightarrow> int list \<Rightarrow> (world, failure, CaptureInfo list) comp" where
  "client_get_captures self E context ids =
     bindM (map_errM Failed (get_captures E context ids)) (capture_infos (uc_providers self))"

definition client_get_capture ::
  "('f, 'd) UserApiClient \<Rightarrow> env \<Rightarrow> Context \<Rightarrow> int \<Rightarrow> (world, failure, CaptureInfo) comp" where
  "client_get_capture self E context i =
     bindM (map_errM Failed (get_capture E context i)) (capture_info (uc_providers self))"

definition client_get_timeline_captures ::
  "('f, 'd) UserApiClient \<Rightarrow> env \<Rightarrow> Context \<Rightarrow> nat \<Rightarrow> (world, failure, CaptureInfo list) comp" where
  "client_get_timeline_captures self E context limit =
     bindM (map_errM Failed (get_timeline_captures E context limit)) (capture_infos (uc_providers self))"

definition client_get_captures_archived ::
  "('f, 'd) UserApiClient \<Rightarrow> env \<Rightarrow> Context \<Rightarrow> nat \<Rightarrow> (world, failure, CaptureInfo list) comp" where
  "client_get_captures_archived self E context limit =
     bindM (map_errM Failed (get_captures_archived E context limit)) (capture_infos (uc_providers self))"

definition client_get_illuminations ::
  "env \<Rightarrow> Context \<Rightarrow> int list \<Rightarrow> (world, ApiError, IlluminationInfo list) comp" where
  "client_get_illuminations E context ids =
     bindM (get_illuminations E context ids) (\<lambda>found.
     returnM (map (\<lambda>(i, capture). make_illumination_info i (Option.bind capture ca_archived_at)) found))"

definition client_get_entity :: "env \<Rightarrow> Context \<Rightarrow> int \<Rightarrow> (world, ApiError, KnowledgeEntityInfo) comp" where
  "client_get_entity E context i =
     bindM (get_knowledge_entity E context i) (\<lambda>e. returnM (knowledge_entity_info_new e None))"

definition client_get_entities_by_type ::
  "env \<Rightarrow> Context \<Rightarrow> string \<Rightarrow> (world, ApiError, KnowledgeEntityInfo list) comp" where
  "client_get_entities_by_type E context etype =
     bindM (get_knowledge_entities_by_type E context etype) (\<lambda>es.
     returnM (map (\<lambda>e. knowledge_entity_info_new e None) es))"

subsection \<open>Sparks with previews\<close>

definition referenced_capture_ids :: "spark_ex list \<Rightarrow> int list" where
  "referenced_capture_ids ss =
     sort (remdups (concat (map (\<lambda>s.
       case sx_spark_clusters s of
         None \<Rightarrow> []
       | Some clusters \<Rightarrow> concat (map (\<lambda>k.
           case kx_spark_output_refs k of None \<Rightarrow> [] | Some refs \<Rightarrow> map so_capture_id refs) clusters)) ss)))"

definition capture_previews :: "providers \<Rightarrow> capture_ex list \<Rightarrow> (world, failure, CapturePreviewInfo list) comp" where
  "capture_previews P cs =
     (case all_some (map (make_capture_preview_info (url_maker P)) cs) of
        None \<Rightarrow> throwM Panicked
      | Some previews \<Rightarrow> returnM (List.map_filter id previews))"

definition make_spark_infos_from_models ::
  "('f, 'd) UserApiClient \<Rightarrow> env \<Rightarrow> Context \<Rightarrow> spark_ex list \<Rightarrow> (world, failure, SparkInfo list) comp" where
  "make_spark_infos_from_models self E context ss =
     (let ids = referenced_capture_ids ss in
      bindM (if ids = [] then returnM []
             else bindM (map_errM Failed (get_captures E context ids)) (capture_previews (uc_providers self))) (\<lambda>previews.
      bindM (getM tick) (\<lambda>n.
      returnM (map (\<lambda>m. make_spark_info (humanize (uc_providers self) n) m
        (map_of (rev (map (\<lambda>p. (cp_id p, p)) previews)))) ss))))"

definition client_get_sparks ::
  "('f, 'd) UserApiClient \<Rightarrow> env \<Rightarrow> Context \<Rightarrow> int list option \<Rightarrow> (world, failure, SparkInfo list) comp" where
  "client_get_sparks self E context ids =
     bindM (map_errM Failed (get_sparks E context ids)) (make_spark_infos_from_models self E context)"

definition client_get_timeline_sparks ::
  "('f, 'd) UserApiClient \<Rightarrow> env \<Rightarrow> Context \<Rightarrow> nat \<Rightarrow> (world, failure, SparkInfo list) comp" where
  "client_get_timeline_sparks self E context limit =
     bindM (map_errM Failed (get_timeline_sparks E context limit)) (make_spark_infos_from_models self E context)"

subsection \<open>Submitting tasks\<close>

text \<open>\<open>as_u128() as i32\<close>: the low 32 bits of the number the hexadecimal digits spell.\<close>

definition uuid_as_i32 :: "string \<Rightarrow> int" where
  "uuid_as_i32 uuid = wrap_i32 (foldl (\<lambda>acc d. 16 * acc + int d) 0 (List.map_filter hex_val uuid))"

definition enqueue_spark :: "env \<Rightarrow> Context \<Rightarrow> int list \<Rightarrow> (world, ApiError, unit) comp" where
  "enqueue_spark E context ids =
     (if ids = [] then throwM (bad_request (anyhow_msg ''capture_ids must contain at least one capture ID''))
      else bindM (get_captures E context ids) (\<lambda>_.
           bindM (new_uuid E) (\<lambda>uuid.
           bindM (submit_spark E context \<lparr>sk_spark_id = uuid_as_i32 uuid, sk_entity_owner_id = ctx_user_id context,
              sk_capture_ids = ids\<rparr> None) (\<lambda>_. returnM ()))))"

definition illumination_task ::
  "('f, 'd) UserApiClient \<Rightarrow> int \<Rightarrow> int \<Rightarrow> IlluminationVersion \<Rightarrow> ApiError + IlluminationTask" where
  "illumination_task self cid owner version =
     (case uc_default_illumination_model_id self of
        None \<Rightarrow> Inl (internal (anyhow_msg ''GEMINI_MODEL_ID required to enqueue illumination tasks''))
      | Some model_id \<Rightarrow> Inr (illumination_task_new cid owner model_id version))"

text \<open>The common part of \<open>insert_capture\<close> and \<open>import_capture\<close>: store, then signal, ignoring a failed signal.\<close>

definition store_and_signal ::
  "('f, 'd) UserApiClient \<Rightarrow> env \<Rightarrow> Context \<Rightarrow> string \<Rightarrow> bool \<Rightarrow> timestamp option \<Rightarrow> (world, failure, CaptureInfo) comp" where
  "store_and_signal self E context bytes dedupe created_at =
     bindM (map_errM Failed (insert_capture (uc_uploads self) E context bytes dedupe created_at)) (\<lambda>model.
     bindM (liftM (map_sum Failed id
        (illumination_task self (ca_id (cx_row model)) (ca_user_id (cx_row model)) V2))) (\<lambda>task.
     bindM (catchM (new_capture E context task)) (\<lambda>_.
     capture_info (uc_providers self) model)))"

definition client_insert_capture ::
  "('f, 'd) UserApiClient \<Rightarrow> env \<Rightarrow> Context \<Rightarrow> string \<Rightarrow> (world, failure, CaptureInfo) comp" where
  "client_insert_capture self E context bytes = store_and_signal self E context bytes False None"

definition client_import_capture ::
  "('f, 'd) UserApiClient \<Rightarrow> env \<Rightarrow> Context \<Rightarrow> string \<Rightarrow> timestamp \<Rightarrow> (world, failure, CaptureInfo) comp" where
  "client_import_capture self E context bytes created_at = store_and_signal self E context bytes True (Some created_at)"

text \<open>The run id of an accepted submission.\<close>

definition run_id_of_outcome :: "string \<Rightarrow> SubmitOutcome \<Rightarrow> ApiError + string" where
  "run_id_of_outcome refused outcome =
     (case outcome of
        Enqueued rid _ \<Rightarrow> Inr rid
      | AlreadySubmittedBackfill rid _ \<Rightarrow> Inr rid
      | RefusedAlreadyInFlight \<Rightarrow> Inl (conflict (anyhow_msg refused)))"

definition enqueue_illumination ::
  "('f, 'd) UserApiClient \<Rightarrow> env \<Rightarrow> Context \<Rightarrow> int \<Rightarrow> IlluminationVersion \<Rightarrow> ThinkingLevel option \<Rightarrow> bool
     \<Rightarrow> (world, ApiError, string) comp" where
  "enqueue_illumination self E context cid version thinking_level persist_projection =
     bindM (get_captures E context [cid]) (\<lambda>captures.
     case captures of
       [] \<Rightarrow> throwM (access_denied cid)
     | capture # _ \<Rightarrow>
         bindM (liftM (illumination_task self cid (ca_user_id (cx_row capture)) version)) (\<lambda>task.
         bindM (submit_illuminate E context
            (task\<lparr>it_thinking_level := thinking_level, it_persist_projection := persist_projection\<rparr>) None) (\<lambda>outcome.
         liftM (run_id_of_outcome (''Illumination for capture '' @ show_int cid @ '' is already in flight'') outcome))))"

definition enqueue_search_index :: "env \<Rightarrow> Context \<Rightarrow> int \<Rightarrow> (world, ApiError, string) comp" where
  "enqueue_search_index E context cid =
     bindM (get_captures E context [cid]) (\<lambda>captures.
     case captures of
       [] \<Rightarrow> throwM (access_denied cid)
     | capture # _ \<Rightarrow>
         bindM (submit_search_index E context
            \<lparr>st_capture_id = cid, st_entity_owner_id = ca_user_id (cx_row capture)\<rparr> None) (\<lambda>outcome.
         liftM (run_id_of_outcome (''Search indexing for capture '' @ show_int cid @ '' is already in flight'') outcome)))"

definition client_get_task_run :: "env \<Rightarrow> Context \<Rightarrow> string \<Rightarrow> (world, ApiError, TaskRunInfo) comp" where
  "client_get_task_run E context rid =
     bindM (map_errM api_of_anyhow (master_query_run_status E context rid)) (\<lambda>found.
     case found of
       None \<Rightarrow> throwM (not_found (anyhow_msg ''Task run not found''))
     | Some row \<Rightarrow> liftM (map_sum internal id (task_run_info_try_from row)))"

definition client_set_annotation ::
  "env \<Rightarrow> Context \<Rightarrow> int \<Rightarrow> string \<Rightarrow> (world, ApiError, AnnotationInfo) comp" where
  "client_set_annotation E context cid content =
     bindM (set_annotation E context cid content) (\<lambda>a. returnM (make_annotation_info a))"

subsection \<open>Searching\<close>

definition client_search ::
  "('f, 'd) UserApiClient \<Rightarrow> env \<Rightarrow> Context \<Rightarrow> string \<Rightarrow> nat option \<Rightarrow> (world, failure, CaptureInfo list) comp" where
  "client_search self E context query limit =
     bindM (map_errM Failed (capture_search (uc_vertex self) context query limit)) (\<lambda>ids.
     if ids = [] then returnM []
     else bindM (map_errM Failed (get_captures E context ids)) (capture_infos (uc_providers self)))"

definition client_search_similar ::
  "('f, 'd) UserApiClient \<Rightarrow> env \<Rightarrow> Context \<Rightarrow> int \<Rightarrow> nat option \<Rightarrow> (world, failure, CaptureInfo list) comp" where
  "client_search_similar self E context cid limit =
     bindM (map_errM Failed (capture_search_similar (uc_floats self) (uc_vertex self) context cid limit)) (\<lambda>ids.
     if ids = [] then returnM []
     else bindM (map_errM Failed (get_captures E context ids)) (capture_infos (uc_providers self)))"

definition client_search_similar_previews ::
  "('f, 'd) UserApiClient \<Rightarrow> env \<Rightarrow> Context \<Rightarrow> int \<Rightarrow> nat option \<Rightarrow> (world, failure, CapturePreviewInfo list) comp" where
  "client_search_similar_previews self E context cid limit =
     bindM (map_errM Failed (capture_search_similar (uc_floats self) (uc_vertex self) context cid limit)) (\<lambda>ids.
     if ids = [] then returnM []
     else bindM (map_errM Failed (get_captures_for_previews E context ids)) (capture_previews (uc_providers self)))"

section \<open>What an upload stores\<close>

lemma save_capture_result:
  assumes "transaction E (bindM (insert_capture_row E uid stamp) (\<lambda>c.
      bindM (insert_media_row E (mk c)) (\<lambda>m. returnM (f c m)))) w = (Inr x, w')"
  obtains n c m where "c = \<lparr>ca_id = next_id ca_id (captures w), ca_user_id = uid, ca_created_at = stamp, ca_archived_at = None\<rparr>"
    and "m = mk c (next_id md_id (medias w))" and "x = f c m" and "\<exists>u \<in> set (users w). us_id u = uid"
    and "w' = w\<lparr>captures := captures w @ [c], medias := medias w @ [m], tick := n\<rparr>"
  using assms
  by (auto simp: transaction_def insert_capture_row_def insert_media_row_def runs execute_def stmt_def Let_def
      split: option.splits if_splits sum.splits prod.splits)

lemma insert_capture_fails:
  assumes "insert_capture S E context bytes dedupe created_at w = (Inl e, w')"
  shows "\<exists>n. w' = w\<lparr>tick := n\<rparr>"
proof -
  have tick: "\<exists>n. w = w\<lparr>tick := n\<rparr>" by (rule exI [of _ "tick w"]) simp
  show ?thesis
    using assms tick transaction_rollback
    unfolding insert_capture_def Let_def
    by (elim bindM_InlE)
       (auto simp: runs select_def stmt_def call_out_def Let_def split: if_splits option.splits sum.splits prod.splits dest!: transaction_rollback)
qed

text \<open>What a stored upload adds to the tables.\<close>

definition adds_capture ::
  "uploads \<Rightarrow> Context \<Rightarrow> string \<Rightarrow> timestamp option \<Rightarrow> world \<Rightarrow> capture_ex \<Rightarrow> world \<Rightarrow> bool" where
  "adds_capture S context bytes created_at w x w' \<longleftrightarrow>
     (\<exists>c m mime ext handle stamp.
        x = \<lparr>cx_row = c, cx_medias = Some [m], cx_illuminations = None, cx_annotations = None\<rparr> \<and>
        supported_image S bytes = Inr (mime, ext) \<and>
        c = \<lparr>ca_id = next_id ca_id (captures w), ca_user_id = ctx_user_id context, ca_created_at = stamp, ca_archived_at = None\<rparr> \<and>
        m = media_row_for (ctx_user_id context) (ca_id c) (length bytes) mime (blake3_hex S bytes) handle (next_id md_id (medias w)) \<and>
        (\<forall>t. created_at = Some t \<longrightarrow> stamp = t) \<and>
        captures w' = captures w @ [c] \<and> medias w' = medias w @ [m])"

lemma insert_capture_stores:
  assumes "insert_capture S E context bytes dedupe created_at w = (Inr x, w')"
  shows "adds_capture S context bytes created_at w x w'"
    and "dedupe \<longrightarrow> (\<forall>m \<in> set (medias w). \<not> (md_user_id m = ctx_user_id context \<and> md_hash_blake3 m = Some (blake3_hex S bytes)))"
    and "\<exists>n. w' = w\<lparr>captures := captures w', medias := medias w', tick := n\<rparr>"
proof -
  let ?uid = "ctx_user_id context"
  let ?save = "\<lambda>stamp mime handle. transaction E (bindM (insert_capture_row E ?uid stamp) (\<lambda>c.
      bindM (insert_media_row E (media_row_for ?uid (ca_id c) (length bytes) mime (blake3_hex S bytes) handle)) (\<lambda>m.
      returnM \<lparr>cx_row = c, cx_medias = Some [m], cx_illuminations = None, cx_annotations = None\<rparr>)))"
  from assms obtain mime ext handle stamp n where mime: "supported_image S bytes = Inr (mime, ext)"
    and stamp: "\<forall>t. created_at = Some t \<longrightarrow> stamp = t"
    and save: "?save stamp mime handle (w\<lparr>tick := n\<rparr>) = (Inr x, w')"
    and dup: "dedupe \<longrightarrow> (\<forall>m \<in> set (medias w). \<not> (md_user_id m = ?uid \<and> md_hash_blake3 m = Some (blake3_hex S bytes)))"
    unfolding insert_capture_def Let_def
    by (auto simp: runs select_def stmt_def call_out_def Let_def split: if_splits option.splits sum.splits prod.splits)
  from save obtain k c m where "c = \<lparr>ca_id = next_id ca_id (captures w), ca_user_id = ?uid, ca_created_at = stamp, ca_archived_at = None\<rparr>"
    and "m = media_row_for ?uid (ca_id c) (length bytes) mime (blake3_hex S bytes) handle (next_id md_id (medias w))"
    and "x = \<lparr>cx_row = c, cx_medias = Some [m], cx_illuminations = None, cx_annotations = None\<rparr>"
    and w': "w' = w\<lparr>captures := captures w @ [c], medias := medias w @ [m], tick := k\<rparr>"
    by (rule save_capture_result) simp
  with mime stamp show "adds_capture S context bytes created_at w x w'"
    unfolding adds_capture_def by (intro exI [of _ c] exI [of _ m]) auto
  from w' show "\<exists>n. w' = w\<lparr>captures := captures w', medias := medias w', tick := n\<rparr>" by auto
  from dup show "dedupe \<longrightarrow> (\<forall>m \<in> set (medias w). \<not> (md_user_id m = ?uid \<and> md_hash_blake3 m = Some (blake3_hex S bytes)))" .
qed

lemma leaves_new_capture [frame]:
  assumes "\<And>w n. f (w\<lparr>tick := n\<rparr>) = f w" and "\<And>w q. f (w\<lparr>enqueued := q\<rparr>) = f w"
    and "\<And>w p. f (w\<lparr>timings := p\<rparr>) = f w" and "\<And>w p. f (w\<lparr>published := p\<rparr>) = f w"
    and "\<And>w p. f (w\<lparr>task_runs := p\<rparr>) = f w"
  shows "leaves f (new_capture E context task)"
  unfolding new_capture_def submit_illuminate_def by (intro frame) (simp_all add: assms)

lemma upload_result:
  assumes "store_and_signal self E context bytes dedupe created_at w = (r, w')"
  shows "if captures w' = captures w \<and> medias w' = medias w
         then \<exists>e. r = Inl (Failed e)
         else \<exists>x. adds_capture (uc_uploads self) context bytes created_at w x w' \<and>
            (dedupe \<longrightarrow> (\<forall>m \<in> set (medias w). \<not> (md_user_id m = ctx_user_id context \<and>
               md_hash_blake3 m = Some (blake3_hex (uc_uploads self) bytes)))) \<and>
            (case r of
               Inr info \<Rightarrow> ci_id info = ca_id (cx_row x) \<and> ci_user_id info = ctx_user_id context \<and> length (ci_medias info) = 1
             | Inl (Failed e) \<Rightarrow> uc_default_illumination_model_id self = None \<and> http_status_code e = 500
             | Inl Panicked \<Rightarrow> \<exists>m \<in> set (medias w'). make_url (url_maker (uc_providers self)) (handle_of_media m) = None)"
proof -
  obtain ri w1 where ins: "insert_capture (uc_uploads self) E context bytes dedupe created_at w = (ri, w1)" by fastforce
  show ?thesis
  proof (cases ri)
    case (Inl e)
    with ins insert_capture_fails [of "uc_uploads self" E "context" bytes dedupe created_at w e w1] assms show ?thesis
      by (auto simp: store_and_signal_def runs)
  next
    case (Inr x)
    note stored = insert_capture_stores [OF ins [unfolded Inr]]
    obtain c m where x: "cx_row x = c" "cx_medias x = Some [m]" "ca_user_id c = ctx_user_id context"
      and rows: "captures w1 = captures w @ [c]" "medias w1 = medias w @ [m]"
      using stored(1) unfolding adds_capture_def by auto
    have keep: "leaves (\<lambda>w. (captures w, medias w)) (new_capture E context task)" for task by (intro frame) simp_all
    let ?signal = "\<lambda>task. snd (new_capture E context task w1)"
    have same: "captures (?signal task) = captures w1" "medias (?signal task) = medias w1" for task
      using leavesD [OF keep, of task w1] by simp_all
    have "captures w' = captures w1 \<and> medias w' = medias w1 \<and>
        (case r of
           Inr info \<Rightarrow> ci_id info = ca_id c \<and> ci_user_id info = ctx_user_id context \<and> length (ci_medias info) = 1
         | Inl (Failed e) \<Rightarrow> uc_default_illumination_model_id self = None \<and> http_status_code e = 500
         | Inl Panicked \<Rightarrow> make_url (url_maker (uc_providers self)) (handle_of_media m) = None)"
    proof (cases "illumination_task self (ca_id c) (ca_user_id c) V2")
      case (Inl e)
      with assms ins \<open>ri = Inr x\<close> x show ?thesis
        by (auto simp: store_and_signal_def runs illumination_task_def internal_def split: option.splits)
    next
      case (Inr task)
      with assms ins \<open>ri = Inr x\<close> x have "capture_info (uc_providers self) x (?signal task) = (r, w')"
        by (simp add: store_and_signal_def runs)
      with x show ?thesis
        by (auto simp: capture_info_def runs same make_capture_info_def make_media_info_def split: option.splits)
    qed
    moreover from this stored(1) have "adds_capture (uc_uploads self) context bytes created_at w x w'"
      by (simp add: adds_capture_def)
    ultimately show ?thesis
      using rows x stored(2) by (simp, intro exI [of _ x]) (auto split: sum.splits failure.splits)
  qed
qed

text \<open>
  C27: an upload, whatever fails while it runs. It either leaves captures and media as they
  were, or adds exactly one capture of the caller with exactly one media that records the
  size, the type and the hash of the uploaded bytes, and nothing of the upload is ever
  half there. A successful answer shows that capture. An error after the capture was stored
  can only be a missing model configuration or a media whose URL cannot be made; a failed
  signal to the task queue is not one. An import of bytes the user already has stores nothing.
\<close>

theorem upload_all_or_nothing:
  assumes "store_and_signal self E context bytes dedupe created_at w = (r, w')"
  shows "if captures w' = captures w \<and> medias w' = medias w
         then \<exists>e. r = Inl (Failed e)
         else \<exists>x. adds_capture (uc_uploads self) context bytes created_at w x w' \<and>
            (dedupe \<longrightarrow> (\<forall>m \<in> set (medias w). \<not> (md_user_id m = ctx_user_id context \<and>
               md_hash_blake3 m = Some (blake3_hex (uc_uploads self) bytes)))) \<and>
            (case r of
               Inr info \<Rightarrow> ci_id info = ca_id (cx_row x) \<and> ci_user_id info = ctx_user_id context \<and> length (ci_medias info) = 1
             | Inl (Failed e) \<Rightarrow> uc_default_illumination_model_id self = None \<and> http_status_code e = 500
             | Inl Panicked \<Rightarrow> \<exists>m \<in> set (medias w'). make_url (url_maker (uc_providers self)) (handle_of_media m) = None)"
  using assms by (rule upload_result)

section \<open>What a submission by a user does\<close>

lemma submit_illuminate_owner:
  "it_entity_owner_id task = ctx_user_id context \<Longrightarrow>
     submit_illuminate E context task bid w = map_errM internal (submit_inner E (Illuminate task) bid) w"
  by (simp add: submit_illuminate_def ensure_task_submission_allowed_def runs)

lemma snd_map_errM [simp]: "snd (map_errM f m w) = snd (m w)"
  by (simp add: map_errM_def split: prod.split sum.split)

lemma snd_new_capture:
  assumes "it_entity_owner_id task = ctx_user_id context"
  shows "snd (new_capture E context task w) = snd (submit_inner E (Illuminate task) None w)"
proof -
  have "snd (bindM m (\<lambda>_. returnM ()) w) = snd (m w)" for m :: "(world, anyhow, SubmitOutcome) comp"
    by (simp add: bindM_def returnM_def split: prod.split sum.split)
  then show ?thesis
    using submit_illuminate_owner [OF assms, of E None] by (simp add: new_capture_def map_errM_def split: prod.split sum.split)
qed

text \<open>A run of a task that was recorded and handed over, or recorded as refused by the queue.\<close>

definition run_dispatched :: "TaskRun \<Rightarrow> world \<Rightarrow> world \<Rightarrow> bool" where
  "run_dispatched run w w' \<longleftrightarrow>
     enqueued w' = enqueued w @ [run] \<and>
     (\<exists>now. task_runs w' = task_runs w @ [new_task_run_row run (next_id tr_id (task_runs w)) now])"

definition run_undeliverable :: "TaskRun \<Rightarrow> world \<Rightarrow> world \<Rightarrow> bool" where
  "run_undeliverable run w w' \<longleftrightarrow>
     enqueued w' = enqueued w \<and>
     (\<exists>row. task_runs w' = task_runs w @ [row] \<and> tr_run_id row = run_id run \<and> tr_logical_id row = logical_id run \<and>
        tr_status_code row = as_i32 SubmissionFailed)"

lemma submit_inner_Next:
  assumes "no_faults E" "fresh_ids E (task_runs w)" "ordinals_left (task_runs w)"
    and "submission_decision (task_runs w) None (make_logical_id task) = Next k"
    and "submit_inner E task None w = (res, w')"
  shows "\<exists>uuid. (res = Inr (Enqueued uuid k) \<and> run_dispatched (task_run_new uuid task k) w w') \<or>
     ((\<exists>e. res = Inl e) \<and> run_undeliverable (task_run_new uuid task k) w w')"
proof -
  have run: "(task_run_new uuid task k)\<lparr>backfill_id := None\<rparr> = task_run_new uuid task k" for uuid
    by (simp add: task_run_new_def)
  from submit_inner_result [OF assms(1,2,3,5)] obtain uuid now n where
    "case enqueue_fault E n of
       None \<Rightarrow> res = Inr (Enqueued uuid k) \<and>
         task_runs w' = task_runs w @ [new_task_run_row (task_run_new uuid task k) (next_id tr_id (task_runs w)) now] \<and>
         enqueued w' = enqueued w @ [task_run_new uuid task k]
     | Some e \<Rightarrow> res = Inl e \<and> (\<exists>now'. task_runs w' = task_runs w @
           [failed_row now' e (new_task_run_row (task_run_new uuid task k) (next_id tr_id (task_runs w)) now)]) \<and>
         enqueued w' = enqueued w"
    unfolding assms(4) submission.case Let_def run by blast
  then show ?thesis
    by (intro exI [of _ uuid])
       (auto simp: run_dispatched_def run_undeliverable_def failed_row_def with_error_columns_def
         new_task_run_row_def split: option.splits)
qed

text \<open>What a submission can do at most, whatever fails: record one run of the task, and hand over that one.\<close>

definition at_most_one_run :: "task \<Rightarrow> world \<Rightarrow> world \<Rightarrow> bool" where
  "at_most_one_run task w w' \<longleftrightarrow>
     task_runs w' = task_runs w \<and> enqueued w' = enqueued w \<or>
     (\<exists>run row. run_task run = task \<and> logical_id run = make_logical_id task \<and>
        tr_run_id row = run_id run \<and> tr_logical_id row = make_logical_id task \<and>
        task_runs w' = task_runs w @ [row] \<and> (enqueued w' = enqueued w \<or> enqueued w' = enqueued w @ [run]))"

lemma dispatch_at_most:
  assumes "task_runs w = rows @ [row]" and "\<And>r. r \<in> set rows \<Longrightarrow> tr_run_id r \<noteq> run_id run"
    and "tr_run_id row = run_id run" and "dispatch_run E run w = (r, w')"
  shows "\<exists>row'. identity row' = identity row \<and> task_runs w' = rows @ [row'] \<and>
     (enqueued w' = enqueued w \<or> enqueued w' = enqueued w @ [run])"
proof (cases "enqueue_fault E (tick w)")
  case None
  with assms(1,4) show ?thesis
    by (intro exI [of _ row]) (auto simp: dispatch_run_def enqueue_def runs Let_def)
next
  case (Some e)
  let ?w1 = "w\<lparr>tick := Suc (tick w)\<rparr>"
  let ?extras = "\<lambda>now row. case Some (internal e) of Some e \<Rightarrow> with_error_columns e row | None \<Rightarrow> row"
  obtain rs v where st: "set_status E run SubmissionFailed 0 (Some (internal e)) ?w1 = (rs, v)" by fastforce
  have "w' = v" using Some st assms(4) by (cases rs) (auto simp: dispatch_run_def enqueue_def runs Let_def)
  moreover have "enqueued v = enqueued w" using leaves_run [OF leaves_set_status st, of enqueued] by simp
  moreover have "task_runs v = rows @ [row] \<or>
      task_runs v = rows @ [written_row (clock E (tick ?w1)) SubmissionFailed 0 ?extras row]"
    using write_status_result [OF st [unfolded set_status_def]] assms(1-3)
    by (auto simp: update_where_snoc split: option.splits)
  moreover have "identity (written_row now SubmissionFailed 0 ?extras row) = identity row" for now
    by (rule identity_written_row [OF status_only_extras(1)])
  ultimately show ?thesis by metis
qed

lemma submit_inner_at_most:
  assumes "submit_inner E task bid w = (r, w')"
  shows "at_most_one_run task w w'"
proof -
  let ?lid = "make_logical_id task"
  obtain r1 w1 where a: "already_submitted E bid ?lid w = (r1, w1)" by fastforce
  obtain r2 w2 where q: "query_run_status E ?lid None None w1 = (r2, w2)" by fastforce
  obtain r3 w3 where again: "already_submitted E bid ?lid w2 = (r3, w3)" by fastforce
  have same: "task_runs w1 = task_runs w" "enqueued w1 = enqueued w" "task_runs w2 = task_runs w" "enqueued w2 = enqueued w"
      "task_runs w3 = task_runs w" "enqueued w3 = enqueued w"
    using leaves_run [OF leaves_query(4) a, of task_runs] leaves_run [OF leaves_query(4) a, of enqueued]
      leaves_run [OF leaves_query(1) q, of task_runs] leaves_run [OF leaves_query(1) q, of enqueued]
      leaves_run [OF leaves_query(4) again, of task_runs] leaves_run [OF leaves_query(4) again, of enqueued] by simp_all
  have idle: "task_runs w' = task_runs w \<and> enqueued w' = enqueued w \<Longrightarrow> ?thesis" by (simp add: at_most_one_run_def)
  show ?thesis
  proof (cases "\<exists>k latest. r1 = Inr None \<and> r2 = Inr latest \<and> decide_next_run latest = Some k")
    case False
    then have "w' \<in> {w1, w2, w3}"
      using assms a q again by (auto simp: submit_inner_def runs Let_def split: sum.splits option.splits)
    with same idle show ?thesis by auto
  next
    case True
    then obtain k latest where first: "r1 = Inr None" "r2 = Inr latest" "decide_next_run latest = Some k" by blast
    let ?w2 = "w2\<lparr>tick := Suc (tick w2)\<rparr>"
    let ?run = "(task_run_new (uuid_at E (tick w2)) task k)\<lparr>backfill_id := bid\<rparr>"
    obtain ri v where ins: "insert_run E ?run ?w2 = (ri, v)" by fastforce
    have q_v: "enqueued v = enqueued w" using leaves_run [OF leaves_insert_run ins, of enqueued] same by simp
    obtain r4 v' where late: "already_submitted E bid ?lid v = (r4, v')" by fastforce
    have "task_runs v' = task_runs v" "enqueued v' = enqueued v"
      using leaves_run [OF leaves_query(4) late, of task_runs] leaves_run [OF leaves_query(4) late, of enqueued] by simp_all
    note same_v = this
    show ?thesis
    proof (cases "ri = Inr True")
      case False
      then have "task_runs v = task_runs w" using insert_run_result [OF ins] same by simp
      moreover have "w' = v \<or> w' = v'"
        using assms a q first ins late False by (auto simp: submit_inner_def runs Let_def split: sum.splits option.splits if_splits)
      ultimately show ?thesis using idle same_v q_v by auto
    next
      case True
      with insert_run_result [OF ins] obtain i now where free: "task_run_conflicts E (task_runs ?w2) (new_task_run_row ?run i now) = []"
        and rows: "task_runs v = task_runs w @ [new_task_run_row ?run i now]" using same by auto
      have "dispatch_run E ?run v = (r, w')"
        using assms a q first ins True by (simp add: submit_inner_def runs Let_def)
      from dispatch_at_most [OF rows _ _ this] free same obtain row' where
        "identity row' = identity (new_task_run_row ?run i now)" "task_runs w' = task_runs w @ [row']"
        "enqueued w' = enqueued w \<or> enqueued w' = enqueued w @ [?run]"
        using q_v by (auto simp: task_run_conflicts_def split: if_splits)
      moreover from this(1) have "tr_run_id row' = run_id ?run" "tr_logical_id row' = make_logical_id task"
        by (simp_all add: identity_def new_task_run_row_def task_run_new_def)
      moreover have "run_task ?run = task" "logical_id ?run = make_logical_id task" by (simp_all add: task_run_new_def)
      ultimately show ?thesis unfolding at_most_one_run_def by blast
    qed
  qed
qed


lemma get_captures_one:
  assumes "no_faults E"
  obtains n cs where "get_captures E context [cid] w = (Inr cs, w\<lparr>tick := n\<rparr>)"
    and "cs = [] \<longleftrightarrow> (\<forall>c \<in> set (captures w). \<not> (ca_id c = cid \<and> ca_user_id c = ctx_user_id context \<and> ca_archived_at c = None))"
    and "\<And>c. c \<in> set cs \<Longrightarrow> ca_user_id (cx_row c) = ctx_user_id context"
proof -
  obtain r w' where run: "load_captures E context [cid] False w = (r, w')" by fastforce
  moreover have "\<exists>cs. r = Inr cs" using run assms by (auto simp: load_captures_def runs)
  ultimately obtain cs n where run: "load_captures E context [cid] False w = (Inr cs, w\<lparr>tick := n\<rparr>)"
    using load_captures_result [OF run] by blast
  note res = load_captures_result [OF run, THEN conjunct2, unfolded sum.case]
  from res have ids: "map (ca_id \<circ> cx_row) cs = filter (\<lambda>i. \<exists>c \<in> set (captures w). ca_id c = i \<and>
      ca_user_id c = ctx_user_id context \<and> ca_archived_at c = None) [cid]" by simp
  then have "cs = [] \<longleftrightarrow> (\<forall>c \<in> set (captures w). \<not> (ca_id c = cid \<and> ca_user_id c = ctx_user_id context \<and> ca_archived_at c = None))"
    by (cases cs) (auto split: if_splits)
  with run res that show thesis by (simp add: get_captures_def)
qed

text \<open>The answer to a user whose submission went through \<open>submit_inner\<close>.\<close>

definition submission_answer :: "string \<Rightarrow> anyhow + SubmitOutcome \<Rightarrow> ApiError + string" where
  "submission_answer refused res =
     (case res of Inl e \<Rightarrow> Inl (internal e) | Inr outcome \<Rightarrow> run_id_of_outcome refused outcome)"

lemma submission_answered:
  assumes "no_faults E" "fresh_ids E (task_runs w)" "ordinals_left (task_runs w)"
    and sub: "submit_inner E task None (w\<lparr>tick := n\<rparr>) = (res, w')" and r: "r = submission_answer refused res"
  shows "case submission_decision (task_runs w) None (make_logical_id task) of
      Claimed _ \<Rightarrow> False
    | Refused \<Rightarrow> (\<exists>e. r = Inl e \<and> http_status_code e = 409) \<and> (\<exists>n. w' = w\<lparr>tick := n\<rparr>)
    | Next k \<Rightarrow> \<exists>uuid. let new = task_run_new uuid task k in
        r = Inr uuid \<and> run_dispatched new w w' \<or>
        (\<exists>e. r = Inl e \<and> http_status_code e = 500) \<and> run_undeliverable new w w'"
proof (cases "submission_decision (task_runs w) None (make_logical_id task)")
  case (Claimed row)
  then show ?thesis by (auto simp: submission_decision_def split: option.splits)
next
  case Refused
  with submit_inner_result [OF assms(1) _ _ sub] assms(2,3) r show ?thesis
    by (auto simp: submission_answer_def run_id_of_outcome_def conflict_def)
next
  case (Next k)
  from submit_inner_Next [OF assms(1) _ _ _ sub, of k] assms(2,3) Next obtain uuid where
    "res = Inr (Enqueued uuid k) \<and> run_dispatched (task_run_new uuid task k) w w' \<or>
     (\<exists>e. res = Inl e) \<and> run_undeliverable (task_run_new uuid task k) w w'"
    by (auto simp: run_dispatched_def run_undeliverable_def)
  with r Next show ?thesis
    by (auto simp: submission_answer_def run_id_of_outcome_def internal_def Let_def intro!: exI [of _ uuid])
qed

text \<open>
  A user asks for an illumination, with a working database. A capture that is not an
  active one of the caller is not found; a task in flight is a conflict; both change
  nothing. Otherwise a run of exactly the requested task is recorded for the caller and
  handed over, and its id is the answer; if the queue refuses it, the answer is an error and
  the run is recorded as not submitted.
\<close>

theorem enqueue_illumination_correct:
  assumes "no_faults E" "fresh_ids E (task_runs w)" "ordinals_left (task_runs w)"
    and run: "enqueue_illumination self E context cid version level persist w = (r, w')"
  shows "if \<forall>c \<in> set (captures w). \<not> (ca_id c = cid \<and> ca_user_id c = ctx_user_id context \<and> ca_archived_at c = None)
     then (\<exists>e. r = Inl e \<and> http_status_code e = 404) \<and> (\<exists>n. w' = w\<lparr>tick := n\<rparr>)
     else case uc_default_illumination_model_id self of
       None \<Rightarrow> (\<exists>e. r = Inl e \<and> http_status_code e = 500) \<and> (\<exists>n. w' = w\<lparr>tick := n\<rparr>)
     | Some model \<Rightarrow>
         let task = Illuminate \<lparr>it_capture_id = cid, it_entity_owner_id = ctx_user_id context, it_model_id = model,
               it_prompt_version = version, it_thinking_level = level, it_persist_projection = persist\<rparr>
         in case submission_decision (task_runs w) None (make_logical_id task) of
              Claimed _ \<Rightarrow> False
            | Refused \<Rightarrow> (\<exists>e. r = Inl e \<and> http_status_code e = 409) \<and> (\<exists>n. w' = w\<lparr>tick := n\<rparr>)
            | Next k \<Rightarrow> \<exists>uuid. let new = task_run_new uuid task k in
                r = Inr uuid \<and> run_dispatched new w w' \<or>
                (\<exists>e. r = Inl e \<and> http_status_code e = 500) \<and> run_undeliverable new w w'"
proof -
  obtain n cs where cs: "get_captures E context [cid] w = (Inr cs, w\<lparr>tick := n\<rparr>)"
    and none: "cs = [] \<longleftrightarrow> (\<forall>c \<in> set (captures w). \<not> (ca_id c = cid \<and> ca_user_id c = ctx_user_id context \<and> ca_archived_at c = None))"
    and own: "\<And>c. c \<in> set cs \<Longrightarrow> ca_user_id (cx_row c) = ctx_user_id context"
    by (rule get_captures_one [OF assms(1), of "context" cid w]) (rule that)
  show ?thesis
  proof (cases cs)
    case Nil
    with none cs run show ?thesis by (auto simp: enqueue_illumination_def access_denied_def not_found_def runs)
  next
    case (Cons c rest)
    with none have some: "\<not> (\<forall>c \<in> set (captures w). \<not> (ca_id c = cid \<and> ca_user_id c = ctx_user_id context \<and> ca_archived_at c = None))"
      by simp
    show ?thesis
    proof (cases "uc_default_illumination_model_id self")
      case None
      with some Cons cs run show ?thesis unfolding if_not_P [OF some]
        by (auto simp: enqueue_illumination_def illumination_task_def internal_def runs)
    next
      case (Some model)
      let ?it = "\<lparr>it_capture_id = cid, it_entity_owner_id = ctx_user_id context, it_model_id = model,
               it_prompt_version = version, it_thinking_level = level, it_persist_projection = persist\<rparr>"
      obtain res w1 where sub: "submit_inner E (Illuminate ?it) None (w\<lparr>tick := n\<rparr>) = (res, w1)" by fastforce
      have "r = submission_answer (''Illumination for capture '' @ show_int cid @ '' is already in flight'') res" "w1 = w'"
        using run cs Cons Some own [of c] sub submit_illuminate_owner [of ?it "context" E None "w\<lparr>tick := n\<rparr>"]
        by (auto simp: enqueue_illumination_def illumination_task_def illumination_task_new_def submission_answer_def runs split: sum.splits)
      with submission_answered [OF assms(1,2,3) sub] show ?thesis
        unfolding if_not_P [OF some] Some option.case Let_def by blast
    qed
  qed
qed

section \<open>Whose data a read shows\<close>

lemma all_some_iff: "all_some xs = Some ys \<longleftrightarrow> xs = map Some ys"
  by (induction xs arbitrary: ys) (auto split: option.splits)

lemma capture_infos_owner:
  assumes "capture_infos P models w = (Inr infos, w')"
  shows "map ci_user_id infos = map (ca_user_id \<circ> cx_row) models"
proof -
  from assms have "map (make_capture_info (url_maker P) (humanize P (tick w))) models = map Some infos"
    by (auto simp: capture_infos_def runs all_some_iff split: option.splits)
  moreover have "make_capture_info U h m = Some i \<Longrightarrow> ci_user_id i = ca_user_id (cx_row m)" for U h m i
    by (auto simp: make_capture_info_def)
  ultimately show ?thesis by (auto simp: list_eq_iff_nth_eq)
qed

text \<open>
  What the client relies on of a read: whatever the database does, every capture it returns
  is one of the caller's.
\<close>

locale own_captures =
  fixes read :: "Context \<Rightarrow> 'a \<Rightarrow> (world, ApiError, capture_ex list) comp"
  assumes read_own: "read context a w = (Inr cs, w') \<Longrightarrow> c \<in> set cs \<Longrightarrow> ca_user_id (cx_row c) = ctx_user_id context"
begin

lemma shown_own:
  assumes "bindM (map_errM Failed (read context a)) (capture_infos P) w = (Inr infos, w')"
  shows "\<forall>i \<in> set infos. ci_user_id i = ctx_user_id context"
proof -
  from assms obtain cs w1 where "read context a w = (Inr cs, w1)" and infos: "capture_infos P cs w1 = (Inr infos, w')"
    by (auto simp: runs split: prod.splits sum.splits)
  with read_own have "\<forall>c \<in> set cs. ca_user_id (cx_row c) = ctx_user_id context" by blast
  moreover from capture_infos_owner [OF infos] have "ci_user_id ` set infos = (ca_user_id \<circ> cx_row) ` set cs"
    by (metis list.set_map)
  ultimately show ?thesis by auto
qed

end

lemma load_captures_own:
  "load_captures E context ids arch w = (Inr cs, w') \<Longrightarrow> c \<in> set cs \<Longrightarrow> ca_user_id (cx_row c) = ctx_user_id context"
  using load_captures_result [of E "context" ids arch w "Inr cs" w'] by auto

interpretation by_ids: own_captures "get_captures E" for E
  by unfold_locales (auto simp: get_captures_def dest: load_captures_own)

interpretation timeline: own_captures "get_timeline_captures E" for E
  by unfold_locales
    (auto simp: get_timeline_captures_def runs split: if_splits prod.splits sum.splits dest: by_ids.read_own)

interpretation archived: own_captures "get_captures_archived E" for E
  by unfold_locales
    (auto simp: get_captures_archived_def get_captures_including_archived_def runs
      split: if_splits prod.splits sum.splits dest: load_captures_own)

lemma client_get_capture_own:
  "client_get_capture self E context i w = (Inr info, w') \<Longrightarrow> ci_user_id info = ctx_user_id context"
  by (auto simp: client_get_capture_def get_capture_def capture_info_def make_capture_info_def runs
      split: prod.splits sum.splits list.splits option.splits dest: load_captures_own)

text \<open>
  What a user reads is the user's own, whatever fails and whatever the search service
  answers. Every capture that a read by ids, a single read, the timeline, the archive, a
  text search or a similarity search shows belongs to the caller.
\<close>

theorem reads_confined_to_user:
  "(\<forall>r w'. client_get_captures self E context ids w = (Inr r, w') \<longrightarrow> (\<forall>i \<in> set r. ci_user_id i = ctx_user_id context)) \<and>
   (\<forall>i w'. client_get_capture self E context cid w = (Inr i, w') \<longrightarrow> ci_user_id i = ctx_user_id context) \<and>
   (\<forall>r w'. client_get_timeline_captures self E context n w = (Inr r, w') \<longrightarrow> (\<forall>i \<in> set r. ci_user_id i = ctx_user_id context)) \<and>
   (\<forall>r w'. client_get_captures_archived self E context n w = (Inr r, w') \<longrightarrow> (\<forall>i \<in> set r. ci_user_id i = ctx_user_id context)) \<and>
   (\<forall>r w'. client_search self E context query limit w = (Inr r, w') \<longrightarrow> (\<forall>i \<in> set r. ci_user_id i = ctx_user_id context)) \<and>
   (\<forall>r w'. client_search_similar self E context cid limit w = (Inr r, w') \<longrightarrow> (\<forall>i \<in> set r. ci_user_id i = ctx_user_id context))"
proof (intro conjI allI impI)
  fix r w'
  show "client_get_captures self E context ids w = (Inr r, w') \<Longrightarrow> \<forall>i \<in> set r. ci_user_id i = ctx_user_id context"
    unfolding client_get_captures_def by (rule by_ids.shown_own)
  show "client_get_timeline_captures self E context n w = (Inr r, w') \<Longrightarrow> \<forall>i \<in> set r. ci_user_id i = ctx_user_id context"
    unfolding client_get_timeline_captures_def by (rule timeline.shown_own)
  show "client_get_captures_archived self E context n w = (Inr r, w') \<Longrightarrow> \<forall>i \<in> set r. ci_user_id i = ctx_user_id context"
    unfolding client_get_captures_archived_def by (rule archived.shown_own)
  show "client_search self E context query limit w = (Inr r, w') \<Longrightarrow> \<forall>i \<in> set r. ci_user_id i = ctx_user_id context"
    unfolding client_search_def
    by (erule bindM_InrE) (auto simp: run_returnM split: if_splits dest!: by_ids.shown_own)
  show "client_search_similar self E context cid limit w = (Inr r, w') \<Longrightarrow> \<forall>i \<in> set r. ci_user_id i = ctx_user_id context"
    unfolding client_search_similar_def
    by (erule bindM_InrE) (auto simp: run_returnM split: if_splits dest!: by_ids.shown_own)
next
  fix i w'
  assume "client_get_capture self E context cid w = (Inr i, w')"
  then show "ci_user_id i = ctx_user_id context" by (rule client_get_capture_own)
qed

section \<open>Examples\<close>

definition demo_uploads :: uploads where
  "demo_uploads = \<lparr>infer_get = (\<lambda>_. Some (''image/png'', ''png'')), blake3_hex = id,
     store_bytes = (\<lambda>n bytes shard ext mime. Inr \<lparr>sh_provider = ''local'', sh_bucket = None, sh_user_shard = shard,
        sh_uuid = ''u'', sh_extension = ext\<rparr>)\<rparr>"

definition demo_service :: "(world, int, int) vertex" where
  "demo_service = \<lparr>collection_full_path = ''c'', dense_vector_name = ''v'', dense_vector_dims = 2,
     search_data_objects = (\<lambda>_ _ _. throwM \<lparr>se_status_code = None, se_http_status = None, se_display = []\<rparr>),
     batch_search_data_objects = (\<lambda>_ _ _. throwM \<lparr>se_status_code = None, se_http_status = None, se_display = []\<rparr>),
     get_data_object = (\<lambda>_. throwM \<lparr>se_status_code = None, se_http_status = None, se_display = []\<rparr>),
     update_data_object = (\<lambda>_. returnM ()), create_data_object = (\<lambda>_ _ _. returnM ()),
     embed_normalizing = (\<lambda>_ _. throwM [])\<rparr>"

definition demo_client :: "(int, int) UserApiClient" where
  "demo_client = \<lparr>uc_providers = demo_providers, uc_uploads = demo_uploads,
     uc_default_illumination_model_id = Some ''gemini'', uc_vertex = demo_service, uc_floats = demo_floats\<rparr>"

lemma demo_upload:
  "case store_and_signal demo_client quiet_env demo_ctx ''bytes'' True (Some 5) demo_users of
     (Inr info, w') \<Rightarrow> ci_id info = 1 \<and> length (captures w') = 1
   | _ \<Rightarrow> False"
  by code_simp

lemma demo_uploadE:
  obtains info w' where "store_and_signal demo_client quiet_env demo_ctx ''bytes'' True (Some 5) demo_users = (Inr info, w')"
    and "ci_id info = 1" and "length (captures w') = 1"
  using demo_upload by (auto split: prod.splits sum.splits)

lemma demo_enqueue:
  "case enqueue_illumination demo_client quiet_env demo_ctx 1 V2 None True demo_data of (Inr _, _) \<Rightarrow> True | _ \<Rightarrow> False"
  by code_simp

lemma demo_read:
  "case client_get_captures demo_client quiet_env demo_ctx [3, 1] demo_data of (Inr r, _) \<Rightarrow> map ci_id r = [1] | _ \<Rightarrow> False"
  by code_simp

lemma demo_fresh [simp]: "fresh_ids E []" "ordinals_left []"
  by (simp_all add: fresh_ids_def ordinals_left_def)

lemma demo_no_runs [simp]: "task_runs demo_users = []" "task_runs demo_data = []" "submission_decision [] None lid = Next 1"
  by (simp_all add: demo_users_def demo_data_def empty_world_def submission_decision_def latest_matching_def decide_next_run_def)

theorem upload_all_or_nothing_witness:
  "\<exists>info w' x. store_and_signal demo_client quiet_env demo_ctx ''bytes'' True (Some 5) demo_users = (Inr info, w') \<and>
     adds_capture demo_uploads demo_ctx ''bytes'' (Some 5) demo_users x w' \<and> ci_id info = ca_id (cx_row x)"
proof -
  obtain info w' where run: "store_and_signal demo_client quiet_env demo_ctx ''bytes'' True (Some 5) demo_users = (Inr info, w')"
    and "length (captures w') = 1" by (rule demo_uploadE)
  then have "captures w' \<noteq> captures demo_users" by (auto simp: demo_users_def empty_world_def)
  with upload_all_or_nothing [OF run] run show ?thesis by (auto simp: demo_client_def split: if_splits)
qed


theorem enqueue_illumination_correct_witness:
  "\<exists>rid w'. enqueue_illumination demo_client quiet_env demo_ctx 1 V2 None True demo_data = (Inr rid, w') \<and>
     run_dispatched (task_run_new rid (Illuminate \<lparr>it_capture_id = 1, it_entity_owner_id = 7, it_model_id = ''gemini'',
        it_prompt_version = V2, it_thinking_level = None, it_persist_projection = True\<rparr>) 1) demo_data w'"
proof -
  obtain rid w' where run: "enqueue_illumination demo_client quiet_env demo_ctx 1 V2 None True demo_data = (Inr rid, w')"
    using demo_enqueue by (auto split: prod.splits sum.splits)
  have own: "\<not> (\<forall>c \<in> set (captures demo_data). \<not> (ca_id c = 1 \<and> ca_user_id c = ctx_user_id demo_ctx \<and> ca_archived_at c = None))"
    by (simp add: demo_data_def)
  from enqueue_illumination_correct [OF no_faults_quiet _ _ run] run own show ?thesis
    by (auto simp: demo_client_def Let_def split: if_splits)
qed

theorem reads_confined_to_user_witness:
  "\<exists>r w'. client_get_captures demo_client quiet_env demo_ctx [3, 1] demo_data = (Inr r, w') \<and> map ci_id r = [1] \<and>
     (\<forall>i \<in> set r. ci_user_id i = 7)"
proof -
  obtain r w' where "client_get_captures demo_client quiet_env demo_ctx [3, 1] demo_data = (Inr r, w')" "map ci_id r = [1]"
    using demo_read by (auto split: prod.splits sum.splits)
  with reads_confined_to_user [of demo_client quiet_env demo_ctx "[3, 1]" demo_data 0 0 "[]" None] show ?thesis by auto
qed

end
