(* ===== verification/Stats.thy ===== *)
theory Stats
  imports Run_Tracker "HOL-Library.Product_Lexorder" "HOL-Library.List_Lexorder" "HOL-Library.Char_ord"
begin

text \<open>
  \<open>stats/*.rs\<close>: the windowed reports on task runs and inference calls. The averages and
  percentiles PostgreSQL computes are parameters (\<open>summaries\<close>); which rows enter which
  sample, and how rows are grouped, is here. A sample is in microseconds when it is a
  duration and a token count otherwise.
\<close>

section \<open>Windows\<close>

definition DEFAULT_WINDOW_HOURS :: int where
  "DEFAULT_WINDOW_HOURS = 24"

definition MAX_WINDOW_HOURS :: int where
  "MAX_WINDOW_HOURS = 24 * 365"

fun push_windows :: "int list \<Rightarrow> string list \<Rightarrow> anyhow + int list" where
  "push_windows windows [] = Inr windows"
| "push_windows windows (part # parts) =
     (if part = [] then push_windows windows parts
      else case parse_i64 part of
        None \<Rightarrow> Inl (anyhow_msg (''invalid window hours: '' @ part))
      | Some hours \<Rightarrow>
          if \<not> (1 \<le> hours \<and> hours \<le> MAX_WINDOW_HOURS)
          then Inl (anyhow_msg (''window hours must be between 1 and '' @ show_int MAX_WINDOW_HOURS @ '': '' @ show_int hours))
          else push_windows (if hours \<in> set windows then windows else windows @ [hours]) parts)"

definition parse_windows :: "string option \<Rightarrow> anyhow + int list" where
  "parse_windows raw =
     (case push_windows [] (map trim (split_on (CHR '','') (case raw of Some s \<Rightarrow> s | None \<Rightarrow> []))) of
        Inl e \<Rightarrow> Inl e
      | Inr windows \<Rightarrow> Inr (if windows = [] then [DEFAULT_WINDOW_HOURS] else windows))"

definition debug_list :: "int list \<Rightarrow> string" where
  "debug_list xs = ''['' @ join '', '' (map show_int xs) @ '']''"

definition parse_window :: "string option \<Rightarrow> anyhow + int" where
  "parse_window raw =
     (case parse_windows raw of
        Inl e \<Rightarrow> Inl e
      | Inr windows \<Rightarrow>
          (case windows of
             [w] \<Rightarrow> Inr w
           | _ \<Rightarrow> Inl (anyhow_msg (''expected a single window, e.g. --hours 24 (got '' @ debug_list windows @ '')''))))"

definition queue_label :: "string \<Rightarrow> string" where
  "queue_label ttype = replace_char (CHR ''_'') (CHR ''-'') ttype"

text \<open>\<open>created_at >= now() - make_interval(hours => $1)\<close>.\<close>

definition in_window :: "timestamp \<Rightarrow> int \<Rightarrow> timestamp \<Rightarrow> bool" where
  "in_window now hours created_at \<longleftrightarrow> now - hours * 3600000000 \<le> created_at"

section \<open>Summaries\<close>

record 'x summaries =
  avg_of :: "int list \<Rightarrow> 'x"
  percentile_of :: "nat \<Rightarrow> int list \<Rightarrow> 'x"

record 'x MetricStats =
  ms_n :: nat
  ms_avg :: "'x option"
  ms_p50 :: "'x option"
  ms_p75 :: "'x option"
  ms_p90 :: "'x option"
  ms_p99 :: "'x option"

definition metric :: "'x summaries \<Rightarrow> int list \<Rightarrow> 'x MetricStats" where
  "metric S samples =
     (let known = (\<lambda>v. if samples = [] then None else Some v)
      in \<lparr>ms_n = length samples, ms_avg = known (avg_of S samples), ms_p50 = known (percentile_of S 50 samples),
          ms_p75 = known (percentile_of S 75 samples), ms_p90 = known (percentile_of S 90 samples),
          ms_p99 = known (percentile_of S 99 samples)\<rparr>)"

section \<open>Queues\<close>

record FailureCodeCount =
  fc_code :: "int option"
  fc_count :: nat

record 'x QueueStats =
  qs_task_type :: string
  qs_queue :: string
  qs_queued_success :: "'x MetricStats"
  qs_queued_failure :: "'x MetricStats"
  qs_processing_success :: "'x MetricStats"
  qs_processing_failure :: "'x MetricStats"
  qs_failure_codes :: "FailureCodeCount list"

record 'x QueueWindow =
  qw_hours :: int
  qw_queues :: "'x QueueStats list"

record 'x QueueBacklogRow =
  qb_task_type :: string
  qb_queue :: string
  qb_queued :: "'x MetricStats"
  qb_in_progress :: "'x MetricStats"
  qb_error_will_retry :: "'x MetricStats"

record 'x QueueStatsResponse =
  qr_snapshot_suppressed :: bool
  qr_backlog :: "'x QueueBacklogRow list"
  qr_windows :: "'x QueueWindow list"

datatype TaskQueueBackend = LocalQueue | GCloudTasks

text \<open>The rows of one task type and status, and the values their column has.\<close>

definition status_samples :: "(task_run_row \<Rightarrow> int option) \<Rightarrow> TaskRunStatus \<Rightarrow> task_run_row list \<Rightarrow> int list" where
  "status_samples column status rows = List.map_filter column (filter (\<lambda>r. tr_status_code r = as_i32 status) rows)"

definition queued_us :: "task_run_row \<Rightarrow> int option" where
  "queued_us r = map_option (\<lambda>started. started - tr_created_at r) (tr_processing_started_at r)"

definition ms_as_us :: "int option \<Rightarrow> int option" where
  "ms_as_us = map_option (\<lambda>ms. 1000 * ms)"

definition group_by_type :: "task_run_row list \<Rightarrow> (string \<times> task_run_row list) list" where
  "group_by_type rows = map (\<lambda>t. (t, filter (\<lambda>r. tr_task_type r = t) rows)) (sort (remdups (map tr_task_type rows)))"

definition queue_stats_row ::
  "'x summaries \<Rightarrow> (string \<Rightarrow> FailureCodeCount list) \<Rightarrow> string \<times> task_run_row list \<Rightarrow> 'x QueueStats" where
  "queue_stats_row S codes = (\<lambda>(t, rows).
     \<lparr>qs_task_type = t, qs_queue = queue_label t,
      qs_queued_success = metric S (status_samples queued_us CompleteSuccess rows),
      qs_queued_failure = metric S (status_samples queued_us CompleteFailure rows),
      qs_processing_success = metric S (status_samples (ms_as_us \<circ> tr_success_duration_ms) CompleteSuccess rows),
      qs_processing_failure = metric S (status_samples (ms_as_us \<circ> tr_last_error_duration_ms) CompleteFailure rows),
      qs_failure_codes = codes t\<rparr>)"

definition backlog_row :: "'x summaries \<Rightarrow> timestamp \<Rightarrow> string \<times> task_run_row list \<Rightarrow> 'x QueueBacklogRow" where
  "backlog_row S now = (\<lambda>(t, rows).
     \<lparr>qb_task_type = t, qb_queue = queue_label t,
      qb_queued = metric S (status_samples (\<lambda>r. Some (now - tr_created_at r)) Queued rows),
      qb_in_progress = metric S (status_samples (\<lambda>r. map_option (\<lambda>started. now - started) (tr_processing_started_at r)) InProgress rows),
      qb_error_will_retry = metric S (status_samples (\<lambda>r. Some (now - tr_updated_at r)) ErrorWillRetry rows)\<rparr>)"

definition load_backlog :: "'x summaries \<Rightarrow> env \<Rightarrow> (world, anyhow, 'x QueueBacklogRow list) comp" where
  "load_backlog S E =
     map_errM (\<lambda>e. with_context ''query queue backlog'' (anyhow_of_db e))
       (stmt E (\<lambda>now. getM (\<lambda>w. map (backlog_row S now) (group_by_type
          (filter (\<lambda>r. tr_status_code r \<in> {as_i32 Queued, as_i32 InProgress, as_i32 ErrorWillRetry}) (task_runs w))))))"

definition count_codes :: "task_run_row list \<Rightarrow> FailureCodeCount list" where
  "count_codes rows =
     sort_key (\<lambda>c. - int (fc_count c))
       (map (\<lambda>code. \<lparr>fc_code = code, fc_count = length (filter (\<lambda>r. tr_last_error_code r = code) rows)\<rparr>)
         (remdups (map tr_last_error_code rows)))"

definition load_failure_codes ::
  "env \<Rightarrow> int \<Rightarrow> (world, anyhow, string \<Rightarrow> FailureCodeCount list) comp" where
  "load_failure_codes E hours =
     map_errM (\<lambda>e. with_context ''query failure codes'' (anyhow_of_db e))
       (stmt E (\<lambda>now. getM (\<lambda>w t. count_codes (filter (\<lambda>r. in_window now hours (tr_created_at r) \<and>
          tr_status_code r = as_i32 CompleteFailure \<and> tr_task_type r = t) (task_runs w)))))"

definition queue_window :: "'x summaries \<Rightarrow> env \<Rightarrow> int \<Rightarrow> (world, anyhow, 'x QueueWindow) comp" where
  "queue_window S E hours =
     bindM (map_errM (\<lambda>e. with_context ''query queue timing stats'' (anyhow_of_db e))
        (stmt E (\<lambda>now. getM (\<lambda>w. group_by_type (filter (\<lambda>r. in_window now hours (tr_created_at r)) (task_runs w)))))) (\<lambda>rows.
     bindM (load_failure_codes E hours) (\<lambda>codes.
     returnM \<lparr>qw_hours = hours, qw_queues = map (queue_stats_row S codes) rows\<rparr>))"

definition queue_stats ::
  "'x summaries \<Rightarrow> env \<Rightarrow> int list \<Rightarrow> TaskQueueBackend \<Rightarrow> (world, anyhow, 'x QueueStatsResponse) comp" where
  "queue_stats S E windows backend =
     bindM (load_backlog S E) (\<lambda>backlog.
     bindM (foldM (\<lambda>hours acc. bindM (queue_window S E hours) (\<lambda>q. returnM (acc @ [q]))) windows []) (\<lambda>ws.
     returnM \<lparr>qr_snapshot_suppressed = (backend = LocalQueue), qr_backlog = backlog, qr_windows = ws\<rparr>))"

section \<open>Failures\<close>

record QueueFailure =
  qf_queue :: string
  qf_task_type :: string
  qf_entity_type :: string
  qf_entity_id :: int
  qf_run_id :: string
  qf_attempts :: int
  qf_status :: string
  qf_error_code :: "int option"
  qf_error_message :: "string option"
  qf_duration_ms :: "int option"
  qf_age_ms :: int

record QueueFailuresResponse =
  fr_hours :: int
  fr_include_retrying :: bool
  fr_failures :: "QueueFailure list"

definition failure_of_row :: "timestamp \<Rightarrow> task_run_row \<Rightarrow> anyhow + QueueFailure" where
  "failure_of_row now r =
     (case from_i32 (tr_status_code r) of
        Inl e \<Rightarrow> Inl (anyhow_msg e)
      | Inr status \<Rightarrow> Inr
          \<lparr>qf_queue = queue_label (tr_task_type r), qf_task_type = tr_task_type r, qf_entity_type = tr_entity_type r,
           qf_entity_id = tr_entity_id r, qf_run_id = tr_run_id r, qf_attempts = tr_attempts r,
           qf_status = as_str status, qf_error_code = tr_last_error_code r,
           qf_error_message = tr_last_error_message r, qf_duration_ms = tr_last_error_duration_ms r,
           qf_age_ms = round_div (now - tr_updated_at r) 1000\<rparr>)"

definition failed_rows :: "bool \<Rightarrow> timestamp \<Rightarrow> int \<Rightarrow> task_run_row list \<Rightarrow> task_run_row list" where
  "failed_rows include_retrying now hours rows =
     sort_key (\<lambda>r. - tr_updated_at r) (filter (\<lambda>r. in_window now hours (tr_created_at r) \<and>
       (tr_status_code r = 5 \<or> include_retrying \<and> tr_status_code r = 3)) rows)"

definition queue_failures ::
  "env \<Rightarrow> int \<Rightarrow> nat \<Rightarrow> bool \<Rightarrow> (world, anyhow, QueueFailuresResponse) comp" where
  "queue_failures E hours limit include_retrying =
     bindM (map_errM (\<lambda>e. with_context ''query queue failures'' (anyhow_of_db e))
        (stmt E (\<lambda>now. getM (\<lambda>w. map (failure_of_row now)
           (take limit (failed_rows include_retrying now hours (task_runs w))))))) (\<lambda>rows.
     bindM (liftM (collect rows)) (\<lambda>failures.
     returnM \<lparr>fr_hours = hours, fr_include_retrying = include_retrying, fr_failures = failures\<rparr>))"

section \<open>Inference\<close>

record 'x InferenceStats =
  is_task_type :: string
  is_model :: string
  is_backend :: string
  is_duration :: "'x MetricStats"
  is_tokens_in :: "'x MetricStats"
  is_tokens_in_cached :: "'x MetricStats"
  is_tokens_out :: "'x MetricStats"
  is_tokens_thought :: "'x MetricStats"

definition inference_key :: "inference_meta_row \<Rightarrow> string \<times> string \<times> string" where
  "inference_key r = ((case im_task_type r of Some t \<Rightarrow> t | None \<Rightarrow> ''unknown''), im_model r, im_backend r)"

definition inference_group :: "'x summaries \<Rightarrow> inference_meta_row list \<Rightarrow> string \<times> string \<times> string \<Rightarrow> 'x InferenceStats" where
  "inference_group S rows k =
     (let group = filter (\<lambda>r. inference_key r = k) rows
      in \<lparr>is_task_type = fst k, is_model = fst (snd k), is_backend = snd (snd k),
          is_duration = metric S (map (\<lambda>r. 1000 * im_duration_ms r) group),
          is_tokens_in = metric S (List.map_filter im_tokens_in group),
          is_tokens_in_cached = metric S (List.map_filter im_tokens_in_cached group),
          is_tokens_out = metric S (List.map_filter im_tokens_out group),
          is_tokens_thought = metric S (List.map_filter im_tokens_thought group)\<rparr>)"

definition inference_window :: "'x summaries \<Rightarrow> env \<Rightarrow> int \<Rightarrow> (world, anyhow, int \<times> 'x InferenceStats list) comp" where
  "inference_window S E hours =
     map_errM (\<lambda>e. with_context ''query inference stats'' (anyhow_of_db e))
       (stmt E (\<lambda>now. getM (\<lambda>w.
          let rows = filter (\<lambda>r. in_window now hours (im_created_at r)) (inference_metas w)
          in (hours, map (inference_group S rows) (sort (remdups (map inference_key rows)))))))"

definition inference_stats ::
  "'x summaries \<Rightarrow> env \<Rightarrow> int list \<Rightarrow> (world, anyhow, (int \<times> 'x InferenceStats list) list) comp" where
  "inference_stats S E windows =
     foldM (\<lambda>hours acc. bindM (inference_window S E hours) (\<lambda>i. returnM (acc @ [i]))) windows []"

section \<open>What a window accepts\<close>

lemma push_windows_accepts:
  assumes "push_windows windows parts = Inr ws" "distinct windows" "\<forall>h \<in> set windows. 1 \<le> h \<and> h \<le> MAX_WINDOW_HOURS"
  shows "distinct ws \<and> (\<forall>h \<in> set ws. 1 \<le> h \<and> h \<le> MAX_WINDOW_HOURS) \<and>
     (\<exists>hours. map parse_i64 (filter (\<lambda>p. p \<noteq> []) parts) = map Some hours \<and> ws = push_unique windows hours)"
  using assms
proof (induction windows parts rule: push_windows.induct)
  case (2 windows part parts)
  show ?case
  proof (cases "part = []")
    case False
    with "2.prems"(1) obtain h where h: "parse_i64 part = Some h" "1 \<le> h" "h \<le> MAX_WINDOW_HOURS"
      by (auto split: option.splits if_splits)
    let ?windows = "if h \<in> set windows then windows else windows @ [h]"
    from "2.prems" False h have "push_windows ?windows parts = Inr ws" "distinct ?windows"
      "\<forall>h \<in> set ?windows. 1 \<le> h \<and> h \<le> MAX_WINDOW_HOURS" by auto
    from "2.IH"(2) [OF False h(1) _ this] h obtain hours where
      "map parse_i64 (filter (\<lambda>p. p \<noteq> []) parts) = map Some hours" "ws = push_unique ?windows hours"
      "distinct ws" "\<forall>h \<in> set ws. 1 \<le> h \<and> h \<le> MAX_WINDOW_HOURS" by auto
    with False h show ?thesis by (auto intro!: exI [of _ "h # hours"])
  qed (use 2 in auto)
qed auto

lemma push_windows_refuses:
  "push_windows windows parts = Inl e \<Longrightarrow>
     \<exists>p \<in> set parts. p \<noteq> [] \<and> (\<forall>h. parse_i64 p = Some h \<longrightarrow> \<not> (1 \<le> h \<and> h \<le> MAX_WINDOW_HOURS))"
  by (induction windows parts rule: push_windows.induct) (auto split: if_splits option.splits)

text \<open>
  The windows of a report. A comma-separated list is accepted exactly when every part
  that is not blank is a number of hours between 1 and a year; the windows are those
  numbers, each once, in order, or the default of 24 hours when there is none. A single
  window is exactly a list of one.
\<close>

theorem parse_windows_correct:
  "(case parse_windows raw of
      Inr ws \<Rightarrow> ws \<noteq> [] \<and> distinct ws \<and> (\<forall>h \<in> set ws. 1 \<le> h \<and> h \<le> 8760) \<and>
        (\<exists>hours. map parse_i64 (filter (\<lambda>p. p \<noteq> []) (map trim (split_on (CHR '','') (case raw of Some s \<Rightarrow> s | None \<Rightarrow> [])))) = map Some hours \<and>
           ws = (if hours = [] then [24] else push_unique [] hours))
    | Inl _ \<Rightarrow> \<exists>p \<in> set (split_on (CHR '','') (case raw of Some s \<Rightarrow> s | None \<Rightarrow> [])). trim p \<noteq> [] \<and>
        (\<forall>h. parse_i64 (trim p) = Some h \<longrightarrow> h < 1 \<or> 8760 < h)) \<and>
   (\<forall>h. parse_window raw = Inr h \<longleftrightarrow> parse_windows raw = Inr [h])"
proof -
  let ?parts = "map trim (split_on (CHR '','') (case raw of Some s \<Rightarrow> s | None \<Rightarrow> []))"
  have max: "MAX_WINDOW_HOURS = 8760" by (simp add: MAX_WINDOW_HOURS_def)
  have empty: "push_unique [] hours = [] \<longleftrightarrow> hours = []" for hours :: "int list"
    using set_push_unique [of "[]" hours] by (metis set_empty sup_bot_left)
  have "parse_window raw = Inr h \<longleftrightarrow> parse_windows raw = Inr [h]" for h
    by (auto simp: parse_window_def split: sum.splits list.splits)
  moreover have "case parse_windows raw of
      Inr ws \<Rightarrow> ws \<noteq> [] \<and> distinct ws \<and> (\<forall>h \<in> set ws. 1 \<le> h \<and> h \<le> 8760) \<and>
        (\<exists>hours. map parse_i64 (filter (\<lambda>p. p \<noteq> []) ?parts) = map Some hours \<and>
           ws = (if hours = [] then [24] else push_unique [] hours))
    | Inl _ \<Rightarrow> \<exists>p \<in> set (split_on (CHR '','') (case raw of Some s \<Rightarrow> s | None \<Rightarrow> [])). trim p \<noteq> [] \<and>
        (\<forall>h. parse_i64 (trim p) = Some h \<longrightarrow> h < 1 \<or> 8760 < h)"
  proof (cases "push_windows [] ?parts")
    case (Inl e)
    from push_windows_refuses [OF Inl] show ?thesis unfolding parse_windows_def Inl by (fastforce simp: max)
  next
    case (Inr ws)
    from push_windows_accepts [OF Inr] obtain hours where h: "map parse_i64 (filter (\<lambda>p. p \<noteq> []) ?parts) = map Some hours"
      "ws = push_unique [] hours" "distinct ws" "\<forall>h \<in> set ws. 1 \<le> h \<and> h \<le> 8760" by (auto simp: max)
    then show ?thesis unfolding parse_windows_def Inr by (auto simp: empty DEFAULT_WINDOW_HOURS_def)
  qed
  ultimately show ?thesis by blast
qed

section \<open>What a report counts\<close>

lemma sum_groups:
  assumes "finite T" and "f ` set rows \<subseteq> T"
  shows "(\<Sum>t\<in>T. length (filter P (filter (\<lambda>r. f r = t) rows))) = length (filter P rows)"
  using assms(2)
proof (induction rows)
  case (Cons r rows)
  have "length (filter P (filter (\<lambda>x. f x = t) (r # rows))) =
      length (filter P (filter (\<lambda>x. f x = t) rows)) + (if f r = t then (if P r then 1 else 0) else 0)" for t by simp
  then have "(\<Sum>t\<in>T. length (filter P (filter (\<lambda>x. f x = t) (r # rows)))) =
      length (filter P rows) + (\<Sum>t\<in>T. if f r = t then (if P r then 1 else 0) else 0)"
    using Cons by (simp only: sum.distrib) simp
  with Cons.prems assms(1) show ?case by (simp add: sum.delta)
qed simp

lemma sum_group_by_type:
  "sum_list (map (\<lambda>(t, g). length (filter P g)) (group_by_type rows)) = length (filter P rows)"
proof -
  let ?ts = "sort (remdups (map tr_task_type rows))"
  have "sum_list (map (\<lambda>(t, g). length (filter P g)) (group_by_type rows)) =
      (\<Sum>t\<in>set ?ts. length (filter P (filter (\<lambda>r. tr_task_type r = t) rows)))"
    by (subst sum.distinct_set_conv_list) (simp_all add: group_by_type_def comp_def)
  also have "\<dots> = length (filter P rows)" by (rule sum_groups) auto
  finally show ?thesis .
qed

lemma length_status_samples:
  "length (status_samples column status rows) =
     length (filter (\<lambda>r. tr_status_code r = as_i32 status \<and> column r \<noteq> None) rows)"
  by (induction rows) (auto simp: status_samples_def List.map_filter_def)

lemma ms_n_metric [simp]: "ms_n (metric S samples) = length samples"
  by (simp add: metric_def Let_def)

text \<open>
  A report loses no run and counts none twice. When the database answers, the queues of
  a window list every task type of the runs created in it once, in order; over all queues,
  the successes that recorded a start are exactly counted by the success samples, the
  failures likewise. The backlog counts every run that is queued or waits for a retry.
\<close>

theorem queue_stats_account_for_runs:
  assumes "no_faults E" and "queue_window S E hours w = (Inr q, w')" and "load_backlog S E w = (Inr b, w'')"
  shows "\<exists>now. let rows = filter (\<lambda>r. in_window now hours (tr_created_at r)) (task_runs w);
                 started = (\<lambda>st. length (filter (\<lambda>r. tr_status_code r = as_i32 st \<and> tr_processing_started_at r \<noteq> None) rows))
      in sorted (map qs_task_type (qw_queues q)) \<and> distinct (map qs_task_type (qw_queues q)) \<and>
         set (map qs_task_type (qw_queues q)) = set (map tr_task_type rows) \<and>
         sum_list (map (ms_n \<circ> qs_queued_success) (qw_queues q)) = started CompleteSuccess \<and>
         sum_list (map (ms_n \<circ> qs_queued_failure) (qw_queues q)) = started CompleteFailure \<and>
         sum_list (map (ms_n \<circ> qb_queued) b) = length (filter (\<lambda>r. tr_status_code r = as_i32 Queued) (task_runs w)) \<and>
         sum_list (map (ms_n \<circ> qb_error_will_retry) b) =
           length (filter (\<lambda>r. tr_status_code r = as_i32 ErrorWillRetry) (task_runs w))"
proof -
  let ?now = "clock E (tick w)"
  let ?rows = "filter (\<lambda>r. in_window ?now hours (tr_created_at r)) (task_runs w)"
  let ?live = "filter (\<lambda>r. tr_status_code r \<in> {as_i32 Queued, as_i32 InProgress, as_i32 ErrorWillRetry}) (task_runs w)"
  from assms(1,2) obtain codes where "load_failure_codes E hours (w\<lparr>tick := Suc (tick w)\<rparr>) = (Inr codes, w')"
    and q: "q = \<lparr>qw_hours = hours, qw_queues = map (queue_stats_row S codes) (group_by_type ?rows)\<rparr>"
    by (auto simp: queue_window_def runs split: prod.splits sum.splits)
  have b: "b = map (backlog_row S ?now) (group_by_type ?live)"
    using assms(1,3) by (auto simp: load_backlog_def runs)
  have types: "map qs_task_type (qw_queues q) = sort (remdups (map tr_task_type ?rows))"
    by (simp add: q group_by_type_def queue_stats_row_def comp_def)
  have counts: "sum_list (map (\<lambda>g. length (status_samples column st (snd g))) (group_by_type rows)) =
      length (filter (\<lambda>r. tr_status_code r = as_i32 st \<and> column r \<noteq> None) rows)" for column st rows
    using sum_group_by_type [of "\<lambda>r. tr_status_code r = as_i32 st \<and> column r \<noteq> None" rows]
    by (simp add: length_status_samples split_def)
  have "sum_list (map (ms_n \<circ> qs_queued_success) (qw_queues q)) = length (filter (\<lambda>r. tr_status_code r = as_i32 CompleteSuccess \<and> tr_processing_started_at r \<noteq> None) ?rows)"
    "sum_list (map (ms_n \<circ> qs_queued_failure) (qw_queues q)) = length (filter (\<lambda>r. tr_status_code r = as_i32 CompleteFailure \<and> tr_processing_started_at r \<noteq> None) ?rows)"
    using counts [of queued_us CompleteSuccess ?rows] counts [of queued_us CompleteFailure ?rows]
    by (simp_all add: q queue_stats_row_def comp_def split_def queued_us_def del: as_i32.simps filter_filter)
  moreover have "sum_list (map (ms_n \<circ> qb_queued) b) = length (filter (\<lambda>r. tr_status_code r = as_i32 Queued) ?live)"
    "sum_list (map (ms_n \<circ> qb_error_will_retry) b) = length (filter (\<lambda>r. tr_status_code r = as_i32 ErrorWillRetry) ?live)"
    using counts [of "\<lambda>r. Some (?now - tr_created_at r)" Queued ?live] counts [of "\<lambda>r. Some (?now - tr_updated_at r)" ErrorWillRetry ?live]
    by (simp_all add: b backlog_row_def comp_def split_def del: as_i32.simps filter_filter)
  moreover have "filter (\<lambda>r. tr_status_code r = as_i32 Queued) ?live = filter (\<lambda>r. tr_status_code r = as_i32 Queued) (task_runs w)"
    "filter (\<lambda>r. tr_status_code r = as_i32 ErrorWillRetry) ?live = filter (\<lambda>r. tr_status_code r = as_i32 ErrorWillRetry) (task_runs w)"
    unfolding filter_filter by (rule filter_cong; auto)+
  ultimately show ?thesis
    unfolding Let_def using types by (intro exI [of _ ?now]) simp
qed

section \<open>Examples\<close>

theorem parse_windows_correct_witness:
  "\<exists>ws. parse_windows (Some ''1, 24,24'') = Inr ws \<and> ws = [1, 24] \<and> (\<forall>h \<in> set ws. 1 \<le> h \<and> h \<le> 8760)"
proof -
  have "parse_windows (Some ''1, 24,24'') = Inr [1, 24]" by code_simp
  with parse_windows_correct [of "Some ''1, 24,24''"] show ?thesis by simp
qed

definition demo_summaries :: "nat summaries" where
  "demo_summaries = \<lparr>avg_of = length, percentile_of = (\<lambda>_. length)\<rparr>"

theorem queue_stats_account_for_runs_witness:
  "\<exists>q w'. queue_window demo_summaries quiet_env 24 (empty_world\<lparr>task_runs := [demo_row_number 1]\<rparr>) = (Inr q, w') \<and>
     sum_list (map (ms_n \<circ> qs_queued_success) (qw_queues q)) = 0"
proof -
  let ?w = "empty_world\<lparr>task_runs := [demo_row_number 1]\<rparr>"
  obtain q w' where q: "queue_window demo_summaries quiet_env 24 ?w = (Inr q, w')"
    by (simp add: queue_window_def load_failure_codes_def runs)
  obtain b w'' where b: "load_backlog demo_summaries quiet_env ?w = (Inr b, w'')"
    by (simp add: load_backlog_def runs)
  from queue_stats_account_for_runs [OF no_faults_quiet q b] q show ?thesis
    by (auto simp: Let_def demo_row_number_def new_task_run_row_def)
qed

end
