(* ===== verification/Admin.thy ===== *)
theory Admin
  imports Stats Backfill Capture_Api
begin

text \<open>
  \<open>api/admin/*.rs\<close>, \<open>model/user.rs\<close>, the admin routes of \<open>rest/r_export.rs\<close> and
  \<open>rest/r_queue.rs\<close>, and the export command of \<open>util_cmds/api/entities.rs\<close>: what only an
  administrator can do. The rows of an export travel as JSON lines, which carry them
  unchanged; the cursor travels as a header, printed by the route and parsed by the client.
\<close>

section \<open>The gate\<close>

definition ensure_admin :: "Context \<Rightarrow> ApiError + unit" where
  "ensure_admin context =
     (if \<not> ctx_is_admin context then Inl (forbidden (anyhow_msg ''Only admin users can perform this operation''))
      else Inr ())"

section \<open>Users\<close>

record UserInfo =
  ui_id :: int
  ui_username :: string
  ui_email :: string

definition user_info :: "user_row \<Rightarrow> UserInfo" where
  "user_info u = \<lparr>ui_id = us_id u, ui_username = us_username u, ui_email = us_email u\<rparr>"

definition shard_charset :: string where
  "shard_charset = ''abcdefghijklmnopqrstuvwxyz0123456789''"

fun shard_chars :: "nat \<Rightarrow> nat \<Rightarrow> string" where
  "shard_chars 0 v = []"
| "shard_chars (Suc n) v = shard_charset ! (v mod 36) # shard_chars n (v div 36)"

text \<open>The first 8 bytes of a UUID, read from its text as a little-endian number.\<close>

fun hex_bytes :: "nat list \<Rightarrow> nat list" where
  "hex_bytes (a # b # ds) = (16 * a + b) # hex_bytes ds"
| "hex_bytes _ = []"

definition uuid_low_u64 :: "string \<Rightarrow> nat" where
  "uuid_low_u64 uuid = foldr (\<lambda>b acc. b + 256 * acc) (take 8 (hex_bytes (List.map_filter hex_val uuid))) 0"

text \<open>\<open>None\<close> is the panic on a length the entropy does not cover.\<close>

definition generate_storage_shard :: "nat \<Rightarrow> string \<Rightarrow> string option" where
  "generate_storage_shard num_chars uuid =
     (if 12 < num_chars then None else Some (shard_chars num_chars (uuid_low_u64 uuid)))"

definition MAX_SHARD_RETRIES :: nat where
  "MAX_SHARD_RETRIES = 10"

fun find_shard :: "env \<Rightarrow> nat \<Rightarrow> (world, ApiError, string option) comp" where
  "find_shard E 0 = returnM None"
| "find_shard E (Suc n) =
     bindM (new_uuid E) (\<lambda>uuid.
     let candidate = the (generate_storage_shard 8 uuid) in
     bindM (map_errM (\<lambda>e. internal (anyhow_msg (''DB error checking storage shard uniqueness: '' @ db_err_message e)))
        (select E (\<lambda>w. \<exists>u \<in> set (users w). us_storage_shard u = candidate))) (\<lambda>taken.
     if \<not> taken then returnM (Some candidate) else find_shard E n))"

text \<open>The insertion, refused by the unique columns.\<close>

definition insert_user_row :: "env \<Rightarrow> string \<Rightarrow> string \<Rightarrow> string \<Rightarrow> string \<Rightarrow> (world, ApiError, user_row) comp" where
  "insert_user_row E username password_hash email shard =
     map_errM api_of_db (stmt E (\<lambda>_ w.
       if \<exists>u \<in> set (users w). us_username u = username \<or> us_storage_shard u = shard
       then (Inl (DbExec (SqlxError (SqlxDatabase (Some ''23505'') None (conflict_text E (tick w))))), w)
       else let u = \<lparr>us_id = next_id us_id (users w), us_username = username, us_email = email,
                     us_password_hash = password_hash, us_is_admin = False, us_storage_shard = shard\<rparr>
            in (Inr u, w\<lparr>users := users w @ [u]\<rparr>)))"

definition create_user_db ::
  "argon2 \<Rightarrow> env \<Rightarrow> string \<Rightarrow> string \<Rightarrow> string \<Rightarrow> (world, ApiError, UserInfo) comp" where
  "create_user_db A E username password email =
     bindM (map_errM (\<lambda>e. internal (anyhow_msg (''DB error checking existing username '' @ username @ '': '' @ db_err_message e)))
        (select E (\<lambda>w. \<exists>u \<in> set (users w). us_username u = username))) (\<lambda>exists_already.
     if exists_already
     then throwM (conflict (anyhow_msg (''Username '' @ username @ '' already exists'')))
     else (case hash A password of
         Inl e \<Rightarrow> throwM (internal (anyhow_msg (''Password hashing failed for user '' @ username @ '': '' @ auth_error_display e)))
       | Inr password_hash \<Rightarrow>
           bindM (find_shard E MAX_SHARD_RETRIES) (\<lambda>shard.
           case shard of
             None \<Rightarrow> throwM (internal (anyhow_msg (''Failed to generate unique storage shard after ''
                      @ show_nat MAX_SHARD_RETRIES @ '' attempts'')))
           | Some storage_shard \<Rightarrow>
               bindM (transaction E (insert_user_row E username password_hash email storage_shard)) (\<lambda>u.
               returnM (user_info u)))))"

section \<open>Exports\<close>

definition EXPORT_DEFAULT_LIMIT :: nat where
  "EXPORT_DEFAULT_LIMIT = 1000"

definition EXPORT_MAX_LIMIT :: nat where
  "EXPORT_MAX_LIMIT = 5000"

record ExportEntitiesRequest =
  xq_user_id :: "int option"
  xq_after_id :: int
  xq_limit :: nat

record 'r ExportRow =
  xr_user_id :: int
  xr_row :: 'r

definition export_row ::
  "(int \<rightharpoonup> timestamp option) \<Rightarrow> knowledge_entity_row \<Rightarrow> ApiError + KnowledgeEntityInfo ExportRow" where
  "export_row archived e =
     (case archived (ke_capture_id e) of
        None \<Rightarrow> Inl (internal (anyhow_msg (''knowledge entity '' @ show_int (ke_id e)
                  @ '' references missing capture '' @ show_int (ke_capture_id e))))
      | Some archived_at \<Rightarrow> Inr \<lparr>xr_user_id = ke_user_id e, xr_row = knowledge_entity_info_new e archived_at\<rparr>)"

text \<open>The rows behind a cursor, in the order of the export.\<close>

definition entities_after :: "int option \<Rightarrow> int \<Rightarrow> knowledge_entity_row list \<Rightarrow> knowledge_entity_row list" where
  "entities_after user after_id rows =
     sort_key ke_id (filter (\<lambda>e. after_id < ke_id e \<and> (case user of Some u \<Rightarrow> ke_user_id e = u | None \<Rightarrow> True)) rows)"

definition export_entities ::
  "env \<Rightarrow> Context \<Rightarrow> ExportEntitiesRequest \<Rightarrow> (world, ApiError, KnowledgeEntityInfo ExportRow list \<times> int option) comp" where
  "export_entities E context req =
     bindM (liftM (ensure_admin context)) (\<lambda>_.
     if xq_limit req = 0 \<or> EXPORT_MAX_LIMIT < xq_limit req
     then throwM (bad_request (anyhow_msg (''limit must be between 1 and '' @ show_nat EXPORT_MAX_LIMIT)))
     else
       bindM (map_errM api_of_db (select E (\<lambda>w.
          take (xq_limit req) (entities_after (xq_user_id req) (xq_after_id req) (knowledge_entities w))))) (\<lambda>entities.
       let next_after_id = (if length entities = xq_limit req \<and> entities \<noteq> [] then Some (ke_id (last entities)) else None) in
       bindM (map_errM api_of_db (select E (\<lambda>w.
          map_of (rev (map (\<lambda>c. (ca_id c, ca_archived_at c))
            (filter (\<lambda>c. ca_id c \<in> set (map ke_capture_id entities)) (captures w))))))) (\<lambda>archived.
       bindM (liftM (collect (map (export_row archived) entities))) (\<lambda>rows.
       returnM (rows, next_after_id)))))"

definition export_users ::
  "env \<Rightarrow> Context \<Rightarrow> int option \<Rightarrow> (world, ApiError, UserInfo ExportRow list) comp" where
  "export_users E context user =
     bindM (liftM (ensure_admin context)) (\<lambda>_.
     bindM (map_errM api_of_db (select E (\<lambda>w.
        sort_key us_id (filter (\<lambda>u. case user of Some i \<Rightarrow> us_id u = i | None \<Rightarrow> True) (users w))))) (\<lambda>us.
     returnM (map (\<lambda>u. \<lparr>xr_user_id = us_id u, xr_row = user_info u\<rparr>) us)))"

section \<open>Inference records\<close>

record InferenceMetaInfo =
  nf_id :: int
  nf_task_run_id :: "string option"
  nf_attempt :: "int option"
  nf_task_type :: "string option"
  nf_provider :: string
  nf_backend :: string
  nf_model :: string
  nf_duration_ms :: int
  nf_tokens_in :: "int option"
  nf_tokens_in_cached :: "int option"
  nf_tokens_out :: "int option"
  nf_tokens_thought :: "int option"
  nf_params :: json
  nf_provider_metadata :: json
  nf_created_at :: timestamp

definition inference_meta_info :: "inference_meta_row \<Rightarrow> InferenceMetaInfo" where
  "inference_meta_info r =
     \<lparr>nf_id = im_id r, nf_task_run_id = im_task_run_id r, nf_attempt = im_attempt r, nf_task_type = im_task_type r,
      nf_provider = im_provider r, nf_backend = im_backend r, nf_model = im_model r,
      nf_duration_ms = im_duration_ms r, nf_tokens_in = im_tokens_in r, nf_tokens_in_cached = im_tokens_in_cached r,
      nf_tokens_out = im_tokens_out r, nf_tokens_thought = im_tokens_thought r, nf_params = im_params r,
      nf_provider_metadata = im_provider_metadata r, nf_created_at = im_created_at r\<rparr>"

text \<open>\<open>ORDER BY attempt, id\<close>: an ascending order puts \<open>NULL\<close> last.\<close>

definition attempt_order :: "inference_meta_row \<Rightarrow> bool \<times> int \<times> int" where
  "attempt_order r = (case im_attempt r of Some a \<Rightarrow> (False, a, im_id r) | None \<Rightarrow> (True, 0, im_id r))"

definition get_inference_meta :: "env \<Rightarrow> string \<Rightarrow> (world, ApiError, InferenceMetaInfo list) comp" where
  "get_inference_meta E rid =
     bindM (map_errM api_of_db (select E (\<lambda>w.
        sort_key attempt_order (filter (\<lambda>r. im_task_run_id r = Some rid) (inference_metas w))))) (\<lambda>rows.
     returnM (map inference_meta_info rows))"

section \<open>The client\<close>

definition admin_create_user ::
  "argon2 \<Rightarrow> env \<Rightarrow> Context \<Rightarrow> string \<Rightarrow> string \<Rightarrow> string \<Rightarrow> (world, ApiError, UserInfo) comp" where
  "admin_create_user A E context username password email =
     bindM (liftM (ensure_admin context)) (\<lambda>_. create_user_db A E username password email)"

definition admin_backfill_pump ::
  "env \<Rightarrow> Context \<Rightarrow> BackfillPumpRequest \<Rightarrow> (world, ApiError, BackfillPumpResponse) comp" where
  "admin_backfill_pump E context req = bindM (liftM (ensure_admin context)) (\<lambda>_. pump E context req)"

definition admin_backfill_status :: "env \<Rightarrow> Context \<Rightarrow> string \<Rightarrow> (world, ApiError, BackfillStatusResponse) comp" where
  "admin_backfill_status E context bid = bindM (liftM (ensure_admin context)) (\<lambda>_. backfill_status E bid)"

definition admin_backfill_failures ::
  "env \<Rightarrow> Context \<Rightarrow> string \<Rightarrow> (world, ApiError, string \<times> TaskRunInfo list) comp" where
  "admin_backfill_failures E context bid = bindM (liftM (ensure_admin context)) (\<lambda>_. backfill_failures E bid)"

definition admin_queue_stats ::
  "'x summaries \<Rightarrow> env \<Rightarrow> Context \<Rightarrow> int list \<Rightarrow> TaskQueueBackend \<Rightarrow> (world, ApiError, 'x QueueStatsResponse) comp" where
  "admin_queue_stats S E context windows backend =
     bindM (liftM (ensure_admin context)) (\<lambda>_. map_errM internal (queue_stats S E windows backend))"

definition admin_inference_meta :: "env \<Rightarrow> Context \<Rightarrow> string \<Rightarrow> (world, ApiError, InferenceMetaInfo list) comp" where
  "admin_inference_meta E context rid = bindM (liftM (ensure_admin context)) (\<lambda>_. get_inference_meta E rid)"

definition admin_queue_failures ::
  "env \<Rightarrow> Context \<Rightarrow> int \<Rightarrow> nat \<Rightarrow> bool \<Rightarrow> (world, ApiError, QueueFailuresResponse) comp" where
  "admin_queue_failures E context hours limit include_retrying =
     bindM (liftM (ensure_admin context)) (\<lambda>_. map_errM internal (queue_failures E hours limit include_retrying))"

definition admin_inference_stats ::
  "'x summaries \<Rightarrow> env \<Rightarrow> Context \<Rightarrow> int list \<Rightarrow> (world, ApiError, (int \<times> 'x InferenceStats list) list) comp" where
  "admin_inference_stats S E context windows =
     bindM (liftM (ensure_admin context)) (\<lambda>_. map_errM internal (inference_stats S E windows))"

section \<open>Routes\<close>

definition stats_route ::
  "'x summaries \<Rightarrow> env \<Rightarrow> Context \<Rightarrow> string option \<Rightarrow> TaskQueueBackend \<Rightarrow> (world, ApiError, 'x QueueStatsResponse) comp" where
  "stats_route S E context hours backend =
     bindM (liftM (map_sum api_of_anyhow id (parse_windows hours))) (\<lambda>windows.
     admin_queue_stats S E context windows backend)"

definition failures_route ::
  "env \<Rightarrow> Context \<Rightarrow> string option \<Rightarrow> int option \<Rightarrow> bool option \<Rightarrow> (world, ApiError, QueueFailuresResponse) comp" where
  "failures_route E context hours limit include_retrying =
     bindM (liftM (map_sum api_of_anyhow id (parse_window hours))) (\<lambda>h.
     admin_queue_failures E context h (nat (min (max (case limit of Some n \<Rightarrow> n | None \<Rightarrow> 20) 1) 200))
       (case include_retrying of Some b \<Rightarrow> b | None \<Rightarrow> False))"

definition export_entities_route ::
  "env \<Rightarrow> Context \<Rightarrow> int option \<Rightarrow> int \<Rightarrow> nat option \<Rightarrow>
     (world, ApiError, KnowledgeEntityInfo ExportRow list \<times> string option) comp" where
  "export_entities_route E context user after_id limit =
     bindM (export_entities E context \<lparr>xq_user_id = user, xq_after_id = after_id,
        xq_limit = (case limit of Some n \<Rightarrow> n | None \<Rightarrow> EXPORT_DEFAULT_LIMIT)\<rparr>) (\<lambda>(rows, next_after_id).
     returnM (rows, map_option show_int next_after_id))"

section \<open>The export command\<close>

definition client_export_entities ::
  "env \<Rightarrow> Context \<Rightarrow> int option \<Rightarrow> int \<Rightarrow> nat \<Rightarrow>
     (world, ApiError, KnowledgeEntityInfo ExportRow list \<times> int option) comp" where
  "client_export_entities E context user after_id limit =
     bindM (export_entities_route E context user after_id (Some limit)) (\<lambda>(rows, header).
     returnM (rows, Option.bind header parse_i32))"

text \<open>
  The loop of the command; what it writes is the list of rows. It ends when the budget is
  used or a page has no successor, and \<open>None\<close> is a loop that never ends.
\<close>

partial_function (option) export_loop ::
  "env \<Rightarrow> Context \<Rightarrow> int option \<Rightarrow> nat \<Rightarrow> nat option \<Rightarrow> int \<Rightarrow> nat \<Rightarrow> KnowledgeEntityInfo ExportRow list \<Rightarrow> world
     \<Rightarrow> ((ApiError + KnowledgeEntityInfo ExportRow list) \<times> world) option" where
  "export_loop E context user page_size max_rows after_id written out w =
     (let limit = min page_size (case max_rows of None \<Rightarrow> page_size | Some m \<Rightarrow> m - written)
      in if limit = 0 then Some (Inr out, w)
         else case client_export_entities E context user after_id limit w of
           (res, w') \<Rightarrow>
             (case res of
                Inl e \<Rightarrow> Some (Inl e, w')
              | Inr page \<Rightarrow>
                  (case snd page of
                     None \<Rightarrow> Some (Inr (out @ fst page), w')
                   | Some next \<Rightarrow> export_loop E context user page_size max_rows next (written + length (fst page)) (out @ fst page) w')))"

definition export_command ::
  "env \<Rightarrow> Context \<Rightarrow> int option \<Rightarrow> nat \<Rightarrow> nat option \<Rightarrow> world
     \<Rightarrow> ((ApiError + KnowledgeEntityInfo ExportRow list) \<times> world) option" where
  "export_command E context user page_size max_rows w = export_loop E context user page_size max_rows 0 0 [] w"

section \<open>What the gate keeps out\<close>

text \<open>
  Nobody but an administrator gets past the admin API. Every operation of it, asked by
  another user, answers 403 before it reads or writes anything.
\<close>

theorem admin_gate:
  assumes "\<not> ctx_is_admin context"
  shows "\<exists>e. http_status_code e = 403 \<and>
     admin_create_user A E context username password email w = (Inl e, w) \<and>
     admin_backfill_pump E context req w = (Inl e, w) \<and>
     admin_backfill_status E context bid w = (Inl e, w) \<and>
     admin_backfill_failures E context bid w = (Inl e, w) \<and>
     admin_queue_stats S E context windows backend w = (Inl e, w) \<and>
     admin_queue_failures E context hours limit include_retrying w = (Inl e, w) \<and>
     admin_inference_meta E context rid w = (Inl e, w) \<and>
     admin_inference_stats S E context windows w = (Inl e, w) \<and>
     export_entities E context xreq w = (Inl e, w) \<and>
     export_users E context user w = (Inl e, w)"
  using assms
  by (simp add: admin_create_user_def admin_backfill_pump_def admin_backfill_status_def admin_backfill_failures_def
      admin_queue_stats_def admin_queue_failures_def admin_inference_meta_def admin_inference_stats_def
      export_entities_def export_users_def ensure_admin_def forbidden_def runs)

text \<open>The routes parse before they ask the gate, and report a malformed parameter as their own failure.\<close>

lemma invalid_hours_is_internal:
  assumes "parse_windows hours = Inl e"
  shows "\<exists>a. stats_route S E context hours backend w = (Inl a, w) \<and> http_status_code a = 500"
  using assms by (simp add: stats_route_def runs api_of_anyhow_def)

section \<open>New users\<close>

lemma shard_chars_bounds: "length (shard_chars n v) = n" "set (shard_chars n v) \<subseteq> set shard_charset"
proof (induction n v rule: shard_chars.induct)
  case (2 n v)
  {
    case 1
    with 2 show ?case by simp
  next
    case 2
    have "length shard_charset = 36" by (simp add: shard_charset_def)
    then have "shard_charset ! (v mod 36) \<in> set shard_charset" by (intro nth_mem) simp
    with "2.IH" show ?case by simp
  }
qed simp_all

lemma find_shard_result:
  assumes "find_shard E n w = (r, w')"
  shows "(\<exists>k. w' = w\<lparr>tick := k\<rparr>) \<and>
    (\<forall>s. r = Inr (Some s) \<longrightarrow> length s = 8 \<and> set s \<subseteq> set shard_charset \<and> (\<forall>u \<in> set (users w). us_storage_shard u \<noteq> s)) \<and>
    (no_faults E \<longrightarrow> (\<exists>found. r = Inr found) \<and> (0 < n \<and> r = Inr None \<longrightarrow>
       (\<exists>uuid \<in> range (uuid_at E). \<exists>u \<in> set (users w). us_storage_shard u = shard_chars 8 (uuid_low_u64 uuid))))"
  using assms
proof (induction n arbitrary: w)
  case 0
  then show ?case by (auto simp: run_returnM intro: exI [of _ "tick w"])
next
  case (Suc n)
  let ?uuid = "uuid_at E (tick w)"
  let ?s = "shard_chars 8 (uuid_low_u64 ?uuid)"
  let ?w2 = "w\<lparr>tick := Suc (Suc (tick w))\<rparr>"
  have gen: "the (generate_storage_shard 8 ?uuid) = ?s" by (simp add: generate_storage_shard_def)
  consider (fault) e where "db_fault E (Suc (tick w)) = Some e"
    | (free) "db_fault E (Suc (tick w)) = None" "\<forall>u \<in> set (users w). us_storage_shard u \<noteq> ?s"
    | (taken) u where "db_fault E (Suc (tick w)) = None" "u \<in> set (users w)" "us_storage_shard u = ?s" by fastforce
  then show ?case
  proof cases
    case fault
    with Suc.prems show ?thesis by (auto simp: runs select_def stmt_def Let_def no_faults_def)
  next
    case free
    with Suc.prems gen shard_chars_bounds [of 8 "uuid_low_u64 ?uuid"] show ?thesis
      by (auto simp: runs select_def stmt_def Let_def)
  next
    case taken
    with Suc.prems gen have "find_shard E n ?w2 = (r, w')"
      by (auto simp: runs select_def stmt_def Let_def split: if_splits)
    from Suc.IH [OF this] taken show ?thesis by (auto intro!: bexI [of _ ?uuid] bexI [of _ u])
  qed
qed

definition users_ok :: "user_row list \<Rightarrow> bool" where
  "users_ok us \<longleftrightarrow> distinct (map us_id us) \<and> distinct (map us_username us) \<and> distinct (map us_storage_shard us)"

lemma insert_user_result:
  assumes "transaction E (insert_user_row E username h email shard) w = (r, w')"
  shows "case r of
      Inr u \<Rightarrow> u = \<lparr>us_id = next_id us_id (users w), us_username = username, us_email = email,
          us_password_hash = h, us_is_admin = False, us_storage_shard = shard\<rparr> \<and>
        users w' = users w @ [u] \<and> (\<forall>v \<in> set (users w). us_username v \<noteq> username \<and> us_storage_shard v \<noteq> shard)
    | Inl _ \<Rightarrow> users w' = users w \<and>
        (no_faults E \<longrightarrow> (\<exists>v \<in> set (users w). us_username v = username \<or> us_storage_shard v = shard))"
  using assms
  by (auto simp: transaction_def insert_user_row_def runs execute_def stmt_def Let_def no_faults_def
      split: option.splits if_splits sum.splits prod.splits)

text \<open>
  C32: the creation of a user, whatever fails while it runs. It adds exactly the requested
  user, never as an administrator, with the hash of the password, an unused name and an
  unused storage prefix of 8 characters of the alphabet, so that names, prefixes and ids
  stay unique; or it adds nobody. With a working database it fails only for a name that is
  taken, a hash that cannot be made, or prefixes that collide with existing ones.
\<close>

theorem create_user_correct:
  assumes run: "create_user_db A E username password email w = (r, w')" and ok: "users_ok (users w)"
  shows "users_ok (users w') \<and>
    (case r of
       Inr info \<Rightarrow> \<exists>u. users w' = users w @ [u] \<and> info = user_info u \<and> us_username u = username \<and> us_email u = email \<and>
         \<not> us_is_admin u \<and> hash A password = Inr (us_password_hash u) \<and>
         length (us_storage_shard u) = 8 \<and> set (us_storage_shard u) \<subseteq> set shard_charset
     | Inl e \<Rightarrow> users w' = users w \<and>
         (no_faults E \<longrightarrow>
            (\<exists>u \<in> set (users w). us_username u = username) \<and> http_status_code e = 409 \<or>
            (\<exists>err. hash A password = Inl err) \<and> http_status_code e = 500 \<or>
            (\<exists>u \<in> set (users w). \<exists>uuid \<in> range (uuid_at E). us_storage_shard u = shard_chars 8 (uuid_low_u64 uuid)) \<and>
              http_status_code e = 500))"
proof -
  let ?taken = "\<exists>u \<in> set (users w). us_username u = username"
  let ?w1 = "w\<lparr>tick := Suc (tick w)\<rparr>"
  have sel: "select E (\<lambda>w. \<exists>u \<in> set (users w). us_username u = username) w =
      ((case db_fault E (tick w) of Some e \<Rightarrow> Inl e | None \<Rightarrow> Inr ?taken), ?w1)"
    by (simp add: select_def stmt_def Let_def run_getM split: option.split)
  consider (fault) e where "db_fault E (tick w) = Some e"
    | (taken) "db_fault E (tick w) = None" ?taken
    | (unhashed) err where "db_fault E (tick w) = None" "\<not> ?taken" "hash A password = Inl err"
    | (go) h where "db_fault E (tick w) = None" "\<not> ?taken" "hash A password = Inr h"
    by (cases "db_fault E (tick w)"; cases "hash A password") auto
  then show ?thesis
  proof cases
    case go
    obtain f w2 where f: "find_shard E MAX_SHARD_RETRIES ?w1 = (f, w2)" by fastforce
    note shard = find_shard_result [OF f]
    then obtain k where w2: "w2 = w\<lparr>tick := k\<rparr>" by auto
    show ?thesis
    proof (cases "\<exists>s. f = Inr (Some s)")
      case False
      with shard run sel go f w2 ok show ?thesis
        by (auto simp: create_user_db_def runs MAX_SHARD_RETRIES_def internal_def split: sum.splits option.splits)
    next
      case True
      then obtain s where s: "f = Inr (Some s)" by blast
      obtain i w3 where i: "transaction E (insert_user_row E username h email s) w2 = (i, w3)" by fastforce
      note ins = insert_user_result [OF i]
      have "r = map_sum id user_info i" "w' = w3"
        using run sel go f s i by (auto simp: create_user_db_def runs split: sum.splits)
      moreover have "next_id us_id (users w) \<notin> us_id ` set (users w)" by (rule next_id_fresh)
      ultimately show ?thesis
        using ins shard s w2 go ok by (cases i) (auto simp: users_ok_def image_iff)
    qed
  qed (use run sel ok in \<open>auto simp: create_user_db_def runs conflict_def internal_def no_faults_def\<close>)
qed

section \<open>A complete export\<close>

definition archived_of :: "world \<Rightarrow> int \<rightharpoonup> timestamp option" where
  "archived_of w = map_of (rev (map (\<lambda>c. (ca_id c, ca_archived_at c)) (captures w)))"

definition exported_row :: "world \<Rightarrow> knowledge_entity_row \<Rightarrow> KnowledgeEntityInfo ExportRow" where
  "exported_row w e = \<lparr>xr_user_id = ke_user_id e, xr_row = knowledge_entity_info_new e (the (archived_of w (ke_capture_id e)))\<rparr>"

text \<open>The entities a database hands out: positive 32-bit ids, used once, of captures that exist.\<close>

definition entities_ok :: "world \<Rightarrow> bool" where
  "entities_ok w \<longleftrightarrow> distinct (map ke_id (knowledge_entities w)) \<and>
     (\<forall>e \<in> set (knowledge_entities w). 0 < ke_id e \<and> in_i32 (ke_id e) \<and> (\<exists>c \<in> set (captures w). ca_id c = ke_capture_id e))"

lemma map_of_restricted:
  "k \<in> K \<Longrightarrow> map_of (rev (map (\<lambda>c. (ca_id c, ca_archived_at c)) (filter (\<lambda>c. ca_id c \<in> K) cs))) k =
     map_of (rev (map (\<lambda>c. (ca_id c, ca_archived_at c)) cs)) k"
  by (induction cs rule: rev_induct) auto

lemma entities_after_sorted:
  assumes "distinct (map ke_id rows)"
  shows "sorted_wrt (<) (map ke_id (entities_after user a rows))"
proof -
  have "distinct (map ke_id (entities_after user a rows))"
    using assms by (simp add: entities_after_def distinct_map inj_on_def)
  then show ?thesis by (simp add: strict_sorted_iff entities_after_def)
qed

lemma filter_above_nth:
  assumes "sorted_wrt (<) (map key xs)" and "0 < n" and "n \<le> length xs"
  shows "filter (\<lambda>x. (key (xs ! (n - 1)) :: int) < key x) xs = drop n xs"
proof -
  let ?k = "key (xs ! (n - 1))"
  have le: "key x \<le> ?k" if "x \<in> set (take n xs)" for x
  proof -
    from that obtain i where i: "i < n" "i < length xs" "x = xs ! i" by (auto simp: in_set_conv_nth)
    show ?thesis
    proof (cases "i = n - 1")
      case False
      with i assms have "i < n - 1" "n - 1 < length xs" by auto
      with assms(1) i show ?thesis by (fastforce simp: sorted_wrt_iff_nth_less)
    qed (simp add: i)
  qed
  have gt: "?k < key x" if "x \<in> set (drop n xs)" for x
  proof -
    from that obtain i where i: "i < length xs - n" "x = xs ! (n + i)" by (auto simp: in_set_conv_nth)
    then have "n - 1 < n + i" "n + i < length xs" using assms(2) by auto
    with assms(1) i(2) show ?thesis by (fastforce simp: sorted_wrt_iff_nth_less)
  qed
  have "filter (\<lambda>x. ?k < key x) xs = filter (\<lambda>x. ?k < key x) (take n xs @ drop n xs)" by simp
  also have "\<dots> = drop n xs"
    unfolding filter_append using le gt by (auto simp: filter_empty_conv filter_id_conv not_less)
  finally show ?thesis .
qed

lemma entities_after_next:
  assumes "distinct (map ke_id rows)" and "0 < n" and "n \<le> length (entities_after user a rows)"
  shows "entities_after user (ke_id (entities_after user a rows ! (n - 1))) rows = drop n (entities_after user a rows)"
proof -
  let ?es = "entities_after user a rows"
  let ?b = "ke_id (?es ! (n - 1))"
  have "?es ! (n - 1) \<in> set ?es" using assms(2,3) by (intro nth_mem) auto
  then have "a < ?b" by (simp add: entities_after_def)
  then have "filter (\<lambda>e. ?b < ke_id e \<and> (case user of Some u \<Rightarrow> ke_user_id e = u | None \<Rightarrow> True)) rows =
      filter (\<lambda>e. ?b < ke_id e) (filter (\<lambda>e. a < ke_id e \<and> (case user of Some u \<Rightarrow> ke_user_id e = u | None \<Rightarrow> True)) rows)"
    unfolding filter_filter by (intro filter_cong) auto
  then have "entities_after user ?b rows = filter (\<lambda>e. ?b < ke_id e) ?es"
    by (simp add: entities_after_def filter_sort)
  also have "\<dots> = drop n ?es" by (rule filter_above_nth [OF entities_after_sorted [OF assms(1)] assms(2,3)])
  finally show ?thesis .
qed

lemma client_export_page:
  fixes user :: "int option" and a :: int
  assumes "no_faults E" "ctx_is_admin context" "0 < limit" "limit \<le> EXPORT_MAX_LIMIT" "entities_ok w"
  defines "es \<equiv> entities_after user a (knowledge_entities w)"
  shows "\<exists>n. client_export_entities E context user a limit w =
     (Inr (map (exported_row w) (take limit es), if limit \<le> length es then Some (ke_id (es ! (limit - 1))) else None),
      w\<lparr>tick := n\<rparr>)"
proof -
  let ?page = "take limit es"
  let ?arch = "map_of (rev (map (\<lambda>c. (ca_id c, ca_archived_at c)) (filter (\<lambda>c. ca_id c \<in> set (map ke_capture_id ?page)) (captures w))))"
  have sub: "set ?page \<subseteq> set (knowledge_entities w)"
    unfolding es_def by (auto simp: entities_after_def dest!: in_set_takeD)
  have "export_row ?arch e = Inr (exported_row w e)" if "e \<in> set ?page" for e
  proof -
    from that sub assms(5) obtain c where c: "c \<in> set (captures w)" "ca_id c = ke_capture_id e"
      by (fastforce simp: entities_ok_def)
    have "archived_of w (ke_capture_id e) \<noteq> None"
      unfolding archived_of_def map_of_eq_None_iff using c by (auto simp: image_image image_iff) (metis c)
    moreover have "?arch (ke_capture_id e) = archived_of w (ke_capture_id e)"
      unfolding archived_of_def using that by (intro map_of_restricted) auto
    ultimately show ?thesis by (auto simp: export_row_def exported_row_def)
  qed
  then have rows: "collect (map (export_row ?arch) ?page) = Inr (map (exported_row w) ?page)" by (rule collect_map)
  have last: "last ?page = es ! (limit - 1)" if "limit \<le> length es"
    using that assms(3) by (subst last_conv_nth) auto
  have range: "in_i32 (ke_id (es ! (limit - 1)))" if "limit \<le> length es"
  proof -
    from that assms(3) have "es ! (limit - 1) \<in> set (knowledge_entities w)"
      using nth_mem [of "limit - 1" es] by (auto simp: es_def entities_after_def)
    with assms(5) show ?thesis by (simp add: entities_ok_def)
  qed
  show ?thesis
    using assms(1-4) rows last range
    by (auto simp: client_export_entities_def export_entities_route_def export_entities_def ensure_admin_def runs Let_def
        es_def [symmetric] min_def split: if_splits)
qed

lemma exported_row_tick [simp]: "exported_row (w\<lparr>tick := n\<rparr>) = exported_row w"
  by (simp add: exported_row_def archived_of_def fun_eq_iff)

lemma entities_ok_tick [simp]: "entities_ok (w\<lparr>tick := n\<rparr>) = entities_ok w"
  by (simp add: entities_ok_def)

text \<open>The rows a budget of \<open>max_rows\<close> still allows after \<open>written\<close>.\<close>

definition within_budget :: "nat option \<Rightarrow> nat \<Rightarrow> 'r list \<Rightarrow> 'r list" where
  "within_budget max_rows written xs = (case max_rows of None \<Rightarrow> xs | Some m \<Rightarrow> take (m - written) xs)"

lemma export_loop_result:
  assumes "no_faults E" "ctx_is_admin context" "0 < page_size" "page_size \<le> EXPORT_MAX_LIMIT" "entities_ok w"
  shows "\<exists>n. export_loop E context user page_size max_rows a written out w =
     Some (Inr (out @ map (exported_row w) (within_budget max_rows written (entities_after user a (knowledge_entities w)))), w\<lparr>tick := n\<rparr>)"
  using assms(5)
proof (induction "length (entities_after user a (knowledge_entities w))" arbitrary: a written out w rule: less_induct)
  case less
  let ?es = "entities_after user a (knowledge_entities w)"
  let ?budget = "case max_rows of None \<Rightarrow> page_size | Some m \<Rightarrow> m - written"
  let ?limit = "min page_size ?budget"
  show ?case
  proof (cases "?limit = 0")
    case True
    then have "within_budget max_rows written ?es = []" using assms(3) by (auto simp: within_budget_def split: option.splits)
    with True show ?thesis by (subst export_loop.simps) (auto simp: Let_def intro: exI [of _ "tick w"])
  next
    case False
    then have "0 < ?limit" "?limit \<le> EXPORT_MAX_LIMIT" using assms(4) by auto
    from client_export_page [OF assms(1,2) this less.prems, of user a] obtain n where
      page: "client_export_entities E context user a ?limit w = (Inr (map (exported_row w) (take ?limit ?es),
        if ?limit \<le> length ?es then Some (ke_id (?es ! (?limit - 1))) else None), w\<lparr>tick := n\<rparr>)" by blast
    show ?thesis
    proof (cases "?limit \<le> length ?es")
      case short: False
      then have "within_budget max_rows written ?es = ?es" "take ?limit ?es = ?es"
        using False by (auto simp: within_budget_def split: option.splits)
      with False page short show ?thesis by (subst export_loop.simps) (auto simp: Let_def)
    next
      case True
      let ?next = "ke_id (?es ! (?limit - 1))"
      have "distinct (map ke_id (knowledge_entities w))" using less.prems by (simp add: entities_ok_def)
      from entities_after_next [OF this _ True] False
      have rest: "entities_after user ?next (knowledge_entities w) = drop ?limit ?es" by blast
      moreover have "length (drop ?limit ?es) < length ?es" using False True by auto
      moreover have "take ?limit ?es @ within_budget max_rows (written + ?limit) (drop ?limit ?es) = within_budget max_rows written ?es"
        using True by (auto simp: within_budget_def take_add [symmetric] add.commute split: option.split)
          (auto simp: min_def intro!: arg_cong [where f = "\<lambda>n. take n (entities_after user a (knowledge_entities w))"])
      ultimately show ?thesis
        using less.hyps [of ?next "w\<lparr>tick := n\<rparr>" "written + ?limit" "out @ map (exported_row w) (take ?limit ?es)"] less.prems False True page
        by (subst export_loop.simps) (auto simp: Let_def min_absorb2 simp flip: map_append)
    qed
  qed
qed

text \<open>
  C31: an export always ends and is complete. With a working database and any page size the
  server accepts, the command run by an administrator returns, and has written exactly the
  entities of the requested user (or of everyone), each once, ordered by id, or the first
  ones of that order when a maximum was given; archived captures are part of it.
\<close>

theorem export_complete:
  assumes "no_faults E" "ctx_is_admin context" "0 < page_size" "page_size \<le> EXPORT_MAX_LIMIT" "entities_ok w"
  shows "\<exists>n rows. export_command E context user page_size max_rows w = Some (Inr rows, w\<lparr>tick := n\<rparr>) \<and>
     (let all = sort_key ke_id (filter (\<lambda>e. case user of Some u \<Rightarrow> ke_user_id e = u | None \<Rightarrow> True) (knowledge_entities w))
      in rows = map (exported_row w) (case max_rows of None \<Rightarrow> all | Some m \<Rightarrow> take m all))"
proof -
  have "filter (\<lambda>e. 0 < ke_id e \<and> (case user of Some u \<Rightarrow> ke_user_id e = u | None \<Rightarrow> True)) (knowledge_entities w) =
      filter (\<lambda>e. case user of Some u \<Rightarrow> ke_user_id e = u | None \<Rightarrow> True) (knowledge_entities w)"
    using assms(5) by (intro filter_cong) (auto simp: entities_ok_def)
  with export_loop_result [OF assms, of user max_rows 0 0 "[]"] show ?thesis
    by (auto simp: export_command_def within_budget_def entities_after_def Let_def split: option.splits)
qed

section \<open>Examples\<close>

theorem admin_gate_witness:
  "\<exists>e. export_users quiet_env demo_ctx None demo_users = (Inl e, demo_users) \<and> http_status_code e = 403"
proof -
  have "\<not> ctx_is_admin demo_ctx" by (simp add: demo_ctx_def context_from_def ctx_is_admin_def demo_user_def)
  from admin_gate [OF this, of demo_argon quiet_env "''bob''" "''pw''" "''b''" demo_users "demo_pump 1" "''x''" demo_summaries "[24]"
      LocalQueue 24 20 False "''id''" "\<lparr>xq_user_id = None, xq_after_id = 0, xq_limit = 1\<rparr>" None]
  show ?thesis by blast
qed

theorem create_user_correct_witness:
  "\<exists>info w' u. create_user_db demo_argon quiet_env ''bob'' ''secret'' ''b'' demo_users = (Inr info, w') \<and>
     users w' = users demo_users @ [u] \<and> us_username u = ''bob'' \<and> users_ok (users w')"
proof -
  obtain r w' where run: "create_user_db demo_argon quiet_env ''bob'' ''secret'' ''b'' demo_users = (r, w')" by fastforce
  have ok: "users_ok (users demo_users)" by (simp add: users_ok_def demo_users_def)
  note made = create_user_correct [OF run ok]
  have other: "''s'' \<noteq> shard_chars 8 v" for v
  proof
    assume "''s'' = shard_chars 8 v"
    then have "length ''s'' = 8" by (simp add: shard_chars_bounds)
    then show False by simp
  qed
  have "hash demo_argon ''secret'' = Inr ''secret''" by (simp add: hash_def demo_argon_def)
  with made obtain info where "r = Inr info" by (cases r) (auto simp: demo_users_def other)
  with made run show ?thesis by auto
qed

definition demo_entity :: "int \<Rightarrow> int \<Rightarrow> knowledge_entity_row" where
  "demo_entity i cid =
     \<lparr>ke_id = i, ke_user_id = 7, ke_capture_id = cid, ke_illumination_id = 1, ke_position = 0, ke_created_at = 0,
      ke_name = ''n'', ke_entity_type = ''place'', ke_description = None, ke_search_query = None, ke_platform = None,
      ke_platform_handle = None, ke_platform_display_name = None\<rparr>"

theorem export_complete_witness:
  "\<exists>n rows. export_command quiet_env demo_admin None 2 None
       (demo_data\<lparr>knowledge_entities := [demo_entity 9 1, demo_entity 4 2, demo_entity 6 1]\<rparr>) =
       Some (Inr rows, demo_data\<lparr>knowledge_entities := [demo_entity 9 1, demo_entity 4 2, demo_entity 6 1], tick := n\<rparr>) \<and>
     map (ki_id \<circ> xr_row) rows = [4, 6, 9]"
proof -
  let ?w = "demo_data\<lparr>knowledge_entities := [demo_entity 9 1, demo_entity 4 2, demo_entity 6 1]\<rparr>"
  have "entities_ok ?w" by (simp add: entities_ok_def demo_entity_def demo_data_def in_i32_def)
  moreover have "ctx_is_admin demo_admin" by (simp add: demo_admin_def context_from_def ctx_is_admin_def)
  moreover have "(2 :: nat) \<le> EXPORT_MAX_LIMIT" by (simp add: EXPORT_MAX_LIMIT_def)
  ultimately obtain n rows where run: "export_command quiet_env demo_admin None 2 None ?w = Some (Inr rows, ?w\<lparr>tick := n\<rparr>)"
    and rows: "rows = map (exported_row ?w) (sort_key ke_id [demo_entity 9 1, demo_entity 4 2, demo_entity 6 1])"
    using export_complete [of quiet_env demo_admin 2 ?w None None] by (auto simp del: sort_key_simps)
  have "map (ki_id \<circ> xr_row) rows = map ke_id (sort_key ke_id [demo_entity 9 1, demo_entity 4 2, demo_entity 6 1])"
    unfolding rows map_map by (simp add: comp_def exported_row_def knowledge_entity_info_new_def)
  also have "\<dots> = [4, 6, 9]" by (simp add: demo_entity_def)
  finally show ?thesis using run by (intro exI conjI) simp_all
qed

end
