(* ===== verification/Inference_Clients.thy ===== *)
theory Inference_Clients
  imports Search Logic
begin

text \<open>
  \<open>llms/gemini/client.rs\<close>, \<open>ignition/gemini.rs\<close>, \<open>ignition/grok.rs\<close>, \<open>ignition/util.rs\<close> and
  the endpoint of \<open>search/gcloud/gemini_embedder.rs\<close>: how the four inference providers are
  asked and how their replies are read. The HTTP exchange is an argument that answers with a
  status and a body; parsing and printing of JSON text (\<open>serde_json\<close>), Base64 and the reason
  phrase of a status are the fields of \<open>codecs\<close>.
\<close>

section \<open>JSON values\<close>

text \<open>\<open>parse_json\<close> is \<open>serde_json::from_str::<Value>\<close>, its error already a text.\<close>

record codecs =
  parse_json :: "string \<Rightarrow> string + json"
  print_json :: "json \<Rightarrow> string"
  shape_error :: "json \<Rightarrow> string"
  encode_base64 :: "string \<Rightarrow> string"
  reason_phrase :: "nat \<Rightarrow> string"
  debug_str :: "string \<Rightarrow> string"

text \<open>\<open>StatusCode\<close>: its display is the number and the reason phrase.\<close>

definition status_display :: "codecs \<Rightarrow> nat \<Rightarrow> string" where
  "status_display C status = show_nat status @ '' '' @ reason_phrase C status"

definition as_i64 :: "json \<Rightarrow> int option" where
  "as_i64 j = (case j of JNum n \<Rightarrow> if in_i64 n then Some n else None | _ \<Rightarrow> None)"

definition is_string :: "json \<Rightarrow> bool" where
  "is_string j \<longleftrightarrow> as_string j \<noteq> None"

definition is_object :: "json \<Rightarrow> bool" where
  "is_object j \<longleftrightarrow> (case j of JObj _ \<Rightarrow> True | _ \<Rightarrow> False)"

text \<open>\<open>j.get_mut(k).map(Value::take)\<close>: the member, which becomes null in place.\<close>

definition take_member :: "string \<Rightarrow> json \<Rightarrow> json option \<times> json" where
  "take_member k j =
     (case j of
        JObj ms \<Rightarrow> (map_of ms k, if map_of ms k = None then j else JObj (AList.update k JNull ms))
      | _ \<Rightarrow> (None, j))"

text \<open>\<open>body[k] = v\<close> on an object, and \<open>Map::remove\<close>.\<close>

definition set_member :: "string \<Rightarrow> json \<Rightarrow> json \<Rightarrow> json" where
  "set_member k v j = (case j of JObj ms \<Rightarrow> JObj (map_insert k v ms) | _ \<Rightarrow> j)"

definition without_members :: "string list \<Rightarrow> (string \<times> json) list \<Rightarrow> (string \<times> json) list" where
  "without_members ks ms = filter (\<lambda>(k, _). k \<notin> set ks) ms"

text \<open>\<open>Value::pointer\<close>: an array is indexed by a number without sign or leading zero.\<close>

definition pointer_index :: "string \<Rightarrow> nat option" where
  "pointer_index s = (if 1 < length s \<and> hd s = CHR ''0'' then None else parse_unsigned s)"

fun pointer :: "string list \<Rightarrow> json \<Rightarrow> json option" where
  "pointer [] j = Some j"
| "pointer (token # tokens) (JObj ms) = Option.bind (map_of ms token) (pointer tokens)"
| "pointer (token # tokens) (JArr xs) =
     (case pointer_index token of
        Some i \<Rightarrow> if i < length xs then pointer tokens (xs ! i) else None
      | None \<Rightarrow> None)"
| "pointer (token # tokens) _ = None"

section \<open>Gemini Interactions\<close>

datatype GeminiBackend = DeveloperApi (api_key: string) | Vertex (endpoint: string)

fun gemini_backend_name :: "GeminiBackend \<Rightarrow> string" where
  "gemini_backend_name (DeveloperApi _) = ''developer_api''"
| "gemini_backend_name (Vertex _) = ''vertex''"

datatype InferenceInput = TextInput string | ImageInput (image_bytes: string) (image_mime: string)

datatype InferenceCapability = WebSearch

record InteractionRequest =
  ir_model_id :: string
  ir_input :: "InferenceInput list"
  ir_response_schema :: "json option"
  ir_capabilities :: "InferenceCapability list"
  ir_thinking_level :: "ThinkingLevel option"

fun input_json :: "codecs \<Rightarrow> InferenceInput \<Rightarrow> json" where
  "input_json C (TextInput text) = JObj [(''type'', JStr ''text''), (''text'', JStr text)]"
| "input_json C (ImageInput bytes mime_type) =
     JObj [(''type'', JStr ''image''), (''data'', JStr (encode_base64 C bytes)), (''mime_type'', JStr mime_type)]"

fun capability_json :: "InferenceCapability \<Rightarrow> json" where
  "capability_json WebSearch = JObj [(''type'', JStr ''google_search'')]"

fun input_of_parts :: "GeminiBackend \<Rightarrow> json list \<Rightarrow> json" where
  "input_of_parts (DeveloperApi _) content = JArr content"
| "input_of_parts (Vertex _) content =
     JArr [JObj [(''type'', JStr ''user_input''), (''content'', JArr content)]]"

fun with_schema :: "GeminiBackend \<Rightarrow> json \<Rightarrow> json \<Rightarrow> json" where
  "with_schema (DeveloperApi _) schema body =
     set_member ''response_format'' (JObj [(''type'', JStr ''text''), (''mime_type'', JStr ''application/json''),
       (''schema'', schema)]) body"
| "with_schema (Vertex _) schema body =
     set_member ''response_mime_type'' (JStr ''application/json'') (set_member ''response_format'' schema body)"

definition interaction_body :: "codecs \<Rightarrow> GeminiBackend \<Rightarrow> InteractionRequest \<Rightarrow> anyhow + json" where
  "interaction_body C B request =
     (if ir_input request = [] then Inl (anyhow_msg ''Gemini Interactions request must include input'')
      else
        let body0 = JObj [(''model'', JStr (ir_model_id request)),
              (''input'', input_of_parts B (map (input_json C) (ir_input request))), (''store'', JBool False)];
            tools = map capability_json (ir_capabilities request);
            body1 = (if tools = [] then body0 else set_member ''tools'' (JArr tools) body0);
            body2 = (case ir_thinking_level request of
               None \<Rightarrow> body1
             | Some level \<Rightarrow> set_member ''generation_config'' (JObj [(''thinking_level'', JStr (thinking_as_str level))]) body1)
        in Inr (case ir_response_schema request of None \<Rightarrow> body2 | Some schema \<Rightarrow> with_schema B schema body2))"

record GeminiInteractionResponse =
  gi_status :: "string option"
  gi_steps :: "json list"

definition interaction_fields :: "json \<Rightarrow> json option" where
  "interaction_fields j =
     (case j of JArr [status] \<Rightarrow> Some (JObj [(''status'', status)]) | _ \<Rightarrow> struct_object [''status'', ''steps''] j)"

definition interaction_of_json :: "json \<Rightarrow> GeminiInteractionResponse option" where
  "interaction_of_json j =
     (case interaction_fields j of
        None \<Rightarrow> None
      | Some obj \<Rightarrow>
          (case (nullable_member obj ''status'' as_string,
                 case member obj ''steps'' of None \<Rightarrow> Some [] | Some v \<Rightarrow> as_array v) of
             (Some status, Some steps) \<Rightarrow> Some \<lparr>gi_status = status, gi_steps = steps\<rparr>
           | _ \<Rightarrow> None))"

definition type_is :: "string \<Rightarrow> json \<Rightarrow> bool" where
  "type_is t j \<longleftrightarrow> Option.bind (member j ''type'') as_string = Some t"

definition part_text :: "json \<Rightarrow> string" where
  "part_text part =
     (if type_is ''text'' part
      then (case Option.bind (member part ''text'') as_string of Some t \<Rightarrow> t | None \<Rightarrow> [])
      else [])"

definition debug_opt_str :: "codecs \<Rightarrow> string option \<Rightarrow> string" where
  "debug_opt_str C v = (case v of None \<Rightarrow> ''None'' | Some s \<Rightarrow> ''Some('' @ debug_str C s @ '')'')"

definition output_text :: "codecs \<Rightarrow> GeminiInteractionResponse \<Rightarrow> anyhow + string" where
  "output_text C self =
     (case find (type_is ''model_output'') (rev (gi_steps self)) of
        None \<Rightarrow> Inl (anyhow_msg ''Gemini Interactions response has no model-output step'')
      | Some step \<Rightarrow>
          (case Option.bind (member step ''content'') as_array of
             None \<Rightarrow> Inl (anyhow_msg ''Gemini model-output step has no content array'')
           | Some content \<Rightarrow>
               let text = concat (map part_text content)
               in if trim text = []
                  then Inl (anyhow_msg (''Gemini model-output step contains no text (interaction status: ''
                         @ debug_opt_str C (gi_status self) @ '')''))
                  else Inr text))"

definition read_value :: "codecs \<Rightarrow> string \<Rightarrow> anyhow + json" where
  "read_value C text = (case parse_json C text of Inl e \<Rightarrow> Inl (anyhow_msg e) | Inr j \<Rightarrow> Inr j)"

definition add_context :: "string \<Rightarrow> anyhow + 'a \<Rightarrow> anyhow + 'a" where
  "add_context msg r = (case r of Inl e \<Rightarrow> Inl (with_context msg e) | Inr x \<Rightarrow> Inr x)"

definition interaction_output :: "codecs \<Rightarrow> json \<Rightarrow> anyhow + json" where
  "interaction_output C response =
     (case interaction_of_json response of
        None \<Rightarrow> Inl (with_context ''Failed to parse Gemini Interactions response'' (anyhow_msg (shape_error C response)))
      | Some interaction \<Rightarrow>
          (case output_text C interaction of
             Inl e \<Rightarrow> Inl e
           | Inr text \<Rightarrow> add_context ''Gemini model output is not valid structured JSON'' (read_value C text)))"

text \<open>What a provider's token counts are read from: the usage object and the path of each count.\<close>

definition usage_count :: "json \<Rightarrow> string list \<Rightarrow> int option" where
  "usage_count usage path = Option.bind (foldl (\<lambda>v k. Option.bind v (\<lambda>j. member j k)) (Some usage) path) as_i64"

definition with_usage ::
  "string list \<Rightarrow> string list \<Rightarrow> string list \<Rightarrow> string list \<Rightarrow> json \<Rightarrow> InferenceMetadata \<Rightarrow> InferenceMetadata" where
  "with_usage tokens_in cached tokens_out thought usage metadata =
     metadata\<lparr>me_tokens_in := usage_count usage tokens_in, me_tokens_in_cached := usage_count usage cached,
       me_tokens_out := usage_count usage tokens_out, me_tokens_thought := usage_count usage thought,
       me_provider_metadata := map_insert ''provider_usage'' usage (me_provider_metadata metadata)\<rparr>"

definition add_note :: "string \<Rightarrow> json option \<Rightarrow> InferenceMetadata \<Rightarrow> InferenceMetadata" where
  "add_note k v metadata =
     (case v of
        None \<Rightarrow> metadata
      | Some j \<Rightarrow> metadata\<lparr>me_provider_metadata := map_insert k j (me_provider_metadata metadata)\<rparr>)"

definition new_metadata :: "string \<Rightarrow> string \<Rightarrow> string \<Rightarrow> int \<Rightarrow> (string \<times> json) list \<Rightarrow> InferenceMetadata" where
  "new_metadata provider backend model_id duration_ms params =
     \<lparr>me_tokens_in = None, me_tokens_in_cached = None, me_tokens_out = None, me_tokens_thought = None,
      me_provider_name = provider, me_backend_name = backend, me_model_id = model_id,
      me_duration_ms = duration_ms, me_params = params, me_provider_metadata = []\<rparr>"

definition option_filter :: "('a \<Rightarrow> bool) \<Rightarrow> 'a option \<Rightarrow> 'a option" where
  "option_filter P v = (case v of Some x \<Rightarrow> if P x then Some x else None | None \<Rightarrow> None)"

definition interaction_params :: "json \<Rightarrow> (string \<times> json) list" where
  "interaction_params request_body =
     (case request_body of
        JObj ms \<Rightarrow> without_members [''input'', ''model'', ''response_format'', ''response_mime_type''] ms
      | _ \<Rightarrow> [])"

definition inference_response ::
  "codecs \<Rightarrow> string \<Rightarrow> string \<Rightarrow> json \<Rightarrow> int \<Rightarrow> nat \<Rightarrow> json \<Rightarrow> json InferenceOutcome" where
  "inference_response C backend_name model_id request_body duration_ms status response =
     (let metadata0 = new_metadata ''gemini'' backend_name model_id duration_ms (interaction_params request_body);
          (i, response1) = take_member ''id'' response;
          metadata1 = add_note ''provider_request_id'' (option_filter is_string i) metadata0;
          metadata2 = add_note ''provider_created'' (option_filter (\<lambda>v. v \<noteq> JNull) (member response1 ''created'')) metadata1;
          metadata3 = add_note ''provider_updated'' (option_filter (\<lambda>v. v \<noteq> JNull) (member response1 ''updated'')) metadata2;
          (u, response2) = take_member ''usage'' response1
      in \<lparr>oc_output =
            (if is_success_code status then interaction_output C response2
             else Inl (anyhow_msg (''Gemini Interactions API returned '' @ status_display C status @ '': ''
                    @ print_json C response2))),
          oc_metadata =
            (case option_filter (\<lambda>v. v \<noteq> JNull) u of
               None \<Rightarrow> metadata3
             | Some usage \<Rightarrow> with_usage [''total_input_tokens''] [''total_cached_tokens''] [''total_output_tokens'']
                 [''total_thought_tokens''] usage metadata3),
          oc_http_status_code = Some (int status)\<rparr>)"

definition capture_response_headers :: "string option \<Rightarrow> InferenceMetadata \<Rightarrow> InferenceMetadata" where
  "capture_response_headers x_request_id metadata = add_note ''provider_request_id'' (map_option JStr x_request_id) metadata"

text \<open>
  The reply of an HTTP exchange: status, the \<open>x-request-id\<close> header where it is text, the
  body, and how long it took.
\<close>

record http_reply_body =
  hr_status :: nat
  hr_request_id :: "string option"
  hr_body :: string
  hr_duration_ms :: int

definition interact ::
  "codecs \<Rightarrow> GeminiBackend \<Rightarrow> (json \<Rightarrow> ('s, anyhow, http_reply_body) comp) \<Rightarrow> InteractionRequest
     \<Rightarrow> ('s, anyhow, json InferenceOutcome) comp" where
  "interact C B post request =
     bindM (liftM (interaction_body C B request)) (\<lambda>body.
     bindM (post body) (\<lambda>reply.
     bindM (liftM (add_context ''Failed to parse Gemini Interactions response'' (read_value C (hr_body reply)))) (\<lambda>response.
     let outcome = inference_response C (gemini_backend_name B) (ir_model_id request) body (hr_duration_ms reply)
           (hr_status reply) response
     in returnM (outcome\<lparr>oc_metadata := capture_response_headers (hr_request_id reply) (oc_metadata outcome)\<rparr>))))"

section \<open>Sparks\<close>

text \<open>\<open>ignition/util.rs\<close>: the captures of a prompt keep their position among all captures.\<close>

definition capture_paragraph :: "nat \<times> CaptureInfo \<Rightarrow> string" where
  "capture_paragraph = (\<lambda>(idx, capture).
     (let illumination = (case ci_illuminations capture of [] \<Rightarrow> None | i # _ \<Rightarrow> Some i);
          summary = (case illumination of Some i \<Rightarrow> ii_summary i | None \<Rightarrow> ''(no summary available)'');
          details = (case illumination of Some i \<Rightarrow> ii_details i | None \<Rightarrow> ''(no details available)'')
      in show_nat (idx + 1) @ ''. Capture ID '' @ show_int (ci_id capture) @ ln @ ''Summary: '' @ summary @ ln
           @ ''Details: '' @ details))"

definition append_captures_to_user_prompt :: "string \<Rightarrow> CaptureInfo list \<Rightarrow> string" where
  "append_captures_to_user_prompt prompt infos =
     prompt @ ln @ ln @ ''Recent captures and summaries:'' @ ln @ ln
       @ join (ln @ ln) (map capture_paragraph
            (filter (\<lambda>(_, capture). ci_illuminations capture \<noteq> []) (enumerate 0 infos)))"

definition truncate_for_error :: "string \<Rightarrow> nat \<Rightarrow> string" where
  "truncate_for_error text max_chars =
     chars_take max_chars text @ (if max_chars < chars_count text then ''...'' else [])"

definition link_of_spark_json :: "json \<Rightarrow> SparkRecommendedLink option" where
  "link_of_spark_json j =
     Option.bind (struct_object [''url'', ''commentary''] j) (\<lambda>obj.
       case (req_member obj ''url'' as_string, req_member obj ''commentary'' as_string) of
         (Some u, Some c) \<Rightarrow> Some \<lparr>rl_url = u, rl_commentary = c\<rparr>
       | _ \<Rightarrow> None)"

definition cluster_of_spark_json :: "json \<Rightarrow> SparkRecommendedCluster option" where
  "cluster_of_spark_json j =
     Option.bind (struct_object [''title'', ''summary'', ''capture_ids'', ''recommended_links''] j) (\<lambda>obj.
       case (req_member obj ''title'' as_string, req_member obj ''summary'' as_string,
             req_member obj ''capture_ids'' (array_of as_i32_num),
             req_member obj ''recommended_links'' (array_of link_of_spark_json)) of
         (Some t, Some u, Some cs, Some ls) \<Rightarrow>
           Some \<lparr>rc_title = t, rc_summary = u, rc_capture_ids = cs, rc_recommended_links = ls\<rparr>
       | _ \<Rightarrow> None)"

definition spark_of_json :: "json \<Rightarrow> SparkResponse option" where
  "spark_of_json j =
     Option.bind (struct_object [''clusters''] j) (\<lambda>obj. req_member obj ''clusters'' (array_of cluster_of_spark_json))"

text \<open>\<open>serde_json::from_str::<SparkResponse>\<close>.\<close>

definition read_spark :: "codecs \<Rightarrow> string \<Rightarrow> string + SparkResponse" where
  "read_spark C text =
     (case parse_json C text of
        Inl e \<Rightarrow> Inl e
      | Inr j \<Rightarrow> (case spark_of_json j of None \<Rightarrow> Inl (shape_error C j) | Some x \<Rightarrow> Inr x))"

definition non_null :: "json option \<Rightarrow> json option" where
  "non_null = option_filter (\<lambda>v. v \<noteq> JNull)"

definition array_member :: "string \<Rightarrow> json \<Rightarrow> json list option" where
  "array_member k j = Option.bind (member j k) as_array"

definition string_member :: "string \<Rightarrow> json \<Rightarrow> string option" where
  "string_member k j = Option.bind (member j k) as_string"

definition noted_array :: "json list \<Rightarrow> json option" where
  "noted_array xs = (if xs = [] then None else Some (JArr xs))"

subsection \<open>Gemini\<close>

definition gemini_tools :: json where
  "gemini_tools = JArr [JObj [(''google_search'', JObj [])]]"

definition spark_params :: "json \<Rightarrow> (string \<times> json) list" where
  "spark_params tools = [(''prompt_version'', JStr ''spark_v1''), (''tools'', tools)]"

definition schema_of_type :: "string \<Rightarrow> json" where
  "schema_of_type t = JObj [(''type'', JStr t)]"

definition spark_output_schema_gemini :: json where
  "spark_output_schema_gemini =
     (let link = JObj [(''type'', JStr ''OBJECT''), (''required'', JArr [JStr ''url'', JStr ''commentary'']),
            (''properties'', JObj [(''url'', schema_of_type ''STRING''), (''commentary'', schema_of_type ''STRING'')])];
          cluster = JObj [(''type'', JStr ''OBJECT''),
            (''required'', JArr [JStr ''title'', JStr ''summary'', JStr ''capture_ids'', JStr ''recommended_links'']),
            (''properties'', JObj
               [(''title'', schema_of_type ''STRING''), (''summary'', schema_of_type ''STRING''),
                (''capture_ids'', JObj [(''type'', JStr ''ARRAY''), (''items'', schema_of_type ''INTEGER'')]),
                (''recommended_links'', JObj [(''type'', JStr ''ARRAY''), (''items'', link)])])]
      in JObj [(''type'', JStr ''OBJECT''), (''required'', JArr [JStr ''clusters'']),
           (''properties'', JObj [(''clusters'', JObj [(''type'', JStr ''ARRAY''), (''items'', cluster)])])])"

definition generate_content_request :: "string \<Rightarrow> json" where
  "generate_content_request user_prompt = JObj
     [(''contents'', JArr [JObj [(''role'', JStr ''user''), (''parts'', JArr [JObj [(''text'', JStr user_prompt)]])]]),
      (''tools'', gemini_tools),
      (''generationConfig'', JObj [(''responseMimeType'', JStr ''application/json''),
         (''responseSchema'', spark_output_schema_gemini)])]"

definition gemini_content :: "json \<Rightarrow> string" where
  "gemini_content response =
     (let parts = Option.bind (array_member ''candidates'' response) (\<lambda>candidates.
            Option.bind (case candidates of [] \<Rightarrow> None | c # _ \<Rightarrow> member c ''content'') (array_member ''parts''))
      in trim (case Option.bind parts (\<lambda>ps. case List.map_filter (string_member ''text'') ps of [] \<Rightarrow> None | t # _ \<Rightarrow> Some t) of
           None \<Rightarrow> [] | Some t \<Rightarrow> t))"

definition gemini_spark_output :: "codecs \<Rightarrow> nat \<Rightarrow> json \<Rightarrow> anyhow + SparkResponse" where
  "gemini_spark_output C status response =
     (if \<not> is_success_code status then Inl (anyhow_msg (''Gemini API error: '' @ print_json C response))
      else let content = gemini_content response in
        if content = [] then Inl (anyhow_msg ''Gemini API returned an empty structured response'')
        else (case read_spark C content of
           Inl err \<Rightarrow> Inl (anyhow_msg (''Failed to parse Gemini structured spark response: '' @ err
                  @ ''. Content excerpt: '' @ truncate_for_error content 600))
         | Inr x \<Rightarrow> Inr x))"

definition gemini_grounding :: "json \<Rightarrow> json list" where
  "gemini_grounding response =
     (case array_member ''candidates'' response of
        None \<Rightarrow> []
      | Some candidates \<Rightarrow> List.map_filter (\<lambda>c. non_null (member c ''groundingMetadata'')) candidates)"

definition parse_gemini_response ::
  "codecs \<Rightarrow> string \<Rightarrow> (string \<times> json) list \<Rightarrow> int \<Rightarrow> nat \<Rightarrow> json \<Rightarrow> SparkResponse InferenceOutcome" where
  "parse_gemini_response C model_id params duration_ms status response =
     (let metadata0 = new_metadata ''gemini'' ''developer_api'' model_id duration_ms params;
          (u, response1) = take_member ''usageMetadata'' response;
          metadata1 = (case option_filter is_object u of
             None \<Rightarrow> metadata0
           | Some usage \<Rightarrow> with_usage [''promptTokenCount''] [''cachedContentTokenCount''] [''candidatesTokenCount'']
               [''thoughtsTokenCount''] usage metadata0);
          metadata2 = add_note ''provider_request_id'' (map_option JStr (string_member ''responseId'' response1)) metadata1
      in \<lparr>oc_output = gemini_spark_output C status response1,
          oc_metadata = add_note ''provider_grounding'' (noted_array (gemini_grounding response1)) metadata2,
          oc_http_status_code = Some (int status)\<rparr>)"

definition gemini_spark ::
  "codecs \<Rightarrow> string \<Rightarrow> string \<Rightarrow> (json \<Rightarrow> ('s, anyhow, http_reply_body) comp) \<Rightarrow> CaptureInfo list
     \<Rightarrow> ('s, anyhow, SparkResponse InferenceOutcome) comp" where
  "gemini_spark C prompt model_id post infos =
     bindM (post (generate_content_request (append_captures_to_user_prompt prompt infos))) (\<lambda>reply.
     case parse_json C (hr_body reply) of
       Inl err \<Rightarrow> throwM (anyhow_msg (''Failed to parse Gemini API response JSON: '' @ err @ ''. Response excerpt: ''
              @ truncate_for_error (hr_body reply) 600))
     | Inr response \<Rightarrow> returnM (parse_gemini_response C model_id (spark_params gemini_tools) (hr_duration_ms reply)
              (hr_status reply) response))"

subsection \<open>Grok\<close>

definition grok_tools :: json where
  "grok_tools = JArr [JObj [(''type'', JStr ''web_search'')]]"

definition spark_output_schema_grok :: json where
  "spark_output_schema_grok =
     (let closed = (''additionalProperties'', JBool False);
          link = JObj [(''type'', JStr ''object''), closed, (''required'', JArr [JStr ''url'', JStr ''commentary'']),
            (''properties'', JObj [(''url'', schema_of_type ''string''), (''commentary'', schema_of_type ''string'')])];
          cluster = JObj [(''type'', JStr ''object''), closed,
            (''required'', JArr [JStr ''title'', JStr ''summary'', JStr ''capture_ids'', JStr ''recommended_links'']),
            (''properties'', JObj
               [(''title'', schema_of_type ''string''), (''summary'', schema_of_type ''string''),
                (''capture_ids'', JObj [(''type'', JStr ''array''), (''items'', schema_of_type ''integer'')]),
                (''recommended_links'', JObj [(''type'', JStr ''array''), (''items'', link)])])]
      in JObj [(''type'', JStr ''object''), closed, (''required'', JArr [JStr ''clusters'']),
           (''properties'', JObj [(''clusters'', JObj [(''type'', JStr ''array''), (''items'', cluster)])])])"

definition grok_request :: "string \<Rightarrow> string \<Rightarrow> json" where
  "grok_request model_id user_prompt = JObj
     [(''model'', JStr model_id),
      (''input'', JArr [JObj [(''role'', JStr ''user''), (''content'', JStr user_prompt)]]),
      (''tools'', grok_tools),
      (''text'', JObj [(''format'', JObj [(''type'', JStr ''json_schema''), (''name'', JStr ''spark_output''),
         (''strict'', JBool True), (''schema'', spark_output_schema_grok)])])]"

text \<open>The first output text part of the first message that has one.\<close>

definition message_text_part :: "json \<Rightarrow> json option" where
  "message_text_part item =
     (if type_is ''message'' item then Option.bind (array_member ''content'' item) (find (type_is ''output_text''))
      else None)"

definition find_grok_output_text_part :: "json \<Rightarrow> json option" where
  "find_grok_output_text_part response_json =
     Option.bind (array_member ''output'' response_json) (\<lambda>output.
       case List.map_filter message_text_part output of [] \<Rightarrow> None | part # _ \<Rightarrow> Some part)"

definition grok_annotations :: "json \<Rightarrow> json list" where
  "grok_annotations response =
     (case array_member ''output'' response of
        None \<Rightarrow> []
      | Some output \<Rightarrow>
          concat (List.map_filter (array_member ''annotations'') (filter (type_is ''output_text'')
            (concat (List.map_filter (array_member ''content'') (filter (type_is ''message'') output))))))"

definition grok_grounding :: "json \<Rightarrow> json option" where
  "grok_grounding response =
     (let grounding = opt_member ''citations'' id (non_null (member response ''citations''))
            @ opt_member ''annotations'' id (noted_array (grok_annotations response))
      in if grounding = [] then None else Some (JObj grounding))"

definition grok_spark_output :: "codecs \<Rightarrow> nat \<Rightarrow> json \<Rightarrow> anyhow + SparkResponse" where
  "grok_spark_output C status response =
     (if \<not> is_success_code status then Inl (anyhow_msg (''XAI API error: '' @ print_json C response))
      else case option_filter (\<lambda>t. t \<noteq> []) (map_option trim
              (Option.bind (find_grok_output_text_part response) (string_member ''text''))) of
        None \<Rightarrow> Inl (anyhow_msg (''XAI API response did not contain valid output text. Excerpt: ''
               @ truncate_for_error (print_json C response) 600))
      | Some answer \<Rightarrow>
          (case read_spark C answer of
             Inl err \<Rightarrow> Inl (anyhow_msg (''Failed to parse structured spark response: '' @ err
                    @ ''. Excerpt: '' @ truncate_for_error answer 600))
           | Inr x \<Rightarrow> Inr x))"

definition parse_grok_response ::
  "codecs \<Rightarrow> string \<Rightarrow> (string \<times> json) list \<Rightarrow> int \<Rightarrow> nat \<Rightarrow> json \<Rightarrow> SparkResponse InferenceOutcome" where
  "parse_grok_response C model_id params duration_ms status response =
     (let metadata0 = new_metadata ''xai'' ''responses'' model_id duration_ms params;
          (u, response1) = take_member ''usage'' response;
          metadata1 = (case option_filter is_object u of
             None \<Rightarrow> metadata0
           | Some usage \<Rightarrow> with_usage [''input_tokens''] [''input_tokens_details'', ''cached_tokens''] [''output_tokens'']
               [''output_tokens_details'', ''reasoning_tokens''] usage metadata0);
          metadata2 = add_note ''provider_request_id'' (map_option JStr (string_member ''id'' response1)) metadata1
      in \<lparr>oc_output = grok_spark_output C status response1,
          oc_metadata = add_note ''provider_grounding'' (grok_grounding response1) metadata2,
          oc_http_status_code = Some (int status)\<rparr>)"

definition grok_spark ::
  "codecs \<Rightarrow> string \<Rightarrow> string \<Rightarrow> (json \<Rightarrow> ('s, anyhow, http_reply_body) comp) \<Rightarrow> CaptureInfo list
     \<Rightarrow> ('s, anyhow, SparkResponse InferenceOutcome) comp" where
  "grok_spark C prompt model_id post infos =
     bindM (post (grok_request model_id (append_captures_to_user_prompt prompt infos))) (\<lambda>reply.
     bindM (liftM (read_value C (hr_body reply))) (\<lambda>response.
     returnM (parse_grok_response C model_id (spark_params grok_tools) (hr_duration_ms reply) (hr_status reply) response)))"

section \<open>Embeddings\<close>

text \<open>\<open>f64_of_json\<close> is \<open>Value::as_f64\<close>.\<close>

fun embedding_values :: "('f, 'd) floats \<Rightarrow> (json \<Rightarrow> 'd option) \<Rightarrow> nat \<Rightarrow> json list \<Rightarrow> anyhow + 'f list" where
  "embedding_values F f64_of_json idx [] = Inr []"
| "embedding_values F f64_of_json idx (v # vs) =
     (case f64_of_json v of
        None \<Rightarrow> Inl (anyhow_msg (''Embedding value at index '' @ show_nat idx @ '' is not numeric''))
      | Some d \<Rightarrow> (case embedding_values F f64_of_json (Suc idx) vs of Inl e \<Rightarrow> Inl e | Inr fs \<Rightarrow> Inr (f32_of F d # fs)))"

definition parse_gemini_v2_embedding_json ::
  "('f, 'd) floats \<Rightarrow> (json \<Rightarrow> 'd option) \<Rightarrow> codecs \<Rightarrow> json \<Rightarrow> anyhow + 'f list" where
  "parse_gemini_v2_embedding_json F f64_of_json C response =
     (case List.map_filter (\<lambda>p. Option.bind (pointer p response) as_array)
             [[''embedding'', ''values''], [''embeddings'', ''0'', ''values'']] of
        [] \<Rightarrow> Inl (anyhow_msg (''embedContent response missing embedding values field: '' @ print_json C response))
      | found_embedding # _ \<Rightarrow>
          (case embedding_values F f64_of_json 0 found_embedding of
             Inl e \<Rightarrow> Inl e
           | Inr typed_embedding \<Rightarrow>
               if typed_embedding = [] then Inl (anyhow_msg ''Embedding response returned an empty vector'')
               else Inr typed_embedding))"

definition embedding_response ::
  "('f, 'd) floats \<Rightarrow> (json \<Rightarrow> 'd option) \<Rightarrow> codecs \<Rightarrow> string \<Rightarrow> nat \<Rightarrow> string \<Rightarrow> int \<Rightarrow> nat \<Rightarrow> json
     \<Rightarrow> 'f list InferenceOutcome" where
  "embedding_response F f64_of_json C model_id dims kind duration_ms status response =
     (let metadata0 = (new_metadata ''gemini'' ''vertex'' model_id duration_ms [])\<lparr>me_tokens_in :=
            Option.bind (pointer [''usageMetadata'', ''promptTokenCount''] response) as_i64\<rparr>;
          output = (if is_success_code status
             then (case parse_gemini_v2_embedding_json F f64_of_json C response of
                Inl e \<Rightarrow> Inl e | Inr values \<Rightarrow> from_vec_normalizing F values)
             else Inl (anyhow_msg (''Gemini embedContent failed with status '' @ status_display C status
                    @ '' and body: '' @ print_json C response)));
          metadata1 = add_note ''provider_usage'' (fst (take_member ''usageMetadata'' response)) metadata0
      in \<lparr>oc_output = output,
          oc_metadata = metadata1\<lparr>me_params := map_insert ''output_dimensions'' (JNum (int dims))
             (map_insert ''embedding_task_type'' (JStr kind) (me_params metadata1))\<rparr>,
          oc_http_status_code = Some (int status)\<rparr>)"

definition embed_normalizing_gemini ::
  "('f, 'd) floats \<Rightarrow> (json \<Rightarrow> 'd option) \<Rightarrow> codecs \<Rightarrow> string \<Rightarrow> nat
     \<Rightarrow> (json \<Rightarrow> ('s, anyhow, http_reply_body) comp) \<Rightarrow> json \<Rightarrow> string \<Rightarrow> ('s, anyhow, 'f list InferenceOutcome) comp" where
  "embed_normalizing_gemini F f64_of_json C model_id dims post parts kind =
     bindM (post (JObj [(''content'', JObj [(''parts'', parts)]),
        (''embedContentConfig'', JObj [(''outputDimensionality'', JNum (int dims)), (''taskType'', JStr kind)])])) (\<lambda>reply.
     bindM (liftM (add_context ''Invalid embedContent response JSON'' (read_value C (hr_body reply)))) (\<lambda>response.
     returnM (embedding_response F f64_of_json C model_id dims kind (hr_duration_ms reply) (hr_status reply) response)))"

section \<open>Members\<close>

lemma without_members_map_of: "map_of (without_members ks ms) k = (if k \<in> set ks then None else map_of ms k)"
  by (induction ms) (auto simp: without_members_def)

lemma map_of_map_insert [simp]: "map_of (map_insert k v ms) = (map_of ms)(k \<mapsto> v)"
  by (simp add: map_insert_def update_conv')

lemma member_take_member [simp]:
  "k' \<noteq> k \<Longrightarrow> member (snd (take_member k j)) k' = member j k'"
  "fst (take_member k j) = member j k"
  by (cases j; auto simp: take_member_def member_def update_conv')+

lemma add_note_sel [simp]:
  "me_params (add_note k v m) = me_params m" "me_tokens_in (add_note k v m) = me_tokens_in m"
  "me_tokens_in_cached (add_note k v m) = me_tokens_in_cached m" "me_tokens_out (add_note k v m) = me_tokens_out m"
  "me_tokens_thought (add_note k v m) = me_tokens_thought m"
  "map_of (me_provider_metadata (add_note k v m)) =
     (case v of None \<Rightarrow> map_of (me_provider_metadata m) | Some j \<Rightarrow> (map_of (me_provider_metadata m))(k \<mapsto> j))"
  by (simp_all add: add_note_def split: option.split)

lemma with_usage_sel [simp]:
  "me_params (with_usage a b c d u m) = me_params m" "me_tokens_in (with_usage a b c d u m) = usage_count u a"
  "me_tokens_out (with_usage a b c d u m) = usage_count u c"
  "map_of (me_provider_metadata (with_usage a b c d u m)) = (map_of (me_provider_metadata m))(''provider_usage'' \<mapsto> u)"
  by (simp_all add: with_usage_def)

lemma option_filter_Some [simp]: "option_filter P v = Some x \<longleftrightarrow> v = Some x \<and> P x"
  by (auto simp: option_filter_def split: option.splits if_splits)

lemma option_filter_simps [simp]: "option_filter P None = None" "option_filter P (Some x) = (if P x then Some x else None)"
  by (simp_all add: option_filter_def)

section \<open>What every provider's reply records\<close>

text \<open>
  The contract between a reader of replies and the workers: the status of the exchange is
  kept, a status other than 2xx is a failed output, and the metadata, with the provider's own
  usage object and the count of input tokens, is read from the body whatever the status.
\<close>

locale provider_reply =
  fixes respond :: "nat \<Rightarrow> json \<Rightarrow> 'a InferenceOutcome"
    and usage_of :: "json \<Rightarrow> json option"
    and input_tokens :: string
  assumes status_kept: "oc_http_status_code (respond status response) = Some (int status)"
    and refused: "\<not> is_success_code status \<Longrightarrow> \<exists>e. oc_output (respond status response) = Inl e"
    and body_decides: "oc_metadata (respond status response) = oc_metadata (respond other response)"
    and usage_kept: "usage_of response = Some usage \<Longrightarrow>
      map_of (me_provider_metadata (oc_metadata (respond status response))) ''provider_usage'' = Some usage"
    and tokens_kept: "usage_of response = Some usage \<Longrightarrow>
      me_tokens_in (oc_metadata (respond status response)) = Option.bind (member usage input_tokens) as_i64"
begin

lemma refusal_fails_with_status:
  assumes "\<not> is_success_code status"
  obtains e where "inference_output (respond status response) = throwM (Failed (with_inner_status_code (Some (int status)) (internal e)))"
proof -
  obtain e where "oc_output (respond status response) = Inl e" using refused [OF assms] by blast
  then show thesis by (intro that [of e]) (simp add: inference_output_def status_kept liftM_def throwM_def)
qed

lemma refusal_is_accounted:
  assumes "usage_of response = Some usage"
  shows "map_of (me_provider_metadata (oc_metadata (respond status response))) ''provider_usage'' = Some usage"
    and "me_tokens_in (oc_metadata (respond status response)) = Option.bind (member usage input_tokens) as_i64"
    and "oc_metadata (respond status response) = oc_metadata (respond 200 response)"
  using assms usage_kept tokens_kept body_decides by blast+

end

lemma usage_count_one [simp]: "usage_count usage [k] = Option.bind (member usage k) as_i64"
  by (simp add: usage_count_def)

interpretation gemini_interactions: provider_reply "inference_response C backend model_id request_body duration"
    "\<lambda>response. option_filter (\<lambda>v. v \<noteq> JNull) (member response ''usage'')" "''total_input_tokens''"
  by unfold_locales (auto simp: inference_response_def Let_def split_beta split: option.split)

interpretation gemini_sparks: provider_reply "parse_gemini_response C model_id params duration"
    "\<lambda>response. option_filter is_object (member response ''usageMetadata'')" "''promptTokenCount''"
  by unfold_locales (auto simp: parse_gemini_response_def gemini_spark_output_def Let_def split_beta split: option.split)

interpretation grok_sparks: provider_reply "parse_grok_response C model_id params duration"
    "\<lambda>response. option_filter is_object (member response ''usage'')" "''input_tokens''"
  by unfold_locales (auto simp: parse_grok_response_def grok_spark_output_def Let_def split_beta split: option.split)

interpretation gemini_embeddings: provider_reply "embedding_response F f64_of_json C model_id dims kind duration"
    "\<lambda>response. option_filter is_object (member response ''usageMetadata'')" "''promptTokenCount''"
proof unfold_locales
  fix status other response usage
  let ?respond = "embedding_response F f64_of_json C model_id dims kind duration"
  show "oc_http_status_code (?respond status response) = Some (int status)"
    and "oc_metadata (?respond status response) = oc_metadata (?respond other response)"
    by (simp_all add: embedding_response_def Let_def)
  show "\<exists>e. oc_output (?respond status response) = Inl e" if "\<not> is_success_code status"
    using that by (simp add: embedding_response_def Let_def)
  assume "option_filter is_object (member response ''usageMetadata'') = Some usage"
  then obtain ms us where "response = JObj ms" "map_of ms ''usageMetadata'' = Some (JObj us)" "usage = JObj us"
    by (cases response; cases usage) (auto simp: member_def is_object_def)
  then show "map_of (me_provider_metadata (oc_metadata (?respond status response))) ''provider_usage'' = Some usage"
    and "me_tokens_in (oc_metadata (?respond status response)) = Option.bind (member usage ''promptTokenCount'') as_i64"
    by (simp_all add: embedding_response_def Let_def new_metadata_def)
qed

section \<open>Answers\<close>

lemma interaction_of_json_take [simp]:
  "k \<noteq> ''status'' \<Longrightarrow> k \<noteq> ''steps'' \<Longrightarrow> interaction_of_json (snd (take_member k j)) = interaction_of_json j"
  by (cases j) (auto simp: interaction_of_json_def interaction_fields_def struct_object_def take_member_def
      nullable_member_def update_conv')

lemma find_append_case: "find P (xs @ ys) = (case find P xs of None \<Rightarrow> find P ys | Some z \<Rightarrow> Some z)"
  by (induction xs) simp_all

lemma find_rev_last: "P x \<Longrightarrow> \<forall>y \<in> set after. \<not> P y \<Longrightarrow> find P (rev (before @ x # after)) = Some x"
  using find_None_iff [of P "rev after"] by (simp add: find_append_case)

lemma find_rev_Some:
  "find P (rev xs) = Some x \<longleftrightarrow> (\<exists>before after. xs = before @ x # after \<and> P x \<and> (\<forall>y \<in> set after. \<not> P y))"
proof
  assume found: "find P (rev xs) = Some x"
  then have "\<exists>y \<in> set xs. P y" using find_SomeD [OF found] by auto
  from split_list_last_prop [OF this] obtain before y after where
    "xs = before @ y # after" "P y" "\<forall>z \<in> set after. \<not> P z" by blast
  with found find_rev_last [of P y after before] show "\<exists>before after. xs = before @ x # after \<and> P x \<and> (\<forall>y \<in> set after. \<not> P y)"
    by auto
next
  assume "\<exists>before after. xs = before @ x # after \<and> P x \<and> (\<forall>y \<in> set after. \<not> P y)"
  then show "find P (rev xs) = Some x" by (elim exE conjE) (simp only: find_rev_last)
qed

text \<open>
  C35: the structured answer of an interaction. A reply yields an answer exactly when its status
  is 2xx, its body has the shape of an interaction, and the last step that is a model output,
  whatever tool steps surround it, has a content array whose text parts put together are not
  blank and parse as JSON; the answer is that value. Every other reply is an error.
\<close>

theorem interaction_answer_correct:
  "oc_output (inference_response C backend model_id body duration status response) = Inr answer \<longleftrightarrow>
     is_success_code status \<and>
     (\<exists>st before step after parts.
        interaction_of_json response = Some \<lparr>gi_status = st, gi_steps = before @ step # after\<rparr> \<and>
        type_is ''model_output'' step \<and> (\<forall>other \<in> set after. \<not> type_is ''model_output'' other) \<and>
        array_member ''content'' step = Some parts \<and> trim (concat (map part_text parts)) \<noteq> [] \<and>
        parse_json C (concat (map part_text parts)) = Inr answer)"
proof -
  have "oc_output (inference_response C backend model_id body duration status response) = Inr answer \<longleftrightarrow>
      is_success_code status \<and> interaction_output C (snd (take_member ''usage'' (snd (take_member ''id'' response)))) = Inr answer"
    by (simp add: inference_response_def Let_def split_beta)
  also have "\<dots> \<longleftrightarrow> is_success_code status \<and> (\<exists>interaction text. interaction_of_json response = Some interaction \<and>
      output_text C interaction = Inr text \<and> parse_json C text = Inr answer)"
    by (auto simp: interaction_output_def add_context_def read_value_def split: option.split sum.splits)
  also have "\<dots> \<longleftrightarrow> is_success_code status \<and> (\<exists>st before step after parts.
        interaction_of_json response = Some \<lparr>gi_status = st, gi_steps = before @ step # after\<rparr> \<and>
        type_is ''model_output'' step \<and> (\<forall>other \<in> set after. \<not> type_is ''model_output'' other) \<and>
        array_member ''content'' step = Some parts \<and> trim (concat (map part_text parts)) \<noteq> [] \<and>
        parse_json C (concat (map part_text parts)) = Inr answer)" (is "?lhs \<longleftrightarrow> ?rhs")
  proof
    assume ?lhs
    then obtain i answer_text where i: "is_success_code status" "interaction_of_json response = Some i" "output_text C i = Inr answer_text"
      "parse_json C answer_text = Inr answer" by blast
    from i(3) obtain step parts where found: "find (type_is ''model_output'') (rev (gi_steps i)) = Some step"
      "array_member ''content'' step = Some parts" "answer_text = concat (map part_text parts)" "trim answer_text \<noteq> []"
      by (auto simp: output_text_def array_member_def Let_def split: option.splits if_splits)
    moreover obtain before after where "gi_steps i = before @ step # after" "type_is ''model_output'' step"
      "\<forall>y \<in> set after. \<not> type_is ''model_output'' y" using found(1) by (auto simp: find_rev_Some)
    ultimately show ?rhs using i by (intro conjI exI [of _ "gi_status i"]) (cases i; auto)+
  next
    assume ?rhs
    then obtain st before step after parts where r: "is_success_code status"
        "interaction_of_json response = Some \<lparr>gi_status = st, gi_steps = before @ step # after\<rparr>"
        "type_is ''model_output'' step" "\<forall>other \<in> set after. \<not> type_is ''model_output'' other"
        "array_member ''content'' step = Some parts" "trim (concat (map part_text parts)) \<noteq> []"
        "parse_json C (concat (map part_text parts)) = Inr answer" by blast
    have "find (type_is ''model_output'') (rev (before @ step # after)) = Some step"
      using r(3,4) find_rev_Some [of "type_is ''model_output''" "before @ step # after" step] by blast
    with r show ?lhs by (auto simp: output_text_def array_member_def)
  qed
  finally show ?thesis .
qed

text \<open>
  What is recorded of an interaction leaves the user's material out. The parameters stored
  with an inference are the storage flag, the tools and the thinking level; they do not depend
  on the text or the image sent, nor on the schema.
\<close>

theorem recorded_params_leave_out_input:
  assumes "interact C B post request w = (Inr outcome, w')"
  shows "me_params (oc_metadata outcome) =
     (''store'', JBool False)
       # opt_member ''tools'' (JArr \<circ> map capability_json) (if ir_capabilities request = [] then None else Some (ir_capabilities request))
       @ opt_member ''generation_config'' (\<lambda>level. JObj [(''thinking_level'', JStr (thinking_as_str level))]) (ir_thinking_level request)"
proof -
  from assms obtain body where body: "interaction_body C B request = Inr body"
    by (cases "interaction_body C B request") (auto simp: interact_def runs)
  with assms obtain reply w1 where reply: "post body w = (Inr reply, w1)"
    by (auto simp: interact_def runs split: sum.splits prod.splits)
  let ?read = "add_context ''Failed to parse Gemini Interactions response'' (read_value C (hr_body reply))"
  from assms body reply obtain response where "?read = Inr response"
    by (cases ?read) (auto simp: interact_def runs)
  with assms body reply have "outcome = (inference_response C (gemini_backend_name B) (ir_model_id request) body
      (hr_duration_ms reply) (hr_status reply) response)\<lparr>oc_metadata := capture_response_headers (hr_request_id reply)
        (oc_metadata (inference_response C (gemini_backend_name B) (ir_model_id request) body (hr_duration_ms reply)
          (hr_status reply) response))\<rparr>"
    by (simp add: interact_def runs Let_def)
  then have "me_params (oc_metadata outcome) = interaction_params body"
    by (simp add: capture_response_headers_def inference_response_def Let_def split_beta new_metadata_def split: option.split)
  also have "\<dots> = (''store'', JBool False)
       # opt_member ''tools'' (JArr \<circ> map capability_json) (if ir_capabilities request = [] then None else Some (ir_capabilities request))
       @ opt_member ''generation_config'' (\<lambda>level. JObj [(''thinking_level'', JStr (thinking_as_str level))]) (ir_thinking_level request)"
    using body
    by (cases B) (auto simp: interaction_body_def interaction_params_def without_members_def set_member_def map_insert_def
        opt_member_def Let_def split: if_splits option.splits)
  finally show ?thesis .
qed

text \<open>The call of a model whose reply is known.\<close>

lemma illuminate_refused:
  assumes "ci_medias capture = media # rest" and "retrieve_bytes P (tick w) (handle_of_media_info media) = Inr bytes"
    and "\<And>q. infer P (Suc (tick w)) q = Inr outcome" and "oc_output outcome = Inl e"
  shows "illuminate P version parse capture model_id level w =
     (Inr \<lparr>oc_output = Inl e, oc_metadata = (oc_metadata outcome)\<lparr>me_params :=
        map_insert ''prompt_version'' (JStr (''capture_illumination_'' @ version_digit version)) (me_params (oc_metadata outcome))\<rparr>,
        oc_http_status_code = oc_http_status_code outcome\<rparr>, w\<lparr>tick := Suc (Suc (tick w))\<rparr>)"
  using assms by (simp add: illuminate_def call_out_def runs)

lemma record_inference_runs:
  "no_faults E \<Longrightarrow> has_user user w \<Longrightarrow> record_inference E user rid attempt ttype md w =
     (Inr (Some (next_id im_id (inference_metas w))),
      w\<lparr>inference_metas := inference_metas w @ [inference_row user rid attempt ttype md (next_id im_id (inference_metas w)) (clock E (tick w))],
        tick := Suc (tick w)\<rparr>)"
  by (simp add: record_inference_def runs Let_def)

text \<open>
  A refused call of the model is recorded, accounted and retried. When the provider answers
  an illumination with a status other than 2xx, the attempt fails with a retryable error that
  carries this status, one inference row of the run is added with the provider's usage and its
  count of input tokens, and nothing else is written.
\<close>

theorem refused_illumination_recorded:
  assumes "no_faults E" and "service_get_captures P E (Some [it_capture_id task]) w = (Inr (capture # others), w1)"
    and "ci_medias capture = media # rest" and "retrieve_bytes P (tick w1) (handle_of_media_info media) = Inr bytes"
    and "\<And>q. infer P (Suc (tick w1)) q = Inr (inference_response C backend model_id body duration status response)"
    and "\<not> is_success_code status" and "member response ''usage'' = Some usage" and "usage \<noteq> JNull"
    and "has_user (ci_user_id capture) w1"
  shows "\<exists>error row w'. exec_illuminate P E run task attempt w = (Inl (Failed error), w') \<and>
     is_retryable error \<and> inner_status_code error = int status \<and>
     w' = w1\<lparr>inference_metas := inference_metas w1 @ [row], tick := tick w'\<rparr> \<and>
     im_task_run_id row = Some (run_id run) \<and> im_attempt row = Some attempt \<and> im_user_id row = ci_user_id capture \<and>
     im_tokens_in row = Option.bind (member usage ''total_input_tokens'') as_i64 \<and>
     member (im_provider_metadata row) ''provider_usage'' = Some usage"
proof -
  let ?reply = "inference_response C backend model_id body duration status response"
  obtain e where e: "oc_output ?reply = Inl e" using gemini_interactions.refused [OF assms(6)] by blast
  note ill = illuminate_refused [OF assms(3,4,5) e] record_inference_runs [OF assms(1)] assms(9)
  have usage: "option_filter (\<lambda>v. v \<noteq> JNull) (member response ''usage'') = Some usage" using assms(7,8) by simp
  define row where "row = inference_row (ci_user_id capture) (run_id run) attempt ''illuminate''
      ((oc_metadata ?reply)\<lparr>me_params := map_insert ''prompt_version''
        (JStr (''capture_illumination_'' @ version_digit (it_prompt_version task))) (me_params (oc_metadata ?reply))\<rparr>)
      (next_id im_id (inference_metas w1)) (clock E (Suc (Suc (tick w1))))"
  let ?error = "with_inner_status_code (Some (int status)) (internal e)"
  have "exec_illuminate P E run task attempt w = (Inl (Failed ?error),
      w1\<lparr>inference_metas := inference_metas w1 @ [row], tick := Suc (Suc (Suc (tick w1)))\<rparr>)"
    using assms(2) gemini_interactions.status_kept [of C backend model_id body duration status response]
    by (cases "it_prompt_version task") (simp_all add: exec_illuminate_def runs ill inference_output_def row_def)
  moreover have "im_tokens_in row = Option.bind (member usage ''total_input_tokens'') as_i64"
    and "member (im_provider_metadata row) ''provider_usage'' = Some usage"
    using gemini_interactions.refusal_is_accounted(1,2) [OF usage, of C backend model_id body duration status]
    by (simp_all add: row_def inference_row_def)
  moreover have "im_task_run_id row = Some (run_id run)" "im_attempt row = Some attempt" "im_user_id row = ci_user_id capture"
    by (simp_all add: row_def inference_row_def)
  moreover have "inner_status_code ?error = int status" by (simp add: inner_status_code_def with_inner_status_code_def)
  ultimately show ?thesis by (intro exI [of _ ?error] exI [of _ row]) simp
qed

section \<open>Examples\<close>

definition demo_codecs :: codecs where
  "demo_codecs = \<lparr>parse_json = (\<lambda>s. if s = ''{}'' then Inr (JObj []) else Inl ''expected value''), print_json = (\<lambda>_. ''{}''),
     shape_error = (\<lambda>_. ''invalid type''), encode_base64 = id, reason_phrase = (\<lambda>_. ''Too Many Requests''), debug_str = id\<rparr>"

definition demo_step :: "string \<Rightarrow> json list \<Rightarrow> json" where
  "demo_step kind parts = JObj [(''type'', JStr kind), (''content'', JArr parts)]"

definition demo_part :: "string \<Rightarrow> json" where
  "demo_part text = JObj [(''type'', JStr ''text''), (''text'', JStr text)]"

definition demo_reply :: json where
  "demo_reply = JObj [(''id'', JStr ''i''), (''steps'', JArr
     [demo_step ''model_output'' [demo_part ''draft''], demo_step ''model_output'' [demo_part ''{'', demo_part ''}''],
      demo_step ''google_search_call'' []])]"

theorem interaction_answer_correct_witness:
  "oc_output (inference_response demo_codecs ''vertex'' ''m'' (JObj []) 5 200 demo_reply) = Inr (JObj [])"
proof -
  have shape: "interaction_of_json demo_reply = Some \<lparr>gi_status = None, gi_steps =
      [demo_step ''model_output'' [demo_part ''draft'']] @ demo_step ''model_output'' [demo_part ''{'', demo_part ''}'']
        # [demo_step ''google_search_call'' []]\<rparr>"
    by (simp add: demo_reply_def interaction_of_json_def interaction_fields_def struct_object_def nullable_member_def)
  have joined: "concat (map part_text [demo_part ''{'', demo_part ''}'']) = ''{}''"
    by (simp add: demo_part_def part_text_def type_is_def)
  let ?parts = "[demo_part ''{'', demo_part ''}'']"
  have "trim ''{}'' \<noteq> []" by code_simp
  then have "trim (concat (map part_text ?parts)) \<noteq> []" by (simp only: joined not_False_eq_True)
  moreover have "parse_json demo_codecs (concat (map part_text ?parts)) = Inr (JObj [])" unfolding joined by (simp add: demo_codecs_def)
  moreover have "is_success_code 200" "type_is ''model_output'' (demo_step ''model_output'' ?parts)"
    and "\<forall>other \<in> set [demo_step ''google_search_call'' []]. \<not> type_is ''model_output'' other"
    and "array_member ''content'' (demo_step ''model_output'' ?parts) = Some ?parts"
    by (simp_all add: is_success_code_def demo_step_def type_is_def array_member_def)
  ultimately show ?thesis using shape unfolding interaction_answer_correct by blast
qed

definition demo_interaction :: InteractionRequest where
  "demo_interaction = \<lparr>ir_model_id = ''m'', ir_input = [TextInput ''look'', ImageInput ''pixels'' ''image/png''],
     ir_response_schema = Some JNull, ir_capabilities = [WebSearch], ir_thinking_level = Some Low\<rparr>"

theorem recorded_params_leave_out_input_witness:
  "\<exists>outcome. interact demo_codecs (Vertex ''e'') (\<lambda>_ s. (Inr \<lparr>hr_status = 429, hr_request_id = Some ''r'', hr_body = ''{}'',
        hr_duration_ms = 5\<rparr>, s)) demo_interaction () = (Inr outcome, ()) \<and>
     map fst (me_params (oc_metadata outcome)) = [''store'', ''tools'', ''generation_config'']"
proof -
  let ?post = "\<lambda>_ s. (Inr \<lparr>hr_status = 429, hr_request_id = Some ''r'', hr_body = ''{}'', hr_duration_ms = 5\<rparr>, s)"
  obtain outcome where run: "interact demo_codecs (Vertex ''e'') ?post demo_interaction () = (Inr outcome, ())"
    by (simp add: interact_def runs interaction_body_def demo_interaction_def Let_def read_value_def add_context_def demo_codecs_def)
  from recorded_params_leave_out_input [OF run] run show ?thesis
    by (auto simp: demo_interaction_def opt_member_def)
qed

definition demo_refusal :: json where
  "demo_refusal = JObj [(''usage'', JObj [(''total_input_tokens'', JNum 17)])]"

definition demo_refusing :: providers where
  "demo_refusing = demo_providers\<lparr>infer :=
     (\<lambda>_ _. Inr (inference_response demo_codecs ''vertex'' ''m'' (JObj []) 5 429 demo_refusal))\<rparr>"

definition demo_owner :: user_row where
  "demo_owner = \<lparr>us_id = ca_user_id (cx_row demo_capture), us_username = ''ada'', us_email = '''', us_password_hash = ''h'',
     us_is_admin = False, us_storage_shard = ''s''\<rparr>"

theorem refused_illumination_recorded_witness:
  "\<exists>error row w'. exec_illuminate demo_refusing quiet_env demo_run
       \<lparr>it_capture_id = 4, it_entity_owner_id = 1, it_model_id = ''m'', it_prompt_version = V2, it_thinking_level = None,
        it_persist_projection = True\<rparr> 1
       (empty_world\<lparr>users := [demo_owner], captures := [cx_row demo_capture], medias := [demo_media]\<rparr>) = (Inl (Failed error), w') \<and>
     is_retryable error \<and> inner_status_code error = 429 \<and> inference_metas w' = [row] \<and> im_tokens_in row = Some 17"
proof -
  let ?w = "empty_world\<lparr>users := [demo_owner], captures := [cx_row demo_capture], medias := [demo_media]\<rparr>"
  obtain capture media where got: "service_get_captures demo_refusing quiet_env (Some [4]) ?w = (Inr [capture], ?w\<lparr>tick := 1\<rparr>)"
    and media: "ci_medias capture = [media]" and owner: "has_user (ci_user_id capture) (?w\<lparr>tick := 1\<rparr>)"
    by (simp add: service_get_captures_def service_get_capture_models_def runs empty_world_def demo_capture_def demo_media_def
        service_load_def make_capture_info_def make_media_info_def make_url_def handle_of_media_def make_local_url_def
        demo_refusing_def demo_providers_def has_user_def demo_owner_def)
  have refusing: "infer demo_refusing n q = Inr (inference_response demo_codecs ''vertex'' ''m'' (JObj []) 5 429 demo_refusal)"
    and bytes: "retrieve_bytes demo_refusing n h = Inr ''x''" for n q h
    by (simp_all add: demo_refusing_def demo_providers_def)
  have "member demo_refusal ''usage'' = Some (JObj [(''total_input_tokens'', JNum 17)])" "\<not> is_success_code 429"
    by (simp_all add: demo_refusal_def is_success_code_def)
  from refused_illumination_recorded [where task = "\<lparr>it_capture_id = 4, it_entity_owner_id = 1, it_model_id = ''m'',
        it_prompt_version = V2, it_thinking_level = None, it_persist_projection = True\<rparr>"
      and w = ?w and others = "[]" and run = demo_run and attempt = 1, OF no_faults_quiet _ media bytes refusing this(2) this(1) _ owner] got
  obtain error row w' where run: "exec_illuminate demo_refusing quiet_env demo_run \<lparr>it_capture_id = 4, it_entity_owner_id = 1,
        it_model_id = ''m'', it_prompt_version = V2, it_thinking_level = None, it_persist_projection = True\<rparr> 1 ?w = (Inl (Failed error), w')"
      and w': "w' = ?w\<lparr>tick := 1, inference_metas := inference_metas (?w\<lparr>tick := 1\<rparr>) @ [row], tick := tick w'\<rparr>"
      and facts: "is_retryable error" "inner_status_code error = 429" "im_tokens_in row = Some 17"
    by (auto simp: as_i64_def in_i64_def)
  from arg_cong [OF w', of inference_metas] have "inference_metas w' = [row]" by (simp add: empty_world_def)
  with run facts show ?thesis by blast
qed

end
