(* ===== verification/Config.thy ===== *)
theory Config
  imports User_Client Stats "HOL-Library.Monad_Syntax"
begin

text \<open>
  \<open>config/config_def.rs\<close> and the start of an instance: \<open>initialize\<close> of
  \<open>bin/dreamscroll_web.rs\<close> with the \<open>from_config\<close> constructors it calls. The variables are a
  map from the lower-case names \<open>envy\<close> matches fields by; what the outside refuses while an
  instance starts (connections, credentials, the port) is an argument.
\<close>

section \<open>Settings\<close>

datatype Service = WebUI | API | Webhook

fun service_name :: "Service \<Rightarrow> string" where
  "service_name WebUI = ''webui''"
| "service_name API = ''api''"
| "service_name Webhook = ''webhook''"

definition parse_service :: "string \<Rightarrow> Service option" where
  "parse_service s = find (\<lambda>v. service_name v = s) [WebUI, API, Webhook]"

datatype StorageBackend = LocalStorage | GCloudStorage

datatype GeminiBackendSetting = UseDeveloperApi | UseVertex

definition parse_storage_backend :: "string \<Rightarrow> StorageBackend option" where
  "parse_storage_backend s =
     (if s = ''local'' then Some LocalStorage else if s = ''gcloud'' then Some GCloudStorage else None)"

definition parse_task_backend :: "string \<Rightarrow> TaskQueueBackend option" where
  "parse_task_backend s =
     (if s = ''local'' then Some LocalQueue else if s = ''gcloudtasks'' then Some GCloudTasks else None)"

definition parse_gemini_backend :: "string \<Rightarrow> GeminiBackendSetting option" where
  "parse_gemini_backend s =
     (if s = ''developer_api'' then Some UseDeveloperApi else if s = ''vertex'' then Some UseVertex else None)"

definition parse_flag :: "string \<Rightarrow> bool option" where
  "parse_flag s = (if s = ''true'' then Some True else if s = ''false'' then Some False else None)"

definition parse_unsigned_below :: "nat \<Rightarrow> string \<Rightarrow> nat option" where
  "parse_unsigned_below bound s =
     (case parse_int s of
        Some i \<Rightarrow> if hd s \<noteq> CHR ''-'' \<and> nat i < bound then Some (nat i) else None
      | None \<Rightarrow> None)"

definition deserialize_comma_list :: "(string \<Rightarrow> 'a option) \<Rightarrow> string \<Rightarrow> 'a list option" where
  "deserialize_comma_list item s = those (map (item \<circ> trim) (split_on (CHR '','') s))"

record Config =
  cf_gcloud_project_id :: string
  cf_gcloud_region :: string
  cf_port :: nat
  cf_services :: "Service list"
  cf_cookie_secure :: bool
  cf_session_always_save :: bool
  cf_jwt_secret :: "string option"
  cf_gemini_backend :: "GeminiBackendSetting option"
  cf_gemini_api_key :: "string option"
  cf_gemini_model_id :: "string option"
  cf_firestarter :: string
  cf_xai_api_key :: "string option"
  cf_postgres_host_port :: string
  cf_postgres_user :: string
  cf_postgres_password :: string
  cf_postgres_connection_params :: "string option"
  cf_postgres_db :: string
  cf_storage_backend :: StorageBackend
  cf_storage_local_file_path :: "string option"
  cf_storage_local_url_prefix :: "string option"
  cf_storage_gcloud_emulator :: "string option"
  cf_storage_gcloud_prod_endpoint :: "string option"
  cf_storage_gcloud_bucket_name :: "string option"
  cf_search_embed_collection_id :: "string option"
  cf_search_embed_vector_field :: "string option"
  cf_search_embed_vector_dims :: "nat option"
  cf_task_backend :: TaskQueueBackend
  cf_task_max_attempts :: int
  cf_task_oidc_service_account_email :: "string option"
  cf_task_oidc_audience :: "string option"
  cf_task_webhook_base_url :: string
  cf_task_queue_name_illuminate :: string
  cf_task_queue_name_search_index :: string
  cf_task_queue_name_spark :: string
  cf_jwt_user_expiration_secs :: nat
  cf_jwt_validation_leeway_secs :: nat
  cf_max_upload_bytes :: nat

section \<open>Reading the environment\<close>

text \<open>A required field, an \<open>Option\<close> field, and a field with a default.\<close>

definition required :: "(string \<rightharpoonup> string) \<Rightarrow> string \<Rightarrow> (string \<Rightarrow> 'a option) \<Rightarrow> 'a option" where
  "required vars k item = Option.bind (vars k) item"

definition optional :: "(string \<rightharpoonup> string) \<Rightarrow> string \<Rightarrow> (string \<Rightarrow> 'a option) \<Rightarrow> 'a option option" where
  "optional vars k item = (case vars k of None \<Rightarrow> Some None | Some s \<Rightarrow> map_option Some (item s))"

definition defaulted :: "(string \<rightharpoonup> string) \<Rightarrow> string \<Rightarrow> (string \<Rightarrow> 'a option) \<Rightarrow> 'a \<Rightarrow> 'a option" where
  "defaulted vars k item d = (case vars k of None \<Rightarrow> Some d | Some s \<Rightarrow> item s)"

definition config_of_vars :: "(string \<rightharpoonup> string) \<Rightarrow> Config option" where
  "config_of_vars vars = do {
     project \<leftarrow> required vars ''gcloud_project_id'' Some;
     region \<leftarrow> required vars ''gcloud_region'' Some;
     port \<leftarrow> required vars ''port'' (parse_unsigned_below 65536);
     services \<leftarrow> required vars ''services'' (deserialize_comma_list parse_service);
     secure \<leftarrow> defaulted vars ''cookie_secure'' parse_flag True;
     always \<leftarrow> defaulted vars ''session_always_save'' parse_flag True;
     secret \<leftarrow> optional vars ''jwt_secret'' Some;
     gemini \<leftarrow> optional vars ''gemini_backend'' parse_gemini_backend;
     gemini_key \<leftarrow> optional vars ''gemini_api_key'' Some;
     model \<leftarrow> optional vars ''gemini_model_id'' Some;
     firestarter \<leftarrow> required vars ''firestarter'' Some;
     xai_key \<leftarrow> optional vars ''xai_api_key'' Some;
     pg_host \<leftarrow> required vars ''postgres_host_port'' Some;
     pg_user \<leftarrow> required vars ''postgres_user'' Some;
     pg_password \<leftarrow> required vars ''postgres_password'' Some;
     pg_params \<leftarrow> optional vars ''postgres_connection_params'' Some;
     pg_db \<leftarrow> required vars ''postgres_db'' Some;
     store \<leftarrow> required vars ''storage_backend'' parse_storage_backend;
     file_path \<leftarrow> optional vars ''storage_local_file_path'' Some;
     url_prefix \<leftarrow> optional vars ''storage_local_url_prefix'' Some;
     emulator \<leftarrow> optional vars ''storage_gcloud_emulator'' Some;
     prod_endpoint \<leftarrow> optional vars ''storage_gcloud_prod_endpoint'' Some;
     bucket \<leftarrow> optional vars ''storage_gcloud_bucket_name'' Some;
     collection \<leftarrow> optional vars ''search_embed_collection_id'' Some;
     field \<leftarrow> optional vars ''search_embed_vector_field'' Some;
     dims \<leftarrow> optional vars ''search_embed_vector_dims'' (parse_unsigned_below 4294967296);
     backend \<leftarrow> required vars ''task_backend'' parse_task_backend;
     attempts \<leftarrow> defaulted vars ''task_max_attempts'' parse_i32 3;
     email \<leftarrow> optional vars ''task_oidc_service_account_email'' Some;
     audience \<leftarrow> optional vars ''task_oidc_audience'' Some;
     base_url \<leftarrow> required vars ''task_webhook_base_url'' Some;
     q_illuminate \<leftarrow> required vars ''task_queue_name_illuminate'' Some;
     q_search \<leftarrow> required vars ''task_queue_name_search_index'' Some;
     q_spark \<leftarrow> required vars ''task_queue_name_spark'' Some;
     expiration \<leftarrow> defaulted vars ''jwt_user_expiration_secs'' (parse_unsigned_below 18446744073709551616) 86400;
     leeway \<leftarrow> defaulted vars ''jwt_validation_leeway_secs'' (parse_unsigned_below 18446744073709551616) 0;
     max_upload \<leftarrow> defaulted vars ''max_upload_bytes'' (parse_unsigned_below 18446744073709551616) 12582912;
     Some \<lparr>cf_gcloud_project_id = project, cf_gcloud_region = region, cf_port = port, cf_services = services,
       cf_cookie_secure = secure, cf_session_always_save = always, cf_jwt_secret = secret,
       cf_gemini_backend = gemini, cf_gemini_api_key = gemini_key, cf_gemini_model_id = model,
       cf_firestarter = firestarter, cf_xai_api_key = xai_key, cf_postgres_host_port = pg_host,
       cf_postgres_user = pg_user, cf_postgres_password = pg_password, cf_postgres_connection_params = pg_params,
       cf_postgres_db = pg_db, cf_storage_backend = store, cf_storage_local_file_path = file_path,
       cf_storage_local_url_prefix = url_prefix, cf_storage_gcloud_emulator = emulator,
       cf_storage_gcloud_prod_endpoint = prod_endpoint, cf_storage_gcloud_bucket_name = bucket,
       cf_search_embed_collection_id = collection, cf_search_embed_vector_field = field,
       cf_search_embed_vector_dims = dims, cf_task_backend = backend, cf_task_max_attempts = attempts,
       cf_task_oidc_service_account_email = email, cf_task_oidc_audience = audience,
       cf_task_webhook_base_url = base_url, cf_task_queue_name_illuminate = q_illuminate,
       cf_task_queue_name_search_index = q_search, cf_task_queue_name_spark = q_spark,
       cf_jwt_user_expiration_secs = expiration, cf_jwt_validation_leeway_secs = leeway,
       cf_max_upload_bytes = max_upload\<rparr> }"

section \<open>Validation\<close>

definition require_some :: "'a option \<Rightarrow> string \<Rightarrow> anyhow + unit" where
  "require_some v msg = (if v = None then Inl (anyhow_msg msg) else Inr ())"

fun all_required :: "(anyhow + unit) list \<Rightarrow> anyhow + unit" where
  "all_required [] = Inr ()"
| "all_required (r # rs) = (case r of Inl e \<Rightarrow> Inl e | Inr _ \<Rightarrow> all_required rs)"

text \<open>The checks of \<open>make_from_envy_iter\<close>, in their order.\<close>

definition config_checks :: "Config \<Rightarrow> (anyhow + unit) list" where
  "config_checks cfg =
     (if WebUI \<in> set (cf_services cfg) \<or> API \<in> set (cf_services cfg)
      then [require_some (cf_gemini_model_id cfg) ''GEMINI_MODEL_ID required when WebUI or API can enqueue illumination tasks'']
      else [])
     @ (if Webhook \<in> set (cf_services cfg)
        then require_some (cf_gemini_backend cfg) ''GEMINI_BACKEND required when the Webhook service is enabled''
             # (if cf_gemini_backend cfg = Some UseDeveloperApi
                then [require_some (cf_gemini_api_key cfg) ''GEMINI_API_KEY required for the Gemini Developer API''] else [])
        else [])
     @ (case cf_storage_backend cfg of
          LocalStorage \<Rightarrow>
            [require_some (cf_storage_local_file_path cfg) ''STORAGE_BACKEND is local but no STORAGE_LOCAL_FILE_PATH'',
             require_some (cf_storage_local_url_prefix cfg) ''STORAGE_BACKEND is local but no STORAGE_LOCAL_URL_PREFIX'']
        | GCloudStorage \<Rightarrow>
            [require_some (cf_storage_gcloud_bucket_name cfg) ''STORAGE_BACKEND is gcloud but no STORAGE_GCLOUD_BUCKET_NAME''])
     @ (case cf_task_backend cfg of
          LocalQueue \<Rightarrow> []
        | GCloudTasks \<Rightarrow>
            [require_some (cf_task_oidc_service_account_email cfg)
               ''TASK_BACKEND is gcloudtasks but no TASK_OIDC_SERVICE_ACCOUNT_EMAIL'',
             require_some (cf_task_oidc_audience cfg) ''TASK_BACKEND is gcloudtasks but no TASK_OIDC_AUDIENCE''])"

definition make_config :: "((string \<rightharpoonup> string) \<Rightarrow> string) \<Rightarrow> (string \<rightharpoonup> string) \<Rightarrow> anyhow + Config" where
  "make_config envy_error vars =
     (case config_of_vars vars of
        None \<Rightarrow> Inl (with_context ''Failed to load config (missing required env vars or invalid values)'' (anyhow_msg (envy_error vars)))
      | Some cfg \<Rightarrow> (case all_required (config_checks cfg) of Inl e \<Rightarrow> Inl e | Inr _ \<Rightarrow> Inr cfg))"

section \<open>Starting an instance\<close>

datatype start_failure = StartFailed anyhow | StartPanicked

text \<open>What the outside can refuse while an instance starts.\<close>

datatype outside_step =
    ConnectDatabase | CheckUsers | BuildStorageClient | ConnectCloudTasks string | BuildCredentials
  | BuildSearchClient | BuildStoreClient | ConnectListener | BindPort

type_synonym outside = "outside_step \<Rightarrow> anyhow option"

definition attempt_step :: "outside \<Rightarrow> outside_step \<Rightarrow> start_failure + unit" where
  "attempt_step refused step = (case refused step of Some e \<Rightarrow> Inl (StartFailed e) | None \<Rightarrow> Inr ())"

definition under :: "string \<Rightarrow> start_failure + 'a \<Rightarrow> start_failure + 'a" where
  "under msg r = (case r of Inl (StartFailed e) \<Rightarrow> Inl (StartFailed (with_context msg e)) | _ \<Rightarrow> r)"

definition need :: "'a option \<Rightarrow> string \<Rightarrow> start_failure + 'a" where
  "need v msg = (case v of None \<Rightarrow> Inl (StartFailed (anyhow_msg msg)) | Some x \<Rightarrow> Inr x)"

definition then_start :: "start_failure + 'a \<Rightarrow> ('a \<Rightarrow> start_failure + 'b) \<Rightarrow> start_failure + 'b" where
  "then_start r f = (case r of Inl e \<Rightarrow> Inl e | Inr x \<Rightarrow> f x)"

datatype storage_provider = LocalProvider (local_path: string) | GCloudProvider (gcloud_bucket: string)

definition make_provider :: "Config \<Rightarrow> outside \<Rightarrow> start_failure + storage_provider" where
  "make_provider cfg refused =
     (case cf_storage_backend cfg of
        LocalStorage \<Rightarrow>
          (case cf_storage_local_file_path cfg of None \<Rightarrow> Inl StartPanicked | Some path \<Rightarrow> Inr (LocalProvider path))
      | GCloudStorage \<Rightarrow>
          (case cf_storage_gcloud_bucket_name cfg of
             None \<Rightarrow> Inl StartPanicked
           | Some bucket \<Rightarrow> if refused BuildStorageClient = None then Inr (GCloudProvider bucket) else Inl StartPanicked))"

definition url_maker_from_config :: "Config \<Rightarrow> UrlMaker" where
  "url_maker_from_config cfg =
     \<lparr>local_url_prefix = cf_storage_local_url_prefix cfg, gcloud_emulator_endpoint = cf_storage_gcloud_emulator cfg\<rparr>"

subsection \<open>Queues\<close>

definition make_cloud_tasks_queue_path :: "string \<Rightarrow> string \<Rightarrow> string \<Rightarrow> string" where
  "make_cloud_tasks_queue_path project_id region queue_id =
     ''projects/'' @ project_id @ ''/locations/'' @ region @ ''/queues/'' @ queue_id"

definition make_prod_webhook_url :: "string \<Rightarrow> string \<Rightarrow> string" where
  "make_prod_webhook_url base_url queue_name =
     trim_end_matches (CHR ''/'') base_url @ ''/_wh/cloudtask/'' @ trim_start_matches (CHR ''/'') queue_name"

record OidcToken =
  ot_service_account_email :: string
  ot_audience :: string

datatype queue_backend =
    LocalTaskQueue (queue_url: string) (max_concurrent: nat)
  | CloudTaskQueue (queue_path: string) (queue_url: string) (queue_oidc: OidcToken)

record task_queues =
  tq_illuminate :: queue_backend
  tq_spark :: queue_backend
  tq_search_index :: queue_backend
  tq_max_attempts :: int

definition make_webhook_oidc_token :: "Config \<Rightarrow> start_failure + OidcToken" where
  "make_webhook_oidc_token cfg =
     then_start (need (cf_task_oidc_service_account_email cfg) ''Cloud Tasks OIDC service account is not configured'') (\<lambda>email.
     then_start (need (cf_task_oidc_audience cfg) ''Cloud Tasks OIDC audience is not configured'') (\<lambda>audience.
     Inr \<lparr>ot_service_account_email = email, ot_audience = audience\<rparr>))"

definition webhook_url_of :: "Config \<Rightarrow> string \<Rightarrow> string" where
  "webhook_url_of cfg queue_name = make_prod_webhook_url (cf_task_webhook_base_url cfg) queue_name"

definition connect_cloud_queue ::
  "Config \<Rightarrow> outside \<Rightarrow> OidcToken \<Rightarrow> string \<Rightarrow> string \<Rightarrow> start_failure + queue_backend" where
  "connect_cloud_queue cfg refused token queue_name msg =
     then_start (under msg (attempt_step refused (ConnectCloudTasks queue_name))) (\<lambda>_.
     Inr (CloudTaskQueue (make_cloud_tasks_queue_path (cf_gcloud_project_id cfg) (cf_gcloud_region cfg) queue_name)
       (webhook_url_of cfg queue_name) token))"

definition make_task_master :: "Config \<Rightarrow> outside \<Rightarrow> start_failure + task_queues" where
  "make_task_master cfg refused =
     (case cf_task_backend cfg of
        LocalQueue \<Rightarrow> Inr
          \<lparr>tq_illuminate = LocalTaskQueue (webhook_url_of cfg (cf_task_queue_name_illuminate cfg)) 4,
           tq_spark = LocalTaskQueue (webhook_url_of cfg (cf_task_queue_name_spark cfg)) 4,
           tq_search_index = LocalTaskQueue (webhook_url_of cfg (cf_task_queue_name_search_index cfg)) 4,
           tq_max_attempts = max_attempts_per_run (Some (cf_task_max_attempts cfg))\<rparr>
      | GCloudTasks \<Rightarrow>
          then_start (make_webhook_oidc_token cfg) (\<lambda>token.
          then_start (connect_cloud_queue cfg refused token (cf_task_queue_name_illuminate cfg)
             ''Failed to initialize Cloud Tasks Queue: Illumination'') (\<lambda>qi.
          then_start (connect_cloud_queue cfg refused token (cf_task_queue_name_spark cfg)
             ''Failed to initialize Cloud Tasks Queue: Spark'') (\<lambda>qs.
          then_start (connect_cloud_queue cfg refused token (cf_task_queue_name_search_index cfg)
             ''Failed to initialize Cloud Tasks Queue: SearchIndex'') (\<lambda>qx.
          Inr \<lparr>tq_illuminate = qi, tq_spark = qs, tq_search_index = qx,
               tq_max_attempts = max_attempts_per_run (Some (cf_task_max_attempts cfg))\<rparr>)))))"

subsection \<open>Providers of the workers\<close>

definition gemini_embedder_from_config :: "Config \<Rightarrow> outside \<Rightarrow> start_failure + nat" where
  "gemini_embedder_from_config cfg refused =
     then_start (need (cf_search_embed_vector_dims cfg) ''SEARCH_EMBED_VECTOR_DIMS required for search indexing'') (\<lambda>dims.
     then_start (attempt_step refused BuildCredentials) (\<lambda>_. Inr dims))"

text \<open>The collection and the vector field a client works on.\<close>

definition vector_searcher_from_config :: "Config \<Rightarrow> outside \<Rightarrow> start_failure + string \<times> string" where
  "vector_searcher_from_config cfg refused =
     then_start (need (cf_search_embed_collection_id cfg) ''SEARCH_EMBED_COLLECTION_ID required for vector search'') (\<lambda>c.
     then_start (need (cf_search_embed_vector_field cfg) ''SEARCH_EMBED_VECTOR_FIELD required for vector search'') (\<lambda>f.
     then_start (attempt_step refused BuildSearchClient) (\<lambda>_.
     Inr (collection_path (cf_gcloud_project_id cfg) (cf_gcloud_region cfg) c, f))))"

definition vector_store_from_config :: "Config \<Rightarrow> outside \<Rightarrow> start_failure + string \<times> string \<times> nat" where
  "vector_store_from_config cfg refused =
     then_start (need (cf_search_embed_collection_id cfg) ''SEARCH_EMBED_COLLECTION_ID required for search indexing'') (\<lambda>c.
     then_start (need (cf_search_embed_vector_field cfg) ''SEARCH_EMBED_VECTOR_FIELD required for search indexing'') (\<lambda>f.
     then_start (need (cf_search_embed_vector_dims cfg) ''SEARCH_EMBED_VECTOR_DIMS required for search indexing'') (\<lambda>d.
     then_start (attempt_step refused BuildStoreClient) (\<lambda>_.
     Inr (collection_path (cf_gcloud_project_id cfg) (cf_gcloud_region cfg) c, f, d)))))"

text \<open>The search of captures: how many dimensions are embedded, where is searched, and what is stored.\<close>

definition capture_searcher_from_config ::
  "Config \<Rightarrow> outside \<Rightarrow> start_failure + nat \<times> (string \<times> string) \<times> string \<times> string \<times> nat" where
  "capture_searcher_from_config cfg refused =
     then_start (under ''GeminiEmbedder init failed'' (gemini_embedder_from_config cfg refused)) (\<lambda>dims.
     then_start (under ''VertexVectorSearcher init failed'' (vector_searcher_from_config cfg refused)) (\<lambda>place.
     then_start (under ''VertexVectorStore init failed'' (vector_store_from_config cfg refused)) (\<lambda>store.
     Inr (dims, place, store))))"

datatype inference_backend = DeveloperApiClient (client_api_key: string) | VertexClient (client_project: string)

definition gemini_client_from_config :: "Config \<Rightarrow> outside \<Rightarrow> start_failure + inference_backend" where
  "gemini_client_from_config cfg refused =
     then_start (need (cf_gemini_backend cfg) ''GEMINI_BACKEND required for Gemini inference'') (\<lambda>b.
     case b of
       UseDeveloperApi \<Rightarrow>
         then_start (need (cf_gemini_api_key cfg) ''GEMINI_API_KEY required for the Gemini Developer API'') (\<lambda>key.
         Inr (DeveloperApiClient key))
     | UseVertex \<Rightarrow>
         then_start (attempt_step refused BuildCredentials) (\<lambda>_. Inr (VertexClient (cf_gcloud_project_id cfg))))"

datatype firestarter = GrokFirestarter (spark_api_key: string) | GeminiFirestarter (spark_api_key: string)

definition make_firestarter :: "Config \<Rightarrow> start_failure + firestarter" where
  "make_firestarter cfg =
     (if cf_firestarter cfg = ''grok'' then
        then_start (need (cf_xai_api_key cfg) ''XAI_API_KEY required but missing from config'') (\<lambda>key. Inr (GrokFirestarter key))
      else if cf_firestarter cfg = ''gemini'' then
        then_start (need (cf_gemini_api_key cfg) ''GEMINI_API_KEY required but missing from config'') (\<lambda>key. Inr (GeminiFirestarter key))
      else Inl (StartFailed (anyhow_msg (''Unknown firestarter model '' @ [CHR 0x27] @ cf_firestarter cfg @ [CHR 0x27]
             @ '' for webhook Spark inference. Supported: grok, gemini''))))"

text \<open>The audience and the e-mail the verifier of deliveries accepts; without one there is no check.\<close>

definition oidc_from_config :: "Config \<Rightarrow> start_failure + (string \<times> string) option" where
  "oidc_from_config cfg =
     (if cf_task_backend cfg = LocalQueue then Inr None
      else then_start (need (cf_task_oidc_service_account_email cfg) ''OIDC service account required for Cloud Tasks'') (\<lambda>email.
           then_start (need (cf_task_oidc_audience cfg) ''OIDC audience required for Cloud Tasks'') (\<lambda>audience.
           Inr (Some (audience, email)))))"

subsection \<open>The instance\<close>

record webhook_service =
  ws_inference :: inference_backend
  ws_firestarter :: firestarter
  ws_embed_dims :: nat
  ws_store :: "string \<times> string \<times> nat"
  ws_verifier :: "(string \<times> string) option"

record instance_state =
  is_storage :: storage_provider
  is_url_maker :: UrlMaker
  is_queues :: task_queues
  is_searcher :: "nat \<times> (string \<times> string) \<times> string \<times> string \<times> nat"
  is_default_model :: "string option"
  is_ui :: bool
  is_media_dir :: "(string \<times> string) option"
  is_api :: "JwtConfig option"
  is_webhook :: "webhook_service option"

definition start_ui :: "Config \<Rightarrow> outside \<Rightarrow> start_failure + bool \<times> (string \<times> string) option" where
  "start_ui cfg refused =
     (if WebUI \<in> set (cf_services cfg) then
        then_start (attempt_step refused ConnectListener) (\<lambda>_.
        Inr (True, case (cf_storage_local_url_prefix cfg, cf_storage_local_file_path cfg) of
             (Some prefix, Some path) \<Rightarrow> Some (prefix, path) | _ \<Rightarrow> None))
      else Inr (False, None))"

definition start_api :: "Config \<Rightarrow> start_failure + JwtConfig option" where
  "start_api cfg =
     (if API \<in> set (cf_services cfg) then
        then_start (need (cf_jwt_secret cfg) ''JWT_SECRET not set, required for API'') (\<lambda>secret.
        then_start (case from_secret secret of None \<Rightarrow> Inl StartPanicked | Some jwt \<Rightarrow> Inr jwt) (\<lambda>jwt.
        Inr (Some (with_leeway (cf_jwt_validation_leeway_secs cfg)
               (with_user_expiration_secs (cf_jwt_user_expiration_secs cfg) jwt)))))
      else Inr None)"

definition start_webhook :: "Config \<Rightarrow> outside \<Rightarrow> start_failure + webhook_service option" where
  "start_webhook cfg refused =
     (if Webhook \<in> set (cf_services cfg) then
        then_start (gemini_client_from_config cfg refused) (\<lambda>client.
        then_start (make_firestarter cfg) (\<lambda>fire.
        then_start (gemini_embedder_from_config cfg refused) (\<lambda>dims.
        then_start (vector_store_from_config cfg refused) (\<lambda>store.
        then_start (oidc_from_config cfg) (\<lambda>verifier.
        Inr (Some \<lparr>ws_inference = client, ws_firestarter = fire, ws_embed_dims = dims, ws_store = store,
             ws_verifier = verifier\<rparr>))))))
      else Inr None)"

definition initialize :: "((string \<rightharpoonup> string) \<Rightarrow> string) \<Rightarrow> (string \<rightharpoonup> string) \<Rightarrow> outside \<Rightarrow> start_failure + instance_state" where
  "initialize envy_error vars refused =
     then_start (case make_config envy_error vars of Inl e \<Rightarrow> Inl (StartFailed e) | Inr cfg \<Rightarrow> Inr cfg) (\<lambda>cfg.
     if cf_services cfg = [] then Inl (StartFailed (anyhow_msg ''No services enabled, nothing to do''))
     else
       then_start (attempt_step refused ConnectDatabase) (\<lambda>_.
       then_start (attempt_step refused CheckUsers) (\<lambda>_.
       then_start (make_provider cfg refused) (\<lambda>stg.
       then_start (make_task_master cfg refused) (\<lambda>queues.
       then_start (capture_searcher_from_config cfg refused) (\<lambda>searcher.
       then_start (start_ui cfg refused) (\<lambda>(ui, media_dir).
       then_start (start_api cfg) (\<lambda>jwt.
       then_start (start_webhook cfg refused) (\<lambda>hook.
       then_start (attempt_step refused BindPort) (\<lambda>_.
       Inr \<lparr>is_storage = stg, is_url_maker = url_maker_from_config cfg, is_queues = queues, is_searcher = searcher,
            is_default_model = cf_gemini_model_id cfg, is_ui = ui, is_media_dir = media_dir, is_api = jwt,
            is_webhook = hook\<rparr>))))))))))"

section \<open>What a started instance has\<close>

lemma then_start_Inr [simp]: "then_start r f = Inr y \<longleftrightarrow> (\<exists>x. r = Inr x \<and> f x = Inr y)"
  by (cases r) (simp_all add: then_start_def)

lemma need_Inr [simp]: "need v msg = Inr x \<longleftrightarrow> v = Some x"
  by (auto simp: need_def split: option.split)

lemma under_Inr [simp]: "under msg r = Inr x \<longleftrightarrow> r = Inr x"
  by (cases r) (auto simp: under_def split: start_failure.split)

lemma all_required_Inr: "all_required rs = Inr () \<longleftrightarrow> (\<forall>r \<in> set rs. r = Inr ())"
  by (induction rs) (auto split: sum.split)

lemma require_some_Inr [simp]: "require_some v msg = Inr () \<longleftrightarrow> v \<noteq> None"
  by (simp add: require_some_def)

lemma make_config_checked:
  assumes "make_config envy_error vars = Inr cfg"
  shows "WebUI \<in> set (cf_services cfg) \<or> API \<in> set (cf_services cfg) \<Longrightarrow> cf_gemini_model_id cfg \<noteq> None"
    and "cf_storage_backend cfg = LocalStorage \<Longrightarrow> cf_storage_local_url_prefix cfg \<noteq> None"
proof -
  have "all_required (config_checks cfg) = Inr ()"
    using assms by (cases "all_required (config_checks cfg)") (auto simp: make_config_def split: option.splits sum.splits)
  then have "\<forall>r \<in> set (config_checks cfg). r = Inr ()" by (simp only: all_required_Inr)
  then show "WebUI \<in> set (cf_services cfg) \<or> API \<in> set (cf_services cfg) \<Longrightarrow> cf_gemini_model_id cfg \<noteq> None"
    and "cf_storage_backend cfg = LocalStorage \<Longrightarrow> cf_storage_local_url_prefix cfg \<noteq> None"
    by (auto simp: config_checks_def)
qed

lemma initializeE:
  assumes "initialize envy_error vars refused = Inr s"
  obtains cfg where "make_config envy_error vars = Inr cfg" "make_provider cfg refused = Inr (is_storage s)"
    "make_task_master cfg refused = Inr (is_queues s)" "capture_searcher_from_config cfg refused = Inr (is_searcher s)"
    "start_ui cfg refused = Inr (is_ui s, is_media_dir s)" "start_api cfg = Inr (is_api s)"
    "start_webhook cfg refused = Inr (is_webhook s)" "is_url_maker s = url_maker_from_config cfg"
    "is_default_model s = cf_gemini_model_id cfg"
  using assms by (auto simp: initialize_def split: sum.splits if_splits prod.splits)

text \<open>
  C33: the parts of an instance that starts fit together. The API's tokens are signed with a
  secret of at least 32 bytes. The workers' routes are open exactly when the queues are local;
  behind Cloud Tasks, the audience and the account the verifier demands are the ones every
  queue puts into the token of a delivery. Query embeddings, stored embeddings and the workers'
  embeddings have the same number of dimensions and live in the same collection and field. And
  the provider that stores media is one whose URLs can be made.
\<close>

theorem started_instance_fits_together:
  assumes "initialize envy_error vars refused = Inr s"
  shows "(\<forall>jwt. is_api s = Some jwt \<longrightarrow> 32 \<le> length (jw_secret jwt)) \<and>
     (\<forall>hook. is_webhook s = Some hook \<longrightarrow>
        (case ws_verifier hook of
           None \<Rightarrow> \<forall>q \<in> {tq_illuminate (is_queues s), tq_spark (is_queues s), tq_search_index (is_queues s)}.
             \<exists>url. q = LocalTaskQueue url 4
         | Some (audience, email) \<Rightarrow> \<forall>q \<in> {tq_illuminate (is_queues s), tq_spark (is_queues s), tq_search_index (is_queues s)}.
             \<exists>path url. q = CloudTaskQueue path url \<lparr>ot_service_account_email = email, ot_audience = audience\<rparr>) \<and>
        ws_embed_dims hook = fst (is_searcher s) \<and> ws_store hook = snd (snd (is_searcher s))) \<and>
     (case is_searcher s of (dims, (place, field), (store_place, store_field, store_dims)) \<Rightarrow>
        place = store_place \<and> field = store_field \<and> dims = store_dims) \<and>
     (\<forall>path. is_storage s = LocalProvider path \<longrightarrow> local_url_prefix (is_url_maker s) \<noteq> None)"
proof -
  obtain cfg where cfg: "make_config envy_error vars = Inr cfg" "make_provider cfg refused = Inr (is_storage s)"
    "make_task_master cfg refused = Inr (is_queues s)" "capture_searcher_from_config cfg refused = Inr (is_searcher s)"
    "start_api cfg = Inr (is_api s)" "start_webhook cfg refused = Inr (is_webhook s)" "is_url_maker s = url_maker_from_config cfg"
    by (rule initializeE [OF assms])
  have searcher: "cf_search_embed_vector_dims cfg = Some (fst (is_searcher s))"
      "case is_searcher s of (dims, (place, field), (store_place, store_field, store_dims)) \<Rightarrow>
        place = store_place \<and> field = store_field \<and> dims = store_dims"
      "vector_store_from_config cfg refused = Inr (snd (snd (is_searcher s)))"
    using cfg(4) by (cases "is_searcher s"; auto simp: capture_searcher_from_config_def gemini_embedder_from_config_def
        vector_searcher_from_config_def vector_store_from_config_def)+
  have "32 \<le> length (jw_secret jwt)" if "is_api s = Some jwt" for jwt
    using cfg(5) that by (auto simp: start_api_def from_secret_def with_leeway_def with_user_expiration_secs_def split: if_splits)
  moreover have "local_url_prefix (is_url_maker s) \<noteq> None" if "is_storage s = LocalProvider path" for path
    using cfg(2,7) that make_config_checked(2) [OF cfg(1)]
    by (auto simp: make_provider_def url_maker_from_config_def split: StorageBackend.splits option.splits if_splits)
  moreover have "case ws_verifier hook of
           None \<Rightarrow> \<forall>q \<in> {tq_illuminate (is_queues s), tq_spark (is_queues s), tq_search_index (is_queues s)}.
             \<exists>url. q = LocalTaskQueue url 4
         | Some (audience, email) \<Rightarrow> \<forall>q \<in> {tq_illuminate (is_queues s), tq_spark (is_queues s), tq_search_index (is_queues s)}.
             \<exists>path url. q = CloudTaskQueue path url \<lparr>ot_service_account_email = email, ot_audience = audience\<rparr>"
      and "ws_embed_dims hook = fst (is_searcher s)" and "ws_store hook = snd (snd (is_searcher s))"
      if hook: "is_webhook s = Some hook" for hook
  proof -
    have h: "oidc_from_config cfg = Inr (ws_verifier hook)" "vector_store_from_config cfg refused = Inr (ws_store hook)"
        "gemini_embedder_from_config cfg refused = Inr (ws_embed_dims hook)"
      using cfg(6) hook by (auto simp: start_webhook_def split: if_splits)
    from h(2,3) searcher show "ws_embed_dims hook = fst (is_searcher s)" and "ws_store hook = snd (snd (is_searcher s))"
      by (auto simp: gemini_embedder_from_config_def)
    from h(1) cfg(3) show "case ws_verifier hook of
           None \<Rightarrow> \<forall>q \<in> {tq_illuminate (is_queues s), tq_spark (is_queues s), tq_search_index (is_queues s)}.
             \<exists>url. q = LocalTaskQueue url 4
         | Some (audience, email) \<Rightarrow> \<forall>q \<in> {tq_illuminate (is_queues s), tq_spark (is_queues s), tq_search_index (is_queues s)}.
             \<exists>path url. q = CloudTaskQueue path url \<lparr>ot_service_account_email = email, ot_audience = audience\<rparr>"
      by (cases "cf_task_backend cfg"; cases "is_queues s"; cases "ws_verifier hook")
         (auto simp: oidc_from_config_def make_task_master_def make_webhook_oidc_token_def connect_cloud_queue_def)
  qed
  ultimately show ?thesis using searcher(2) by (simp add: prod.case_eq_if)
qed

text \<open>
  An instance that takes uploads can illuminate them. When the user interface or the API
  runs, an upload that fails with an error has stored nothing: the missing model that would
  leave a capture behind an error cannot occur in a configuration that starts.
\<close>

theorem started_instance_keeps_uploads_whole:
  assumes "initialize envy_error vars refused = Inr s" and "is_ui s \<or> is_api s \<noteq> None"
    and "uc_default_illumination_model_id self = is_default_model s"
    and "store_and_signal self E context bytes dedupe created_at w = (Inl (Failed e), w')"
  shows "captures w' = captures w \<and> medias w' = medias w"
proof -
  obtain cfg where cfg: "make_config envy_error vars = Inr cfg" "start_ui cfg refused = Inr (is_ui s, is_media_dir s)"
    "start_api cfg = Inr (is_api s)" "is_default_model s = cf_gemini_model_id cfg"
    by (rule initializeE [OF assms(1)])
  have "WebUI \<in> set (cf_services cfg) \<or> API \<in> set (cf_services cfg)"
    using cfg(2,3) assms(2) by (auto simp: start_ui_def start_api_def split: if_splits)
  with make_config_checked(1) [OF cfg(1)] cfg(4) assms(3) have "uc_default_illumination_model_id self \<noteq> None" by simp
  with upload_result [OF assms(4)] show ?thesis by (auto split: if_splits)
qed

section \<open>Examples\<close>

definition demo_vars :: "string \<rightharpoonup> string" where
  "demo_vars = map_of
     [(''gcloud_project_id'', ''p''), (''gcloud_region'', ''r''), (''port'', ''8''), (''services'', ''webui, webhook''),
      (''gemini_backend'', ''vertex''), (''gemini_model_id'', ''m''), (''gemini_api_key'', ''k''), (''firestarter'', ''gemini''),
      (''postgres_host_port'', ''db''), (''postgres_user'', ''u''), (''postgres_password'', ''w''), (''postgres_db'', ''d''),
      (''storage_backend'', ''gcloud''), (''storage_gcloud_bucket_name'', ''b''), (''search_embed_collection_id'', ''c''),
      (''search_embed_vector_field'', ''f''), (''search_embed_vector_dims'', ''4''), (''task_backend'', ''gcloudtasks''),
      (''task_oidc_service_account_email'', ''s''), (''task_oidc_audience'', ''a''), (''task_webhook_base_url'', ''h''),
      (''task_queue_name_illuminate'', ''illuminate''), (''task_queue_name_search_index'', ''search-index''),
      (''task_queue_name_spark'', ''spark'')]"

lemma demo_parses:
  "parse_unsigned_below b ''8'' = (if 8 < b then Some 8 else None)"
  "parse_unsigned_below b ''4'' = (if 4 < b then Some 4 else None)"
  "deserialize_comma_list parse_service ''webui, webhook'' = Some [WebUI, Webhook]"
proof -
  show "parse_unsigned_below b ''8'' = (if 8 < b then Some 8 else None)"
    and "parse_unsigned_below b ''4'' = (if 4 < b then Some 4 else None)"
    by (simp_all add: parse_unsigned_below_def parse_int_def parse_unsigned_def digit_val_def)
  show "deserialize_comma_list parse_service ''webui, webhook'' = Some [WebUI, Webhook]" by code_simp
qed

lemma demo_started:
  obtains s where "initialize (\<lambda>_. []) demo_vars (\<lambda>_. None) = Inr s" "is_ui s" "is_default_model s = Some ''m''"
proof -
  have vars: "demo_vars ''task_max_attempts'' = None" "demo_vars ''max_upload_bytes'' = None" by (simp_all add: demo_vars_def)
  obtain cfg where cfg: "config_of_vars demo_vars = Some cfg" "cf_services cfg = [WebUI, Webhook]"
      "cf_gemini_backend cfg = Some UseVertex" "cf_gemini_model_id cfg = Some ''m''" "cf_gemini_api_key cfg = Some ''k''"
      "cf_firestarter cfg = ''gemini''" "cf_storage_backend cfg = GCloudStorage" "cf_storage_gcloud_bucket_name cfg = Some ''b''"
      "cf_search_embed_collection_id cfg = Some ''c''" "cf_search_embed_vector_field cfg = Some ''f''"
      "cf_search_embed_vector_dims cfg = Some 4" "cf_task_backend cfg = GCloudTasks"
      "cf_task_oidc_service_account_email cfg = Some ''s''" "cf_task_oidc_audience cfg = Some ''a''"
    by (simp add: config_of_vars_def required_def optional_def defaulted_def demo_vars_def demo_parses
        parse_gemini_backend_def parse_storage_backend_def parse_task_backend_def)
  have "make_config (\<lambda>_. []) demo_vars = Inr cfg"
    by (simp add: make_config_def config_checks_def require_some_def cfg)
  then have "\<exists>s. initialize (\<lambda>_. []) demo_vars (\<lambda>_. None) = Inr s \<and> is_ui s \<and> is_default_model s = Some ''m''"
    by (simp add: initialize_def then_start_def cfg make_provider_def make_task_master_def make_webhook_oidc_token_def
      connect_cloud_queue_def need_def under_def attempt_step_def capture_searcher_from_config_def gemini_embedder_from_config_def
      vector_searcher_from_config_def vector_store_from_config_def start_ui_def start_api_def start_webhook_def
      gemini_client_from_config_def make_firestarter_def oidc_from_config_def del: then_start_Inr)
  with that show thesis by blast
qed

theorem started_instance_fits_together_witness:
  "\<exists>s. initialize (\<lambda>_. []) demo_vars (\<lambda>_. None) = Inr s \<and>
     (case is_searcher s of (dims, (place, field), (store_place, store_field, store_dims)) \<Rightarrow>
        place = store_place \<and> field = store_field \<and> dims = store_dims)"
proof -
  obtain s where "initialize (\<lambda>_. []) demo_vars (\<lambda>_. None) = Inr s" by (rule demo_started)
  with started_instance_fits_together [OF this] show ?thesis by (intro exI [of _ s]) simp
qed

theorem started_instance_keeps_uploads_whole_witness:
  "\<exists>e w'. store_and_signal (demo_client\<lparr>uc_uploads := demo_uploads\<lparr>infer_get := \<lambda>_. None\<rparr>, uc_default_illumination_model_id := Some ''m''\<rparr>)
       quiet_env demo_ctx ''bytes'' False None demo_users = (Inl (Failed e), w') \<and>
     captures w' = captures demo_users \<and> medias w' = medias demo_users"
proof -
  let ?client = "demo_client\<lparr>uc_uploads := demo_uploads\<lparr>infer_get := \<lambda>_. None\<rparr>, uc_default_illumination_model_id := Some ''m''\<rparr>"
  obtain s where s: "initialize (\<lambda>_. []) demo_vars (\<lambda>_. None) = Inr s" "is_ui s" "is_default_model s = Some ''m''"
    by (rule demo_started)
  obtain e w' where run: "store_and_signal ?client quiet_env demo_ctx ''bytes'' False None demo_users = (Inl (Failed e), w')"
    by (simp add: store_and_signal_def insert_capture_def supported_image_def runs)
  from started_instance_keeps_uploads_whole [OF s(1) _ _ run] s run show ?thesis by auto
qed

end
