(* ===== verification/Storage.thy ===== *)
theory Storage
  imports Schema_Info "HOL-Library.AList"
begin

text \<open>
  \<open>storage/local.rs\<close>, \<open>storage/gcloud.rs\<close>, \<open>storage/provider.rs\<close>: the two object stores
  behind the media of captures. The file system is a map from paths to contents whose every
  operation may fail, a failed write leaving anything at its path; the bucket service is
  remote, a record of computations on a state of any type. Both draw UUIDs from outside.
\<close>

section \<open>Paths\<close>

definition path_join :: "string \<Rightarrow> string \<Rightarrow> string" where
  "path_join a b =
     (if starts_with b ''/'' \<or> a = [] then b else if last a = CHR ''/'' then a @ b else a @ ''/'' @ b)"

text \<open>\<open>with_extension\<close> on a file name: what follows its last dot is replaced.\<close>

definition file_stem :: "string \<Rightarrow> string" where
  "file_stem name =
     (case dropWhile (\<lambda>c. c \<noteq> CHR ''.'') (rev name) of [] \<Rightarrow> name | _ # r \<Rightarrow> if r = [] then name else rev r)"

definition with_extension :: "string \<Rightarrow> string \<Rightarrow> string" where
  "with_extension name ext = (if ext = [] then file_stem name else file_stem name @ ''.'' @ ext)"

section \<open>Local files\<close>

record disk =
  fs_tick :: nat
  files :: "(string \<times> string) list"

abbreviation file_at :: "disk \<Rightarrow> string \<Rightarrow> string option" where
  "file_at s \<equiv> map_of (files s)"

record fs_env =
  fs_fault :: "nat \<Rightarrow> anyhow option"
  fs_torn :: "nat \<Rightarrow> string option"
  fs_missing :: "string \<Rightarrow> anyhow"
  fs_new_uuid :: "disk \<Rightarrow> string"

definition create_dir_all :: "fs_env \<Rightarrow> (disk, anyhow, unit) comp" where
  "create_dir_all E s = (case fs_fault E (fs_tick s) of Some e \<Rightarrow> (Inl e, s\<lparr>fs_tick := Suc (fs_tick s)\<rparr>)
     | None \<Rightarrow> (Inr (), s\<lparr>fs_tick := Suc (fs_tick s)\<rparr>))"

definition write_file :: "fs_env \<Rightarrow> string \<Rightarrow> string \<Rightarrow> (disk, anyhow, unit) comp" where
  "write_file E path bytes s =
     (case fs_fault E (fs_tick s) of
        Some e \<Rightarrow> (Inl e, s\<lparr>fs_tick := Suc (fs_tick s), files := (case fs_torn E (fs_tick s) of
           None \<Rightarrow> AList.delete path (files s) | Some part \<Rightarrow> AList.update path part (files s))\<rparr>)
      | None \<Rightarrow> (Inr (), s\<lparr>fs_tick := Suc (fs_tick s), files := AList.update path bytes (files s)\<rparr>))"

definition read_file :: "fs_env \<Rightarrow> string \<Rightarrow> (disk, anyhow, string) comp" where
  "read_file E path s =
     (let s' = s\<lparr>fs_tick := Suc (fs_tick s)\<rparr>
      in case fs_fault E (fs_tick s) of
           Some e \<Rightarrow> (Inl e, s')
         | None \<Rightarrow> (case file_at s path of None \<Rightarrow> (Inl (fs_missing E path), s') | Some bytes \<Rightarrow> (Inr bytes, s')))"

definition local_file_path :: "string \<Rightarrow> string \<Rightarrow> string \<Rightarrow> string option \<Rightarrow> string" where
  "local_file_path dir shard uuid ext =
     path_join (path_join dir shard) (with_extension uuid (case ext of Some e \<Rightarrow> e | None \<Rightarrow> []))"

definition local_handle :: "string \<Rightarrow> string \<Rightarrow> string option \<Rightarrow> StorageHandle" where
  "local_handle shard uuid ext =
     \<lparr>sh_provider = ''local'', sh_bucket = None, sh_user_shard = shard, sh_uuid = uuid, sh_extension = ext\<rparr>"

definition local_store_bytes ::
  "fs_env \<Rightarrow> string \<Rightarrow> string \<Rightarrow> string \<Rightarrow> string option \<Rightarrow> string option \<Rightarrow> (disk, anyhow, StorageHandle) comp" where
  "local_store_bytes E dir bytes user_shard ext mime_type =
     bindM (create_dir_all E) (\<lambda>_.
     bindM (getM (fs_new_uuid E)) (\<lambda>uuid.
     bindM (write_file E (local_file_path dir user_shard uuid ext) bytes) (\<lambda>_.
     returnM (local_handle user_shard uuid ext))))"

definition local_store_from_local_path ::
  "fs_env \<Rightarrow> string \<Rightarrow> string \<Rightarrow> string \<Rightarrow> string option \<Rightarrow> string option \<Rightarrow> (disk, anyhow, StorageHandle) comp" where
  "local_store_from_local_path E dir source_path user_shard ext mime_type =
     bindM (create_dir_all E) (\<lambda>_.
     bindM (getM (fs_new_uuid E)) (\<lambda>uuid.
     bindM (read_file E source_path) (\<lambda>bytes.
     bindM (write_file E (local_file_path dir user_shard uuid ext) bytes) (\<lambda>_.
     returnM (local_handle user_shard uuid ext)))))"

definition local_path_of_handle :: "string \<Rightarrow> StorageHandle \<Rightarrow> string" where
  "local_path_of_handle dir h = local_file_path dir (sh_user_shard h) (sh_uuid h) (sh_extension h)"

definition local_retrieve_bytes :: "fs_env \<Rightarrow> string \<Rightarrow> StorageHandle \<Rightarrow> (disk, anyhow, string) comp" where
  "local_retrieve_bytes E dir h = read_file E (local_path_of_handle dir h)"

section \<open>Google Cloud Storage\<close>

text \<open>A read is a stream of chunks, any of which may be an error; errors are their texts.\<close>

record 's bucket_service =
  bs_new_uuid :: "'s \<Rightarrow> string \<times> 's"
  bs_write :: "string \<Rightarrow> string \<Rightarrow> string \<Rightarrow> string \<Rightarrow> string option \<Rightarrow> ('s, string, unit) comp"
  bs_read :: "string \<Rightarrow> string \<Rightarrow> ('s, string, (string + string) list) comp"

definition MEDIA_CACHE_CONTROL :: string where
  "MEDIA_CACHE_CONTROL = ''private, max-age=604800, immutable''"

definition bucket_path :: "string \<Rightarrow> string" where
  "bucket_path bucket_name = ''projects/_/buckets/'' @ bucket_name"

definition make_object_key :: "string \<Rightarrow> string \<Rightarrow> string option \<Rightarrow> string" where
  "make_object_key uuid shard ext =
     (case ext of Some e \<Rightarrow> shard @ ''/'' @ uuid @ ''.'' @ e | None \<Rightarrow> shard @ ''/'' @ uuid)"

definition STORE_ATTEMPTS :: nat where
  "STORE_ATTEMPTS = 2"

fun try_put :: "nat \<Rightarrow> string option \<Rightarrow> ('s, string, unit) comp \<Rightarrow> ('s, string, unit) comp" where
  "try_put 0 last_error put = (case last_error of None \<Rightarrow> returnM () | Some e \<Rightarrow> throwM e)"
| "try_put (Suc n) last_error put =
     bindM (catchM put) (\<lambda>r. case r of Inr _ \<Rightarrow> returnM () | Inl e \<Rightarrow> try_put n (Some e) put)"

definition gcloud_handle :: "string \<Rightarrow> string \<Rightarrow> string \<Rightarrow> string option \<Rightarrow> StorageHandle" where
  "gcloud_handle bucket_name shard uuid ext =
     \<lparr>sh_provider = ''gcloud'', sh_bucket = Some bucket_name, sh_user_shard = shard, sh_uuid = uuid, sh_extension = ext\<rparr>"

definition draw_uuid :: "'s bucket_service \<Rightarrow> ('s, 'e, string) comp" where
  "draw_uuid S s = (case bs_new_uuid S s of (u, s') \<Rightarrow> (Inr u, s'))"

definition gcloud_store_bytes ::
  "'s bucket_service \<Rightarrow> string \<Rightarrow> string \<Rightarrow> string \<Rightarrow> string option \<Rightarrow> string option \<Rightarrow> ('s, anyhow, StorageHandle) comp" where
  "gcloud_store_bytes S bucket_name bytes user_shard ext mime_type =
     bindM (draw_uuid S) (\<lambda>uuid.
     bindM (map_errM (\<lambda>e. anyhow_msg (''Failed to store object in GCS: '' @ e))
       (try_put STORE_ATTEMPTS None
          (bs_write S (bucket_path bucket_name) (make_object_key uuid user_shard ext) bytes MEDIA_CACHE_CONTROL mime_type))) (\<lambda>_.
     returnM (gcloud_handle bucket_name user_shard uuid ext)))"

definition gcloud_store_from_local_path ::
  "'s bucket_service \<Rightarrow> string \<Rightarrow> (string \<Rightarrow> anyhow + string) \<Rightarrow> string \<Rightarrow> string \<Rightarrow> string option \<Rightarrow> string option
     \<Rightarrow> ('s, anyhow, StorageHandle) comp" where
  "gcloud_store_from_local_path S bucket_name open_file path user_shard ext mime_type =
     bindM (draw_uuid S) (\<lambda>uuid.
     bindM (liftM (open_file path)) (\<lambda>bytes.
     bindM (map_errM (\<lambda>e. anyhow_msg (''Failed to store object from path in GCS: '' @ e))
       (bs_write S (bucket_path bucket_name) (make_object_key uuid user_shard ext) bytes MEDIA_CACHE_CONTROL mime_type)) (\<lambda>_.
     returnM (gcloud_handle bucket_name user_shard uuid ext))))"

fun collect_chunks :: "string \<Rightarrow> (string + string) list \<Rightarrow> anyhow + string" where
  "collect_chunks contents [] = Inr contents"
| "collect_chunks contents (Inr chunk # rest) = collect_chunks (contents @ chunk) rest"
| "collect_chunks contents (Inl e # rest) = Inl (anyhow_msg e)"

definition handle_key :: "StorageHandle \<Rightarrow> string" where
  "handle_key h = make_object_key (sh_uuid h) (sh_user_shard h) (sh_extension h)"

definition gcloud_retrieve_bytes :: "'s bucket_service \<Rightarrow> string \<Rightarrow> StorageHandle \<Rightarrow> ('s, anyhow, string) comp" where
  "gcloud_retrieve_bytes S bucket_name h =
     bindM (map_errM (\<lambda>e. anyhow_msg (''Failed to read object from GCS: '' @ e)) (bs_read S (bucket_path bucket_name) (handle_key h)))
       (\<lambda>chunks. liftM (collect_chunks [] chunks))"

definition make_prod_uri :: "StorageHandle \<Rightarrow> anyhow + string" where
  "make_prod_uri h =
     (case sh_bucket h of
        None \<Rightarrow> Inl (anyhow_msg ''Cannot construct GCS URI without a bucket'')
      | Some bucket \<Rightarrow> Inr (''gs://'' @ bucket @ ''/'' @ handle_key h))"

section \<open>What a store of media promises\<close>

datatype media_op = StoreMedia string string "string option" "string option" | ReadMedia StorageHandle

fun media_after ::
  "(string \<Rightarrow> string \<Rightarrow> string option \<Rightarrow> string option \<Rightarrow> ('s, anyhow, StorageHandle) comp)
     \<Rightarrow> (StorageHandle \<Rightarrow> ('s, anyhow, string) comp) \<Rightarrow> media_op list \<Rightarrow> 's \<Rightarrow> 's" where
  "media_after store retrieve [] s = s"
| "media_after store retrieve (StoreMedia bytes shard ext mime # ops) s =
     media_after store retrieve ops (snd (store bytes shard ext mime s))"
| "media_after store retrieve (ReadMedia h # ops) s = media_after store retrieve ops (snd (retrieve h s))"

text \<open>
  \<open>held s h\<close> is the content a handle names. A successful store names its bytes, no operation
  changes what another handle names, and a successful read returns it. \<open>fresh\<close> is what the
  provider relies on: no UUID is drawn twice.
\<close>

locale media_store =
  fixes store :: "string \<Rightarrow> string \<Rightarrow> string option \<Rightarrow> string option \<Rightarrow> ('s, anyhow, StorageHandle) comp"
    and retrieve :: "StorageHandle \<Rightarrow> ('s, anyhow, string) comp"
    and held :: "'s \<Rightarrow> StorageHandle \<Rightarrow> string option"
    and fresh :: bool
  assumes stored: "fresh \<Longrightarrow> store bytes shard ext mime s = (Inr h, s') \<Longrightarrow> held s' h = Some bytes"
    and store_keeps: "fresh \<Longrightarrow> store bytes shard ext mime s = (r, s') \<Longrightarrow> held s h = Some b \<Longrightarrow> held s' h = Some b"
    and retrieved: "fresh \<Longrightarrow> retrieve h s = (Inr got, s') \<Longrightarrow> held s h = Some got"
    and retrieve_keeps: "fresh \<Longrightarrow> retrieve h' s = (q, s') \<Longrightarrow> held s' = held s"
begin

lemma held_after: "fresh \<Longrightarrow> held s h = Some b \<Longrightarrow> held (media_after store retrieve ops s) h = Some b"
proof (induction ops arbitrary: s)
  case (Cons op ops)
  then show ?case
    using store_keeps [OF _ prod.collapse [symmetric]] retrieve_keeps [OF _ prod.collapse [symmetric]]
    by (cases op) simp_all
qed simp

lemma stored_then_read:
  assumes "fresh" and "store bytes shard ext mime s = (Inr h, s1)" and "retrieve h (media_after store retrieve ops s1) = (Inr got, s2)"
  shows "got = bytes"
  using stored [OF assms(1,2)] held_after [OF assms(1)] retrieved [OF assms(1,3)] by (metis option.inject)

end

text \<open>The local store: a UUID drawn names no file yet, under any shard and extension.\<close>

definition fresh_uuids :: "fs_env \<Rightarrow> string \<Rightarrow> bool" where
  "fresh_uuids E dir \<longleftrightarrow> (\<forall>s shard ext. file_at s (local_file_path dir shard (fs_new_uuid E s) ext) = None)"

interpretation local_media: media_store "local_store_bytes E dir" "local_retrieve_bytes E dir"
  "\<lambda>s h. file_at s (local_path_of_handle dir h)" "fresh_uuids E dir"
proof unfold_locales
  fix bytes shard ext mime s h s' r b h' q got
  assume fresh: "fresh_uuids E dir"
  show "file_at s' (local_path_of_handle dir h) = Some bytes" if "local_store_bytes E dir bytes shard ext mime s = (Inr h, s')"
    using that by (auto simp: local_store_bytes_def create_dir_all_def write_file_def runs local_handle_def local_path_of_handle_def
        update_conv' split: option.splits)
  show "file_at s' (local_path_of_handle dir h) = Some b"
    if run: "local_store_bytes E dir bytes shard ext mime s = (r, s')" and old: "file_at s (local_path_of_handle dir h) = Some b"
  proof -
    have "file_at s (local_file_path dir shard (fs_new_uuid E (s\<lparr>fs_tick := Suc (fs_tick s)\<rparr>)) ext) = None"
      using fresh [unfolded fresh_uuids_def, rule_format, of "s\<lparr>fs_tick := Suc (fs_tick s)\<rparr>"] by simp
    with old have "local_path_of_handle dir h \<noteq> local_file_path dir shard (fs_new_uuid E (s\<lparr>fs_tick := Suc (fs_tick s)\<rparr>)) ext"
      by auto
    with run old show ?thesis
      by (auto simp: local_store_bytes_def create_dir_all_def write_file_def runs update_conv' delete_conv' split: option.splits)
  qed
  show "file_at s (local_path_of_handle dir h) = Some got" if "local_retrieve_bytes E dir h s = (Inr got, s')"
    using that by (auto simp: local_retrieve_bytes_def read_file_def Let_def split: option.splits)
  show "(\<lambda>h. file_at s' (local_path_of_handle dir h)) = (\<lambda>h. file_at s (local_path_of_handle dir h))"
    if "local_retrieve_bytes E dir h' s = (q, s')"
    using that by (auto simp: local_retrieve_bytes_def read_file_def Let_def split: option.splits)
qed

text \<open>
  What Cloud Storage documents: an upload that is acknowledged has replaced its object and no
  upload touches another one, a complete read returns the object; and a UUID drawn names no
  object. A refused upload may or may not have happened.
\<close>

definition bucket_laws :: "'s bucket_service \<Rightarrow> ('s \<Rightarrow> string \<Rightarrow> string \<rightharpoonup> string) \<Rightarrow> bool" where
  "bucket_laws S objects \<longleftrightarrow>
     (\<forall>s u s'. bs_new_uuid S s = (u, s') \<longrightarrow> objects s' = objects s \<and> (\<forall>b shard ext. objects s b (make_object_key u shard ext) = None)) \<and>
     (\<forall>b k x c m s r s'. bs_write S b k x c m s = (r, s') \<longrightarrow>
        (\<forall>b' k'. (b', k') \<noteq> (b, k) \<longrightarrow> objects s' b' k' = objects s b' k') \<and> (r = Inr () \<longrightarrow> objects s' b k = Some x)) \<and>
     (\<forall>b k s r s'. bs_read S b k s = (r, s') \<longrightarrow> objects s' = objects s \<and>
        (\<forall>chunks. r = Inr (map Inr chunks) \<longrightarrow> objects s b k = Some (concat chunks)))"

lemma bucket_uuid:
  assumes "bucket_laws S objects" and "bs_new_uuid S s = (u, s')"
  shows "objects s' = objects s \<and> objects s b (make_object_key u shard ext) = None"
proof -
  have law: "\<forall>s u s'. bs_new_uuid S s = (u, s') \<longrightarrow>
      objects s' = objects s \<and> (\<forall>b shard ext. objects s b (make_object_key u shard ext) = None)"
    using assms(1) unfolding bucket_laws_def by (elim conjE)
  from law [THEN spec, THEN spec, THEN spec, THEN mp, OF assms(2)] show ?thesis by simp
qed

lemma bucket_write:
  assumes "bucket_laws S objects" and "bs_write S b k x c m s = (r, s')"
  shows "(b', k') \<noteq> (b, k) \<Longrightarrow> objects s' b' k' = objects s b' k'" and "r = Inr () \<Longrightarrow> objects s' b k = Some x"
proof -
  have law: "\<forall>b k x c m s r s'. bs_write S b k x c m s = (r, s') \<longrightarrow>
      (\<forall>b' k'. (b', k') \<noteq> (b, k) \<longrightarrow> objects s' b' k' = objects s b' k') \<and> (r = Inr () \<longrightarrow> objects s' b k = Some x)"
    using assms(1) unfolding bucket_laws_def by (elim conjE)
  note law [THEN spec, THEN spec, THEN spec, THEN spec, THEN spec, THEN spec, THEN spec, THEN spec, THEN mp, OF assms(2)]
  then show "(b', k') \<noteq> (b, k) \<Longrightarrow> objects s' b' k' = objects s b' k'" and "r = Inr () \<Longrightarrow> objects s' b k = Some x"
    by simp_all
qed

lemma bucket_read:
  assumes "bucket_laws S objects" and "bs_read S b k s = (r, s')"
  shows "objects s' = objects s" and "r = Inr (map Inr chunks) \<Longrightarrow> objects s b k = Some (concat chunks)"
proof -
  have law: "\<forall>b k s r s'. bs_read S b k s = (r, s') \<longrightarrow> objects s' = objects s \<and>
      (\<forall>chunks. r = Inr (map Inr chunks) \<longrightarrow> objects s b k = Some (concat chunks))"
    using assms(1) unfolding bucket_laws_def by (elim conjE)
  note law [THEN spec, THEN spec, THEN spec, THEN spec, THEN spec, THEN mp, OF assms(2)]
  then show "objects s' = objects s" and "r = Inr (map Inr chunks) \<Longrightarrow> objects s b k = Some (concat chunks)"
    by simp_all
qed

lemma try_put_writes:
  assumes laws: "bucket_laws S objects" and run: "try_put n prev (bs_write S b k x c m) s = (r, s')"
  shows "\<And>b' k'. (b', k') \<noteq> (b, k) \<Longrightarrow> objects s' b' k' = objects s b' k'"
    and "r = Inr () \<Longrightarrow> prev \<noteq> None \<or> n \<noteq> 0 \<Longrightarrow> objects s' b k = Some x"
proof -
  have "(\<forall>b' k'. (b', k') \<noteq> (b, k) \<longrightarrow> objects s' b' k' = objects s b' k') \<and>
      (r = Inr () \<longrightarrow> prev \<noteq> None \<or> n \<noteq> 0 \<longrightarrow> objects s' b k = Some x)"
    using run
  proof (induction n arbitrary: prev s)
    case 0
    then show ?case by (auto simp: runs split: option.splits)
  next
    case (Suc n)
    obtain q s1 where w: "bs_write S b k x c m s = (q, s1)" by fastforce
    note writes = bucket_write [OF laws w]
    show ?case
    proof (cases q)
      case (Inl e)
      with Suc.prems w have "try_put n (Some e) (bs_write S b k x c m) s1 = (r, s')" by (simp add: runs)
      from Suc.IH [OF this] writes(1) show ?thesis by simp
    next
      case (Inr u)
      with Suc.prems w have "s' = s1" "r = Inr ()" by (simp_all add: runs)
      with writes Inr show ?thesis by simp
    qed
  qed
  then show "\<And>b' k'. (b', k') \<noteq> (b, k) \<Longrightarrow> objects s' b' k' = objects s b' k'"
    and "r = Inr () \<Longrightarrow> prev \<noteq> None \<or> n \<noteq> 0 \<Longrightarrow> objects s' b k = Some x" by blast+
qed

lemma collect_chunks_Inr: "collect_chunks acc chunks = Inr got \<Longrightarrow> \<exists>cs. chunks = map Inr cs \<and> got = acc @ concat cs"
proof (induction acc chunks rule: collect_chunks.induct)
  case (2 contents chunk rest)
  then obtain cs where "rest = map Inr cs" "got = (contents @ chunk) @ concat cs" by auto
  then show ?case by (intro exI [of _ "chunk # cs"]) simp
qed simp_all

interpretation gcloud_media: media_store "gcloud_store_bytes S bucket" "gcloud_retrieve_bytes S bucket"
  "\<lambda>s h. objects s (bucket_path bucket) (handle_key h)" "bucket_laws S objects"
proof unfold_locales
  fix bytes shard ext mime s h s' r b h' q got
  assume laws: "bucket_laws S objects"
  let ?put = "\<lambda>u. bs_write S (bucket_path bucket) (make_object_key u shard ext) bytes MEDIA_CACHE_CONTROL mime"
  obtain u s1 where u: "bs_new_uuid S s = (u, s1)" by fastforce
  obtain p s2 where p: "try_put STORE_ATTEMPTS None (?put u) s1 = (p, s2)" by fastforce
  note put = try_put_writes [OF laws p]
  have run: "gcloud_store_bytes S bucket bytes shard ext mime s =
      ((case p of Inl e \<Rightarrow> Inl (anyhow_msg (''Failed to store object in GCS: '' @ e)) | Inr _ \<Rightarrow> Inr (gcloud_handle bucket shard u ext)), s2)"
    using u p by (simp add: gcloud_store_bytes_def draw_uuid_def runs split: sum.split)
  show "objects s' (bucket_path bucket) (handle_key h) = Some bytes"
    if "gcloud_store_bytes S bucket bytes shard ext mime s = (Inr h, s')"
    using that run put(2) by (auto simp: handle_key_def gcloud_handle_def STORE_ATTEMPTS_def split: sum.splits)
  show "objects s' (bucket_path bucket) (handle_key h) = Some b"
    if "gcloud_store_bytes S bucket bytes shard ext mime s = (r, s')" and "objects s (bucket_path bucket) (handle_key h) = Some b"
  proof -
    from that(2) bucket_uuid [OF laws u, of "bucket_path bucket" shard ext]
    have "handle_key h \<noteq> make_object_key u shard ext" by auto
    with that run put(1) [of "bucket_path bucket" "handle_key h"] bucket_uuid [OF laws u] show ?thesis by simp
  qed
  show "objects s (bucket_path bucket) (handle_key h) = Some got" if "gcloud_retrieve_bytes S bucket h s = (Inr got, s')"
    using that bucket_read [OF laws, of "bucket_path bucket" "handle_key h" s]
    by (auto simp: gcloud_retrieve_bytes_def runs split: sum.splits prod.splits dest!: collect_chunks_Inr)
  show "(\<lambda>h. objects s' (bucket_path bucket) (handle_key h)) = (\<lambda>h. objects s (bucket_path bucket) (handle_key h))"
    if "gcloud_retrieve_bytes S bucket h' s = (q, s')"
    using that bucket_read(1) [OF laws, of "bucket_path bucket" "handle_key h'" s]
    by (auto simp: gcloud_retrieve_bytes_def runs split: sum.splits prod.splits)
qed

text \<open>
  C34: media are immutable. With both providers, what a successful upload stored is what a later
  read of its handle returns, whatever uploads and reads, failed or not, happen in between, and
  although the upload to Cloud Storage may have been tried twice.
\<close>

theorem stored_media_is_immutable:
  "(fresh_uuids E dir \<longrightarrow> local_store_bytes E dir bytes shard ext mime s = (Inr h, s1) \<longrightarrow>
     local_retrieve_bytes E dir h (media_after (local_store_bytes E dir) (local_retrieve_bytes E dir) ops s1) = (Inr got, s2) \<longrightarrow>
     got = bytes) \<and>
   (bucket_laws S objects \<longrightarrow> gcloud_store_bytes S bucket bytes shard ext mime t = (Inr h, t1) \<longrightarrow>
     gcloud_retrieve_bytes S bucket h (media_after (gcloud_store_bytes S bucket) (gcloud_retrieve_bytes S bucket) ops t1) = (Inr got, t2) \<longrightarrow>
     got = bytes)"
  by (intro conjI impI) (erule (2) local_media.stored_then_read, erule (2) gcloud_media.stored_then_read)

section \<open>URLs\<close>

definition plain_name :: "string \<Rightarrow> bool" where
  "plain_name s \<longleftrightarrow> s \<noteq> [] \<and> CHR ''/'' \<notin> set s \<and> CHR ''.'' \<notin> set s"

lemma file_stem_plain: "CHR ''.'' \<notin> set s \<Longrightarrow> file_stem s = s"
proof -
  assume "CHR ''.'' \<notin> set s"
  then have "\<forall>c \<in> set (rev s). c \<noteq> CHR ''.''" by auto
  then have none: "dropWhile (\<lambda>c. c \<noteq> CHR ''.'') (rev s) = []" by (simp only: dropWhile_eq_Nil_conv)
  show "file_stem s = s" unfolding file_stem_def none by simp
qed

lemma path_join_plain: "CHR ''/'' \<notin> set b \<Longrightarrow> a \<noteq> [] \<Longrightarrow> last a \<noteq> CHR ''/'' \<Longrightarrow> path_join a b = a @ ''/'' @ b"
  by (cases b) (auto simp: path_join_def starts_with_def)

text \<open>
  The URL of a locally stored media names the file it was stored in. The part of the URL
  below the configured prefix is the path of the file below the directory that is served under
  that prefix, for every shard and UUID the program makes (no slash, no dot).
\<close>

theorem local_url_names_stored_file:
  assumes "local_store_bytes E dir bytes shard ext mime s = (Inr h, s')" and "local_url_prefix U = Some prefix"
    and "dir \<noteq> []" and "last dir \<noteq> CHR ''/''" and "plain_name shard" and "plain_name (sh_uuid h)"
    and "\<And>e. ext = Some e \<Longrightarrow> e \<noteq> [] \<and> CHR ''/'' \<notin> set e"
  shows "\<exists>rel. make_url U h = Some (prefix @ ''/'' @ rel) \<and> file_at s' (dir @ ''/'' @ rel) = Some bytes"
proof -
  have h: "sh_provider h = ''local''" "sh_user_shard h = shard" "sh_extension h = ext" and held: "file_at s' (local_file_path dir shard (sh_uuid h) ext) = Some bytes"
    using assms(1) by (auto simp: local_store_bytes_def create_dir_all_def write_file_def runs local_handle_def update_conv'
        split: option.splits)
  let ?rel = "shard @ ''/'' @ sh_uuid h @ dot_extension h"
  have dir: "path_join dir shard = dir @ ''/'' @ shard" using assms by (simp add: path_join_plain plain_name_def)
  have "last (dir @ ''/'' @ shard) = last shard" "last shard \<in> set shard" using assms(5) by (simp_all add: plain_name_def)
  then have "last shard \<noteq> CHR ''/''" using assms(5) by (metis plain_name_def)
  then have "path_join (dir @ ''/'' @ shard) name = dir @ ''/'' @ shard @ ''/'' @ name" if "CHR ''/'' \<notin> set name" for name
    using path_join_plain [OF that, of "dir @ ''/'' @ shard"] assms(5) by (auto simp: plain_name_def)
  moreover have "with_extension (sh_uuid h) (case ext of Some e \<Rightarrow> e | None \<Rightarrow> []) = sh_uuid h @ dot_extension h"
    using assms(6,7) by (auto simp: with_extension_def file_stem_plain plain_name_def dot_extension_def h split: option.split)
  moreover have "CHR ''/'' \<notin> set (sh_uuid h @ dot_extension h)"
    using assms(6,7) by (auto simp: plain_name_def dot_extension_def h split: option.splits)
  ultimately have "local_file_path dir shard (sh_uuid h) ext = dir @ ''/'' @ ?rel" by (simp add: local_file_path_def dir)
  moreover have "make_url U h = Some (prefix @ ''/'' @ ?rel)"
    using assms(2) by (simp add: make_url_def make_local_url_def h)
  ultimately show ?thesis using held by auto
qed

section \<open>Examples\<close>

text \<open>Names longer than every name in use.\<close>

definition long_name :: "(string \<times> 'a) list \<Rightarrow> string" where
  "long_name used = replicate (Suc (sum_list (map (length \<circ> fst) used))) (CHR ''a'')"

lemma long_name_unused: "length (long_name used) \<le> length k \<Longrightarrow> map_of used k = None"
proof -
  assume long: "length (long_name used) \<le> length k"
  have "length (fst kv) \<le> sum_list (map (length \<circ> fst) used)" if "kv \<in> set used" for kv
    using that by (induction used) auto
  with long have "k \<notin> fst ` set used" by (fastforce simp: long_name_def)
  then show ?thesis by (simp add: map_of_eq_None_iff)
qed

definition demo_fs :: fs_env where
  "demo_fs = \<lparr>fs_fault = (\<lambda>_. None), fs_torn = (\<lambda>_. None), fs_missing = (\<lambda>_. anyhow_msg ''missing''),
     fs_new_uuid = (\<lambda>s. long_name (files s))\<rparr>"

lemma long_name_plain: "plain_name (long_name used)"
  by (auto simp: plain_name_def long_name_def)

lemma demo_fresh_uuids: "fresh_uuids demo_fs dir"
  unfolding fresh_uuids_def
proof (intro allI)
  fix s :: disk and shard ext
  have "length (long_name (files s)) \<le> length (with_extension (long_name (files s)) e)" for e
    using long_name_plain [of "files s"] by (simp add: with_extension_def file_stem_plain plain_name_def)
  moreover have "length b \<le> length (path_join a b)" for a b by (simp add: path_join_def)
  ultimately show "file_at s (local_file_path dir shard (fs_new_uuid demo_fs s) ext) = None"
    by (intro long_name_unused) (fastforce simp: demo_fs_def local_file_path_def intro: order_trans)
qed

definition demo_bucket :: "((string \<times> string) \<times> string) list bucket_service" where
  "demo_bucket =
     \<lparr>bs_new_uuid = (\<lambda>s. (long_name (map (\<lambda>((b, k), x). (k, x)) s), s)),
      bs_write = (\<lambda>b k x c m s. (Inr (), AList.update (b, k) x s)),
      bs_read = (\<lambda>b k s. (case map_of s (b, k) of None \<Rightarrow> Inl ''missing'' | Some x \<Rightarrow> Inr [Inr x], s))\<rparr>"

lemma demo_bucket_laws: "bucket_laws demo_bucket (\<lambda>s b k. map_of s (b, k))"
proof -
  have "map_of s (b, make_object_key (long_name (map (\<lambda>((b, k), x). (k, x)) s)) shard ext) = None"
    for s :: "((string \<times> string) \<times> string) list" and b shard ext
  proof -
    let ?k = "make_object_key (long_name (map (\<lambda>((b, k), x). (k, x)) s)) shard ext"
    have "map_of (map (\<lambda>((b, k), x). (k, x)) s) ?k = None"
      by (rule long_name_unused) (simp add: make_object_key_def split: option.split)
    then show ?thesis by (force simp: map_of_eq_None_iff)
  qed
  then show ?thesis
    by (auto simp: bucket_laws_def demo_bucket_def update_conv' split: option.splits)
qed

theorem stored_media_is_immutable_witness:
  "\<exists>h s1 s2 t1 t2. local_store_bytes demo_fs ''/m'' ''pixels'' ''s'' (Some ''png'') None \<lparr>fs_tick = 0, files = []\<rparr> = (Inr h, s1) \<and>
     local_retrieve_bytes demo_fs ''/m'' h s1 = (Inr ''pixels'', s2)"
proof -
  let ?s = "\<lparr>fs_tick = 0, files = []\<rparr>"
  obtain h s1 where store: "local_store_bytes demo_fs ''/m'' ''pixels'' ''s'' (Some ''png'') None ?s = (Inr h, s1)"
    by (simp add: local_store_bytes_def create_dir_all_def write_file_def runs demo_fs_def)
  then obtain got s2 where read: "local_retrieve_bytes demo_fs ''/m'' h s1 = (Inr got, s2)"
    by (auto simp: local_store_bytes_def local_retrieve_bytes_def read_file_def create_dir_all_def write_file_def runs demo_fs_def
        local_path_of_handle_def local_handle_def Let_def)
  have "got = ''pixels''"
    using stored_media_is_immutable [of demo_fs "''/m''" "''pixels''" "''s''" "Some ''png''" None ?s h s1 "[]" got s2
        demo_bucket "\<lambda>s b k. map_of s (b, k)" "''b''" "[]" "[]" "[]"] demo_fresh_uuids store read
    by simp
  with store read show ?thesis by blast
qed

theorem local_url_names_stored_file_witness:
  "\<exists>h s1 rel. local_store_bytes demo_fs ''/m'' ''pixels'' ''s'' (Some ''png'') None \<lparr>fs_tick = 0, files = []\<rparr> = (Inr h, s1) \<and>
     make_url \<lparr>local_url_prefix = Some ''/media'', gcloud_emulator_endpoint = None\<rparr> h = Some (''/media/'' @ rel) \<and>
     file_at s1 (''/m/'' @ rel) = Some ''pixels''"
proof -
  let ?s = "\<lparr>fs_tick = 0, files = []\<rparr>" and ?U = "\<lparr>local_url_prefix = Some ''/media'', gcloud_emulator_endpoint = None\<rparr>"
  obtain h s1 where store: "local_store_bytes demo_fs ''/m'' ''pixels'' ''s'' (Some ''png'') None ?s = (Inr h, s1)"
    and uuid: "sh_uuid h = long_name ([] :: (string \<times> string) list)"
    by (simp add: local_store_bytes_def create_dir_all_def write_file_def runs demo_fs_def local_handle_def)
  have "plain_name ''s''" by (simp add: plain_name_def)
  from local_url_names_stored_file [OF store _ _ _ this, of ?U "''/media''"] uuid long_name_plain [of "[] :: (string \<times> string) list"] store
  show ?thesis by auto
qed

end
