(* ===== verification/Task_Queues.thy ===== *)
theory Task_Queues
  imports Config Webhook "HOL-Library.Multiset" "HOL-Library.Sublist"
begin

text \<open>
  The two queue backends. \<open>task/taskqueue_local.rs\<close>: an unbounded channel, one dispatcher and
  a semaphore, as a step machine whose events are the atomic actions of the enqueuers, the
  dispatcher and the workers. \<open>task/taskqueue_cloudtask.rs\<close>: a named task per run, created by a
  service that is a parameter. \<open>webhook/localclient.rs\<close>: how a local worker delivers a run. What
  the task master relies on, whichever backend it has, is the interface \<open>run_queue\<close>.
\<close>

section \<open>The local queue\<close>

text \<open>
  \<open>holding\<close> is the run the dispatcher received and waits with for a permit; \<open>running\<close> the runs of
  the spawned workers. \<open>handles\<close> counts the clones of the queue; \<open>aborted\<close> says that dropping the
  last one has asked the dispatcher to stop, which it does at its next suspension. The last
  three fields record the history.
\<close>

record 'a local_queue =
  max_concurrent_tasks :: nat
  handles :: nat
  channel :: "'a list"
  holding :: "'a option"
  permits :: nat
  running :: "'a list"
  dispatching :: bool
  aborted :: bool
  accepted :: "'a list"
  started :: "'a list"
  finished :: "'a list"

definition lq_connect :: "nat \<Rightarrow> 'a local_queue" where
  "lq_connect requested =
     (let n = max requested 1
      in \<lparr>max_concurrent_tasks = n, handles = 1, channel = [], holding = None, permits = n, running = [],
          dispatching = True, aborted = False, accepted = [], started = [], finished = []\<rparr>)"

text \<open>\<open>enqueue\<close>: the channel is closed once the dispatcher, which owns the receiver, is gone.\<close>

definition lq_enqueue :: "'a \<Rightarrow> ('a local_queue, anyhow, unit) comp" where
  "lq_enqueue run q =
     (if dispatching q then (Inr (), q\<lparr>channel := channel q @ [run], accepted := accepted q @ [run]\<rparr>)
      else (Inl (anyhow_msg ''Cannot enqueue into LocalTaskQueue after shutdown''), q))"

definition lq_clone :: "'a local_queue \<Rightarrow> 'a local_queue" where
  "lq_clone q = q\<lparr>handles := Suc (handles q)\<rparr>"

definition lq_drop :: "'a local_queue \<Rightarrow> 'a local_queue" where
  "lq_drop q = q\<lparr>handles := handles q - 1, aborted := (handles q = 1 \<or> aborted q)\<rparr>"

text \<open>
  One action of \<open>run_dispatcher\<close>: it receives when it holds nothing, and spawns a worker when a
  permit is free. \<open>None\<close> while it waits; without a sender left, the empty channel ends it.
\<close>

definition run_dispatcher :: "'a local_queue \<Rightarrow> 'a local_queue option" where
  "run_dispatcher q =
     (if \<not> dispatching q then None
      else case holding q of
        Some run \<Rightarrow>
          if 0 < permits q
          then Some (q\<lparr>holding := None, permits := permits q - 1, running := running q @ [run], started := started q @ [run]\<rparr>)
          else None
      | None \<Rightarrow>
          (case channel q of
             run # rest \<Rightarrow> Some (q\<lparr>channel := rest, holding := Some run\<rparr>)
           | [] \<Rightarrow> if handles q = 0 then Some (q\<lparr>dispatching := False\<rparr>) else None))"

text \<open>
  A worker ends: its handler returned \<open>Ok\<close>, returned an error, which is logged and forgotten, or
  panicked. Its permit is released in each case.
\<close>

definition lq_finish :: "nat \<Rightarrow> 'a local_queue \<Rightarrow> 'a local_queue option" where
  "lq_finish i q =
     (if i < length (running q)
      then Some (q\<lparr>running := take i (running q) @ drop (Suc i) (running q), permits := Suc (permits q),
                   finished := finished q @ [running q ! i]\<rparr>)
      else None)"

text \<open>The abort takes effect: the receiver and what it still had are dropped.\<close>

definition lq_abort :: "'a local_queue \<Rightarrow> 'a local_queue option" where
  "lq_abort q =
     (if aborted q \<and> dispatching q then Some (q\<lparr>dispatching := False, channel := [], holding := None\<rparr>) else None)"

datatype 'a lq_event = Enqueue 'a | Clone | Drop | Dispatch | WorkerEnds nat | Abort

fun lq_step :: "'a lq_event \<Rightarrow> 'a local_queue \<Rightarrow> 'a local_queue option" where
  "lq_step (Enqueue run) q = (if 0 < handles q then Some (snd (lq_enqueue run q)) else None)"
| "lq_step Clone q = (if 0 < handles q then Some (lq_clone q) else None)"
| "lq_step Drop q = (if 0 < handles q then Some (lq_drop q) else None)"
| "lq_step Dispatch q = run_dispatcher q"
| "lq_step (WorkerEnds i) q = lq_finish i q"
| "lq_step Abort q = lq_abort q"

inductive lq_reachable :: "nat \<Rightarrow> 'a local_queue \<Rightarrow> bool" for n where
  connected: "lq_reachable n (lq_connect n)"
| stepped: "lq_reachable n q \<Longrightarrow> lq_step e q = Some q' \<Longrightarrow> lq_reachable n q'"

subsection \<open>The invariant\<close>

definition waiting :: "'a local_queue \<Rightarrow> 'a list" where
  "waiting q = (case holding q of None \<Rightarrow> [] | Some run \<Rightarrow> [run]) @ channel q"

definition lq_inv :: "nat \<Rightarrow> 'a local_queue \<Rightarrow> bool" where
  "lq_inv n q \<longleftrightarrow> permits q + length (running q) = max n 1 \<and>
     mset (started q) = mset (finished q) + mset (running q) \<and>
     prefix (started q) (accepted q) \<and>
     (dispatching q \<longrightarrow> accepted q = started q @ waiting q) \<and>
     (\<not> dispatching q \<longrightarrow> waiting q = []) \<and>
     (0 < handles q \<longrightarrow> dispatching q \<and> \<not> aborted q) \<and>
     (n \<le> 1 \<longrightarrow> started q = finished q @ running q)"

lemmas lq_defs = lq_enqueue_def lq_clone_def lq_drop_def run_dispatcher_def lq_finish_def lq_abort_def waiting_def

lemma lq_inv_connect: "lq_inv n (lq_connect n)"
  by (simp add: lq_inv_def lq_connect_def waiting_def Let_def)

lemma mset_without: "i < length xs \<Longrightarrow> add_mset (xs ! i) (mset (take i xs @ drop (Suc i) xs)) = mset xs"
  by (subst (4) id_take_nth_drop [of i xs]) auto

lemma lq_inv_step:
  assumes "lq_inv n q" and "lq_step e q = Some q'"
  shows "lq_inv n q'"
proof (cases e)
  case (WorkerEnds i)
  with assms(2) have "i < length (running q)" and q': "q' = q\<lparr>running := take i (running q) @ drop (Suc i) (running q),
      permits := Suc (permits q), finished := finished q @ [running q ! i]\<rparr>"
    by (auto simp: lq_finish_def split: if_splits)
  have one: "finished q @ [running q ! i] @ take i (running q) @ drop (Suc i) (running q) = finished q @ running q" if "n \<le> 1"
    using that assms(1) \<open>i < length (running q)\<close> by (cases "running q") (auto simp: lq_inv_def)
  show ?thesis
    using assms(1) mset_without [OF \<open>i < length (running q)\<close>] one \<open>i < length (running q)\<close>
    unfolding lq_inv_def q' by (auto simp: waiting_def)
next
  case Dispatch
  with assms show ?thesis
    by (auto simp: lq_inv_def lq_defs prefix_def split: if_splits option.splits list.splits)
qed (use assms in \<open>auto simp: lq_inv_def lq_defs prefix_def split: if_splits option.splits\<close>)

lemma lq_reachable_inv: "lq_reachable n q \<Longrightarrow> lq_inv n q"
  by (induction rule: lq_reachable.induct) (auto intro: lq_inv_connect lq_inv_step)

text \<open>
  C36: the local queue under every interleaving of enqueuers, dispatcher, workers and shutdown.
  No more workers run than the configured number (at least one). Runs start in the order they
  were enqueued, each once; a started run is running or has ended, and ends once. As long as the
  queue has an owner, enqueuing does not fail and what was enqueued and not started still waits;
  with a single worker the runs also end in order.
\<close>

theorem local_queue_correct:
  assumes "lq_reachable n q"
  shows "length (running q) \<le> max n 1 \<and> prefix (started q) (accepted q) \<and>
     mset (started q) = mset (finished q) + mset (running q) \<and>
     (0 < handles q \<longrightarrow> fst (lq_enqueue run q) = Inr () \<and> accepted q = started q @ waiting q) \<and>
     (n \<le> 1 \<longrightarrow> started q = finished q @ running q)"
  using lq_reachable_inv [OF assms] by (auto simp: lq_inv_def lq_enqueue_def)

subsection \<open>Draining\<close>

text \<open>What happens without enqueuers and owners.\<close>

fun internal_event :: "'a lq_event \<Rightarrow> bool" where
  "internal_event Dispatch = True"
| "internal_event (WorkerEnds _) = True"
| "internal_event _ = False"

fun lq_run :: "'a lq_event list \<Rightarrow> 'a local_queue \<Rightarrow> 'a local_queue option" where
  "lq_run [] q = Some q"
| "lq_run (e # es) q = Option.bind (lq_step e q) (lq_run es)"

definition lq_work :: "'a local_queue \<Rightarrow> nat" where
  "lq_work q = 3 * length (channel q) + (if holding q = None then 0 else 2) + length (running q)
     + (if dispatching q then 1 else 0)"

lemma lq_work_decreases: "internal_event e \<Longrightarrow> lq_step e q = Some q' \<Longrightarrow> lq_work q' < lq_work q"
  by (cases e) (auto simp: lq_work_def lq_defs split: if_splits option.splits list.splits)

lemma internal_keeps:
  "internal_event e \<Longrightarrow> lq_step e q = Some q' \<Longrightarrow> accepted q' = accepted q \<and> handles q' = handles q"
  by (cases e) (auto simp: lq_defs split: if_splits option.splits list.splits)

lemma lq_run_internal:
  "list_all internal_event es \<Longrightarrow> lq_run es q = Some q' \<Longrightarrow> lq_reachable n q \<Longrightarrow>
     length es + lq_work q' \<le> lq_work q \<and> accepted q' = accepted q \<and> handles q' = handles q \<and> lq_reachable n q'"
proof (induction es arbitrary: q)
  case (Cons e es)
  then obtain q1 where q1: "lq_step e q = Some q1" "lq_run es q1 = Some q'" by (auto simp: bind_eq_Some_conv)
  with Cons lq_work_decreases [OF _ q1(1)] internal_keeps [OF _ q1(1)] show ?case
    by (fastforce intro: lq_reachable.stepped)
qed simp

lemma stuck_is_done:
  assumes "lq_inv n q" and "0 < handles q" and "\<And>e. internal_event e \<Longrightarrow> lq_step e q = None"
  shows "mset (finished q) = mset (accepted q) \<and> running q = [] \<and> waiting q = []"
proof -
  have idle: "running q = []" using assms(3) [of "WorkerEnds 0"] by (auto simp: lq_finish_def split: if_splits)
  then have "0 < permits q" using assms(1) by (simp add: lq_inv_def)
  then have "waiting q = []" using assms(1,2) assms(3) [of Dispatch]
    by (auto simp: lq_inv_def run_dispatcher_def waiting_def split: if_splits option.splits list.splits)
  with idle assms(1,2) show ?thesis by (simp add: lq_inv_def)
qed

text \<open>
  C37: the local queue works everything off. While it has an owner and nothing is enqueued, the
  dispatcher and the workers can only take a bounded number of steps, in whatever order they are
  scheduled, and when they have none left, every run accepted so far has been executed.
\<close>

theorem local_queue_drains:
  assumes "lq_reachable n q" and "0 < handles q" and "list_all internal_event es" and "lq_run es q = Some q'"
  shows "length es \<le> lq_work q \<and>
     ((\<forall>e. internal_event e \<longrightarrow> lq_step e q' = None) \<longrightarrow> mset (finished q') = mset (accepted q))"
  using lq_run_internal [OF assms(3,4,1)] stuck_is_done [OF lq_reachable_inv, of n q'] assms(2) by auto

section \<open>The cloud queue\<close>

text \<open>The request the service is asked to make later, under a name of its own.\<close>

record cloud_task =
  ct_name :: string
  ct_url :: string
  ct_method :: string
  ct_headers :: "(string \<times> string) list"
  ct_oidc_token :: OidcToken
  ct_body :: json

record 's cloud_tasks =
  create_task :: "string \<Rightarrow> cloud_task \<Rightarrow> ('s, string, string) comp"

definition make_cloud_tasks_task_name :: "string \<Rightarrow> TaskRun \<Rightarrow> string" where
  "make_cloud_tasks_task_name path run = path @ ''/tasks/'' @ run_id run"

definition pending_task :: "string \<Rightarrow> string \<Rightarrow> OidcToken \<Rightarrow> TaskRun \<Rightarrow> cloud_task" where
  "pending_task path webhook_url oidc_token run =
     \<lparr>ct_name = make_cloud_tasks_task_name path run, ct_url = webhook_url, ct_method = ''POST'',
      ct_headers = [(''Content-Type'', ''application/json'')], ct_oidc_token = oidc_token, ct_body = task_run_json run\<rparr>"

lemma ct_name_pending [simp]: "ct_name (pending_task path webhook_url oidc_token run) = make_cloud_tasks_task_name path run"
  by (simp add: pending_task_def)

text \<open>\<open>{:?}\<close> of a run id: a UUID has no character that is escaped.\<close>

definition cloud_enqueue ::
  "'s cloud_tasks \<Rightarrow> string \<Rightarrow> string \<Rightarrow> OidcToken \<Rightarrow> TaskRun \<Rightarrow> ('s, anyhow, unit) comp" where
  "cloud_enqueue S path webhook_url oidc_token run =
     bindM (map_errM (\<lambda>err. anyhow_msg (''Cloud Tasks create_task failed for run_id '' @ [CHR 0x22] @ run_id run @ [CHR 0x22]
                @ '': '' @ err))
              (create_task S path (pending_task path webhook_url oidc_token run)))
       (\<lambda>_. returnM ())"

text \<open>
  What Cloud Tasks documents of a create request: it adds the task, and it refuses the name of a
  task that exists or was deleted or executed recently. A request that fails for another reason,
  a lost reply for one, may have added the task. \<open>created\<close> are the tasks ever created in the
  service; \<open>remembered\<close> are the names it refuses. Which names it forgets, and when, is left open.
\<close>

definition cloud_laws :: "'s cloud_tasks \<Rightarrow> ('s \<Rightarrow> cloud_task list) \<Rightarrow> ('s \<Rightarrow> string set) \<Rightarrow> bool" where
  "cloud_laws S created remembered \<longleftrightarrow> (\<forall>parent t s.
     (case create_task S parent t s of
        (Inr _, s') \<Rightarrow> ct_name t \<notin> remembered s \<and> created s' = created s @ [t]
      | (Inl _, s') \<Rightarrow> created s' = created s \<or> (ct_name t \<notin> remembered s \<and> created s' = created s @ [t])))"

section \<open>The interface of a run queue\<close>

text \<open>
  \<open>item\<close> is the form in which a queue holds what it was sent. An accepted run is held; after an
  error the run is held or not. Nothing that was held is lost by sending more.
\<close>

fun send_all :: "('a \<Rightarrow> ('s, 'e, unit) comp) \<Rightarrow> 'a list \<Rightarrow> 's \<Rightarrow> ('e + unit) list \<times> 's" where
  "send_all send [] s = ([], s)"
| "send_all send (x # xs) s = (case send x s of (r, s1) \<Rightarrow> (case send_all send xs s1 of (rs, s2) \<Rightarrow> (r # rs, s2)))"

definition acknowledged_sends :: "'a list \<Rightarrow> ('e + unit) list \<Rightarrow> 'a list" where
  "acknowledged_sends xs rs = map fst (filter (\<lambda>(x, r). r = Inr ()) (zip xs rs))"

locale run_queue =
  fixes send :: "'a \<Rightarrow> ('s, 'e, unit) comp"
    and item :: "'a \<Rightarrow> 'b"
    and held :: "'s \<Rightarrow> 'b list"
    and lawful :: "'s \<Rightarrow> bool"
  assumes accepts: "lawful s \<Longrightarrow> send x s = (Inr (), s') \<Longrightarrow> held s' = held s @ [item x] \<and> lawful s'"
    and refuses: "lawful s \<Longrightarrow> send x s = (Inl e, s') \<Longrightarrow> held s' \<in> {held s, held s @ [item x]} \<and> lawful s'"
begin

lemma send_all_held:
  "lawful s \<Longrightarrow> send_all send xs s = (rs, s') \<Longrightarrow>
     \<exists>zs. held s' = held s @ map item zs \<and> subseq zs xs \<and> subseq (acknowledged_sends xs rs) zs \<and> lawful s'"
proof (induction xs arbitrary: s rs)
  case Nil
  then show ?case by (auto simp: acknowledged_sends_def)
next
  case (Cons x xs)
  obtain r s1 rs' where run: "send x s = (r, s1)" "send_all send xs s1 = (rs', s')" "rs = r # rs'"
    using Cons.prems(2) by (auto split: prod.splits)
  have step: "lawful s1 \<and> (held s1 = held s @ [item x] \<or> r \<noteq> Inr () \<and> held s1 = held s)"
    using accepts [OF Cons.prems(1), of x s1] refuses [OF Cons.prems(1), of x _ s1] run(1) by (cases r) auto
  with Cons.IH [OF _ run(2)] obtain zs where zs: "held s' = held s1 @ map item zs" "subseq zs xs"
      "subseq (acknowledged_sends xs rs') zs" "lawful s'" by blast
  have acks: "acknowledged_sends (x # xs) rs = (if r = Inr () then [x] else []) @ acknowledged_sends xs rs'"
    by (simp add: acknowledged_sends_def run(3))
  from step show ?case
  proof (elim conjE disjE)
    assume "held s1 = held s @ [item x]"
    with zs acks show ?thesis by (intro exI [of _ "x # zs"]) (auto intro: list_emb.intros)
  next
    assume "r \<noteq> Inr ()" "held s1 = held s"
    with zs acks show ?thesis by (intro exI [of _ zs]) (auto intro: list_emb.intros)
  qed
qed

end

text \<open>
  A queue may refuse what it knows already, by a key of the item. When whatever is sent again is
  sent while the queue still knows it, nothing is held twice.
\<close>

fun resent_in_time ::
  "('a \<Rightarrow> ('s, 'e, unit) comp) \<Rightarrow> ('a \<Rightarrow> 'k) \<Rightarrow> ('s \<Rightarrow> 'k set) \<Rightarrow> ('s \<Rightarrow> 'k set) \<Rightarrow> 'a list \<Rightarrow> 's \<Rightarrow> bool" where
  "resent_in_time send key ever known [] s = True"
| "resent_in_time send key ever known (x # xs) s =
     ((key x \<in> ever s \<longrightarrow> key x \<in> known s) \<and> resent_in_time send key ever known xs (snd (send x s)))"

locale deduplicating_queue = run_queue send item held lawful
  for send :: "'a \<Rightarrow> ('s, 'e, unit) comp" and item :: "'a \<Rightarrow> 'b" and held :: "'s \<Rightarrow> 'b list" and lawful :: "'s \<Rightarrow> bool" +
  fixes key :: "'b \<Rightarrow> 'k"
    and known :: "'s \<Rightarrow> 'k set"
  assumes adds_unknown: "lawful s \<Longrightarrow> send x s = (r, s') \<Longrightarrow> held s' = held s @ [item x] \<Longrightarrow> key (item x) \<notin> known s"
begin

lemma held_once:
  assumes "lawful s" and "send_all send xs s = (rs, s')"
    and "resent_in_time send (\<lambda>x. key (item x)) (\<lambda>s. key ` set (held s)) known xs s"
    and "held s' = held s @ ys"
  shows "distinct (map key ys) \<and> key ` set ys \<inter> key ` set (held s) = {}"
  using assms
proof (induction xs arbitrary: s rs ys)
  case Nil
  then show ?case by simp
next
  case (Cons x xs)
  obtain r s1 rs' where run: "send x s = (r, s1)" "send_all send xs s1 = (rs', s')"
    using Cons.prems(2) by (auto split: prod.splits)
  have step: "lawful s1" "held s1 = held s \<or> held s1 = held s @ [item x]"
    using accepts [OF Cons.prems(1), of x s1] refuses [OF Cons.prems(1), of x _ s1] run(1) by (cases r; auto)+
  have time: "key (item x) \<in> key ` set (held s) \<longrightarrow> key (item x) \<in> known s"
      "resent_in_time send (\<lambda>x. key (item x)) (\<lambda>s. key ` set (held s)) known xs s1"
    using Cons.prems(3) run(1) by simp_all
  from step(2) show ?case
  proof
    assume "held s1 = held s"
    with Cons.IH [OF step(1) run(2) time(2)] Cons.prems(4) show ?thesis by simp
  next
    assume new: "held s1 = held s @ [item x]"
    from send_all_held [OF step(1) run(2)] obtain zs where zs: "held s' = held s1 @ map item zs" by blast
    with new Cons.prems(4) have ys: "ys = item x # map item zs" by simp
    from Cons.IH [OF step(1) run(2) time(2) zs] new
    have "distinct (map key (map item zs))" "key ` set (map item zs) \<inter> insert (key (item x)) (key ` set (held s)) = {}" by auto
    moreover have "key (item x) \<notin> key ` set (held s)" using adds_unknown [OF Cons.prems(1) run(1) new] time(1) by blast
    ultimately show ?thesis unfolding ys by auto
  qed
qed

end

interpretation model_queue: run_queue "enqueue E" id enqueued "\<lambda>_. True" for E
  by unfold_locales (auto simp: enqueue_def Let_def split: option.splits)

interpretation local_queue: run_queue lq_enqueue id accepted "\<lambda>_. True"
  by unfold_locales (auto simp: lq_enqueue_def split: if_splits)

interpretation cloud_queue: deduplicating_queue "cloud_enqueue S path webhook_url oidc_token"
    "pending_task path webhook_url oidc_token" created "\<lambda>s. cloud_laws S created remembered" ct_name remembered
  for S path webhook_url oidc_token created remembered
proof unfold_locales
  fix run s
  let ?t = "pending_task path webhook_url oidc_token run"
  assume laws: "cloud_laws S created remembered"
  have law: "case create_task S path ?t s of
        (Inr _, s') \<Rightarrow> ct_name ?t \<notin> remembered s \<and> created s' = created s @ [?t]
      | (Inl _, s') \<Rightarrow> created s' = created s \<or> (ct_name ?t \<notin> remembered s \<and> created s' = created s @ [?t])"
    using laws [unfolded cloud_laws_def, THEN spec, THEN spec, THEN spec] .
  show "created s' = created s @ [?t] \<and> cloud_laws S created remembered"
    if "cloud_enqueue S path webhook_url oidc_token run s = (Inr (), s')" for s'
    using that law laws by (auto simp: cloud_enqueue_def runs split: sum.splits prod.splits)
  show "created s' \<in> {created s, created s @ [?t]} \<and> cloud_laws S created remembered"
    if "cloud_enqueue S path webhook_url oidc_token run s = (Inl e, s')" for e s'
    using that law laws by (auto simp: cloud_enqueue_def runs split: sum.splits prod.splits)
  show "ct_name ?t \<notin> remembered s"
    if "cloud_enqueue S path webhook_url oidc_token run s = (r, s')" "created s' = created s @ [?t]" for r s'
    using that law by (auto simp: cloud_enqueue_def runs split: sum.splits prod.splits)
qed

text \<open>
  C38: what Cloud Tasks holds after a series of requests, with whatever failures. The tasks
  created are those of a subsequence of the runs sent, and every run whose request succeeded is
  in it. Each posts to the configured route with the configured token, and what the worker
  decodes from its body is the run. No run has two tasks, provided that a run that is sent again
  is sent while the service still remembers the name of its first task; Cloud Tasks forgets it
  some time after the task was deleted or executed, and nothing in the program bounds how late
  a request is repeated.
\<close>

theorem cloud_queue_correct:
  assumes "cloud_laws S created remembered"
    and "send_all (cloud_enqueue S path webhook_url oidc_token) xs s = (rs, s')"
    and "\<And>run. run \<in> set xs \<Longrightarrow> in_i32 (run_number run) \<and> task_in_range (run_task run)"
  shows "\<exists>zs. created s' = created s @ map (pending_task path webhook_url oidc_token) zs \<and>
     subseq zs xs \<and> subseq (acknowledged_sends xs rs) zs \<and>
     (\<forall>run \<in> set zs. \<forall>t. t = pending_task path webhook_url oidc_token run \<longrightarrow>
        ct_url t = webhook_url \<and> ct_oidc_token t = oidc_token \<and>
        task_run_of_json (task_decoder (run_task run)) (ct_body t) = Some run) \<and>
     (resent_in_time (cloud_enqueue S path webhook_url oidc_token) (make_cloud_tasks_task_name path)
        (\<lambda>s. ct_name ` set (created s)) remembered xs s \<longrightarrow>
      distinct (map run_id zs) \<and>
      (\<forall>run \<in> set zs. make_cloud_tasks_task_name path run \<notin> ct_name ` set (created s)))"
proof -
  obtain zs where zs: "created s' = created s @ map (pending_task path webhook_url oidc_token) zs" "subseq zs xs"
      "subseq (acknowledged_sends xs rs) zs"
    using cloud_queue.send_all_held [OF assms(1,2)] by blast
  have "distinct (map run_id zs) \<and> (\<forall>run \<in> set zs. make_cloud_tasks_task_name path run \<notin> ct_name ` set (created s))"
    if "resent_in_time (cloud_enqueue S path webhook_url oidc_token) (make_cloud_tasks_task_name path)
        (\<lambda>s. ct_name ` set (created s)) remembered xs s"
  proof -
    from cloud_queue.held_once [OF assms(1,2) _ zs(1), unfolded ct_name_pending, OF that]
    have "distinct (map (make_cloud_tasks_task_name path) zs)"
      and disjoint: "make_cloud_tasks_task_name path ` set zs \<inter> ct_name ` set (created s) = {}"
      by (simp_all add: comp_def image_image)
    moreover have names: "map (make_cloud_tasks_task_name path) zs = map (\<lambda>i. path @ ''/tasks/'' @ i) (map run_id zs)"
      by (simp add: make_cloud_tasks_task_name_def)
    ultimately have "distinct (map run_id zs)" unfolding names by (blast dest: distinct_map [THEN iffD1])
    with disjoint show ?thesis by blast
  qed
  moreover have "set zs \<subseteq> set xs" using zs(2) by (auto dest: list_emb_set)
  then have "task_run_of_json (task_decoder (run_task run)) (task_run_json run) = Some run" if "run \<in> set zs" for run
    using that assms(3) by (intro task_run_roundtrip) auto
  ultimately show ?thesis using zs by (intro exI [of _ zs]) (auto simp: pending_task_def)
qed

section \<open>Delivery by a local worker\<close>

text \<open>
  \<open>post url body\<close> is the HTTP exchange of \<open>reqwest\<close>: the status and the text of the reply, or an
  error when there is none. \<open>reason\<close> is the reason phrase of a status.
\<close>

definition post_task ::
  "(string \<Rightarrow> json \<Rightarrow> ('s, anyhow, nat \<times> string) comp) \<Rightarrow> (nat \<Rightarrow> string) \<Rightarrow> string \<Rightarrow> json \<Rightarrow> ('s, anyhow, unit) comp" where
  "post_task post reason url task =
     bindM (post url task) (\<lambda>(status, body).
     if is_success_code status then returnM ()
     else throwM (anyhow_msg (''LocalWebhookClient post failed url='' @ [CHR 0x27] @ url @ [CHR 0x27] @ '' (''
            @ show_nat status @ '' '' @ reason status @ ''): '' @ body)))"

text \<open>
  The route of a kind of task, without a verifier as behind a local queue: a body that does not
  decode is refused with 422; a panic closes the connection.
\<close>

definition worker_route ::
  "providers \<Rightarrow> env \<Rightarrow> int \<Rightarrow> task \<Rightarrow> (nat \<Rightarrow> string) \<Rightarrow> json \<Rightarrow> (world, anyhow, nat \<times> string) comp" where
  "worker_route P E max_attempts kind body_text body w =
     (case task_run_of_json (task_decoder kind) body of
        None \<Rightarrow> (Inr (422, body_text 422), w)
      | Some run \<Rightarrow>
          (case webhook_post P E max_attempts run w of (r, w') \<Rightarrow>
             (case http_reply r of
                Some code \<Rightarrow> (Inr (code, body_text code), w')
              | None \<Rightarrow> (Inl (anyhow_msg ''connection closed before message completed''), w'))))"

text \<open>The handler of \<open>make_task_master\<close>'s local queues, calling this instance's routes.\<close>

definition local_delivery ::
  "providers \<Rightarrow> env \<Rightarrow> int \<Rightarrow> (nat \<Rightarrow> string) \<Rightarrow> (nat \<Rightarrow> string) \<Rightarrow> string \<Rightarrow> TaskRun \<Rightarrow> (world, anyhow, unit) comp" where
  "local_delivery P E max_attempts body_text reason url run =
     post_task (\<lambda>_. worker_route P E max_attempts (run_task run) body_text) reason url (task_run_json run)"

lemma local_delivery_webhook_post:
  assumes "in_i32 (run_number run)" and "task_in_range (run_task run)"
    and "webhook_post P E max_attempts run w = (r, w')"
  shows "snd (local_delivery P E max_attempts body_text reason url run w) = w' \<and>
     (fst (local_delivery P E max_attempts body_text reason url run w) = Inr () \<longleftrightarrow> acknowledged r)"
  using assms by (auto simp: local_delivery_def post_task_def worker_route_def task_run_roundtrip acknowledged_def runs
      split: option.splits)

lemma find_unique_run:
  "distinct (map tr_run_id rows) \<Longrightarrow> row \<in> set rows \<Longrightarrow> find (\<lambda>r. tr_run_id r = tr_run_id row) rows = Some row"
  by (induction rows) (auto simp: image_iff)

text \<open>A task whose latest run is in flight takes no submission, whatever fails.\<close>

lemma blocked_submission:
  assumes "latest_matching (\<lambda>r. tr_logical_id r = make_logical_id task) (task_runs v) = Some row"
    and "tr_status_code row = as_i32 s" and "is_in_flight s" and "submit_inner E task bid v = (r, v')"
  shows "(\<exists>n. v' = v\<lparr>tick := n\<rparr>) \<and> (\<forall>rid k. r \<noteq> Inr (Enqueued rid k)) \<and>
     (no_faults E \<longrightarrow> r = Inr (case Option.bind bid (\<lambda>b. find (\<lambda>x. tr_backfill_id x = Some b \<and>
          tr_logical_id x = make_logical_id task) (task_runs v)) of
        Some x \<Rightarrow> AlreadySubmittedBackfill (tr_run_id x) (tr_run_number x) | None \<Rightarrow> RefusedAlreadyInFlight))"
proof -
  let ?lid = "make_logical_id task"
  let ?claim = "Option.bind bid (\<lambda>b. find (\<lambda>x. tr_backfill_id x = Some b \<and> tr_logical_id x = ?lid) (task_runs v))"
  have ask: "\<exists>n. already_submitted E bid ?lid u \<in> {(Inl e, v\<lparr>tick := n\<rparr>) | e. \<not> no_faults E} \<union>
      {(Inr (map_option (\<lambda>x. AlreadySubmittedBackfill (tr_run_id x) (tr_run_number x)) ?claim), v\<lparr>tick := n\<rparr>)}"
    if "u = v\<lparr>tick := m\<rparr>" for u m
    using that by (cases bid) (auto simp: already_submitted_def query_backfill_run_def select_def stmt_def no_faults_def runs Let_def
        split: option.split)
  have look: "\<exists>n. query_run_status E ?lid None None u \<in> {(Inl e, v\<lparr>tick := n\<rparr>) | e. \<not> no_faults E} \<union> {(Inr (Some row), v\<lparr>tick := n\<rparr>)}"
    if "u = v\<lparr>tick := m\<rparr>" for u m
    using that assms(1) by (auto simp: query_run_status_def select_def stmt_def no_faults_def runs Let_def split: option.split)
  have stop: "decide_next_run (Some row) = None" using assms(2,3) by (simp add: decide_next_run_def)
  obtain n1 where a: "already_submitted E bid ?lid v \<in> {(Inl e, v\<lparr>tick := n1\<rparr>) | e. \<not> no_faults E} \<union>
      {(Inr (map_option (\<lambda>x. AlreadySubmittedBackfill (tr_run_id x) (tr_run_number x)) ?claim), v\<lparr>tick := n1\<rparr>)}"
    using ask [of v "tick v"] by auto
  obtain n2 where q: "query_run_status E ?lid None None (v\<lparr>tick := n1\<rparr>) \<in>
      {(Inl e, v\<lparr>tick := n2\<rparr>) | e. \<not> no_faults E} \<union> {(Inr (Some row), v\<lparr>tick := n2\<rparr>)}" using look by blast
  obtain n3 where again: "already_submitted E bid ?lid (v\<lparr>tick := n2\<rparr>) \<in> {(Inl e, v\<lparr>tick := n3\<rparr>) | e. \<not> no_faults E} \<union>
      {(Inr (map_option (\<lambda>x. AlreadySubmittedBackfill (tr_run_id x) (tr_run_number x)) ?claim), v\<lparr>tick := n3\<rparr>)}"
    using ask by blast
  show ?thesis
  proof (cases ?claim)
    case None
    with a q again stop assms(4) show ?thesis by (auto simp: submit_inner_def runs Let_def)
  next
    case (Some x)
    with a q again stop assms(4) show ?thesis by (auto simp: submit_inner_def runs Let_def)
  qed
qed

text \<open>A series of submissions, each with what happens to it and the backfill it belongs to, and their results.\<close>

fun submit_all :: "(env \<times> task \<times> string option) list \<Rightarrow> world \<Rightarrow> (anyhow + SubmitOutcome) list \<times> world" where
  "submit_all [] w = ([], w)"
| "submit_all ((E, task, bid) # jobs) w =
     (case submit_inner E task bid w of (r, w1) \<Rightarrow> (case submit_all jobs w1 of (rs, w2) \<Rightarrow> (r # rs, w2)))"

definition runs_of :: "string \<Rightarrow> world \<Rightarrow> task_run_row list \<times> TaskRun list" where
  "runs_of lid w = (filter (\<lambda>r. tr_logical_id r = lid) (task_runs w), filter (\<lambda>r. logical_id r = lid) (enqueued w))"

definition refused_as_submitted :: "string \<Rightarrow> world \<Rightarrow> env \<times> task \<times> string option \<Rightarrow> anyhow + SubmitOutcome \<Rightarrow> bool" where
  "refused_as_submitted lid w job r = (case job of (E, task, bid) \<Rightarrow>
     make_logical_id task = lid \<longrightarrow> (\<forall>rid k. r \<noteq> Inr (Enqueued rid k)) \<and>
       (no_faults E \<longrightarrow> r = Inr (case Option.bind bid (\<lambda>b. find (\<lambda>x. tr_backfill_id x = Some b) (fst (runs_of lid w))) of
          Some x \<Rightarrow> AlreadySubmittedBackfill (tr_run_id x) (tr_run_number x) | None \<Rightarrow> RefusedAlreadyInFlight)))"

lemma refused_as_submitted_cong:
  "runs_of lid w1 = runs_of lid w \<Longrightarrow> refused_as_submitted lid w1 = refused_as_submitted lid w"
  by (simp add: refused_as_submitted_def fun_eq_iff)

lemma find_filter: "find p (filter q xs) = find (\<lambda>x. p x \<and> q x) xs"
  by (induction xs) auto

lemma latest_matching_filter: "latest_matching (\<lambda>r. tr_logical_id r = lid) rows = find_max_by tr_run_number (filter (\<lambda>r. tr_logical_id r = lid) rows)"
  by (simp add: latest_matching_def)

lemma blocked_series:
  assumes "find_max_by tr_run_number (fst (runs_of lid w)) = Some row"
    and "tr_status_code row = as_i32 s" and "is_in_flight s" and "submit_all jobs w = (rs, v)"
  shows "runs_of lid v = runs_of lid w \<and> list_all2 (refused_as_submitted lid w) jobs rs"
  using assms(1,4)
proof (induction jobs arbitrary: w rs)
  case Nil
  then show ?case by simp
next
  case (Cons job jobs)
  obtain E task bid where job: "job = (E, task, bid)" by (cases job)
  obtain r w1 rs' where run: "submit_inner E task bid w = (r, w1)" "submit_all jobs w1 = (rs', v)" "rs = r # rs'"
    using Cons.prems(2) by (auto simp: job split: prod.splits)
  have same: "runs_of lid w1 = runs_of lid w \<and> refused_as_submitted lid w job r"
  proof (cases "make_logical_id task = lid")
    case True
    with Cons.prems(1) have "latest_matching (\<lambda>r. tr_logical_id r = make_logical_id task) (task_runs w) = Some row"
      by (simp add: latest_matching_filter runs_of_def)
    from blocked_submission [OF this assms(2,3) run(1)] True show ?thesis
      by (auto simp: runs_of_def refused_as_submitted_def job find_filter)
  next
    case False
    with submit_inner_at_most [OF run(1)] show ?thesis
      by (auto simp: at_most_one_run_def runs_of_def refused_as_submitted_def job)
  qed
  have "runs_of lid v = runs_of lid w1 \<and> list_all2 (refused_as_submitted lid w1) jobs rs'"
    using Cons.prems(1) same by (intro Cons.IH run(2)) simp
  with same run(3) refused_as_submitted_cong [of lid w1 w] show ?case by simp
qed

text \<open>
  C40: a local queue does not redeliver, and the task master relies on it. When the delivery of a
  recorded run by a local worker fails, in a working instance, and the run is the latest of its
  task, it is left waiting for a retry. Take any series of submissions from then on, of any tasks,
  for any backfills, whatever fails: not one run of this task is recorded or enqueued. Where
  nothing fails, a submission of the task for a backfill that has a run of it is answered with
  that run, every other one is refused as in flight. As the queue starts a run once, no delivery
  ends this.
\<close>

theorem failed_local_delivery_blocks_task:
  assumes "no_faults E" and "urls_ok P w" and "phase (run_id run) w = Some (s, n)"
    and "in_i32 (run_number run)" and "task_in_range (run_task run)"
    and "\<And>sk. run_task run = Spark sk \<Longrightarrow> sk_capture_ids sk \<noteq> []"
    and "local_delivery P E max_attempts body_text reason url run w = (Inl e, w')"
    and "distinct (map tr_run_id (task_runs w'))"
    and "latest_matching (\<lambda>r. tr_logical_id r = lid) (task_runs w') = Some row" and "tr_run_id row = run_id run"
    and "submit_all jobs w' = (rs, v)"
  shows "tr_status_code row = as_i32 ErrorWillRetry \<and> runs_of lid v = runs_of lid w' \<and>
     list_all2 (refused_as_submitted lid w') jobs rs"
proof -
  obtain work where d: "webhook_post P E max_attempts run = deliver E max_attempts run work"
    and k: "\<And>a p. keeps (\<lambda>w. phase (run_id run) w = Some p) (work a)" and soft: "\<And>a. fails_softly (urls_ok P) (work a)"
    by (rule webhook_post_deliver [of run P E max_attempts]) (use assms(6) in blast)+
  obtain r v where r: "deliver E max_attempts run work w = (r, v)" by fastforce
  with local_delivery_webhook_post [OF assms(4,5), of P E max_attempts w r v body_text reason url] assms(7)
  have v: "v = w'" and nack: "\<not> acknowledged r" by (simp_all add: d)
  obtain c where c: "r = Inr c"
    using deliver_replies [where I = "urls_ok P", OF assms(1,2) soft _ _ _ _ r] by (auto simp: urls_ok_def)
  from deliver_result [OF assms(3) k r] c nack obtain result where
    "phase (run_id run) w' = Some (as_i32 (attempt_status max_attempts (add_i32 n 1) result), add_i32 n 1)"
    "\<not> is_success_code (http_status_for_task_run (attempt_status max_attempts (add_i32 n 1) result))"
    by (auto simp: v acknowledged_def is_success_code_def)
  moreover have "row \<in> set (task_runs w')" using assms(9) by (auto dest: latest_matching_SomeD)
  with assms(8,10) have "phase (run_id run) w' = Some (tr_status_code row, tr_attempts row)"
    by (auto simp: phase_def dest: find_unique_run)
  ultimately have status: "tr_status_code row = as_i32 ErrorWillRetry"
    using attempt_status_cases [of max_attempts "add_i32 n 1" result]
    by (auto simp: is_success_code_def http_status_for_task_run_def)
  with blocked_series [OF _ status _ assms(11), of lid] assms(9) show ?thesis
    by (simp add: latest_matching_filter runs_of_def)
qed

section \<open>Examples\<close>

text \<open>Two runs through a queue of one worker: the second waits for the permit of the first.\<close>

definition demo_events :: "nat lq_event list" where
  "demo_events = [Enqueue 7, Enqueue 8, Dispatch, Dispatch, Dispatch]"

lemma reachable_run: "lq_reachable n q \<Longrightarrow> lq_run es q = Some q' \<Longrightarrow> lq_reachable n q'"
  by (induction es arbitrary: q) (auto simp: bind_eq_Some_conv intro: lq_reachable.stepped)

theorem local_queue_correct_witness:
  "\<exists>q. lq_run demo_events (lq_connect 0) = Some q \<and> running q = [7] \<and> holding q = Some 8 \<and> permits q = 0 \<and>
     length (running q) \<le> max 0 1 \<and> started q = finished q @ running q"
proof -
  obtain q where q: "lq_run demo_events (lq_connect 0) = Some q" "running q = [7]" "holding q = Some 8" "permits q = 0"
    by (simp add: demo_events_def lq_connect_def lq_defs Let_def)
  with local_queue_correct [OF reachable_run [OF lq_reachable.connected q(1)], of undefined] show ?thesis by auto
qed

theorem local_queue_drains_witness:
  "\<exists>q q'. lq_run demo_events (lq_connect 0) = Some q \<and> lq_work q = 4 \<and>
     lq_run [WorkerEnds 0, Dispatch, WorkerEnds 0] q = Some q' \<and> mset (finished q') = mset [7, 8]"
proof -
  obtain q q' where q: "lq_run demo_events (lq_connect 0) = Some q" "handles q = 1" "lq_work q = 4" "accepted q = [7, 8]"
    "lq_run [WorkerEnds 0, Dispatch, WorkerEnds 0] q = Some q'"
    and stuck: "\<And>e. internal_event e \<Longrightarrow> lq_step e q' = None"
  proof -
    let ?q = "the (lq_run demo_events (lq_connect 0)) :: nat local_queue"
    let ?q' = "the (lq_run [WorkerEnds 0, Dispatch, WorkerEnds 0] ?q)"
    have "lq_step e ?q' = None" if "internal_event e" for e
      using that by (cases e) (simp_all add: demo_events_def lq_connect_def lq_defs Let_def)
    then show thesis
      by (intro that [of ?q ?q']) (simp_all add: demo_events_def lq_connect_def lq_defs lq_work_def Let_def)
  qed
  from local_queue_drains [OF reachable_run [OF lq_reachable.connected q(1)] _ _ q(5)] q stuck show ?thesis by auto
qed

text \<open>A service that keeps the tasks it created and remembers only the name of the last.\<close>

definition demo_remembered :: "cloud_task list \<Rightarrow> string set" where
  "demo_remembered ts = (if ts = [] then {} else {ct_name (last ts)})"

definition demo_cloud :: "cloud_task list cloud_tasks" where
  "demo_cloud = \<lparr>create_task = (\<lambda>_ t ts. if ct_name t \<in> demo_remembered ts then (Inl ''ALREADY_EXISTS'', ts) else (Inr (ct_name t), ts @ [t]))\<rparr>"

definition demo_token :: OidcToken where
  "demo_token = \<lparr>ot_service_account_email = ''sa'', ot_audience = ''aud''\<rparr>"

definition demo_other_run :: TaskRun where
  "demo_other_run = demo_run\<lparr>run_id := ''r2''\<rparr>"

text \<open>A request repeated at once is refused; repeated after the name is forgotten it makes a second task.\<close>

theorem cloud_queue_correct_witness:
  "(\<exists>rs ts. send_all (cloud_enqueue demo_cloud ''q'' ''u'' demo_token) [demo_run, demo_run] [] = (rs, ts) \<and>
      map (\<lambda>r. r = Inr ()) rs = [True, False] \<and>
      (\<exists>zs. ts = map (pending_task ''q'' ''u'' demo_token) zs \<and> subseq [demo_run] zs \<and> distinct (map run_id zs))) \<and>
   map ct_name (snd (send_all (cloud_enqueue demo_cloud ''q'' ''u'' demo_token) [demo_run, demo_other_run, demo_run] [])) =
     [''q/tasks/r1'', ''q/tasks/r2'', ''q/tasks/r1'']"
proof
  note defs = cloud_enqueue_def demo_cloud_def runs pending_task_def demo_remembered_def make_cloud_tasks_task_name_def
    demo_other_run_def demo_run_def
  show "map ct_name (snd (send_all (cloud_enqueue demo_cloud ''q'' ''u'' demo_token) [demo_run, demo_other_run, demo_run] [])) =
     [''q/tasks/r1'', ''q/tasks/r2'', ''q/tasks/r1'']"
    by (simp add: defs)
  have laws: "cloud_laws demo_cloud id demo_remembered" by (simp add: cloud_laws_def demo_cloud_def)
  have "\<exists>rs ts. send_all (cloud_enqueue demo_cloud ''q'' ''u'' demo_token) [demo_run, demo_run] [] = (rs, ts) \<and>
      map (\<lambda>r. r = Inr ()) rs = [True, False] \<and> acknowledged_sends [demo_run, demo_run] rs = [demo_run]"
    by (simp add: defs acknowledged_sends_def)
  then obtain rs ts where run: "send_all (cloud_enqueue demo_cloud ''q'' ''u'' demo_token) [demo_run, demo_run] [] = (rs, ts)"
    "map (\<lambda>r. r = Inr ()) rs = [True, False]" "acknowledged_sends [demo_run, demo_run] rs = [demo_run]" by (elim exE conjE)
  have time: "resent_in_time (cloud_enqueue demo_cloud ''q'' ''u'' demo_token) (make_cloud_tasks_task_name ''q'')
      (\<lambda>s. ct_name ` set (id s)) demo_remembered [demo_run, demo_run] []"
    by (simp add: defs)
  from cloud_queue_correct [OF laws run(1)] run(3) time
  obtain zs where "ts = map (pending_task ''q'' ''u'' demo_token) zs" "subseq [demo_run] zs" "distinct (map run_id zs)"
    by (auto simp: demo_run_def in_i32_def)
  with run(1,2) show "\<exists>rs ts. send_all (cloud_enqueue demo_cloud ''q'' ''u'' demo_token) [demo_run, demo_run] [] = (rs, ts) \<and>
      map (\<lambda>r. r = Inr ()) rs = [True, False] \<and>
      (\<exists>zs. ts = map (pending_task ''q'' ''u'' demo_token) zs \<and> subseq [demo_run] zs \<and> distinct (map run_id zs))"
    by (intro exI [of _ rs] exI [of _ ts] conjI exI [of _ zs])
qed

text \<open>The capture to index has no illumination yet: a server error.\<close>

definition demo_unready :: world where
  "demo_unready = demo_world\<lparr>captures := [cx_row demo_capture]\<rparr>"

theorem failed_local_delivery_blocks_task_witness:
  "\<exists>e w'. local_delivery demo_providers quiet_env 3 (\<lambda>_. []) (\<lambda>_. []) ''u'' demo_run demo_unready = (Inl e, w') \<and>
     fst (submit_all [(quiet_env, run_task demo_run, None), (quiet_env, run_task demo_run, Some ''b'')] w') =
       [Inr RefusedAlreadyInFlight, Inr RefusedAlreadyInFlight]"
proof -
  let ?deliver = "local_delivery demo_providers quiet_env 3 (\<lambda>_. []) (\<lambda>_. []) ''u'' demo_run"
  let ?jobs = "[(quiet_env, run_task demo_run, None), (quiet_env, run_task demo_run, Some ''b'')]"
  let ?lid = "make_logical_id (run_task demo_run)"
  have ran: "isl (fst (?deliver demo_unready)) \<and>
      map (\<lambda>r. (tr_run_id r, tr_logical_id r, tr_backfill_id r)) (task_runs (snd (?deliver demo_unready)))
        = [(run_id demo_run, ?lid, None)]"
    by code_simp
  obtain e w' where w': "?deliver demo_unready = (Inl e, w')"
    using ran by (cases "?deliver demo_unready"; cases "fst (?deliver demo_unready)") auto
  obtain row where row: "task_runs w' = [row]" "tr_run_id row = run_id demo_run" "tr_logical_id row = ?lid" "tr_backfill_id row = None"
    using ran w' by auto
  have urls: "urls_ok demo_providers demo_unready" by (simp add: urls_ok_def demo_unready_def demo_world_def empty_world_def)
  have phase: "phase (run_id demo_run) demo_unready = Some (as_i32 Queued, 0)" by (simp add: phase_def demo_unready_def)
  have latest: "latest_matching (\<lambda>r. tr_logical_id r = ?lid) (task_runs w') = Some row"
    using row by (simp add: latest_matching_def find_max_by_def)
  have wf: "in_i32 (run_number demo_run)" "task_in_range (run_task demo_run)" "\<And>sk. run_task demo_run = Spark sk \<Longrightarrow> sk_capture_ids sk \<noteq> []"
    by (simp_all add: demo_run_def in_i32_def)
  have one: "distinct (map tr_run_id (task_runs w'))" using row(1) by simp
  obtain rs v where jobs: "submit_all ?jobs w' = (rs, v)" by fastforce
  from failed_local_delivery_blocks_task [OF no_faults_quiet urls phase wf(1,2) wf(3) w' one latest row(2) jobs]
  have "list_all2 (refused_as_submitted ?lid w') ?jobs rs" by blast
  moreover have "fst (runs_of ?lid w') = [row]" using row by (simp add: runs_of_def)
  ultimately have "rs = [Inr RefusedAlreadyInFlight, Inr RefusedAlreadyInFlight]"
    using row(4) by (auto simp: refused_as_submitted_def list_all2_Cons1)
  with w' jobs show ?thesis by (intro exI [of _ e] exI [of _ w']) simp
qed

end
