(* ===== verification/Isolation.thy ===== *)
theory Isolation
  imports User_Client Admin
begin

text \<open>
  Users do not interfere. Every operation of \<open>api/user/client.rs\<close> leaves what belongs to other
  users as it was, whatever fails in between: the rows of their captures with everything that
  hangs on them, their accounts, their runs and the runs queued for them. The proofs go through
  one invariant, \<open>secluded\<close>, and the rules of \<open>Prelude\<close> and \<open>World\<close>.
\<close>

section \<open>What is not the user's\<close>

text \<open>Global aggregates (\<open>timings\<close>) and announcements are nobody's; the tick is not data.\<close>

definition foreign :: "int \<Rightarrow> world \<Rightarrow> world" where
  "foreign u w = w\<lparr>tick := 0, timings := [], published := [],
     task_runs := filter (\<lambda>r. tr_entity_owner_id r \<noteq> u) (task_runs w),
     users := filter (\<lambda>r. us_id r \<noteq> u) (users w),
     captures := filter (\<lambda>r. ca_user_id r \<noteq> u) (captures w),
     medias := filter (\<lambda>r. md_user_id r \<noteq> u) (medias w),
     annotations := filter (\<lambda>r. an_user_id r \<noteq> u) (annotations w),
     illuminations := filter (\<lambda>r. il_user_id r \<noteq> u) (illuminations w),
     illumination_raws := filter (\<lambda>r. ir_user_id r \<noteq> u) (illumination_raws w),
     knowledge_entities := filter (\<lambda>r. ke_user_id r \<noteq> u) (knowledge_entities w),
     search_indexes := filter (\<lambda>r. si_user_id r \<noteq> u) (search_indexes w),
     enqueued := filter (\<lambda>run. entity_owner_id (run_task run) \<noteq> u) (enqueued w)\<rparr>"

text \<open>The primary keys of the tables a user's operations update by key.\<close>

definition keys_ok :: "world \<Rightarrow> bool" where
  "keys_ok w \<longleftrightarrow> distinct (map us_id (users w)) \<and> distinct (map ca_id (captures w)) \<and>
     distinct (map an_id (annotations w)) \<and> distinct (map tr_run_id (task_runs w))"

definition secluded :: "int \<Rightarrow> world \<Rightarrow> world \<Rightarrow> bool" where
  "secluded u x w \<longleftrightarrow> keys_ok w \<and> foreign u w = x"

lemma tick_free_secluded [simp]: "tick_free (secluded u x)"
  by (simp add: tick_free_def secluded_def keys_ok_def foreign_def)

lemma tick_free_conj [simp]: "tick_free P \<Longrightarrow> (\<And>w n. Q (w\<lparr>tick := n\<rparr>) = Q w) \<Longrightarrow> tick_free (\<lambda>w. P w \<and> Q w)"
  by (simp add: tick_free_def)

lemma keeps_read_only: "leaves (\<lambda>w. w\<lparr>tick := 0\<rparr>) m \<Longrightarrow> keeps (secluded u x) m"
proof (rule keepsI)
  fix w assume "leaves (\<lambda>w. w\<lparr>tick := 0\<rparr>) m" and w: "secluded u x w"
  then have "(snd (m w))\<lparr>tick := 0\<rparr> = w\<lparr>tick := 0\<rparr>" by (simp add: leavesD)
  with w show "secluded u x (snd (m w))" by (metis tick_freeD tick_free_secluded)
qed

lemma filter_update_own:
  assumes "distinct (map k xs)" and "a \<in> set xs" and "\<not> p a" and "\<not> p (f a)"
  shows "filter p (update_where (\<lambda>r. k r = k a) f xs) = filter p xs"
  using assms(1,2)
proof (induction xs)
  case (Cons y ys)
  have rest: "update_where (\<lambda>r. k r = k a) f zs = zs" if "k a \<notin> k ` set zs" for zs
    using that by (induction zs) (auto simp: update_where_def)
  from Cons assms(3,4) show ?case
    by (cases "y = a") (auto simp: update_where_def dest: rest)
qed simp

section \<open>Rules for statements\<close>

lemma triple_consequence:
  assumes "triple P m Q R" and "\<And>s. P' s \<Longrightarrow> P s" and "\<And>x s. Q x s \<Longrightarrow> Q' x s" and "\<And>e s. R e s \<Longrightarrow> R' e s"
  shows "triple P' m Q' R'"
  by (intro tripleI) (use assms tripleD [OF assms(1)] in blast)+

lemma triple_stmt:
  assumes "tick_free P" and "\<And>now. triple P (body now) Q R" and "\<And>e w. P w \<Longrightarrow> R e w"
  shows "triple P (stmt E body) Q R"
proof (rule tripleI)
  fix w x w' assume w: "P w" and run: "stmt E body w = (Inr x, w')"
  from w assms(1) have "P (w\<lparr>tick := Suc (tick w)\<rparr>)" by (simp add: tick_freeD)
  with run tripleD(1) [OF assms(2)] show "Q x w'" by (auto simp: stmt_def Let_def split: option.splits)
next
  fix w e w' assume w: "P w" and run: "stmt E body w = (Inl e, w')"
  from w assms(1) have "P (w\<lparr>tick := Suc (tick w)\<rparr>)" by (simp add: tick_freeD)
  with run tripleD(2) [OF assms(2)] assms(3) show "R e w'" by (auto simp: stmt_def Let_def split: option.splits)
qed

lemma triple_select:
  assumes "tick_free P" and "\<And>e w. P w \<Longrightarrow> R e w"
  shows "triple P (select E q) (\<lambda>x w. P w \<and> x = q w) R"
  unfolding select_def by (rule triple_stmt [OF assms(1) triple_getM]) (simp_all add: assms)

lemma triple_execute:
  assumes "tick_free P" and "\<And>now w. P w \<Longrightarrow> I (f now w)" and "\<And>w. P w \<Longrightarrow> I w"
  shows "triple P (execute E f) (\<lambda>_. I) (\<lambda>_. I)"
  unfolding execute_def by (rule triple_stmt [OF assms(1) triple_modifyM]) (simp_all add: assms)

text \<open>A query answers, and what is then known of the answer holds until the tables change.\<close>

lemma triple_query:
  assumes "tick_free P" and "\<And>x. triple (\<lambda>w. P w \<and> x = q w) (k x) Q R" and "\<And>e w. P w \<Longrightarrow> R e w"
  shows "triple P (bindM (map_errM g (select E q)) k) Q R"
  by (rule triple_bindM [OF triple_map_errM [OF triple_select [OF assms(1)]] assms(2)]) (rule assms(3))

lemma triple_now:
  assumes "tick_free P" and "\<And>now. triple P (k now) Q R"
  shows "triple P (bindM (utc_now E) k) Q R"
proof -
  have "triple P (utc_now E) (\<lambda>_. P) R" using assms(1) by (simp add: triple_def utc_now_def tick_free_def)
  then show ?thesis by (rule triple_bindM) (rule assms(2))
qed

section \<open>Changes of captures, annotations and the account\<close>

lemma own_capture_secluded:
  assumes "\<And>c. triple (\<lambda>w. secluded u x w \<and> c \<in> set (captures w) \<and> ca_id c = cid \<and> ca_user_id c = u) (k c) (\<lambda>_. secluded u x) (\<lambda>_. secluded u x)"
    and "ctx_user_id context = u"
  shows "keeps (secluded u x) (bindM (own_capture E context cid) k)"
  unfolding own_capture_def bindM_assoc
proof (rule triple_query)
  fix found
  show "triple (\<lambda>w. secluded u x w \<and> found = find (\<lambda>c. ca_id c = cid \<and> ca_user_id c = ctx_user_id context) (captures w))
      (bindM (case found of None \<Rightarrow> throwM (access_denied cid) | Some c \<Rightarrow> returnM c) k) (\<lambda>_. secluded u x) (\<lambda>_. secluded u x)"
  proof (cases found)
    case (Some c)
    have "triple (\<lambda>w. secluded u x w \<and> found = find (\<lambda>c. ca_id c = cid \<and> ca_user_id c = ctx_user_id context) (captures w))
        (k c) (\<lambda>_. secluded u x) (\<lambda>_. secluded u x)"
      by (rule triple_weaken [OF assms(1)]) (use Some assms(2) in \<open>auto simp: find_Some_iff dest!: sym [of "Some _"]\<close>)
    with Some show ?thesis by simp
  qed (auto intro: triple_throwM)
qed simp_all

lemma foreign_update_capture:
  assumes "secluded u x w" and "c \<in> set (captures w)" and "ca_user_id c = u"
    and "\<And>r. ca_id (f r) = ca_id r \<and> ca_user_id (f r) = ca_user_id r"
  shows "secluded u x (w\<lparr>captures := update_where (\<lambda>r. ca_id r = ca_id c) f (captures w)\<rparr>)"
proof -
  have "filter (\<lambda>r. ca_user_id r \<noteq> u) (update_where (\<lambda>r. ca_id r = ca_id c) f (captures w)) = filter (\<lambda>r. ca_user_id r \<noteq> u) (captures w)"
    using assms by (intro filter_update_own) (auto simp: secluded_def keys_ok_def)
  with assms show ?thesis by (auto simp: secluded_def keys_ok_def foreign_def update_id_keys)
qed

lemma archive_secluded:
  assumes "ctx_user_id context = u"
  shows "keeps (secluded u x) (set_capture_archive_state E context cid archived)"
  unfolding set_capture_archive_state_def
proof (rule own_capture_secluded [OF _ assms])
  fix c
  let ?P = "\<lambda>w. secluded u x w \<and> c \<in> set (captures w) \<and> ca_id c = cid \<and> ca_user_id c = u"
  have "triple ?P (map_errM api_of_db (execute E (\<lambda>_ w. w\<lparr>captures :=
       update_where (\<lambda>r. ca_id r = ca_id c) (\<lambda>r. r\<lparr>ca_archived_at := stamp\<rparr>) (captures w)\<rparr>))) (\<lambda>_. secluded u x) (\<lambda>_. secluded u x)" for stamp
    by (intro triple_map_errM triple_execute) (auto intro: foreign_update_capture)
  then show "triple ?P (bindM (if archived then bindM (utc_now E) (\<lambda>now. returnM (Some now)) else returnM None) (\<lambda>stamp.
     map_errM api_of_db (execute E (\<lambda>_ w. w\<lparr>captures :=
       update_where (\<lambda>r. ca_id r = ca_id c) (\<lambda>r. r\<lparr>ca_archived_at := stamp\<rparr>) (captures w)\<rparr>)))) (\<lambda>_. secluded u x) (\<lambda>_. secluded u x)"
    by (cases archived) (auto simp: bindM_assoc intro!: triple_now)
qed

lemma foreign_update_annotation:
  assumes "secluded u x w" and "a \<in> set (annotations w)" and "an_user_id a = u"
    and "\<And>r. an_id (f r) = an_id r \<and> an_user_id (f r) = an_user_id r"
  shows "secluded u x (w\<lparr>annotations := update_where (\<lambda>r. an_id r = an_id a) f (annotations w)\<rparr>)"
proof -
  have "filter (\<lambda>r. an_user_id r \<noteq> u) (update_where (\<lambda>r. an_id r = an_id a) f (annotations w)) = filter (\<lambda>r. an_user_id r \<noteq> u) (annotations w)"
    using assms by (intro filter_update_own) (auto simp: secluded_def keys_ok_def)
  with assms show ?thesis by (auto simp: secluded_def keys_ok_def foreign_def update_id_keys)
qed

text \<open>The annotation a change starts from is the caller's.\<close>

lemma active_annotation_secluded:
  assumes "\<And>found. triple (\<lambda>w. secluded u x w \<and> (\<forall>a. found = Some a \<longrightarrow> a \<in> set (annotations w) \<and> an_user_id a = u))
      (k found) (\<lambda>_. secluded u x) (\<lambda>_. secluded u x)"
    and "ctx_user_id context = u"
  shows "keeps (secluded u x) (bindM (active_annotation E context cid) k)"
  unfolding active_annotation_def
proof (rule triple_query)
  fix found
  show "triple (\<lambda>w. secluded u x w \<and> found = find_max_by an_id (filter (\<lambda>a. an_user_id a = ctx_user_id context \<and>
        an_capture_id a = cid \<and> an_archived_at a = None) (annotations w))) (k found) (\<lambda>_. secluded u x) (\<lambda>_. secluded u x)"
    by (rule triple_weaken [OF assms(1)]) (use assms(2) in \<open>auto dest!: sym [of "Some _"] find_max_by_SomeD\<close>)
qed simp_all

lemma store_annotation_secluded:
  "triple (\<lambda>w. secluded u x w \<and> (\<forall>a. existing = Some a \<longrightarrow> a \<in> set (annotations w) \<and> an_user_id a = u))
     (store_annotation E u cid content existing now) (\<lambda>_. secluded u x) (\<lambda>_. secluded u x)" (is "triple ?P _ _ _")
proof -
  have reread: "keeps (secluded u x) (bindM (map_errM api_of_db (select E (\<lambda>w. find (\<lambda>r. an_id r = aid) (annotations w)))) (\<lambda>loaded.
     case loaded of
       Some a \<Rightarrow> returnM a
     | None \<Rightarrow> throwM (internal (anyhow_msg (''failed to load annotation '' @ show_int aid @ '' after write'')))))" for aid
    by (rule keeps_read_only) (auto intro!: frame)
  have insert: "secluded u x (w\<lparr>annotations := annotations w @ [\<lparr>an_id = next_id an_id (annotations w), an_user_id = u,
        an_capture_id = cid, an_created_at = now, an_updated_at = now, an_archived_at = None, an_content = content\<rparr>]\<rparr>)"
    if "secluded u x w" for w
    using that next_id_fresh [of an_id "annotations w"] by (simp add: secluded_def keys_ok_def foreign_def)
  show ?thesis
  proof (cases existing)
    case None
    show ?thesis
      unfolding store_annotation_def None option.case
      by (rule triple_bindM [OF triple_map_errM [OF triple_stmt] reread]) (auto simp: triple_def Let_def insert)
  next
    case (Some a)
    have "triple ?P (execute E (\<lambda>_ w. w\<lparr>annotations :=
        update_where (\<lambda>r. an_id r = an_id a) (\<lambda>r. r\<lparr>an_content := content, an_updated_at := now\<rparr>) (annotations w)\<rparr>))
        (\<lambda>_. secluded u x) (\<lambda>_. secluded u x)"
      using Some by (intro triple_execute) (auto intro!: foreign_update_annotation)
    then have "triple ?P (if an_content a \<noteq> content
           then bindM (execute E (\<lambda>_ w. w\<lparr>annotations :=
                  update_where (\<lambda>r. an_id r = an_id a) (\<lambda>r. r\<lparr>an_content := content, an_updated_at := now\<rparr>)
                    (annotations w)\<rparr>)) (\<lambda>_. returnM (an_id a))
           else returnM (an_id a)) (\<lambda>_. secluded u x) (\<lambda>_. secluded u x)"
      by (auto intro!: triple_if triple_bindM triple_returnM)
    then show ?thesis unfolding store_annotation_def Some option.case by (rule triple_bindM [OF triple_map_errM reread])
  qed
qed

lemma set_annotation_secluded:
  assumes "ctx_user_id context = u"
  shows "keeps (secluded u x) (set_annotation E context cid content)"
proof -
  have store: "triple (\<lambda>w. secluded u x w \<and> (\<forall>a. found = Some a \<longrightarrow> a \<in> set (annotations w) \<and> an_user_id a = u))
      (bindM (utc_now E) (\<lambda>now. store_annotation E (ctx_user_id context) cid content' found now)) (\<lambda>_. secluded u x) (\<lambda>_. secluded u x)"
    for found content'
    by (rule triple_now) (simp_all add: assms store_annotation_secluded)
  have "triple (\<lambda>w. secluded u x w \<and> Q w) (bindM (active_annotation E context cid) (\<lambda>existing.
      bindM (utc_now E) (\<lambda>now. store_annotation E (ctx_user_id context) cid content' existing now))) (\<lambda>_. secluded u x) (\<lambda>_. secluded u x)"
    for Q content'
    by (rule triple_weaken [OF active_annotation_secluded [OF store assms]]) simp
  from this [unfolded conj_assoc] show ?thesis
    unfolding set_annotation_def Let_def
    by (intro triple_if triple_throwM own_capture_secluded [OF _ assms])
qed

lemma soft_delete_secluded:
  assumes "ctx_user_id context = u"
  shows "keeps (secluded u x) (soft_delete_annotation E context cid)"
proof -
  have archive: "triple (\<lambda>w. secluded u x w \<and> (\<forall>a. found = Some a \<longrightarrow> a \<in> set (annotations w) \<and> an_user_id a = u))
      (case found of
       None \<Rightarrow> returnM ()
     | Some a \<Rightarrow>
         bindM (utc_now E) (\<lambda>now.
         map_errM api_of_db (execute E (\<lambda>_ w. w\<lparr>annotations :=
           update_where (\<lambda>r. an_id r = an_id a) (\<lambda>r. r\<lparr>an_archived_at := Some now\<rparr>) (annotations w)\<rparr>))))
      (\<lambda>_. secluded u x) (\<lambda>_. secluded u x)" for found
    by (cases found) (auto intro!: triple_returnM triple_now triple_map_errM triple_execute foreign_update_annotation)
  have "triple (\<lambda>w. secluded u x w \<and> Q w) (bindM (active_annotation E context cid) (\<lambda>found.
      case found of
       None \<Rightarrow> returnM ()
     | Some a \<Rightarrow>
         bindM (utc_now E) (\<lambda>now.
         map_errM api_of_db (execute E (\<lambda>_ w. w\<lparr>annotations :=
           update_where (\<lambda>r. an_id r = an_id a) (\<lambda>r. r\<lparr>an_archived_at := Some now\<rparr>) (annotations w)\<rparr>)))))
      (\<lambda>_. secluded u x) (\<lambda>_. secluded u x)" for Q
    by (rule triple_weaken [OF active_annotation_secluded [OF archive assms]]) simp
  then show ?thesis unfolding soft_delete_annotation_def by (intro own_capture_secluded [OF _ assms])
qed

lemma change_password_secluded:
  assumes "ctx_user_id context = u"
  shows "keeps (secluded u x) (change_password A E context current_password new_password)"
proof -
  have changed: "secluded u x (w\<lparr>users := update_where (\<lambda>r. us_id r = us_id db_user) (\<lambda>r. r\<lparr>us_password_hash := h\<rparr>) (users w)\<rparr>)"
    if "secluded u x w" "db_user \<in> set (users w)" "us_id db_user = u" for w db_user h
    using that filter_update_own [of us_id "users w" db_user "\<lambda>r. us_id r \<noteq> u"]
    by (simp add: secluded_def keys_ok_def foreign_def update_id_keys)
  show ?thesis
    unfolding change_password_def
    by (intro triple_if triple_throwM triple_query)
       (auto intro!: triple_throwM triple_if triple_map_errM triple_execute changed simp: assms find_Some_iff
          dest!: sym [of "Some _"] split: option.split sum.split)
qed

section \<open>Deletion and upload\<close>

lemma filter_delete_own: "(\<And>r. r \<in> set xs \<Longrightarrow> q r \<Longrightarrow> \<not> p r) \<Longrightarrow> filter p (delete_where q xs) = filter p xs"
  by (induction xs) (auto simp: delete_where_def)

lemma filter_delete_scoped: "filter (\<lambda>r. k r \<noteq> u) (delete_where (\<lambda>r. k r = u \<and> q r) xs) = filter (\<lambda>r. k r \<noteq> u) xs"
  by (rule filter_delete_own) simp

lemma distinct_delete: "distinct (map k xs) \<Longrightarrow> distinct (map k (delete_where q xs))"
  by (simp add: delete_where_def distinct_map_filter)

text \<open>Deletions by owner, and the last one, by key, of a capture that was found to be the owner's.\<close>

lemma keeps_guarded_delete:
  assumes "tick_free P" and "\<And>w. P w \<Longrightarrow> P (f w)"
  shows "keeps P (guarded_delete E referenced f)"
  unfolding guarded_delete_def by (rule keeps_stmt [OF assms(1)]) (auto simp: triple_def assms)

lemma delete_capture_secluded:
  assumes "ctx_user_id context = u"
  shows "keeps (secluded u x) (delete_capture E context cid)"
  unfolding delete_capture_def assms Let_def
proof (rule triple_query)
  fix found
  let ?P = "\<lambda>w. secluded u x w \<and> (\<forall>c \<in> set (captures w). ca_id c = cid \<longrightarrow> ca_user_id c = u)"
  let ?deletes = "map_errM api_of_db (
           bindM (execute E (\<lambda>_ w. w\<lparr>search_indexes :=
              delete_where (\<lambda>r. si_user_id r = u \<and> si_capture_id r = cid) (search_indexes w)\<rparr>)) (\<lambda>_.
           bindM (execute E (\<lambda>_ w. w\<lparr>knowledge_entities :=
              delete_where (\<lambda>r. ke_user_id r = u \<and> ke_capture_id r = cid) (knowledge_entities w)\<rparr>)) (\<lambda>_.
           bindM (execute E (\<lambda>_ w. w\<lparr>illumination_raws :=
              delete_where (\<lambda>r. ir_user_id r = u \<and> ir_capture_id r = cid) (illumination_raws w)\<rparr>)) (\<lambda>_.
           bindM (guarded_delete E (illumination_referenced (\<lambda>i. il_user_id i = u \<and> il_capture_id i = cid))
              (\<lambda>w. w\<lparr>illuminations := delete_where (\<lambda>r. il_user_id r = u \<and> il_capture_id r = cid) (illuminations w)\<rparr>)) (\<lambda>_.
           bindM (guarded_delete E (media_referenced (\<lambda>m. md_user_id m = u \<and> md_capture_id m = cid))
              (\<lambda>w. w\<lparr>medias := delete_where (\<lambda>r. md_user_id r = u \<and> md_capture_id r = cid) (medias w)\<rparr>)) (\<lambda>_.
           bindM (execute E (\<lambda>_ w. w\<lparr>annotations :=
              delete_where (\<lambda>r. an_user_id r = u \<and> an_capture_id r = cid) (annotations w)\<rparr>)) (\<lambda>_.
           guarded_delete E (capture_referenced cid)
              (\<lambda>w. w\<lparr>captures := delete_where (\<lambda>c. ca_id c = cid) (captures w)\<rparr>))))))))"
  have tick: "tick_free ?P" by (rule tick_free_conj) simp_all
  have deletes: "keeps ?P ?deletes"
    by (intro keep keeps_guarded_delete tick)
       (auto simp: secluded_def keys_ok_def foreign_def filter_delete_scoped filter_delete_own distinct_delete)
  show "triple (\<lambda>w. secluded u x w \<and> found = find (\<lambda>c. ca_id c = cid) (captures w))
     (case found of None \<Rightarrow> throwM (not_found (anyhow_msg (''Capture with id '' @ show_int cid @ '' not found'')))
      | Some c \<Rightarrow> if ca_user_id c \<noteq> u then throwM (access_denied cid) else ?deletes) (\<lambda>_. secluded u x) (\<lambda>_. secluded u x)"
  proof (cases found)
    case (Some c)
    have "?P w" if "secluded u x w" "found = find (\<lambda>c. ca_id c = cid) (captures w)" "ca_user_id c = u" for w
    proof -
      have "distinct (map ca_id (captures w))" using that(1) by (simp add: secluded_def keys_ok_def)
      with that Some show ?thesis by (auto simp: find_Some_iff dest!: sym [of "Some _"] dest: find_by_id)
    qed
    then have "ca_user_id c = u \<Longrightarrow> triple (\<lambda>w. secluded u x w \<and> found = find (\<lambda>c. ca_id c = cid) (captures w))
        ?deletes (\<lambda>_. secluded u x) (\<lambda>_. secluded u x)"
      by (intro triple_consequence [OF deletes]) auto
    with Some show ?thesis by (auto intro: triple_throwM)
  qed (auto intro: triple_throwM)
qed simp_all

lemma keeps_case_prod: "(\<And>a b. keeps I (k a b)) \<Longrightarrow> keeps I (case y of (a, b) \<Rightarrow> k a b)"
  by (cases y) simp

lemma save_secluded:
  assumes "ctx_user_id context = u"
  shows "keeps (secluded u x) (insert_capture S E context bytes dedupe created_at)"
proof -
  have row: "keeps (secluded u x) (insert_capture_row E u stamp)" for stamp
  proof -
    have "secluded u x (w\<lparr>captures := captures w @ [\<lparr>ca_id = next_id ca_id (captures w), ca_user_id = u,
        ca_created_at = stamp, ca_archived_at = None\<rparr>]\<rparr>)" if "secluded u x w" for w
      using that next_id_fresh [of ca_id "captures w"] by (simp add: secluded_def keys_ok_def foreign_def)
    then show ?thesis
      unfolding insert_capture_row_def by (intro triple_map_errM keeps_stmt) (auto simp: triple_def Let_def)
  qed
  have media: "keeps (secluded u x) (insert_media_row E (media_row_for u cid n mime hex handle))" for cid n mime hex handle
    unfolding insert_media_row_def
    by (intro triple_map_errM keeps_stmt) (auto simp: triple_def Let_def secluded_def keys_ok_def foreign_def media_row_for_def)
  have outside: "keeps (secluded u x) (call_out g)" for g :: "nat \<Rightarrow> anyhow + 'a"
    by (rule keeps_read_only) (intro frame, simp)
  have query: "keeps (secluded u x) (select E q)" for q :: "world \<Rightarrow> 'b" by (rule keeps_select) simp
  have clock: "keeps (secluded u x) (utc_now E :: (world, 'e, timestamp) comp)" by (rule keeps_utc_now) simp
  show ?thesis
    unfolding insert_capture_def Let_def assms
    by (intro keeps_bindM keeps_liftM triple_if keeps_returnM triple_map_errM query triple_throwM outside
        keeps_transaction tick_free_secluded row media triple_case_option clock keeps_case_prod)
qed

section \<open>Submissions\<close>

lemma secluded_task_runs:
  assumes "secluded u x w"
    and "w'\<lparr>tick := 0, timings := [], published := [], task_runs := []\<rparr> = w\<lparr>tick := 0, timings := [], published := [], task_runs := []\<rparr>"
    and "filter (\<lambda>r. tr_entity_owner_id r \<noteq> u) (task_runs w') = filter (\<lambda>r. tr_entity_owner_id r \<noteq> u) (task_runs w)"
    and "distinct (map tr_run_id (task_runs w'))"
  shows "secluded u x w'"
proof -
  have "foreign u w' = foreign u w" using assms(2,3) by (cases w; cases w') (simp add: foreign_def)
  moreover have "keys_ok w'" using assms(1,2,4) by (cases w; cases w') (simp add: keys_ok_def secluded_def)
  ultimately show ?thesis using assms(1) by (simp add: secluded_def)
qed

text \<open>A run recorded for the user is the only one of its id, so a write to it is a write to the user's.\<close>

lemma insert_run_secluded:
  assumes "entity_owner_id (run_task run) = u"
  shows "triple (secluded u x) (insert_run E run)
     (\<lambda>inserted w. secluded u x w \<and> (inserted \<longrightarrow> (\<forall>r \<in> set (task_runs w). tr_run_id r = run_id run \<longrightarrow> tr_entity_owner_id r = u)))
     (\<lambda>_. secluded u x)"
proof -
  have result: "secluded u x w' \<and> (r = Inr True \<longrightarrow> (\<forall>r \<in> set (task_runs w'). tr_run_id r = run_id run \<longrightarrow> tr_entity_owner_id r = u))"
    if w: "secluded u x w" and run: "insert_run E run w = (r, w')" for w r w'
  proof -
    have "w'\<lparr>tick := 0, timings := [], published := [], task_runs := []\<rparr> = w\<lparr>tick := 0, timings := [], published := [], task_runs := []\<rparr>"
      by (rule leaves_run [OF leaves_insert_run run]) simp_all
    note rest = secluded_task_runs [OF w this]
    have keys: "distinct (map tr_run_id (task_runs w))" using w by (simp add: secluded_def keys_ok_def)
    from insert_run_result [OF run] show ?thesis
    proof (elim disjE conjE exE)
      fix i now
      let ?row = "new_task_run_row run i now"
      assume "r = Inr True" and free: "task_run_conflicts E (task_runs w) ?row = []" and rows: "task_runs w' = task_runs w @ [?row]"
      have row: "tr_run_id ?row = run_id run" "tr_entity_owner_id ?row = u" by (simp_all add: new_task_run_row_def assms)
      have "\<forall>r \<in> set (task_runs w). tr_run_id r \<noteq> run_id run" "run_id run \<notin> tr_run_id ` set (task_runs w)"
        using free row(1) by (auto simp: task_run_conflicts_def split: if_splits)
      with rest keys rows row show ?thesis by auto
    next
      assume "r \<noteq> Inr True" and "task_runs w' = task_runs w"
      with rest keys show ?thesis by simp
    qed
  qed
  show ?thesis by (rule tripleI) (use result in fastforce)+
qed

lemma write_own_run_secluded:
  assumes "status_only extras"
  shows "triple (\<lambda>w. secluded u x w \<and> (\<forall>r \<in> set (task_runs w). tr_run_id r = run_id run \<longrightarrow> tr_entity_owner_id r = u))
     (write_status E run status attempts extras) (\<lambda>_. secluded u x) (\<lambda>_. secluded u x)"
proof -
  have result: "secluded u x w'"
    if w: "secluded u x w" "\<forall>r \<in> set (task_runs w). tr_run_id r = run_id run \<longrightarrow> tr_entity_owner_id r = u"
      and run: "write_status E run status attempts extras w = (r, w')" for w r w'
  proof -
    have "w'\<lparr>tick := 0, timings := [], published := [], task_runs := []\<rparr> = w\<lparr>tick := 0, timings := [], published := [], task_runs := []\<rparr>"
      by (rule leaves_run [OF leaves_write_status run]) simp_all
    note rest = secluded_task_runs [OF w(1) this]
    have keys: "distinct (map tr_run_id (task_runs w))" using w by (simp add: secluded_def keys_ok_def)
    let ?update = "\<lambda>now. update_where (\<lambda>r. tr_run_id r = run_id run) (written_row now status attempts extras)"
    note kept = identityD [OF identity_written_row [OF assms]]
    have "filter (\<lambda>r. tr_entity_owner_id r \<noteq> u) (?update now rows) = filter (\<lambda>r. tr_entity_owner_id r \<noteq> u) rows"
      if "\<forall>r \<in> set rows. tr_run_id r = run_id run \<longrightarrow> tr_entity_owner_id r = u" for now rows
      using that by (induction rows) (simp_all add: update_where_def kept(7))
    moreover have "map tr_run_id (?update now rows) = map tr_run_id rows" for now rows
      by (rule map_update_where) (rule kept)
    ultimately show ?thesis
      using write_status_result [OF run] w(2) keys by (intro rest) (simp_all split: option.splits)
  qed
  show ?thesis by (rule tripleI) (use result in blast)+
qed

lemma dispatch_run_secluded:
  assumes "entity_owner_id (run_task run) = u"
  shows "triple (\<lambda>w. secluded u x w \<and> (\<forall>r \<in> set (task_runs w). tr_run_id r = run_id run \<longrightarrow> tr_entity_owner_id r = u))
     (dispatch_run E run) (\<lambda>_. secluded u x) (\<lambda>_. secluded u x)" (is "triple ?P _ _ _")
proof -
  have sent: "triple ?P (catchM (enqueue E run)) (\<lambda>_. ?P) (\<lambda>_. secluded u x)"
    using assms by (auto simp: triple_def catchM_def enqueue_def Let_def secluded_def keys_ok_def foreign_def split: option.split)
  have failed: "triple ?P (bindM (set_status E run SubmissionFailed 0 (Some e)) (\<lambda>_. throwM (anyhow_of_api e))) (\<lambda>_. secluded u x) (\<lambda>_. secluded u x)" for e
    unfolding set_status_def
    by (rule triple_bindM [OF write_own_run_secluded [OF status_only_extras(1)] triple_throwM])
  show ?thesis
    unfolding dispatch_run_def Let_def
    by (rule triple_bindM [OF sent]) (simp split: sum.split, auto intro: failed triple_returnM)
qed

lemma submit_inner_secluded:
  assumes "entity_owner_id task = u"
  shows "keeps (secluded u x) (submit_inner E task bid)"
proof -
  let ?run = "\<lambda>uuid n. (task_run_new uuid task n)\<lparr>backfill_id := bid\<rparr>"
  have owner: "entity_owner_id (run_task (?run uuid n)) = u" for uuid n by (simp add: task_run_new_def assms)
  have query: "keeps (secluded u x) (already_submitted E bid lid)" "keeps (secluded u x) (query_run_status E lid None None)" for lid
    by (rule keeps_read_only, intro frame, simp)+
  have recorded: "keeps (secluded u x) (bindM (insert_run E (?run uuid n)) (\<lambda>inserted.
      if \<not> inserted then bindM (already_submitted E bid lid) (\<lambda>again.
                returnM (case again of Some outcome \<Rightarrow> outcome | None \<Rightarrow> RefusedAlreadyInFlight))
      else dispatch_run E (?run uuid n)))" for uuid n lid
  proof (rule triple_bindM [OF insert_run_secluded [OF owner]])
    fix inserted
    have "keeps (secluded u x) (bindM (already_submitted E bid lid) (\<lambda>again.
        returnM (case again of Some outcome \<Rightarrow> outcome | None \<Rightarrow> RefusedAlreadyInFlight)))"
      by (intro keeps_bindM query keeps_returnM)
    from triple_weaken [OF this] triple_weaken [OF dispatch_run_secluded [OF owner]]
    show "triple (\<lambda>w. secluded u x w \<and> (inserted \<longrightarrow> (\<forall>r \<in> set (task_runs w). tr_run_id r = run_id (?run uuid n) \<longrightarrow> tr_entity_owner_id r = u)))
        (if \<not> inserted then bindM (already_submitted E bid lid) (\<lambda>again.
                returnM (case again of Some outcome \<Rightarrow> outcome | None \<Rightarrow> RefusedAlreadyInFlight))
         else dispatch_run E (?run uuid n)) (\<lambda>_. secluded u x) (\<lambda>_. secluded u x)"
      by (intro triple_if) auto
  qed
  show ?thesis
    unfolding submit_inner_def Let_def
    by (intro keeps_bindM query triple_case_option keeps_returnM recorded keeps_new_uuid tick_free_secluded)
qed

section \<open>The operations of a user\<close>

text \<open>Without administrator rights, the gate of a submission only lets the user's own tasks through.\<close>

lemma submit_secluded:
  assumes "ctx_user_id context = u" and "\<not> ctx_is_admin context"
  shows "keeps (secluded u x) (submit_illuminate E context it bid)" "keeps (secluded u x) (submit_spark E context sk bid)"
    "keeps (secluded u x) (submit_search_index E context st bid)"
proof -
  have gated: "keeps (secluded u x) (bindM (liftM (ensure_task_submission_allowed context task)) (\<lambda>_. map_errM internal (submit_inner E task bid)))"
    for task
    using assms by (cases "entity_owner_id task = u")
      (auto simp: ensure_task_submission_allowed_def triple_def runs intro: keepsD [OF submit_inner_secluded]
        split: prod.split sum.split dest: tripleD [OF submit_inner_secluded])
  show "keeps (secluded u x) (submit_illuminate E context it bid)" "keeps (secluded u x) (submit_spark E context sk bid)"
    "keeps (secluded u x) (submit_search_index E context st bid)"
    unfolding submit_illuminate_def submit_spark_def submit_search_index_def by (intro triple_if keeps_throwM gated)+
qed

lemma read_captures_secluded:
  "keeps (secluded u x) (get_captures E context ids)" "keeps (secluded u x) (capture_info P m)"
  "keeps (secluded u x) (capture_infos P ms)" "keeps (secluded u x) (capture_previews P ms)"
  "keeps (secluded u x) (get_capture E context i)" "keeps (secluded u x) (get_timeline_captures E context n)"
  "keeps (secluded u x) (get_captures_archived E context n)" "keeps (secluded u x) (get_captures_for_previews E context ids)"
  unfolding get_captures_def get_captures_including_archived_def load_captures_def capture_info_def capture_infos_def
    capture_previews_def get_capture_def get_timeline_captures_def get_captures_archived_def get_captures_for_previews_def
  by (rule keeps_read_only; auto intro!: frame split: list.split)+

lemma enqueue_secluded:
  assumes "ctx_user_id context = u" and "\<not> ctx_is_admin context"
  shows "keeps (secluded u x) (enqueue_illumination self E context cid version level persist)"
    "keeps (secluded u x) (enqueue_search_index E context cid)" "keeps (secluded u x) (enqueue_spark E context ids)"
  unfolding enqueue_illumination_def enqueue_search_index_def enqueue_spark_def
  by (intro keeps_bindM read_captures_secluded triple_if keeps_throwM keeps_returnM keeps_new_uuid tick_free_secluded
      submit_secluded [OF assms] | split list.split, intro conjI impI allI keeps_bindM keeps_throwM keeps_liftM submit_secluded [OF assms])+

lemma store_and_signal_secluded:
  assumes "ctx_user_id context = u" and "\<not> ctx_is_admin context"
  shows "keeps (secluded u x) (store_and_signal self E context bytes dedupe created_at)"
  unfolding store_and_signal_def new_capture_def
  by (intro keeps_bindM keeps_map_errM keeps_liftM keeps_catchM keeps_returnM save_secluded submit_secluded read_captures_secluded assms)

text \<open>
  The vector service is outside the database: a call of it changes no table, and its reply
  does not depend on the tables.
\<close>

definition remote :: "(world, 'e, 'a) comp \<Rightarrow> bool" where
  "remote m \<longleftrightarrow> leaves (\<lambda>w. w\<lparr>tick := 0\<rparr>) m \<and>
     (\<forall>w w'. tick w = tick w' \<longrightarrow> fst (m w) = fst (m w') \<and> tick (snd (m w)) = tick (snd (m w')))"

definition outside_database :: "(world, 'f, 'd) vertex \<Rightarrow> bool" where
  "outside_database V \<longleftrightarrow>
     (\<forall>c s t. remote (search_data_objects V c s t)) \<and> (\<forall>c ss k. remote (batch_search_data_objects V c ss k)) \<and>
     (\<forall>n. remote (get_data_object V n)) \<and> (\<forall>j t. remote (embed_normalizing V j t))"

lemma search_secluded:
  assumes "outside_database V"
  shows "keeps (secluded u x) (capture_search V context query limit)" "keeps (secluded u x) (capture_search_similar F V context cid limit)"
proof -
  have calls: "leaves (\<lambda>w. w\<lparr>tick := 0\<rparr>) (search_data_objects V c s t)" "leaves (\<lambda>w. w\<lparr>tick := 0\<rparr>) (batch_search_data_objects V c ss k)"
    "leaves (\<lambda>w. w\<lparr>tick := 0\<rparr>) (get_data_object V n)" "leaves (\<lambda>w. w\<lparr>tick := 0\<rparr>) (embed_normalizing V j q)" for c s t ss k n j q
    using assms by (simp_all add: outside_database_def remote_def)
  show "keeps (secluded u x) (capture_search V context query limit)" "keeps (secluded u x) (capture_search_similar F V context cid limit)"
    unfolding capture_search_def capture_search_similar_def embed_query_def search_hybrid_def search_embedding_def
      fetch_object_embedding_def Let_def
    by (intro keeps_read_only; auto intro!: frame calls split: list.split object_vector.split)+
qed


lemma read_only_secluded:
  "keeps (secluded u x) (client_get_entity E context i)" "keeps (secluded u x) (client_get_entities_by_type E context etype)"
  "keeps (secluded u x) (get_illumination_raw E context rid)" "keeps (secluded u x) (client_get_task_run E context rid)"
  "keeps (secluded u x) (authenticate A E name password)"
  unfolding client_get_entity_def client_get_entities_by_type_def get_knowledge_entity_def get_knowledge_entities_by_type_def
    get_illumination_raw_def client_get_task_run_def master_query_run_status_def authenticate_def query_run_status_def
  by (rule keeps_read_only; auto intro!: frame)+

lemma client_reads_secluded:
  "keeps (secluded u x) (client_get_captures self E context ids)"
  "keeps (secluded u x) (client_get_timeline_captures self E context n)"
  unfolding client_get_captures_def client_get_timeline_captures_def
  by (intro keeps_bindM keeps_map_errM read_captures_secluded)+

lemma client_search_secluded:
  assumes "outside_database (uc_vertex self)"
  shows "keeps (secluded u x) (client_search self E context query limit)"
    "keeps (secluded u x) (client_search_similar self E context cid limit)"
  unfolding client_search_def client_search_similar_def
  by (intro keeps_bindM keeps_map_errM read_captures_secluded search_secluded [OF assms] triple_if keeps_returnM)+

lemma client_set_annotation_secluded:
  assumes "ctx_user_id context = u"
  shows "keeps (secluded u x) (client_set_annotation E context cid content)"
  unfolding client_set_annotation_def by (intro keeps_bindM keeps_returnM set_annotation_secluded assms)

end
