(* ===== verification/Confinement.thy ===== *)
theory Confinement
  imports Isolation
begin

text \<open>
  What a user reads says nothing about others. Two states that agree on a user's own rows
  answer each of the user's reads alike, and stay alike: the relation \<open>alike\<close>, the rules that
  compose it (collection \<open>confine\<close>), and the reads of \<open>api/user/client.rs\<close> that obey it.
\<close>

section \<open>Two states that look the same to a user\<close>

definition own :: "int \<Rightarrow> world \<Rightarrow> world" where
  "own u w = empty_world\<lparr>tick := tick w,
     task_runs := filter (\<lambda>r. tr_entity_owner_id r = u) (task_runs w),
     captures := filter (\<lambda>r. ca_user_id r = u) (captures w),
     medias := filter (\<lambda>r. md_user_id r = u) (medias w),
     annotations := filter (\<lambda>r. an_user_id r = u) (annotations w),
     illuminations := filter (\<lambda>r. il_user_id r = u) (illuminations w),
     illumination_raws := filter (\<lambda>r. ir_user_id r = u) (illumination_raws w),
     knowledge_entities := filter (\<lambda>r. ke_user_id r = u) (knowledge_entities w)\<rparr>"

lemma own_sel [simp]:
  "tick (own u w) = tick w"
  "captures (own u w) = filter (\<lambda>r. ca_user_id r = u) (captures w)"
  "medias (own u w) = filter (\<lambda>r. md_user_id r = u) (medias w)"
  "annotations (own u w) = filter (\<lambda>r. an_user_id r = u) (annotations w)"
  "illuminations (own u w) = filter (\<lambda>r. il_user_id r = u) (illuminations w)"
  "illumination_raws (own u w) = filter (\<lambda>r. ir_user_id r = u) (illumination_raws w)"
  "knowledge_entities (own u w) = filter (\<lambda>r. ke_user_id r = u) (knowledge_entities w)"
  "task_runs (own u w) = filter (\<lambda>r. tr_entity_owner_id r = u) (task_runs w)"
  by (simp_all add: own_def)

lemma own_tick: "own u (w\<lparr>tick := n\<rparr>) = (own u w)\<lparr>tick := n\<rparr>"
  by (simp add: own_def)

text \<open>A row that hangs on another carries the owner of the other.\<close>

definition owners_ok :: "world \<Rightarrow> bool" where
  "owners_ok w \<longleftrightarrow>
     (\<forall>c \<in> set (captures w).
        (\<forall>m \<in> set (medias w). md_capture_id m = ca_id c \<longrightarrow> md_user_id m = ca_user_id c) \<and>
        (\<forall>a \<in> set (annotations w). an_capture_id a = ca_id c \<longrightarrow> an_user_id a = ca_user_id c) \<and>
        (\<forall>i \<in> set (illuminations w). il_capture_id i = ca_id c \<longrightarrow> il_user_id i = ca_user_id c) \<and>
        (\<forall>e \<in> set (knowledge_entities w). ke_capture_id e = ca_id c \<longrightarrow> ke_user_id e = ca_user_id c)) \<and>
     (\<forall>i \<in> set (illuminations w). \<forall>e \<in> set (knowledge_entities w). ke_illumination_id e = il_id i \<longrightarrow> ke_user_id e = il_user_id i)"

definition alike :: "int \<Rightarrow> world \<Rightarrow> world \<Rightarrow> bool" where
  "alike u w w' \<longleftrightarrow> owners_ok w \<and> owners_ok w' \<and> own u w = own u w'"

definition confined :: "int \<Rightarrow> (world, 'e, 'a) comp \<Rightarrow> bool" where
  "confined u m \<longleftrightarrow> (\<forall>w w'. alike u w w' \<longrightarrow> fst (m w) = fst (m w') \<and> alike u (snd (m w)) (snd (m w')))"

named_theorems confine

lemma alike_tick: "alike u w w' \<Longrightarrow> tick w = tick w'"
  by (metis alike_def own_sel(1))

lemma alike_advance: "alike u w w' \<Longrightarrow> alike u (w\<lparr>tick := n\<rparr>) (w'\<lparr>tick := n\<rparr>)"
  by (simp add: alike_def owners_ok_def own_tick)

lemma confined_returnM [confine]: "confined u (returnM x)"
  by (simp add: confined_def runs)

lemma confined_throwM [confine]: "confined u (throwM e)"
  by (simp add: confined_def runs)

lemma confined_liftM [confine]: "confined u (liftM r)"
  by (simp add: confined_def runs)

lemma confined_bindM [confine]:
  assumes "confined u m" and "\<And>x. confined u (k x)"
  shows "confined u (bindM m k)"
  using assms unfolding confined_def
  by (auto simp: runs split: prod.splits sum.splits) (metis fst_conv snd_conv sum.sel sum.disc)+

lemma confined_map_errM [confine]: "confined u m \<Longrightarrow> confined u (map_errM f m)"
  unfolding confined_def by (auto simp: runs split: prod.splits sum.splits) (metis fst_conv snd_conv sum.sel sum.disc)+

lemma confined_catchM [confine]: "confined u m \<Longrightarrow> confined u (catchM m)"
  by (simp add: confined_def runs)

lemma confined_if [confine]: "confined u m \<Longrightarrow> confined u n \<Longrightarrow> confined u (if b then m else n)"
  by simp

lemma confined_case_option [confine]:
  "confined u m \<Longrightarrow> (\<And>x. confined u (k x)) \<Longrightarrow> confined u (case y of None \<Rightarrow> m | Some x \<Rightarrow> k x)"
  by (simp split: option.split)

lemma confined_case_sum [confine]:
  "(\<And>e. confined u (m e)) \<Longrightarrow> (\<And>x. confined u (k x)) \<Longrightarrow> confined u (case y of Inl e \<Rightarrow> m e | Inr x \<Rightarrow> k x)"
  by (simp split: sum.split)

lemma confined_case_list [confine]:
  "confined u m \<Longrightarrow> (\<And>x xs. confined u (k x xs)) \<Longrightarrow> confined u (case l of [] \<Rightarrow> m | x # xs \<Rightarrow> k x xs)"
  by (simp split: list.split)

lemma confined_tick [confine]: "confined u (getM tick)"
  by (auto simp: confined_def runs dest: alike_tick)

text \<open>A query is confined when the user's own rows determine its answer.\<close>

lemma confined_select [confine]:
  assumes "\<And>w. owners_ok w \<Longrightarrow> q w = f (own u w)"
  shows "confined u (select E q)"
  unfolding confined_def
proof (intro allI impI)
  fix w w' assume w: "alike u w w'"
  from alike_tick [OF w] have [simp]: "tick w' = tick w" by simp
  note next' = alike_advance [OF w, of "Suc (tick w)"]
  then have "q (w\<lparr>tick := Suc (tick w)\<rparr>) = q (w'\<lparr>tick := Suc (tick w)\<rparr>)" by (simp add: alike_def assms)
  with next' show "fst (select E q w) = fst (select E q w') \<and> alike u (snd (select E q w)) (snd (select E q w'))"
    by (simp add: select_def stmt_def runs Let_def split: option.split)
qed

section \<open>What the user's rows determine\<close>

lemma filter_implied: "(\<And>x. x \<in> set xs \<Longrightarrow> p x \<Longrightarrow> q x) \<Longrightarrow> filter p (filter q xs) = filter p xs"
  by (induction xs) auto

lemma find_implied:
  assumes "\<And>x. x \<in> set xs \<Longrightarrow> p x \<Longrightarrow> q x" and "\<And>x. x \<in> set xs \<Longrightarrow> q x \<Longrightarrow> p x = p' x"
  shows "find p xs = find p' (filter q xs)"
  using assms
proof (induction xs)
  case (Cons y ys)
  have "find p ys = find p' (filter q ys)" by (rule Cons.IH) (rule Cons.prems, simp, assumption)+
  with Cons.prems(1) [of y] Cons.prems(2) [of y] show ?case by (cases "q y"; cases "p y") simp_all
qed simp

lemma load_own_capture:
  assumes "owners_ok w" and "c \<in> set (captures w)" and "ca_user_id c = u"
  shows "load_capture (own u w) c = load_capture w c"
proof -
  have ill: "filter (\<lambda>i. il_capture_id i = ca_id c) (filter (\<lambda>i. il_user_id i = u) (illuminations w)) =
      filter (\<lambda>i. il_capture_id i = ca_id c) (illuminations w)"
    by (rule filter_implied) (use assms in \<open>auto simp: owners_ok_def\<close>)
  have "filter (\<lambda>e. ke_illumination_id e = il_id i) (filter (\<lambda>e. ke_user_id e = u) (knowledge_entities w)) =
      filter (\<lambda>e. ke_illumination_id e = il_id i) (knowledge_entities w)"
    if "i \<in> set (illuminations w)" "il_capture_id i = ca_id c" for i
    by (rule filter_implied) (use assms that in \<open>auto simp: owners_ok_def\<close>)
  moreover have "filter (\<lambda>m. md_capture_id m = ca_id c) (filter (\<lambda>m. md_user_id m = u) (medias w)) =
      filter (\<lambda>m. md_capture_id m = ca_id c) (medias w)"
    by (rule filter_implied) (use assms in \<open>auto simp: owners_ok_def\<close>)
  moreover have "filter (\<lambda>a. an_capture_id a = ca_id c) (filter (\<lambda>a. an_user_id a = u) (annotations w)) =
      filter (\<lambda>a. an_capture_id a = ca_id c) (annotations w)"
    by (rule filter_implied) (use assms in \<open>auto simp: owners_ok_def\<close>)
  ultimately show ?thesis by (simp add: load_capture_def ill del: filter_filter cong: map_cong)
qed

lemma own_active_capture:
  assumes "owners_ok w" and "e \<in> set (knowledge_entities w)" and "ke_user_id e = u"
  shows "in_active_capture (own u w) (ke_capture_id e) = in_active_capture w (ke_capture_id e)"
  using assms by (auto simp: in_active_capture_def owners_ok_def)

section \<open>The reads\<close>

lemma load_captures_confined [confine]:
  assumes "ctx_user_id context = u"
  shows "confined u (load_captures E context ids include_archived)"
proof -
  have "map (load_capture w) (filter (\<lambda>c. ca_user_id c = u \<and> P c) (captures w)) =
      map (load_capture (own u w)) (filter (\<lambda>c. ca_user_id c = u \<and> P c) (captures (own u w)))"
    if "owners_ok w" for P w
    using that by (auto simp: load_own_capture)
  then show ?thesis
    unfolding load_captures_def assms
    by (intro confine confined_select [where f = "\<lambda>w. map (load_capture w) (filter (\<lambda>c. ca_user_id c = u \<and>
        (ca_id c \<in> set ids \<and> (include_archived \<or> ca_archived_at c = None))) (captures w))"])
qed

lemma confined_own_captures [confine]:
  assumes "\<And>cs. f (filter (\<lambda>c. ca_user_id c = u) cs) = f cs"
  shows "confined u (select E (\<lambda>w. f (captures w)))"
  by (rule confined_select [where f = "\<lambda>w. f (captures w)"]) (simp add: assms)

lemma get_captures_confined [confine]:
  assumes "ctx_user_id context = u"
  shows "confined u (get_captures E context ids)" "confined u (get_capture E context i)"
    "confined u (get_timeline_captures E context n)" "confined u (get_captures_archived E context n)"
  unfolding get_captures_def get_captures_including_archived_def get_capture_def get_timeline_captures_def
    get_captures_archived_def assms
  by (intro confine assms; simp add: conj_commute)+

lemma capture_infos_confined [confine]: "confined u (capture_info P m)" "confined u (capture_infos P ms)" "confined u (capture_previews P ms)"
  unfolding capture_info_def capture_infos_def capture_previews_def by (intro confine)+

lemma entity_reads_confined [confine]:
  assumes "ctx_user_id context = u"
  shows "confined u (client_get_entity E context i)" "confined u (client_get_entities_by_type E context etype)"
proof -
  have scope: "filter (\<lambda>e. ke_user_id e = u \<and> in_active_capture w (ke_capture_id e) \<and> P e) (knowledge_entities w) =
      filter (\<lambda>e. ke_user_id e = u \<and> in_active_capture (own u w) (ke_capture_id e) \<and> P e) (knowledge_entities (own u w))"
    if "owners_ok w" for P w
    using that by (auto simp: own_active_capture intro!: filter_cong)
  have find: "find (\<lambda>e. ke_user_id e = u \<and> ke_id e = i \<and> in_active_capture w (ke_capture_id e)) (knowledge_entities w) =
      find (\<lambda>e. ke_user_id e = u \<and> ke_id e = i \<and> in_active_capture (own u w) (ke_capture_id e)) (knowledge_entities (own u w))"
    if "owners_ok w" for w
    unfolding own_sel by (rule find_implied) (use that own_active_capture in auto)
  show "confined u (client_get_entity E context i)"
    unfolding client_get_entity_def get_knowledge_entity_def assms by (intro confine
        confined_select [where f = "\<lambda>w. find (\<lambda>e. ke_user_id e = u \<and> ke_id e = i \<and> in_active_capture w (ke_capture_id e))
          (knowledge_entities w)"] find)
  show "confined u (client_get_entities_by_type E context etype)"
    unfolding client_get_entities_by_type_def get_knowledge_entities_by_type_def assms
    by (intro confine confined_select [where f = "\<lambda>w. sort_key ke_id (filter (\<lambda>e. ke_user_id e = u \<and>
        in_active_capture w (ke_capture_id e) \<and> ke_entity_type e = etype) (knowledge_entities w))"]) (simp add: scope)
qed


lemma confined_remote: "remote m \<Longrightarrow> confined u m"
proof -
  assume m: "remote m"
  have only_tick: "\<exists>n. snd (m w) = w\<lparr>tick := n\<rparr>" for w
    using m leavesD [of "\<lambda>w. w\<lparr>tick := 0\<rparr>" m w]
    by (intro exI [of _ "tick (snd (m w))"]) (cases w; cases "snd (m w)"; simp add: remote_def)
  have "alike u (snd (m w)) (snd (m w'))" if w: "alike u w w'" for w w'
  proof -
    obtain n n' where "snd (m w) = w\<lparr>tick := n\<rparr>" "snd (m w') = w'\<lparr>tick := n'\<rparr>" using only_tick by blast
    moreover have "tick (snd (m w)) = tick (snd (m w'))" using m alike_tick [OF w] unfolding remote_def by blast
    ultimately show ?thesis using alike_advance [OF w] by simp
  qed
  moreover have "fst (m w) = fst (m w')" if "alike u w w'" for w w'
    using m alike_tick [OF that] unfolding remote_def by blast
  ultimately show ?thesis unfolding confined_def by blast
qed

lemma row_reads_confined [confine]:
  assumes "ctx_user_id context = u"
  shows "confined u (get_illumination_raw E context rid)" "confined u (client_get_task_run E context rid)"
proof -
  have raw: "find (\<lambda>r. ir_user_id r = u \<and> ir_task_run_id r = rid) (illumination_raws w) =
      find (\<lambda>r. ir_user_id r = u \<and> ir_task_run_id r = rid) (illumination_raws (own u w))" for w
    unfolding own_sel by (rule find_implied) simp_all
  have row: "find (\<lambda>r. tr_run_id r = rid \<and> tr_entity_owner_id r = u) (task_runs w) =
      find (\<lambda>r. tr_run_id r = rid \<and> tr_entity_owner_id r = u) (task_runs (own u w))" for w
    unfolding own_sel by (rule find_implied) simp_all
  show "confined u (get_illumination_raw E context rid)"
    unfolding get_illumination_raw_def assms
    by (intro confine confined_select [where f = "\<lambda>w. find (\<lambda>r. ir_user_id r = u \<and> ir_task_run_id r = rid) (illumination_raws w)"] raw)
  show "confined u (client_get_task_run E context rid)"
    unfolding client_get_task_run_def master_query_run_status_def query_run_by_id_def assms option.case
    by (intro confine confined_select [where f = "\<lambda>w. find (\<lambda>r. tr_run_id r = rid \<and> tr_entity_owner_id r = u) (task_runs w)"] row)
qed

lemma search_confined [confine]:
  assumes "outside_database V"
  shows "confined u (capture_search V context query limit)" "confined u (capture_search_similar F V context cid limit)"
proof -
  have calls: "confined u (search_data_objects V c s t)" "confined u (batch_search_data_objects V c ss k)"
    "confined u (get_data_object V n)" "confined u (embed_normalizing V j q)" for c s t ss k n j q
    using assms by (auto simp: outside_database_def intro: confined_remote)
  show "confined u (capture_search V context query limit)" "confined u (capture_search_similar F V context cid limit)"
    unfolding capture_search_def capture_search_similar_def embed_query_def search_hybrid_def search_embedding_def
      fetch_object_embedding_def Let_def
    by (auto intro!: confine calls split: list.split object_vector.split)
qed

lemma client_reads_confined [confine]:
  assumes "ctx_user_id context = u"
  shows "confined u (client_get_captures self E context ids)" "confined u (client_get_timeline_captures self E context n)"
  unfolding client_get_captures_def client_get_timeline_captures_def by (intro confine assms)+

lemma client_search_confined [confine]:
  assumes "ctx_user_id context = u" and "outside_database (uc_vertex self)"
  shows "confined u (client_search self E context query limit)" "confined u (client_search_similar self E context cid limit)"
  unfolding client_search_def client_search_similar_def by (intro confine assms)+

end
