(* ===== verification/Rest_Api.thy ===== *)
theory Rest_Api
  imports Confinement
begin

text \<open>
  \<open>rest/*.rs\<close>: the HTTP API. A request names a route of \<open>rest/maker.rs\<close> and carries the
  arguments the framework decoded from its path, query and body; a handler turns it into a
  status and a body. Every route but \<open>/token\<close> extracts the user of the bearer token before
  anything else. The framework, the token, password and date libraries are parameters.
\<close>

section \<open>Requests and answers\<close>

record CaptureTaskRequest =
  cq_capture_id :: int

record IlluminateTaskRequest =
  lq_capture_id :: int
  lq_prompt_version :: IlluminationVersion
  lq_thinking_level :: "ThinkingLevel option"
  lq_persist_projection :: bool

record ChangePasswordRequest =
  pq_current_password :: string
  pq_new_password :: string

record CreateUserRequest =
  nq_username :: string
  nq_password :: string
  nq_email :: string

record TokenRequest =
  tkq_username :: string
  tkq_password :: string

record TokenResponse =
  tkr_access_token :: string
  tkr_token_type :: string
  tkr_expires_in :: nat

record SearchQuery =
  sq_q :: string
  sq_limit :: "nat option"

record ExportQuery =
  eq_user_id :: "int option"
  eq_after_id :: int
  eq_limit :: "nat option"

record FailuresQuery =
  fq_hours :: "string option"
  fq_limit :: "int option"
  fq_include_retrying :: "bool option"

text \<open>
  A multipart body, as the framework hands it out: the fields in order, any of which may turn
  out to be malformed or cut off, when it is reached or when it is read.
\<close>

record MultipartError =
  me_status :: nat
  me_error :: anyhow

record multipart_field =
  fd_name :: "string option"
  fd_bytes :: "MultipartError + string"
  fd_text :: "MultipartError + string"

type_synonym multipart = "(MultipartError + multipart_field) list"

record ImportForm =
  if_media_bytes :: string
  if_created_at :: timestamp

datatype api_call =
    PostBackfillPump BackfillPumpRequest
  | GetBackfillStatus string
  | GetBackfillFailures string
  | GetQueueStats "string option"
  | GetQueueFailures FailuresQuery
  | GetInferenceStats "string option"
  | GetInferenceMeta string
  | GetExport string ExportQuery
  | PostUsers CreateUserRequest
  | PostAccountPassword ChangePasswordRequest
  | GetCaptures "int list"
  | GetEntitiesOfType string
  | GetEntity int
  | GetIlluminationRaw string
  | DeleteCapture int
  | PostArchive int
  | PostUnarchive int
  | PostAnnotation int string
  | PostAnnotationSoftDelete int
  | PostImport multipart
  | GetDummy
  | GetTimeline "nat option"
  | GetSearch SearchQuery
  | GetSearchSimilar int "nat option"
  | PostQueueIlluminate IlluminateTaskRequest
  | PostQueueSearchIndex CaptureTaskRequest
  | GetTask string

datatype request = PostToken TokenRequest | Protected api_call

datatype 'x body =
    NoBody
  | CapturesBody "CaptureInfo list"
  | CaptureBody CaptureInfo
  | AnnotationBody AnnotationInfo
  | EntityBody KnowledgeEntityInfo
  | EntitiesBody "KnowledgeEntityInfo list"
  | JsonBody json
  | RunIdBody string
  | TaskRunBody TaskRunInfo
  | TokenBody TokenResponse
  | UserBody UserInfo
  | PumpBody BackfillPumpResponse
  | BackfillStatusBody BackfillStatusResponse
  | BackfillFailuresBody "string \<times> TaskRunInfo list"
  | QueueStatsBody "'x QueueStatsResponse"
  | QueueFailuresBody QueueFailuresResponse
  | InferenceMetaBody "InferenceMetaInfo list"
  | InferenceStatsBody "(int \<times> 'x InferenceStats list) list"
  | EntityRowsBody "KnowledgeEntityInfo ExportRow list" "string option"
  | UserRowsBody "UserInfo ExportRow list"

type_synonym 'x answer = "nat \<times> 'x body"

definition json_answer :: "'x body \<Rightarrow> 'x answer" where
  "json_answer b = (200, b)"

definition no_content :: "'x answer" where
  "no_content = (204, NoBody)"

text \<open>What the handlers share, and the libraries they call.\<close>

record ('f, 'd) RestState =
  rs_user_api :: "('f, 'd) UserApiClient"
  rs_jwt_config :: JwtConfig
  rs_task_backend :: TaskQueueBackend
  rs_max_upload_bytes :: nat

record 'x libraries =
  lib_argon2 :: argon2
  lib_jwt :: jsonwebtoken
  lib_summaries :: "'x summaries"
  lib_rfc3339 :: "string \<Rightarrow> string + timestamp"

section \<open>Reading and changing captures\<close>

definition r_capture_get ::
  "('f, 'd) RestState \<Rightarrow> env \<Rightarrow> Context \<Rightarrow> int list \<Rightarrow> (world, failure, 'x answer) comp" where
  "r_capture_get self E context ids =
     (if ids = [] then throwM (Failed (bad_request (anyhow_msg ''At least one id query parameter is required.'')))
      else bindM (client_get_captures (rs_user_api self) E context ids) (\<lambda>infos. returnM (json_answer (CapturesBody infos))))"

definition r_capture_delete :: "env \<Rightarrow> Context \<Rightarrow> int \<Rightarrow> (world, failure, 'x answer) comp" where
  "r_capture_delete E context cid = bindM (map_errM Failed (delete_capture E context cid)) (\<lambda>_. returnM no_content)"

definition r_capture_archive :: "env \<Rightarrow> Context \<Rightarrow> int \<Rightarrow> (world, failure, 'x answer) comp" where
  "r_capture_archive E context cid = bindM (map_errM Failed (archive_capture E context cid)) (\<lambda>_. returnM no_content)"

definition r_capture_unarchive :: "env \<Rightarrow> Context \<Rightarrow> int \<Rightarrow> (world, failure, 'x answer) comp" where
  "r_capture_unarchive E context cid = bindM (map_errM Failed (unarchive_capture E context cid)) (\<lambda>_. returnM no_content)"

definition r_annotation_set :: "env \<Rightarrow> Context \<Rightarrow> int \<Rightarrow> string \<Rightarrow> (world, failure, 'x answer) comp" where
  "r_annotation_set E context cid content =
     bindM (map_errM Failed (client_set_annotation E context cid content)) (\<lambda>a. returnM (json_answer (AnnotationBody a)))"

definition r_annotation_soft_delete :: "env \<Rightarrow> Context \<Rightarrow> int \<Rightarrow> (world, failure, 'x answer) comp" where
  "r_annotation_soft_delete E context cid =
     bindM (map_errM Failed (soft_delete_annotation E context cid)) (\<lambda>_. returnM no_content)"

definition r_entity_get_by_id :: "env \<Rightarrow> Context \<Rightarrow> int \<Rightarrow> (world, failure, 'x answer) comp" where
  "r_entity_get_by_id E context i =
     bindM (map_errM Failed (client_get_entity E context i)) (\<lambda>e. returnM (json_answer (EntityBody e)))"

definition r_entity_get :: "env \<Rightarrow> Context \<Rightarrow> string \<Rightarrow> (world, failure, 'x answer) comp" where
  "r_entity_get E context etype =
     bindM (map_errM Failed (client_get_entities_by_type E context etype)) (\<lambda>es. returnM (json_answer (EntitiesBody es)))"

definition r_illumination_raw_get :: "env \<Rightarrow> Context \<Rightarrow> string \<Rightarrow> (world, failure, 'x answer) comp" where
  "r_illumination_raw_get E context rid =
     bindM (map_errM Failed (get_illumination_raw E context rid)) (\<lambda>j. returnM (json_answer (JsonBody j)))"

definition r_timeline_get ::
  "('f, 'd) RestState \<Rightarrow> env \<Rightarrow> Context \<Rightarrow> nat option \<Rightarrow> (world, failure, 'x answer) comp" where
  "r_timeline_get self E context limit =
     bindM (client_get_timeline_captures (rs_user_api self) E context (case limit of Some n \<Rightarrow> n | None \<Rightarrow> 100)) (\<lambda>infos.
     returnM (json_answer (CapturesBody infos)))"

definition r_search_get ::
  "('f, 'd) RestState \<Rightarrow> env \<Rightarrow> Context \<Rightarrow> SearchQuery \<Rightarrow> (world, failure, 'x answer) comp" where
  "r_search_get self E context query =
     (if trim (sq_q query) = [] then throwM (Failed (bad_request (anyhow_msg ''q must not be empty'')))
      else bindM (client_search (rs_user_api self) E context (sq_q query) (sq_limit query)) (\<lambda>infos.
           returnM (json_answer (CapturesBody infos))))"

definition r_search_similar_get ::
  "('f, 'd) RestState \<Rightarrow> env \<Rightarrow> Context \<Rightarrow> int \<Rightarrow> nat option \<Rightarrow> (world, failure, 'x answer) comp" where
  "r_search_similar_get self E context cid limit =
     bindM (client_search_similar (rs_user_api self) E context cid limit) (\<lambda>infos.
     returnM (json_answer (CapturesBody infos)))"

section \<open>Imports\<close>

definition multipart_error :: "MultipartError \<Rightarrow> nat \<Rightarrow> ApiError" where
  "multipart_error error max_upload_bytes =
     (if me_status error = 413 then upload_too_large max_upload_bytes None else bad_request (me_error error))"

text \<open>The loop over the fields: a field that is repeated overwrites, an unknown one is skipped.\<close>

fun import_fields ::
  "(string \<Rightarrow> string + timestamp) \<Rightarrow> nat \<Rightarrow> string option \<Rightarrow> timestamp option \<Rightarrow> multipart
     \<Rightarrow> ApiError + string option \<times> timestamp option" where
  "import_fields parse max_bytes media created [] = Inr (media, created)"
| "import_fields parse max_bytes media created (Inl error # mp) = Inl (multipart_error error max_bytes)"
| "import_fields parse max_bytes media created (Inr field # mp) =
     (let name = (case fd_name field of Some n \<Rightarrow> n | None \<Rightarrow> []) in
      if name = ''image'' then
        (case fd_bytes field of
           Inl error \<Rightarrow> Inl (multipart_error error max_bytes)
         | Inr bytes \<Rightarrow> import_fields parse max_bytes (Some bytes) created mp)
      else if name = ''created_at'' then
        (case fd_text field of
           Inl error \<Rightarrow> Inl (multipart_error error max_bytes)
         | Inr text' \<Rightarrow>
             (case parse text' of
                Inl e \<Rightarrow> Inl (bad_request (anyhow_msg (''Invalid created_at '' @ [CHR 0x27] @ text' @ [CHR 0x27] @ '': '' @ e)))
              | Inr t \<Rightarrow> import_fields parse max_bytes media (Some t) mp))
      else import_fields parse max_bytes media created mp)"

definition extract_import_form ::
  "(string \<Rightarrow> string + timestamp) \<Rightarrow> multipart \<Rightarrow> nat \<Rightarrow> ApiError + ImportForm" where
  "extract_import_form parse mp max_bytes =
     (case import_fields parse max_bytes None None mp of
        Inl e \<Rightarrow> Inl e
      | Inr (media, created) \<Rightarrow>
          (case media of
             None \<Rightarrow> Inl (bad_request (anyhow_msg ''No image data found.''))
           | Some bytes \<Rightarrow>
               (case created of
                  None \<Rightarrow> Inl (bad_request (anyhow_msg ''Missing created_at field.''))
                | Some t \<Rightarrow> Inr \<lparr>if_media_bytes = bytes, if_created_at = t\<rparr>)))"

definition r_import_capture_post ::
  "'x libraries \<Rightarrow> ('f, 'd) RestState \<Rightarrow> env \<Rightarrow> Context \<Rightarrow> multipart \<Rightarrow> (world, failure, 'x answer) comp" where
  "r_import_capture_post L self E context mp =
     bindM (liftM (map_sum Failed id (extract_import_form (lib_rfc3339 L) mp (rs_max_upload_bytes self)))) (\<lambda>form.
     bindM (catchM (client_import_capture (rs_user_api self) E context (if_media_bytes form) (if_created_at form))) (\<lambda>result.
     case result of
       Inr info \<Rightarrow> returnM (json_answer (CaptureBody info))
     | Inl Panicked \<Rightarrow> throwM Panicked
     | Inl (Failed e) \<Rightarrow> if http_status_code e = 409 then returnM (409, NoBody) else throwM (Failed e)))"

section \<open>Queues, runs and the account\<close>

definition accepted_task_run_response :: "string \<Rightarrow> 'x answer" where
  "accepted_task_run_response rid = (202, RunIdBody rid)"

definition r_queue_post_illuminate ::
  "('f, 'd) RestState \<Rightarrow> env \<Rightarrow> Context \<Rightarrow> IlluminateTaskRequest \<Rightarrow> (world, failure, 'x answer) comp" where
  "r_queue_post_illuminate self E context request =
     bindM (map_errM Failed (enqueue_illumination (rs_user_api self) E context (lq_capture_id request)
        (lq_prompt_version request) (lq_thinking_level request) (lq_persist_projection request))) (\<lambda>rid.
     returnM (accepted_task_run_response rid))"

definition r_queue_post_search_index ::
  "env \<Rightarrow> Context \<Rightarrow> CaptureTaskRequest \<Rightarrow> (world, failure, 'x answer) comp" where
  "r_queue_post_search_index E context request =
     bindM (map_errM Failed (enqueue_search_index E context (cq_capture_id request))) (\<lambda>rid.
     returnM (accepted_task_run_response rid))"

definition r_task_get_run :: "env \<Rightarrow> Context \<Rightarrow> string \<Rightarrow> (world, failure, 'x answer) comp" where
  "r_task_get_run E context rid =
     bindM (map_errM Failed (client_get_task_run E context rid)) (\<lambda>run. returnM (json_answer (TaskRunBody run)))"

definition r_change_password_post ::
  "'x libraries \<Rightarrow> env \<Rightarrow> Context \<Rightarrow> ChangePasswordRequest \<Rightarrow> (world, failure, 'x answer) comp" where
  "r_change_password_post L E context request =
     bindM (map_errM Failed (change_password (lib_argon2 L) E context (pq_current_password request) (pq_new_password request)))
       (\<lambda>_. returnM no_content)"

definition r_dummy_get :: "Context \<Rightarrow> (world, failure, 'x answer) comp" where
  "r_dummy_get context = returnM (json_answer (JsonBody (JObj [(''message'', JStr ''Hello from dreamscroll API!''),
     (''user_id'', JNum (ctx_user_id context))])))"

definition r_token_post ::
  "'x libraries \<Rightarrow> ('f, 'd) RestState \<Rightarrow> env \<Rightarrow> nat \<Rightarrow> TokenRequest \<Rightarrow> (world, failure, 'x answer) comp" where
  "r_token_post L self E now request =
     bindM (catchM (authenticate (lib_argon2 L) E (tkq_username request) (tkq_password request))) (\<lambda>auth_user.
     case auth_user of
       Inl _ \<Rightarrow> throwM (Failed (unauthorized (anyhow_msg ''Invalid credentials'')))
     | Inr user \<Rightarrow>
         (case create_user_token (lib_jwt L) (rs_jwt_config self) now user of
            Inl e \<Rightarrow> throwM (Failed (internal (anyhow_msg (''Token creation failed: '' @ auth_error_display e))))
          | Inr token \<Rightarrow> returnM (json_answer (TokenBody \<lparr>tkr_access_token = token, tkr_token_type = ''Bearer'',
              tkr_expires_in = jw_user_expiration_secs (rs_jwt_config self)\<rparr>))))"

section \<open>Administration\<close>

definition r_backfill_pump :: "env \<Rightarrow> Context \<Rightarrow> BackfillPumpRequest \<Rightarrow> (world, failure, 'x answer) comp" where
  "r_backfill_pump E context request =
     bindM (map_errM Failed (admin_backfill_pump E context request)) (\<lambda>r. returnM (json_answer (PumpBody r)))"

definition r_backfill_status :: "env \<Rightarrow> Context \<Rightarrow> string \<Rightarrow> (world, failure, 'x answer) comp" where
  "r_backfill_status E context bid =
     bindM (map_errM Failed (admin_backfill_status E context bid)) (\<lambda>r. returnM (json_answer (BackfillStatusBody r)))"

definition r_backfill_failures :: "env \<Rightarrow> Context \<Rightarrow> string \<Rightarrow> (world, failure, 'x answer) comp" where
  "r_backfill_failures E context bid =
     bindM (map_errM Failed (admin_backfill_failures E context bid)) (\<lambda>r. returnM (json_answer (BackfillFailuresBody r)))"

definition r_queue_stats ::
  "'x libraries \<Rightarrow> ('f, 'd) RestState \<Rightarrow> env \<Rightarrow> Context \<Rightarrow> string option \<Rightarrow> (world, failure, 'x answer) comp" where
  "r_queue_stats L self E context hours =
     bindM (map_errM Failed (stats_route (lib_summaries L) E context hours (rs_task_backend self))) (\<lambda>r.
     returnM (json_answer (QueueStatsBody r)))"

definition r_queue_failures :: "env \<Rightarrow> Context \<Rightarrow> FailuresQuery \<Rightarrow> (world, failure, 'x answer) comp" where
  "r_queue_failures E context query =
     bindM (map_errM Failed (failures_route E context (fq_hours query) (fq_limit query) (fq_include_retrying query))) (\<lambda>r.
     returnM (json_answer (QueueFailuresBody r)))"

definition r_inference_meta :: "env \<Rightarrow> Context \<Rightarrow> string \<Rightarrow> (world, failure, 'x answer) comp" where
  "r_inference_meta E context rid =
     bindM (map_errM Failed (admin_inference_meta E context rid)) (\<lambda>r. returnM (json_answer (InferenceMetaBody r)))"

definition r_inference_stats ::
  "'x libraries \<Rightarrow> env \<Rightarrow> Context \<Rightarrow> string option \<Rightarrow> (world, failure, 'x answer) comp" where
  "r_inference_stats L E context hours =
     bindM (liftM (map_sum (Failed \<circ> api_of_anyhow) id (parse_windows hours))) (\<lambda>windows.
     bindM (map_errM Failed (admin_inference_stats (lib_summaries L) E context windows)) (\<lambda>r.
     returnM (json_answer (InferenceStatsBody r))))"

definition r_export_get ::
  "env \<Rightarrow> Context \<Rightarrow> string \<Rightarrow> ExportQuery \<Rightarrow> (world, failure, 'x answer) comp" where
  "r_export_get E context kind query =
     (if kind = ''entities'' then
        bindM (map_errM Failed (export_entities_route E context (eq_user_id query) (eq_after_id query) (eq_limit query)))
          (\<lambda>(rows, next). returnM (json_answer (EntityRowsBody rows next)))
      else if kind = ''users'' then
        bindM (map_errM Failed (export_users E context (eq_user_id query))) (\<lambda>rows. returnM (json_answer (UserRowsBody rows)))
      else throwM (Failed (not_found (anyhow_msg (''Unknown export '' @ [CHR 0x27] @ kind @ [CHR 0x27] @ ''; expected ''
         @ [CHR 0x27] @ ''entities'' @ [CHR 0x27] @ '' or '' @ [CHR 0x27] @ ''users'' @ [CHR 0x27])))))"

definition r_create_user_post ::
  "'x libraries \<Rightarrow> env \<Rightarrow> Context \<Rightarrow> CreateUserRequest \<Rightarrow> (world, failure, 'x answer) comp" where
  "r_create_user_post L E context request =
     bindM (map_errM Failed (admin_create_user (lib_argon2 L) E context (nq_username request) (nq_password request)
        (nq_email request))) (\<lambda>info. returnM (201, UserBody info))"

section \<open>The router\<close>

fun call_handler ::
  "'x libraries \<Rightarrow> ('f, 'd) RestState \<Rightarrow> env \<Rightarrow> Context \<Rightarrow> api_call \<Rightarrow> (world, failure, 'x answer) comp" where
  "call_handler L self E context (PostBackfillPump req) = r_backfill_pump E context req"
| "call_handler L self E context (GetBackfillStatus bid) = r_backfill_status E context bid"
| "call_handler L self E context (GetBackfillFailures bid) = r_backfill_failures E context bid"
| "call_handler L self E context (GetQueueStats hours) = r_queue_stats L self E context hours"
| "call_handler L self E context (GetQueueFailures query) = r_queue_failures E context query"
| "call_handler L self E context (GetInferenceStats hours) = r_inference_stats L E context hours"
| "call_handler L self E context (GetInferenceMeta rid) = r_inference_meta E context rid"
| "call_handler L self E context (GetExport kind query) = r_export_get E context kind query"
| "call_handler L self E context (PostUsers req) = r_create_user_post L E context req"
| "call_handler L self E context (PostAccountPassword req) = r_change_password_post L E context req"
| "call_handler L self E context (GetCaptures ids) = r_capture_get self E context ids"
| "call_handler L self E context (GetEntitiesOfType etype) = r_entity_get E context etype"
| "call_handler L self E context (GetEntity i) = r_entity_get_by_id E context i"
| "call_handler L self E context (GetIlluminationRaw rid) = r_illumination_raw_get E context rid"
| "call_handler L self E context (DeleteCapture cid) = r_capture_delete E context cid"
| "call_handler L self E context (PostArchive cid) = r_capture_archive E context cid"
| "call_handler L self E context (PostUnarchive cid) = r_capture_unarchive E context cid"
| "call_handler L self E context (PostAnnotation cid content) = r_annotation_set E context cid content"
| "call_handler L self E context (PostAnnotationSoftDelete cid) = r_annotation_soft_delete E context cid"
| "call_handler L self E context (PostImport mp) = r_import_capture_post L self E context mp"
| "call_handler L self E context GetDummy = r_dummy_get context"
| "call_handler L self E context (GetTimeline limit) = r_timeline_get self E context limit"
| "call_handler L self E context (GetSearch query) = r_search_get self E context query"
| "call_handler L self E context (GetSearchSimilar cid limit) = r_search_similar_get self E context cid limit"
| "call_handler L self E context (PostQueueIlluminate req) = r_queue_post_illuminate self E context req"
| "call_handler L self E context (PostQueueSearchIndex req) = r_queue_post_search_index E context req"
| "call_handler L self E context (GetTask rid) = r_task_get_run E context rid"

datatype refusal = Rejected AuthError | Handler failure

text \<open>
  One request at the time \<open>now\<close>, with the bearer token its header carries, if any. The layer
  on the protected routes supplies the signing configuration.
\<close>

definition serve ::
  "'x libraries \<Rightarrow> ('f, 'd) RestState \<Rightarrow> env \<Rightarrow> nat \<Rightarrow> string option \<Rightarrow> request \<Rightarrow> (world, refusal, 'x answer) comp" where
  "serve L self E now bearer req =
     (case req of
        PostToken r \<Rightarrow> map_errM Handler (r_token_post L self E now r)
      | Protected call \<Rightarrow>
          (case from_request_parts (lib_jwt L) now (Some (rs_jwt_config self)) bearer of
             Inl e \<Rightarrow> throwM (Rejected e)
           | Inr user \<Rightarrow> map_errM Handler (call_handler L self E (context_from user) call)))"

text \<open>The status a client sees; a panic drops the connection.\<close>

definition answer_status :: "refusal + 'x answer \<Rightarrow> nat option" where
  "answer_status r =
     (case r of
        Inr (status, _) \<Rightarrow> Some status
      | Inl (Rejected e) \<Rightarrow> Some (fst (auth_error_response e))
      | Inl (Handler (Failed e)) \<Rightarrow> Some (http_status_code e)
      | Inl (Handler Panicked) \<Rightarrow> None)"

section \<open>Users without administrator rights\<close>

lemma ensure_admin_refuses:
  "\<not> ctx_is_admin context \<Longrightarrow> bindM (liftM (ensure_admin context)) k = throwM (forbidden (anyhow_msg ''Only admin users can perform this operation''))"
  by (rule ext) (simp add: ensure_admin_def runs)

lemma map_errM_throwM [simp]: "map_errM f (throwM e) = throwM (f e)"
  by (rule ext) (simp add: runs)

text \<open>The routes of \<open>/admin\<close>, and what they do for another user: nothing.\<close>

fun admin_call :: "api_call \<Rightarrow> bool" where
  "admin_call (PostBackfillPump req) = True"
| "admin_call (GetBackfillStatus bid) = True"
| "admin_call (GetBackfillFailures bid) = True"
| "admin_call (GetQueueStats hours) = True"
| "admin_call (GetQueueFailures query) = True"
| "admin_call (GetInferenceStats hours) = True"
| "admin_call (GetInferenceMeta rid) = True"
| "admin_call (GetExport kind query) = True"
| "admin_call (PostUsers req) = True"
| "admin_call _ = False"

lemmas admin_handler_defs = r_backfill_pump_def r_backfill_status_def r_backfill_failures_def r_queue_stats_def
  r_queue_failures_def r_inference_stats_def r_inference_meta_def r_export_get_def r_create_user_post_def
  admin_create_user_def admin_backfill_pump_def admin_backfill_status_def admin_backfill_failures_def
  admin_queue_stats_def admin_queue_failures_def admin_inference_meta_def admin_inference_stats_def
  stats_route_def failures_route_def export_entities_route_def export_entities_def export_users_def

lemma admin_call_refused:
  assumes "\<not> ctx_is_admin context" and "admin_call call"
  shows "\<exists>e. (call_handler L self E context call :: (world, failure, 'x answer) comp) = throwM (Failed e) \<and>
     (http_status_code e = 403 \<or>
      http_status_code e = 500 \<and> (\<exists>hours. isl (parse_windows hours) \<and> (call = GetQueueStats hours \<or> call = GetInferenceStats hours) \<or>
         (\<exists>query. call = GetQueueFailures query \<and> isl (parse_window (fq_hours query)))) \<or>
      http_status_code e = 404 \<and> (\<exists>kind query. call = GetExport kind query \<and> kind \<noteq> ''entities'' \<and> kind \<noteq> ''users''))"
proof -
  have parsed: "bindM (liftM (map_sum f id r)) k = (case r of Inl e \<Rightarrow> throwM (f e) | Inr x \<Rightarrow> k x)"
    for f and r :: "anyhow + 'z" and k :: "'z \<Rightarrow> (world, 'e, 'w) comp"
    by (rule ext) (simp add: runs split: sum.split)
  show ?thesis
    using assms(2)
    by (cases "call")
      (auto simp: admin_handler_defs ensure_admin_refuses [OF assms(1)] parsed isl_def forbidden_def not_found_def
        api_of_anyhow_def split: sum.split)
qed


lemma keeps_failed [keep]: "keeps I m \<Longrightarrow> (\<And>x. keeps I (k x)) \<Longrightarrow> keeps I (bindM (map_errM Failed m) k)"
  by (rule keeps_bindM [OF keeps_map_errM])

lemma call_secluded:
  assumes "outside_database (uc_vertex (rs_user_api self))" and "\<not> ctx_is_admin context" and "ctx_user_id context = u"
  shows "keeps (secluded u x) (call_handler L self E context call)"
proof (cases "admin_call call")
  case True
  from admin_call_refused [OF assms(2) this, of L self E] obtain e
    where "call_handler L self E context call = throwM (Failed e)" by blast
  then show ?thesis by (simp add: keeps_throwM)
next
  case False
  have upload: "keeps (secluded u x) (r_import_capture_post L self E context mp)" for mp
    unfolding r_import_capture_post_def client_import_capture_def
    by (intro keeps_bindM keeps_liftM keeps_catchM store_and_signal_secluded [OF assms(3,2)] triple_case_sum keeps_returnM)
      (auto intro: keeps_throwM keeps_returnM triple_if split: failure.split)
  have own_writes: "keeps (secluded u x) (r_capture_delete E context cid)" "keeps (secluded u x) (r_capture_archive E context cid)"
    "keeps (secluded u x) (r_capture_unarchive E context cid)" "keeps (secluded u x) (r_annotation_set E context cid content)"
    "keeps (secluded u x) (r_annotation_soft_delete E context cid)" "keeps (secluded u x) (r_change_password_post L E context req)"
    "keeps (secluded u x) (r_queue_post_illuminate self E context ireq)" "keeps (secluded u x) (r_queue_post_search_index E context creq)"
    for cid content req ireq creq
    unfolding r_capture_delete_def r_capture_archive_def r_capture_unarchive_def r_annotation_set_def r_annotation_soft_delete_def
      r_change_password_post_def r_queue_post_illuminate_def r_queue_post_search_index_def archive_capture_def unarchive_capture_def
    by (intro keeps_failed keeps_returnM delete_capture_secluded archive_secluded client_set_annotation_secluded soft_delete_secluded
        change_password_secluded enqueue_secluded assms)+
  show ?thesis
    using False assms(1)
    by (cases "call")
      (auto simp: own_writes upload r_capture_get_def r_entity_get_def r_entity_get_by_id_def r_illumination_raw_get_def
        r_timeline_get_def r_search_get_def r_search_similar_get_def r_task_get_run_def r_dummy_get_def
        intro!: triple_if keeps_throwM keeps_returnM keeps_bindM [OF client_reads_secluded(1)] keeps_bindM [OF client_reads_secluded(2)]
          keeps_bindM [OF client_search_secluded(1)] keeps_bindM [OF client_search_secluded(2)] keeps_failed read_only_secluded)
qed

text \<open>The calls that only read.\<close>

fun read_call :: "api_call \<Rightarrow> bool" where
  "read_call (GetCaptures ids) = True"
| "read_call (GetEntitiesOfType etype) = True"
| "read_call (GetEntity i) = True"
| "read_call (GetIlluminationRaw rid) = True"
| "read_call GetDummy = True"
| "read_call (GetTimeline limit) = True"
| "read_call (GetSearch query) = True"
| "read_call (GetSearchSimilar cid limit) = True"
| "read_call (GetTask rid) = True"
| "read_call call = admin_call call"

lemma call_confined:
  assumes "outside_database (uc_vertex (rs_user_api self))" and "\<not> ctx_is_admin context" and "ctx_user_id context = u"
    and "read_call call"
  shows "confined u (call_handler L self E context call)"
proof (cases "admin_call call")
  case True
  from admin_call_refused [OF assms(2) this, of L self E] obtain e
    where "call_handler L self E context call = throwM (Failed e)" by blast
  then show ?thesis by (simp add: confined_throwM)
next
  case False
  with assms(4) show ?thesis
    by (cases "call")
      (auto simp: r_capture_get_def r_entity_get_def r_entity_get_by_id_def r_illumination_raw_get_def
        r_timeline_get_def r_search_get_def r_search_similar_get_def r_task_get_run_def r_dummy_get_def
        intro!: confine assms)
qed


section \<open>What the API promises\<close>

text \<open>
  C6: a token is a login. A token that the API issues belongs to an account with the given
  name and password, and until its lifetime and the leeway are over every request that
  carries it is handled for exactly that account, with the rights it had at issuance; after
  that the request is refused and changes nothing.
\<close>

theorem token_grants_access:
  assumes "verifies (lib_jwt L)" and "serve L self E now bearer (PostToken req) w = (Inr (status, TokenBody answer), w1)"
    and "\<forall>row \<in> set (users w). in_i32 (us_id row)" and "now + jw_user_expiration_secs (rs_jwt_config self) < 2 ^ 64"
  shows "\<exists>row \<in> set (users w). us_username row = tkq_username req \<and>
     verify_hash (lib_argon2 L) (us_password_hash row) (tkq_password req) = Inr True \<and>
     (\<exists>context. ctx_user_id context = us_id row \<and> ctx_is_admin context = us_is_admin row \<and>
        ctx_storage_shard context = us_storage_shard row \<and>
        (\<forall>E' now' call w'. serve L self E' now' (Some (tkr_access_token answer)) (Protected call) w' =
           (if now' \<le> now + jw_user_expiration_secs (rs_jwt_config self) + jw_leeway (rs_jwt_config self)
            then map_errM Handler (call_handler L self E' context call) w'
            else (Inl (Rejected InvalidToken), w'))))"
proof -
  let ?J = "lib_jwt L" and ?cfg = "rs_jwt_config self"
  from assms(2) obtain row where row: "row \<in> set (users w)" "us_username row = tkq_username req"
    and hash: "verify_hash (lib_argon2 L) (us_password_hash row) (tkq_password req) = Inr True"
    and token: "create_user_token ?J ?cfg now (from_db_model row) = Inr (tkr_access_token answer)"
    by (auto simp: serve_def r_token_post_def authenticate_def select_def stmt_def json_answer_def find_by_username_def runs Let_def
        split: prod.splits sum.splits option.splits if_splits dest!: find_SomeD)
  let ?user = "(from_db_model row)\<lparr>au_method := Jwt (claims_for ?cfg now (from_db_model row))\<rparr>"
  have "from_request_parts ?J now' (Some ?cfg) (Some (tkr_access_token answer)) =
      (if now' \<le> now + jw_user_expiration_secs ?cfg + jw_leeway ?cfg then Inr ?user else Inl InvalidToken)" for now'
    using row assms(3,4) by (intro issued_token_decodes [OF assms(1) token]) (simp_all add: from_db_model_def)
  then have "serve L self E' now' (Some (tkr_access_token answer)) (Protected call) w' =
      (if now' \<le> now + jw_user_expiration_secs ?cfg + jw_leeway ?cfg
       then map_errM Handler (call_handler L self E' (context_from ?user) call) w'
       else (Inl (Rejected InvalidToken), w'))" for E' now' call and w' :: world
    by (simp add: serve_def run_throwM)
  moreover have "ctx_user_id (context_from ?user) = us_id row" "ctx_is_admin (context_from ?user) = us_is_admin row"
    "ctx_storage_shard (context_from ?user) = us_storage_shard row"
    by (simp_all add: ctx_user_id_def ctx_is_admin_def ctx_storage_shard_def context_from_def from_db_model_def)
  ultimately show ?thesis using row hash by blast
qed

lemma serve_user:
  assumes "from_request_parts (lib_jwt L) now (Some (rs_jwt_config self)) bearer = Inr user"
  shows "serve L self E now bearer (Protected call) = map_errM Handler (call_handler L self E (context_from user) call)"
  using assms by (simp add: serve_def)

text \<open>
  C4: users do not interfere. Whatever a user without administrator rights asks of any
  route, and whatever fails on the way, the rows of all other users are afterwards what they
  were: captures with everything that hangs on them, accounts, runs and queued work.
\<close>

theorem rest_isolation:
  assumes "from_request_parts (lib_jwt L) now (Some (rs_jwt_config self)) bearer = Inr user" and "\<not> au_is_admin user"
    and "outside_database (uc_vertex (rs_user_api self))" and "keys_ok w"
  shows "let w' = snd (serve L self E now bearer (Protected call) w)
     in foreign (au_id user) w' = foreign (au_id user) w \<and> keys_ok w'"
proof -
  let ?x = "foreign (au_id user) w"
  have "keeps (secluded (au_id user) ?x) (call_handler L self E (context_from user) call)"
    using assms(2) by (intro call_secluded assms(3)) (simp_all add: ctx_is_admin_def ctx_user_id_def context_from_def)
  then have "keeps (secluded (au_id user) ?x) (serve L self E now bearer (Protected call))"
    unfolding serve_user [OF assms(1)] by (rule keeps_map_errM)
  then have "secluded (au_id user) ?x (snd (serve L self E now bearer (Protected call) w))"
    by (rule keepsD) (simp add: secluded_def assms(4))
  then show ?thesis by (simp add: secluded_def Let_def)
qed

text \<open>
  C5: users do not observe each other. A reading request of a user without administrator
  rights is answered alike, status, body and failure, in any two states that agree on the
  rows of that user, however the rows of others differ.
\<close>

theorem rest_confidentiality:
  assumes "from_request_parts (lib_jwt L) now (Some (rs_jwt_config self)) bearer = Inr user" and "\<not> au_is_admin user"
    and "outside_database (uc_vertex (rs_user_api self))" and "read_call call" and "alike (au_id user) w w'"
  shows "fst (serve L self E now bearer (Protected call) w) = fst (serve L self E now bearer (Protected call) w') \<and>
     alike (au_id user) (snd (serve L self E now bearer (Protected call) w)) (snd (serve L self E now bearer (Protected call) w'))"
proof -
  have "confined (au_id user) (call_handler L self E (context_from user) call)"
    using assms(2) by (intro call_confined assms(3,4)) (simp_all add: ctx_is_admin_def ctx_user_id_def context_from_def)
  then have "confined (au_id user) (serve L self E now bearer (Protected call))"
    unfolding serve_user [OF assms(1)] by (rule confined_map_errM)
  with assms(5) show ?thesis by (simp add: confined_def)
qed

text \<open>
  C7: the routes of \<open>/admin\<close> are closed to everyone else. Without an accepted token, and
  with the token of a user who is not an administrator, a request of such a route changes
  nothing and is refused: 401 without a bearer token, 403 with one, unless the user's request
  was already refused for malformed hours (500) or an unknown kind of export (404).
\<close>

theorem rest_admin_gate:
  assumes "admin_call call"
  shows "case from_request_parts (lib_jwt L) now (Some (rs_jwt_config self)) bearer of
      Inl e \<Rightarrow> serve L self E now bearer (Protected call) w = (Inl (Rejected e), w) \<and>
        answer_status (Inl (Rejected e)) \<in> {Some 401, Some 500} \<and> (bearer = None \<longrightarrow> answer_status (Inl (Rejected e)) = Some 401)
    | Inr user \<Rightarrow> au_is_admin user \<or>
        (\<exists>refused. serve L self E now bearer (Protected call) w = (Inl (Handler (Failed refused)), w) \<and>
           (http_status_code refused = 403 \<or>
            http_status_code refused = 500 \<and> (\<exists>hours. isl (parse_windows hours) \<and>
               (call = GetQueueStats hours \<or> call = GetInferenceStats hours) \<or>
               (\<exists>query. call = GetQueueFailures query \<and> isl (parse_window (fq_hours query)))) \<or>
            http_status_code refused = 404 \<and> (\<exists>kind query. call = GetExport kind query \<and> kind \<noteq> ''entities'' \<and> kind \<noteq> ''users'')))"
proof (cases "from_request_parts (lib_jwt L) now (Some (rs_jwt_config self)) bearer")
  case (Inl e)
  then have "bearer = None \<longrightarrow> e = MissingOrInvalidHeader" by (auto simp: from_request_parts_def)
  with Inl show ?thesis
    by (auto simp: serve_def run_throwM answer_status_def auth_error_response_def split: AuthError.splits)
next
  case (Inr user)
  show ?thesis
  proof (cases "au_is_admin user")
    case False
    then have "\<not> ctx_is_admin (context_from user)" by (simp add: ctx_is_admin_def context_from_def)
    from admin_call_refused [OF this assms, of L self E] serve_user [OF Inr, of E "call"] Inr show ?thesis
      by (auto simp: run_throwM)
  qed (simp add: Inr)
qed

section \<open>Examples\<close>

definition demo_claims :: JwtUserClaims where
  "demo_claims = \<lparr>jc_sub = ''7'', jc_username = ''ann'', jc_is_admin = False, jc_exp = 160, jc_iat = 100, jc_storage_shard = ''s''\<rparr>"

definition demo_libraries :: "nat libraries" where
  "demo_libraries = \<lparr>lib_argon2 = demo_argon, lib_jwt = demo_jwt demo_claims, lib_summaries = demo_summaries,
     lib_rfc3339 = (\<lambda>_. Inr 5)\<rparr>"

definition demo_state :: "(int, int) RestState" where
  "demo_state = \<lparr>rs_user_api = demo_client, rs_jwt_config = demo_config, rs_task_backend = LocalQueue, rs_max_upload_bytes = 1000\<rparr>"

definition demo_api_user :: DreamscrollAuthUser where
  "demo_api_user = \<lparr>au_id = 7, au_username = ''ann'', au_is_admin = False, au_storage_shard = ''s'', au_method = Jwt demo_claims\<rparr>"

lemma demo_token: "from_request_parts (lib_jwt demo_libraries) 120 (Some (rs_jwt_config demo_state)) (Some ''tokk'') = Inr demo_api_user"
proof -
  have "parse_i32 ''7'' = Some 7" by code_simp
  then show ?thesis
    by (simp add: demo_libraries_def demo_state_def demo_config_def demo_jwt_def from_request_parts_def decode_user_token_def
        try_from_claims_def demo_claims_def demo_api_user_def)
qed

lemma demo_outside: "outside_database (uc_vertex (rs_user_api demo_state))"
  by (auto simp: outside_database_def remote_def demo_state_def demo_client_def demo_service_def runs intro: leaves_throwM)

text \<open>The account logs in with its password and uses the token, until the lifetime of a minute and the leeway are over.\<close>

theorem token_grants_access_witness:
  "\<exists>answer w. serve demo_libraries demo_state quiet_env 100 None (PostToken \<lparr>tkq_username = ''ann'', tkq_password = ''old''\<rparr>)
       demo_users = (Inr (200, TokenBody answer), w) \<and>
     answer_status (fst (serve demo_libraries demo_state quiet_env 165 (Some (tkr_access_token answer)) (Protected GetDummy) w)) = Some 200 \<and>
     answer_status (fst (serve demo_libraries demo_state quiet_env 166 (Some (tkr_access_token answer)) (Protected GetDummy) w)) = Some 401"
proof -
  let ?req = "PostToken \<lparr>tkq_username = ''ann'', tkq_password = ''old''\<rparr>"
  let ?user = "from_db_model (hd (users demo_users))"
  have auth: "authenticate demo_argon quiet_env ''ann'' ''old'' demo_users = (Inr ?user, demo_users\<lparr>tick := 1\<rparr>)"
    by (simp add: authenticate_def find_by_username_def verify_hash_def demo_argon_def demo_users_def runs) (simp add: empty_world_def)
  have claims: "claims_for demo_config 100 ?user = demo_claims"
  proof -
    have "show_int 7 = ''7''" by code_simp
    then show ?thesis by (simp add: claims_for_def demo_config_def from_db_model_def demo_users_def demo_claims_def)
  qed
  have "create_user_token (demo_jwt demo_claims) demo_config 100 ?user = Inr ''tokk''"
    unfolding create_user_token_def claims by (simp add: demo_jwt_def demo_config_def)
  with auth obtain answer w where login: "serve demo_libraries demo_state quiet_env 100 None ?req demo_users = (Inr (200, TokenBody answer), w)"
    by (simp add: serve_def r_token_post_def json_answer_def demo_libraries_def demo_state_def runs)
  have "verifies (lib_jwt demo_libraries)" by (auto simp: demo_libraries_def verifies_def demo_jwt_def)
  from token_grants_access [OF this login] obtain ctx where
    "\<forall>E' now' call w'. serve demo_libraries demo_state E' now' (Some (tkr_access_token answer)) (Protected call) w' =
       (if now' \<le> 165 then map_errM Handler (call_handler demo_libraries demo_state E' ctx call) w'
        else (Inl (Rejected InvalidToken), w'))"
    by (auto simp: demo_users_def in_i32_def demo_state_def demo_config_def)
  with login show ?thesis
    by (auto simp: answer_status_def auth_error_response_def r_dummy_get_def json_answer_def runs)
qed

text \<open>A user archives a capture of their own and tries to archive one of user 8.\<close>

theorem rest_isolation_witness:
  "let w' = snd (serve demo_libraries demo_state quiet_env 120 (Some ''tokk'') (Protected (PostArchive 1)) demo_data)
   in foreign 7 w' = foreign 7 demo_data \<and> captures w' \<noteq> captures demo_data \<and>
      captures (snd (serve demo_libraries demo_state quiet_env 120 (Some ''tokk'') (Protected (PostArchive 3)) demo_data)) = captures demo_data"
proof -
  have "keys_ok demo_data" by (simp add: keys_ok_def demo_data_def empty_world_def)
  from rest_isolation [OF demo_token _ demo_outside this, of quiet_env "PostArchive 1"]
  have "foreign 7 (snd (serve demo_libraries demo_state quiet_env 120 (Some ''tokk'') (Protected (PostArchive 1)) demo_data)) = foreign 7 demo_data"
    by (simp add: demo_api_user_def Let_def)
  moreover have "captures (snd (serve demo_libraries demo_state quiet_env 120 (Some ''tokk'') (Protected (PostArchive 1)) demo_data)) \<noteq> captures demo_data"
    "captures (snd (serve demo_libraries demo_state quiet_env 120 (Some ''tokk'') (Protected (PostArchive 3)) demo_data)) = captures demo_data"
    by (simp_all add: demo_api_user_def serve_user [OF demo_token] r_capture_archive_def archive_capture_def set_capture_archive_state_def
        own_capture_def context_from_def ctx_user_id_def runs demo_data_def update_where_def)
  ultimately show ?thesis by (simp add: Let_def)
qed

theorem rest_confidentiality_witness:
  "fst (serve demo_libraries demo_state quiet_env 120 (Some ''tokk'') (Protected (GetCaptures [3, 1])) demo_data) =
   fst (serve demo_libraries demo_state quiet_env 120 (Some ''tokk'') (Protected (GetCaptures [3, 1]))
     (demo_data\<lparr>captures := take 2 (captures demo_data)\<rparr>))"
proof -
  have "alike 7 demo_data (demo_data\<lparr>captures := take 2 (captures demo_data)\<rparr>)"
    by (simp add: alike_def owners_ok_def own_def demo_data_def empty_world_def)
  then have "alike (au_id demo_api_user) demo_data (demo_data\<lparr>captures := take 2 (captures demo_data)\<rparr>)"
    by (simp add: demo_api_user_def)
  from rest_confidentiality [OF demo_token _ demo_outside _ this, of "GetCaptures [3, 1]" quiet_env] show ?thesis
    by (simp add: demo_api_user_def)
qed

definition demo_export_query :: ExportQuery where
  "demo_export_query = \<lparr>eq_user_id = None, eq_after_id = 0, eq_limit = None\<rparr>"

theorem rest_admin_gate_witness:
  "answer_status (fst (serve demo_libraries demo_state quiet_env 120 (Some ''tokk'') (Protected (GetExport ''users'' demo_export_query)) demo_data)) = Some 403 \<and>
   answer_status (fst (serve demo_libraries demo_state quiet_env 120 None (Protected (GetExport ''users'' demo_export_query)) demo_data)) = Some 401"
proof -
  have "admin_call (GetExport ''users'' demo_export_query)" by simp
  note gate = rest_admin_gate [OF this, where L = demo_libraries and self = demo_state and now = 120 and E = quiet_env and w = demo_data]
  from gate [where bearer = "Some ''tokk''"] have "answer_status (fst (serve demo_libraries demo_state quiet_env 120 (Some ''tokk'')
      (Protected (GetExport ''users'' demo_export_query)) demo_data)) = Some 403"
    by (auto simp: demo_token demo_api_user_def answer_status_def)
  moreover from gate [where bearer = None] have "answer_status (fst (serve demo_libraries demo_state quiet_env 120 None
      (Protected (GetExport ''users'' demo_export_query)) demo_data)) = Some 401"
    by (auto simp: from_request_parts_def)
  ultimately show ?thesis ..
qed

end
