(* ===== verification/Rest_Client.thy ===== *)
theory Rest_Client
  imports Rest_Api
begin

text \<open>
  \<open>rest/client/mod.rs\<close>: the client of the HTTP API, and how \<open>rest/maker.rs\<close> reads what it
  sends. A client call builds a request of method, path, query and body; the router takes the
  path apart and decodes the arguments. Sending is an argument. The JSON text of a body is not
  modelled: an answer reaches the client as the typed value the handler returned, without the
  fields the serializer skips, or as the text of an error.
\<close>

section \<open>Requests\<close>

datatype http_method = GET | POST | DELETE

datatype payload = NoPayload | JsonPayload json | FormPayload multipart

text \<open>The path is what follows the base URL, a query written into the URL included; \<open>hq_query\<close> is appended encoded.\<close>

record http_request =
  hq_method :: http_method
  hq_path :: string
  hq_query :: "(string \<times> string) list"
  hq_bearer :: "string option"
  hq_payload :: payload

record 'b http_response =
  hp_status :: nat
  hp_next_after_id :: "string option"
  hp_text :: "string option"
  hp_body :: "anyhow + 'b"

record ('s, 'b) Client =
  rc_base_url :: string
  rc_access_token :: string
  rc_send :: "string \<Rightarrow> http_request \<Rightarrow> ('s, anyhow, 'b http_response) comp"
  rc_reason :: "nat \<Rightarrow> string"

definition ascii_lower :: "string \<Rightarrow> string" where
  "ascii_lower s = map (\<lambda>c. let n = of_char c :: nat in if 65 \<le> n \<and> n \<le> 90 then char_of (n + 32) else c) s"

fun contains_sub :: "string \<Rightarrow> string \<Rightarrow> bool" where
  "contains_sub p [] = (p = [])"
| "contains_sub p (c # cs) = (starts_with (c # cs) p \<or> contains_sub p cs)"

definition normalize_base_url :: "string \<Rightarrow> string" where
  "normalize_base_url host =
     (let trimmed = trim_end_matches CHR ''/'' (trim host) in
      if contains_sub ''://'' trimmed then trimmed @ ''/api''
      else if ascii_lower trimmed = ''localhost'' \<or> starts_with trimmed ''localhost:'' \<or>
        starts_with trimmed ''127.0.0.1'' \<or> starts_with trimmed ''[::1]''
      then ''http://'' @ trimmed @ ''/api''
      else ''https://'' @ trimmed @ ''/api'')"

definition admin_stats_url :: "string \<Rightarrow> string option \<Rightarrow> string" where
  "admin_stats_url stats_kind hours =
     (case hours of
        Some h \<Rightarrow> ''/admin/'' @ stats_kind @ ''/stats?hours='' @ h
      | None \<Rightarrow> ''/admin/'' @ stats_kind @ ''/stats'')"

definition queue_failures_url :: "string option \<Rightarrow> int option \<Rightarrow> bool \<Rightarrow> string" where
  "queue_failures_url hours limit include_retrying =
     (let params = (case hours of Some h \<Rightarrow> [''hours='' @ h] | None \<Rightarrow> []) @
        (case limit of Some n \<Rightarrow> [''limit='' @ show_int n] | None \<Rightarrow> []) @
        (if include_retrying then [''include_retrying=true''] else [])
      in ''/admin/queue/failures'' @ (if params = [] then [] else ''?'' @ join ''&'' params))"

subsection \<open>Bodies\<close>

definition illuminate_request_json :: "IlluminateTaskRequest \<Rightarrow> json" where
  "illuminate_request_json r = JObj (
     [(''capture_id'', JNum (lq_capture_id r)), (''prompt_version'', JStr (version_as_str (lq_prompt_version r)))]
     @ opt_member ''thinking_level'' (\<lambda>l. JStr (thinking_as_str l)) (lq_thinking_level r)
     @ [(''persist_projection'', JBool (lq_persist_projection r))])"

definition capture_request_json :: "CaptureTaskRequest \<Rightarrow> json" where
  "capture_request_json r = JObj [(''capture_id'', JNum (cq_capture_id r))]"

definition change_password_json :: "ChangePasswordRequest \<Rightarrow> json" where
  "change_password_json r = JObj [(''current_password'', JStr (pq_current_password r)),
     (''new_password'', JStr (pq_new_password r))]"

definition token_request_json :: "TokenRequest \<Rightarrow> json" where
  "token_request_json r = JObj [(''username'', JStr (tkq_username r)), (''password'', JStr (tkq_password r))]"

definition pump_request_json :: "BackfillPumpRequest \<Rightarrow> json" where
  "pump_request_json r = JObj [(''backfill_id'', JStr (rq_backfill_id r)),
     (''limit'', case rq_limit r of None \<Rightarrow> JNull | Some n \<Rightarrow> JNum (int n)), (''force'', JBool (rq_force r))]"

text \<open>The parts of an import: the time as text, then the image.\<close>

definition import_form :: "(timestamp \<Rightarrow> string) \<Rightarrow> string \<Rightarrow> timestamp \<Rightarrow> multipart" where
  "import_form fmt media_bytes created_at =
     [Inr \<lparr>fd_name = Some ''created_at'', fd_bytes = Inr (fmt created_at), fd_text = Inr (fmt created_at)\<rparr>,
      Inr \<lparr>fd_name = Some ''image'', fd_bytes = Inr media_bytes, fd_text = Inr media_bytes\<rparr>]"

subsection \<open>One request per method of the client\<close>

datatype client_call =
    ClToken string string
  | ClValidate
  | ClTimeline "nat option"
  | ClCaptures "int list option"
  | ClSearch string "nat option"
  | ClSearchSimilar int "nat option"
  | ClEntitiesByType string
  | ClEntity int
  | ClExportEntities "int option" int nat
  | ClExportUsers "int option"
  | ClImport string timestamp
  | ClDelete int
  | ClArchive int
  | ClUnarchive int
  | ClPump BackfillPumpRequest
  | ClBackfillStatus string
  | ClBackfillFailures string
  | ClIlluminate int IlluminationVersion "ThinkingLevel option" bool
  | ClSearchIndex int
  | ClTaskRun string
  | ClIlluminationRaw string
  | ClChangePassword string string
  | ClQueueStats "string option"
  | ClQueueFailures "string option" "int option" bool
  | ClInferenceMeta string
  | ClInferenceStats "string option"

definition http_get :: "string \<Rightarrow> (string \<times> string) list \<Rightarrow> http_request" where
  "http_get path query = \<lparr>hq_method = GET, hq_path = path, hq_query = query, hq_bearer = None, hq_payload = NoPayload\<rparr>"

definition http_post :: "string \<Rightarrow> payload \<Rightarrow> http_request" where
  "http_post path payload = \<lparr>hq_method = POST, hq_path = path, hq_query = [], hq_bearer = None, hq_payload = payload\<rparr>"

definition http_delete :: "string \<Rightarrow> http_request" where
  "http_delete path = \<lparr>hq_method = DELETE, hq_path = path, hq_query = [], hq_bearer = None, hq_payload = NoPayload\<rparr>"

definition limit_query :: "nat option \<Rightarrow> (string \<times> string) list" where
  "limit_query limit = (case limit of Some n \<Rightarrow> [(''limit'', show_nat n)] | None \<Rightarrow> [])"

definition user_query_param :: "int option \<Rightarrow> (string \<times> string) list" where
  "user_query_param user = (case user of Some u \<Rightarrow> [(''user_id'', show_int u)] | None \<Rightarrow> [])"

fun client_request :: "(timestamp \<Rightarrow> string) \<Rightarrow> client_call \<Rightarrow> http_request" where
  "client_request fmt (ClToken name pw) =
     http_post ''/token'' (JsonPayload (token_request_json \<lparr>tkq_username = name, tkq_password = pw\<rparr>))"
| "client_request fmt ClValidate = http_get ''/dummy'' []"
| "client_request fmt (ClTimeline limit) = http_get ''/timeline'' (limit_query limit)"
| "client_request fmt (ClCaptures ids) =
     http_get ''/captures'' (case ids of Some is \<Rightarrow> map (\<lambda>i. (''id'', show_int i)) is | None \<Rightarrow> [])"
| "client_request fmt (ClSearch query limit) = http_get ''/search'' ((''q'', query) # limit_query limit)"
| "client_request fmt (ClSearchSimilar cid limit) = http_get (''/search/similar/'' @ show_int cid) (limit_query limit)"
| "client_request fmt (ClEntitiesByType etype) = http_get ''/entity'' [(''type'', etype)]"
| "client_request fmt (ClEntity i) = http_get (''/entity/'' @ show_int i) []"
| "client_request fmt (ClExportEntities user after_id limit) =
     http_get ''/admin/export/entities'' ([(''after_id'', show_int after_id), (''limit'', show_nat limit)] @ user_query_param user)"
| "client_request fmt (ClExportUsers user) = http_get ''/admin/export/users'' (user_query_param user)"
| "client_request fmt (ClImport media_bytes created_at) =
     http_post ''/captures/import'' (FormPayload (import_form fmt media_bytes created_at))"
| "client_request fmt (ClDelete cid) = http_delete (''/captures/'' @ show_int cid)"
| "client_request fmt (ClArchive cid) = http_post (''/captures/'' @ show_int cid @ ''/archive'') NoPayload"
| "client_request fmt (ClUnarchive cid) = http_post (''/captures/'' @ show_int cid @ ''/unarchive'') NoPayload"
| "client_request fmt (ClPump req) = http_post ''/admin/backfill/pump'' (JsonPayload (pump_request_json req))"
| "client_request fmt (ClBackfillStatus bid) = http_get (''/admin/backfill/'' @ bid @ ''/status'') []"
| "client_request fmt (ClBackfillFailures bid) = http_get (''/admin/backfill/'' @ bid @ ''/failures'') []"
| "client_request fmt (ClIlluminate cid version level persist) =
     http_post ''/queues/illuminate'' (JsonPayload (illuminate_request_json \<lparr>lq_capture_id = cid, lq_prompt_version = version,
        lq_thinking_level = level, lq_persist_projection = persist\<rparr>))"
| "client_request fmt (ClSearchIndex cid) =
     http_post ''/queues/search_index'' (JsonPayload (capture_request_json \<lparr>cq_capture_id = cid\<rparr>))"
| "client_request fmt (ClTaskRun rid) = http_get (''/tasks/'' @ rid) []"
| "client_request fmt (ClIlluminationRaw rid) = http_get (''/illuminations/raw/'' @ rid) []"
| "client_request fmt (ClChangePassword current new) =
     http_post ''/account/password'' (JsonPayload (change_password_json \<lparr>pq_current_password = current, pq_new_password = new\<rparr>))"
| "client_request fmt (ClQueueStats hours) = http_get (admin_stats_url ''queue'' hours) []"
| "client_request fmt (ClQueueFailures hours limit retrying) = http_get (queue_failures_url hours limit retrying) []"
| "client_request fmt (ClInferenceMeta rid) = http_get (''/admin/inference/'' @ rid) []"
| "client_request fmt (ClInferenceStats hours) = http_get (admin_stats_url ''inference'' hours) []"

section \<open>How the router reads a request\<close>

text \<open>The segments of the path, and the query that is part of the URL.\<close>

definition url_parts :: "string \<Rightarrow> string list \<times> (string \<times> string) list" where
  "url_parts url =
     (let segments = (\<lambda>p. tl (split_on CHR ''/'' p));
          pair = (\<lambda>s. case split_once CHR ''='' s of Some kv \<Rightarrow> kv | None \<Rightarrow> (s, []))
      in case split_once CHR ''?'' url of
           None \<Rightarrow> (segments url, [])
         | Some (p, q) \<Rightarrow> (segments p, map pair (split_on CHR ''&'' q)))"

definition parse_u64 :: "string \<Rightarrow> nat option" where
  "parse_u64 s = (case parse_int s of Some v \<Rightarrow> if hd s \<noteq> CHR ''-'' \<and> v < 2 ^ 64 then Some (nat v) else None | None \<Rightarrow> None)"

definition parse_bool :: "string \<Rightarrow> bool option" where
  "parse_bool s = (if s = ''true'' then Some True else if s = ''false'' then Some False else None)"

text \<open>An optional parameter: it may be absent, but not malformed or repeated.\<close>

definition one_param :: "(string \<Rightarrow> 'a option) \<Rightarrow> string \<Rightarrow> (string \<times> string) list \<Rightarrow> 'a option option" where
  "one_param parse key query =
     (case filter (\<lambda>(k, _). k = key) query of
        [] \<Rightarrow> Some None
      | [(_, v)] \<Rightarrow> map_option Some (parse v)
      | _ \<Rightarrow> None)"

definition decode_get :: "string list \<Rightarrow> (string \<times> string) list \<Rightarrow> api_call option" where
  "decode_get segs query =
     (case segs of
        [a] \<Rightarrow>
          if a = ''captures'' then map_option GetCaptures (all_some (map (\<lambda>(_, v). parse_i32 v) (filter (\<lambda>(k, _). k = ''id'') query)))
          else if a = ''entity'' then
            (case one_param Some ''type'' query of Some (Some t) \<Rightarrow> Some (GetEntitiesOfType t) | _ \<Rightarrow> None)
          else if a = ''dummy'' then Some GetDummy
          else if a = ''timeline'' then map_option GetTimeline (one_param parse_u64 ''limit'' query)
          else if a = ''search'' then
            (case (one_param Some ''q'' query, one_param parse_u64 ''limit'' query) of
               (Some (Some q), Some l) \<Rightarrow> Some (GetSearch \<lparr>sq_q = q, sq_limit = l\<rparr>) | _ \<Rightarrow> None)
          else None
      | [a, b] \<Rightarrow>
          if a = ''entity'' then map_option GetEntity (parse_i32 b)
          else if a = ''tasks'' then Some (GetTask b)
          else None
      | [a, b, c] \<Rightarrow>
          if a = ''search'' \<and> b = ''similar'' then
            (case (parse_i32 c, one_param parse_u64 ''limit'' query) of
               (Some i, Some l) \<Rightarrow> Some (GetSearchSimilar i l) | _ \<Rightarrow> None)
          else if a = ''illuminations'' \<and> b = ''raw'' then Some (GetIlluminationRaw c)
          else if a = ''admin'' \<and> b = ''queue'' \<and> c = ''stats'' then map_option GetQueueStats (one_param Some ''hours'' query)
          else if a = ''admin'' \<and> b = ''queue'' \<and> c = ''failures'' then
            (case (one_param Some ''hours'' query, one_param parse_i64 ''limit'' query, one_param parse_bool ''include_retrying'' query) of
               (Some h, Some l, Some r) \<Rightarrow> Some (GetQueueFailures \<lparr>fq_hours = h, fq_limit = l, fq_include_retrying = r\<rparr>) | _ \<Rightarrow> None)
          else if a = ''admin'' \<and> b = ''inference'' \<and> c = ''stats'' then map_option GetInferenceStats (one_param Some ''hours'' query)
          else if a = ''admin'' \<and> b = ''inference'' then Some (GetInferenceMeta c)
          else if a = ''admin'' \<and> b = ''export'' then
            (case (one_param parse_i32 ''user_id'' query, one_param parse_i32 ''after_id'' query, one_param parse_u64 ''limit'' query) of
               (Some u, Some n, Some l) \<Rightarrow>
                 Some (GetExport c \<lparr>eq_user_id = u, eq_after_id = (case n of Some i \<Rightarrow> i | None \<Rightarrow> 0), eq_limit = l\<rparr>)
             | _ \<Rightarrow> None)
          else None
      | [a, b, c, d] \<Rightarrow>
          if a = ''admin'' \<and> b = ''backfill'' \<and> d = ''status'' then Some (GetBackfillStatus c)
          else if a = ''admin'' \<and> b = ''backfill'' \<and> d = ''failures'' then Some (GetBackfillFailures c)
          else None
      | _ \<Rightarrow> None)"

text \<open>A member with a default may be absent, but not ill-typed.\<close>

definition default_member :: "json \<Rightarrow> string \<Rightarrow> (json \<Rightarrow> 'a option) \<Rightarrow> 'a \<Rightarrow> 'a option" where
  "default_member j k dec d = (case member j k of None \<Rightarrow> Some d | Some v \<Rightarrow> dec v)"

definition as_u64 :: "json \<Rightarrow> nat option" where
  "as_u64 j = (case j of JNum n \<Rightarrow> if 0 \<le> n \<and> n < 2 ^ 64 then Some (nat n) else None | _ \<Rightarrow> None)"

definition illuminate_request_of_json :: "json \<Rightarrow> IlluminateTaskRequest option" where
  "illuminate_request_of_json j =
     (case (req_member j ''capture_id'' as_i32_num, default_member j ''prompt_version'' version_of_json V2,
            nullable_member j ''thinking_level'' thinking_of_json, default_member j ''persist_projection'' as_boolean True) of
        (Some i, Some v, Some l, Some p) \<Rightarrow>
          Some \<lparr>lq_capture_id = i, lq_prompt_version = v, lq_thinking_level = l, lq_persist_projection = p\<rparr>
      | _ \<Rightarrow> None)"

definition capture_request_of_json :: "json \<Rightarrow> CaptureTaskRequest option" where
  "capture_request_of_json j = map_option (\<lambda>i. \<lparr>cq_capture_id = i\<rparr>) (req_member j ''capture_id'' as_i32_num)"

definition change_password_of_json :: "json \<Rightarrow> ChangePasswordRequest option" where
  "change_password_of_json j =
     (case (req_member j ''current_password'' as_string, req_member j ''new_password'' as_string) of
        (Some c, Some n) \<Rightarrow> Some \<lparr>pq_current_password = c, pq_new_password = n\<rparr> | _ \<Rightarrow> None)"

definition create_user_of_json :: "json \<Rightarrow> CreateUserRequest option" where
  "create_user_of_json j =
     (case (req_member j ''username'' as_string, req_member j ''password'' as_string, req_member j ''email'' as_string) of
        (Some u, Some p, Some e) \<Rightarrow> Some \<lparr>nq_username = u, nq_password = p, nq_email = e\<rparr> | _ \<Rightarrow> None)"

definition token_request_of_json :: "json \<Rightarrow> TokenRequest option" where
  "token_request_of_json j =
     (case (req_member j ''username'' as_string, req_member j ''password'' as_string) of
        (Some u, Some p) \<Rightarrow> Some \<lparr>tkq_username = u, tkq_password = p\<rparr> | _ \<Rightarrow> None)"

definition pump_request_of_json :: "json \<Rightarrow> BackfillPumpRequest option" where
  "pump_request_of_json j =
     (case (req_member j ''backfill_id'' as_string, nullable_member j ''limit'' as_u64, default_member j ''force'' as_boolean False) of
        (Some b, Some l, Some f) \<Rightarrow> Some \<lparr>rq_backfill_id = b, rq_limit = l, rq_force = f\<rparr> | _ \<Rightarrow> None)"

definition annotation_request_of_json :: "json \<Rightarrow> string option" where
  "annotation_request_of_json j = req_member j ''content'' as_string"

definition json_payload :: "payload \<Rightarrow> (json \<Rightarrow> 'a option) \<Rightarrow> 'a option" where
  "json_payload p dec = (case p of JsonPayload j \<Rightarrow> dec j | _ \<Rightarrow> None)"

definition decode_post :: "string list \<Rightarrow> payload \<Rightarrow> request option" where
  "decode_post segs p =
     (case segs of
        [a] \<Rightarrow> if a = ''token'' then map_option PostToken (json_payload p token_request_of_json) else None
      | [a, b] \<Rightarrow>
          if a = ''admin'' \<and> b = ''users'' then map_option (Protected \<circ> PostUsers) (json_payload p create_user_of_json)
          else if a = ''account'' \<and> b = ''password'' then
            map_option (Protected \<circ> PostAccountPassword) (json_payload p change_password_of_json)
          else if a = ''captures'' \<and> b = ''import'' then (case p of FormPayload mp \<Rightarrow> Some (Protected (PostImport mp)) | _ \<Rightarrow> None)
          else if a = ''queues'' \<and> b = ''illuminate'' then
            map_option (Protected \<circ> PostQueueIlluminate) (json_payload p illuminate_request_of_json)
          else if a = ''queues'' \<and> b = ''search_index'' then
            map_option (Protected \<circ> PostQueueSearchIndex) (json_payload p capture_request_of_json)
          else None
      | [a, b, c] \<Rightarrow>
          if a = ''admin'' \<and> b = ''backfill'' \<and> c = ''pump'' then
            map_option (Protected \<circ> PostBackfillPump) (json_payload p pump_request_of_json)
          else if a = ''captures'' \<and> c = ''archive'' then map_option (Protected \<circ> PostArchive) (parse_i32 b)
          else if a = ''captures'' \<and> c = ''unarchive'' then map_option (Protected \<circ> PostUnarchive) (parse_i32 b)
          else if a = ''captures'' \<and> c = ''annotation'' then
            (case (parse_i32 b, json_payload p annotation_request_of_json) of
               (Some i, Some content) \<Rightarrow> Some (Protected (PostAnnotation i content)) | _ \<Rightarrow> None)
          else None
      | [a, b, c, d] \<Rightarrow>
          if a = ''captures'' \<and> c = ''annotation'' \<and> d = ''soft-delete''
          then map_option (Protected \<circ> PostAnnotationSoftDelete) (parse_i32 b)
          else None
      | _ \<Rightarrow> None)"

definition decode_delete :: "string list \<Rightarrow> api_call option" where
  "decode_delete segs =
     (case segs of [a, b] \<Rightarrow> if a = ''captures'' then map_option DeleteCapture (parse_i32 b) else None | _ \<Rightarrow> None)"

text \<open>\<open>None\<close>: no route or undecodable arguments, which the framework answers itself.\<close>

definition decode_request :: "http_request \<Rightarrow> request option" where
  "decode_request q =
     (let (segs, in_url) = url_parts (hq_path q) in
      case hq_method q of
        GET \<Rightarrow> map_option Protected (decode_get segs (in_url @ hq_query q))
      | POST \<Rightarrow> decode_post segs (hq_payload q)
      | DELETE \<Rightarrow> map_option Protected (decode_delete segs))"

section \<open>Every request of the client reaches its route\<close>

text \<open>Text that a URL carries as it is: it is not split, decoded or normalized.\<close>

definition url_safe :: "string \<Rightarrow> bool" where
  "url_safe s \<longleftrightarrow> s \<noteq> [] \<and> s \<noteq> ''.'' \<and> s \<noteq> ''..'' \<and> (\<forall>c \<in> set s.
     is_digit c \<or> (let n = of_char c :: nat in 65 \<le> n \<and> n \<le> 90 \<or> 97 \<le> n \<and> n \<le> 122) \<or> c \<in> set ''-._~,'')"

fun sendable :: "client_call \<Rightarrow> bool" where
  "sendable (ClToken name pw) = True"
| "sendable ClValidate = True"
| "sendable (ClTimeline limit) = pred_option (\<lambda>n. n < 2 ^ 64) limit"
| "sendable (ClCaptures ids) = pred_option (list_all in_i32) ids"
| "sendable (ClSearch query limit) = pred_option (\<lambda>n. n < 2 ^ 64) limit"
| "sendable (ClSearchSimilar cid limit) = (in_i32 cid \<and> pred_option (\<lambda>n. n < 2 ^ 64) limit)"
| "sendable (ClEntitiesByType etype) = True"
| "sendable (ClEntity i) = in_i32 i"
| "sendable (ClExportEntities user after_id limit) = (pred_option in_i32 user \<and> in_i32 after_id \<and> limit < 2 ^ 64)"
| "sendable (ClExportUsers user) = pred_option in_i32 user"
| "sendable (ClImport media_bytes created_at) = True"
| "sendable (ClDelete cid) = in_i32 cid"
| "sendable (ClArchive cid) = in_i32 cid"
| "sendable (ClUnarchive cid) = in_i32 cid"
| "sendable (ClPump req) = pred_option (\<lambda>n. n < 2 ^ 64) (rq_limit req)"
| "sendable (ClBackfillStatus bid) = url_safe bid"
| "sendable (ClBackfillFailures bid) = url_safe bid"
| "sendable (ClIlluminate cid version level persist) = in_i32 cid"
| "sendable (ClSearchIndex cid) = in_i32 cid"
| "sendable (ClTaskRun rid) = url_safe rid"
| "sendable (ClIlluminationRaw rid) = url_safe rid"
| "sendable (ClChangePassword current new) = True"
| "sendable (ClQueueStats hours) = pred_option url_safe hours"
| "sendable (ClQueueFailures hours limit retrying) = (pred_option url_safe hours \<and> pred_option in_i64 limit)"
| "sendable (ClInferenceMeta rid) = (url_safe rid \<and> rid \<noteq> ''stats'')"
| "sendable (ClInferenceStats hours) = pred_option url_safe hours"

fun client_target :: "(timestamp \<Rightarrow> string) \<Rightarrow> client_call \<Rightarrow> request" where
  "client_target fmt (ClToken name pw) = PostToken \<lparr>tkq_username = name, tkq_password = pw\<rparr>"
| "client_target fmt ClValidate = Protected GetDummy"
| "client_target fmt (ClTimeline limit) = Protected (GetTimeline limit)"
| "client_target fmt (ClCaptures ids) = Protected (GetCaptures (case ids of Some is \<Rightarrow> is | None \<Rightarrow> []))"
| "client_target fmt (ClSearch query limit) = Protected (GetSearch \<lparr>sq_q = query, sq_limit = limit\<rparr>)"
| "client_target fmt (ClSearchSimilar cid limit) = Protected (GetSearchSimilar cid limit)"
| "client_target fmt (ClEntitiesByType etype) = Protected (GetEntitiesOfType etype)"
| "client_target fmt (ClEntity i) = Protected (GetEntity i)"
| "client_target fmt (ClExportEntities user after_id limit) =
     Protected (GetExport ''entities'' \<lparr>eq_user_id = user, eq_after_id = after_id, eq_limit = Some limit\<rparr>)"
| "client_target fmt (ClExportUsers user) = Protected (GetExport ''users'' \<lparr>eq_user_id = user, eq_after_id = 0, eq_limit = None\<rparr>)"
| "client_target fmt (ClImport media_bytes created_at) = Protected (PostImport (import_form fmt media_bytes created_at))"
| "client_target fmt (ClDelete cid) = Protected (DeleteCapture cid)"
| "client_target fmt (ClArchive cid) = Protected (PostArchive cid)"
| "client_target fmt (ClUnarchive cid) = Protected (PostUnarchive cid)"
| "client_target fmt (ClPump req) = Protected (PostBackfillPump req)"
| "client_target fmt (ClBackfillStatus bid) = Protected (GetBackfillStatus bid)"
| "client_target fmt (ClBackfillFailures bid) = Protected (GetBackfillFailures bid)"
| "client_target fmt (ClIlluminate cid version level persist) = Protected (PostQueueIlluminate \<lparr>lq_capture_id = cid,
     lq_prompt_version = version, lq_thinking_level = level, lq_persist_projection = persist\<rparr>)"
| "client_target fmt (ClSearchIndex cid) = Protected (PostQueueSearchIndex \<lparr>cq_capture_id = cid\<rparr>)"
| "client_target fmt (ClTaskRun rid) = Protected (GetTask rid)"
| "client_target fmt (ClIlluminationRaw rid) = Protected (GetIlluminationRaw rid)"
| "client_target fmt (ClChangePassword current new) =
     Protected (PostAccountPassword \<lparr>pq_current_password = current, pq_new_password = new\<rparr>)"
| "client_target fmt (ClQueueStats hours) = Protected (GetQueueStats hours)"
| "client_target fmt (ClQueueFailures hours limit retrying) = Protected (GetQueueFailures \<lparr>fq_hours = hours, fq_limit = limit,
     fq_include_retrying = (if retrying then Some True else None)\<rparr>)"
| "client_target fmt (ClInferenceMeta rid) = Protected (GetInferenceMeta rid)"
| "client_target fmt (ClInferenceStats hours) = Protected (GetInferenceStats hours)"

lemma url_safe_chars:
  assumes "url_safe s"
  shows "CHR ''/'' \<notin> set s" "CHR ''?'' \<notin> set s" "CHR ''&'' \<notin> set s" "CHR ''='' \<notin> set s" "s \<noteq> []"
  using assms by (auto simp: url_safe_def is_digit_def digit_val_def Let_def)

lemma show_chars [simp]:
  "CHR ''/'' \<notin> set (show_int i)" "CHR ''?'' \<notin> set (show_int i)" "CHR ''&'' \<notin> set (show_int i)" "CHR ''='' \<notin> set (show_int i)"
  by (auto dest!: show_int_chars simp: is_digit_def digit_val_def)

lemma show_nat_int: "show_nat n = show_int (int n)"
  by (simp add: show_int_def)

lemma parse_u64_show_nat [simp]: "n < 2 ^ 64 \<Longrightarrow> parse_u64 (show_nat n) = Some n"
proof -
  assume n: "n < 2 ^ 64"
  obtain c cs where s: "show_nat n = c # cs" by (cases "show_nat n") auto
  then have "is_digit c" by (metis list.set_intros(1) show_nat_digits)
  then have "c \<noteq> CHR ''-''" by auto
  moreover have "parse_int (show_nat n) = Some (int n)" unfolding show_nat_int by simp
  moreover have "int n < 2 ^ 64" using n by simp
  ultimately show ?thesis by (simp add: parse_u64_def s)
qed

lemma parse_i64_show_int [simp]: "in_i64 i \<Longrightarrow> parse_i64 (show_int i) = Some i"
  by (simp add: parse_i64_def)

lemma split_once_skip: "d \<notin> set p \<Longrightarrow> split_once d (p @ s) = map_option (\<lambda>(a, b). (p @ a, b)) (split_once d s)"
  by (induction p) (cases "split_once d s"; auto)+

lemma one_param_Nil [simp]: "one_param parse k [] = Some None"
  by (simp add: one_param_def)

lemma one_param_single [simp]: "one_param parse k [(k', v)] = (if k = k' then map_option Some (parse v) else Some None)"
  by (simp add: one_param_def)

lemma all_some_map_show: "list_all in_i32 is \<Longrightarrow> all_some (map (\<lambda>i. parse_i32 (show_int i)) is) = Some is"
  by (induction "is") simp_all


lemma captures_params: "filter (\<lambda>(k, v). k = ''id'') (map (\<lambda>i. (''id'', show_int i)) is) = map (\<lambda>i. (''id'', show_int i)) is"
  by (induction "is") simp_all

lemma decode_client_body:
  "illuminate_request_of_json (illuminate_request_json r) = (if in_i32 (lq_capture_id r) then Some r else None)"
  "capture_request_of_json (capture_request_json c) = (if in_i32 (cq_capture_id c) then Some c else None)"
  "change_password_of_json (change_password_json p) = Some p"
  "token_request_of_json (token_request_json t) = Some t"
  "pred_option (\<lambda>n. n < 2 ^ 64) (rq_limit b) \<Longrightarrow> pump_request_of_json (pump_request_json b) = Some b"
  by (cases r, auto simp: illuminate_request_of_json_def illuminate_request_json_def json_field_defs default_member_def
        as_i32_num_def split: option.split)
    (cases c; cases p; cases t; cases b; auto simp: capture_request_of_json_def capture_request_json_def change_password_of_json_def
        change_password_json_def token_request_of_json_def token_request_json_def pump_request_of_json_def pump_request_json_def
        json_field_defs default_member_def as_i32_num_def as_u64_def split: option.splits)+

lemma url_parts_no_query: "CHR ''?'' \<notin> set url \<Longrightarrow> url_parts url = (tl (split_on CHR ''/'' url), [])"
  by (simp add: url_parts_def split_once_None [THEN iffD2])

lemma url_parts_query:
  "CHR ''?'' \<notin> set p \<Longrightarrow> url_parts (p @ CHR ''?'' # q) =
     (tl (split_on CHR ''/'' p), map (\<lambda>s. case split_once CHR ''='' s of Some kv \<Rightarrow> kv | None \<Rightarrow> (s, [])) (split_on CHR ''&'' q))"
  by (simp add: url_parts_def split_once_append)

lemma stats_url_parts:
  assumes "CHR ''/'' \<notin> set kind" and "CHR ''?'' \<notin> set kind" and "pred_option url_safe hours"
  shows "url_parts (admin_stats_url kind hours) =
     ([''admin'', kind, ''stats''], case hours of Some h \<Rightarrow> [(''hours'', h)] | None \<Rightarrow> [])"
proof -
  have path: "tl (split_on CHR ''/'' (''/admin/'' @ kind @ ''/stats'')) = [''admin'', kind, ''stats'']"
    using split_on_append [OF assms(1), of "''stats''"] by simp
  show ?thesis
  proof (cases hours)
    case None
    with assms path show ?thesis by (simp add: admin_stats_url_def url_parts_no_query)
  next
    case (Some h)
    with assms(3) have h: "CHR ''&'' \<notin> set (''hours='' @ h)" by (simp add: url_safe_chars)
    have url: "admin_stats_url kind hours = (''/admin/'' @ kind @ ''/stats'') @ CHR ''?'' # (''hours='' @ h)"
      by (simp add: admin_stats_url_def Some)
    have "CHR ''?'' \<notin> set (''/admin/'' @ kind @ ''/stats'')" using assms(2) by simp
    note parts = url_parts_query [OF this, of "''hours='' @ h", folded url, unfolded path split_on_no_delim [OF h]]
    show ?thesis unfolding parts by (simp add: Some)
  qed
qed

lemma failures_url_parts:
  assumes "pred_option url_safe hours"
  shows "url_parts (queue_failures_url hours limit retrying) = ([''admin'', ''queue'', ''failures''],
     (case hours of Some h \<Rightarrow> [(''hours'', h)] | None \<Rightarrow> []) @
     (case limit of Some n \<Rightarrow> [(''limit'', show_int n)] | None \<Rightarrow> []) @
     (if retrying then [(''include_retrying'', ''true'')] else []))"
proof -
  define params where "params = (case hours of Some h \<Rightarrow> [''hours='' @ h] | None \<Rightarrow> []) @
        (case limit of Some n \<Rightarrow> [''limit='' @ show_int n] | None \<Rightarrow> []) @
        (if retrying then [''include_retrying=true''] else [])"
  have "\<forall>p \<in> set params. CHR ''&'' \<notin> set p"
    using assms by (auto simp: params_def url_safe_chars split: option.splits)
  then have split: "params \<noteq> [] \<Longrightarrow> split_on CHR ''&'' (join ''&'' params) = params" using split_on_join by blast
  have pairs: "map (\<lambda>s. case split_once CHR ''='' s of Some kv \<Rightarrow> kv | None \<Rightarrow> (s, [])) params =
     (case hours of Some h \<Rightarrow> [(''hours'', h)] | None \<Rightarrow> []) @
     (case limit of Some n \<Rightarrow> [(''limit'', show_int n)] | None \<Rightarrow> []) @
     (if retrying then [(''include_retrying'', ''true'')] else [])"
    by (auto simp: params_def split: option.splits)
  have path: "tl (split_on CHR ''/'' ''/admin/queue/failures'') = [''admin'', ''queue'', ''failures'']" by simp
  have url: "queue_failures_url hours limit retrying = ''/admin/queue/failures'' @ (if params = [] then [] else CHR ''?'' # join ''&'' params)"
    by (simp add: queue_failures_url_def params_def Let_def)
  show ?thesis
  proof (cases "params = []")
    case True
    with pairs show ?thesis unfolding url by (simp add: url_parts_no_query)
  next
    case False
    then show ?thesis
      unfolding url if_not_P [OF False] by (subst url_parts_query) (simp_all add: path split pairs del: split_on.simps)
  qed
qed

lemma decode_client_request:
  assumes "sendable c"
  shows "decode_request (client_request fmt c) = Some (client_target fmt c)"
proof -
  have seg: "split_on CHR ''/'' (s @ CHR ''/'' # t) = s # split_on CHR ''/'' t" "split_on CHR ''/'' s = [s]" "CHR ''?'' \<notin> set s"
    if "url_safe s" for s t
    using url_safe_chars [OF that] by (simp_all add: split_on_append split_on_no_delim)
  have int_seg: "split_on CHR ''/'' (show_int i @ CHR ''/'' # t) = show_int i # split_on CHR ''/'' t"
    "split_on CHR ''/'' (show_int i) = [show_int i]" for i t
    by (simp_all add: split_on_append split_on_no_delim)
  note defs = decode_request_def http_get_def http_post_def http_delete_def url_parts_no_query decode_get_def decode_post_def
    decode_delete_def json_payload_def limit_query_def user_query_param_def one_param_def seg int_seg decode_client_body
    captures_params comp_def
  show ?thesis
  proof (cases c)
    case (ClCaptures ids)
    with assms show ?thesis
      by (cases ids) (simp_all add: defs all_some_map_show)
  next
    case (ClQueueStats hours)
    with assms show ?thesis by (cases hours) (simp_all add: stats_url_parts defs)
  next
    case (ClInferenceStats hours)
    with assms show ?thesis by (cases hours) (simp_all add: stats_url_parts defs)
  next
    case (ClQueueFailures hours limit retrying)
    with assms show ?thesis by (cases hours; cases limit) (simp_all add: failures_url_parts defs parse_bool_def)
  qed (use assms in \<open>auto simp: defs split: option.splits\<close>)
qed

section \<open>Answers\<close>

definition is_success :: "nat \<Rightarrow> bool" where
  "is_success status \<longleftrightarrow> 200 \<le> status \<and> status < 300"

definition read_error_body :: "'b http_response \<Rightarrow> string" where
  "read_error_body r = (case hp_text r of Some t \<Rightarrow> t | None \<Rightarrow> ''<no body>'')"

definition request_failed :: "(nat \<Rightarrow> string) \<Rightarrow> 'b http_response \<Rightarrow> anyhow" where
  "request_failed reason r =
     anyhow_msg (''request failed with status '' @ show_nat (hp_status r) @ '' '' @ reason (hp_status r) @ '': ''
       @ read_error_body r)"

text \<open>
  The type a body must decode to is a partial selector of the bodies the handlers answer with. A
  response carries the value as the client decodes it: \<open>http_answer\<close> puts it through \<open>body_on_wire\<close>.
\<close>

definition parse_json_response :: "(nat \<Rightarrow> string) \<Rightarrow> ('b \<Rightarrow> 't option) \<Rightarrow> 'b http_response \<Rightarrow> anyhow + 't" where
  "parse_json_response reason sel r =
     (if is_success (hp_status r) then
        (case hp_body r of
           Inl e \<Rightarrow> Inl (with_context ''failed to parse JSON response'' e)
         | Inr b \<Rightarrow> (case sel b of Some x \<Rightarrow> Inr x | None \<Rightarrow> Inl [''failed to parse JSON response'']))
      else if hp_status r = 401 then Inl (anyhow_msg (''unauthorized (401): '' @ read_error_body r))
      else Inl (request_failed reason r))"

definition parse_no_content :: "(nat \<Rightarrow> string) \<Rightarrow> 'b http_response \<Rightarrow> anyhow + unit" where
  "parse_no_content reason r =
     (if hp_status r = 204 then Inr ()
      else if hp_status r = 401 then Inl (anyhow_msg (''unauthorized (401): '' @ read_error_body r))
      else Inl (request_failed reason r))"

definition parse_ndjson_response :: "(nat \<Rightarrow> string) \<Rightarrow> ('b \<Rightarrow> 't option) \<Rightarrow> 'b http_response \<Rightarrow> anyhow + 't \<times> int option" where
  "parse_ndjson_response reason sel r =
     (if \<not> is_success (hp_status r) then Inl (request_failed reason r)
      else (case hp_body r of
              Inl e \<Rightarrow> Inl (with_context ''failed to read export body'' e)
            | Inr b \<Rightarrow>
                (case sel b of
                   Some rows \<Rightarrow> Inr (rows, Option.bind (hp_next_after_id r) parse_i32)
                 | None \<Rightarrow> Inl [''failed to parse export line''])))"

definition send :: "('s, 'b) Client \<Rightarrow> string \<Rightarrow> http_request \<Rightarrow> ('s, anyhow, 'b http_response) comp" where
  "send C what q = map_errM (with_context what) (rc_send C (rc_base_url C) (q\<lparr>hq_bearer := Some (rc_access_token C)\<rparr>))"

definition call_json ::
  "('s, 'b) Client \<Rightarrow> string \<Rightarrow> (timestamp \<Rightarrow> string) \<Rightarrow> client_call \<Rightarrow> ('b \<Rightarrow> 't option) \<Rightarrow> ('s, anyhow, 't) comp" where
  "call_json C what fmt c sel = bindM (send C what (client_request fmt c)) (\<lambda>r. liftM (parse_json_response (rc_reason C) sel r))"

definition call_no_content ::
  "('s, 'b) Client \<Rightarrow> string \<Rightarrow> client_call \<Rightarrow> ('s, anyhow, unit) comp" where
  "call_no_content C what c = bindM (send C what (client_request (\<lambda>_. []) c)) (\<lambda>r. liftM (parse_no_content (rc_reason C) r))"

subsection \<open>What each method expects\<close>

fun captures_of :: "'x body \<Rightarrow> CaptureInfo list option" where
  "captures_of (CapturesBody cs) = Some cs" | "captures_of _ = None"

fun capture_of :: "'x body \<Rightarrow> CaptureInfo option" where
  "capture_of (CaptureBody c) = Some c" | "capture_of _ = None"

fun entity_of :: "'x body \<Rightarrow> KnowledgeEntityInfo option" where
  "entity_of (EntityBody e) = Some e" | "entity_of _ = None"

fun entities_of :: "'x body \<Rightarrow> KnowledgeEntityInfo list option" where
  "entities_of (EntitiesBody es) = Some es" | "entities_of _ = None"

fun json_of_body :: "'x body \<Rightarrow> json option" where
  "json_of_body (JsonBody j) = Some j" | "json_of_body _ = None"

fun run_id_of :: "'x body \<Rightarrow> string option" where
  "run_id_of (RunIdBody r) = Some r" | "run_id_of _ = None"

fun task_run_of :: "'x body \<Rightarrow> TaskRunInfo option" where
  "task_run_of (TaskRunBody t) = Some t" | "task_run_of _ = None"

fun token_of :: "'x body \<Rightarrow> string option" where
  "token_of (TokenBody t) = Some (tkr_access_token t)" | "token_of _ = None"

fun pump_of :: "'x body \<Rightarrow> BackfillPumpResponse option" where
  "pump_of (PumpBody r) = Some r" | "pump_of _ = None"

fun backfill_status_of :: "'x body \<Rightarrow> BackfillStatusResponse option" where
  "backfill_status_of (BackfillStatusBody r) = Some r" | "backfill_status_of _ = None"

fun backfill_failures_of :: "'x body \<Rightarrow> (string \<times> TaskRunInfo list) option" where
  "backfill_failures_of (BackfillFailuresBody r) = Some r" | "backfill_failures_of _ = None"

fun queue_stats_of :: "'x body \<Rightarrow> 'x QueueStatsResponse option" where
  "queue_stats_of (QueueStatsBody r) = Some r" | "queue_stats_of _ = None"

fun queue_failures_of :: "'x body \<Rightarrow> QueueFailuresResponse option" where
  "queue_failures_of (QueueFailuresBody r) = Some r" | "queue_failures_of _ = None"

fun inference_meta_of :: "'x body \<Rightarrow> InferenceMetaInfo list option" where
  "inference_meta_of (InferenceMetaBody r) = Some r" | "inference_meta_of _ = None"

fun inference_stats_of :: "'x body \<Rightarrow> (int \<times> 'x InferenceStats list) list option" where
  "inference_stats_of (InferenceStatsBody r) = Some r" | "inference_stats_of _ = None"

fun entity_rows_of :: "'x body \<Rightarrow> KnowledgeEntityInfo ExportRow list option" where
  "entity_rows_of (EntityRowsBody rows _) = Some rows" | "entity_rows_of _ = None"

fun user_rows_of :: "'x body \<Rightarrow> UserInfo ExportRow list option" where
  "user_rows_of (UserRowsBody rows) = Some rows" | "user_rows_of _ = None"

subsection \<open>The methods\<close>

type_synonym ('s, 'x, 'a) client_op = "('s, 'x body) Client \<Rightarrow> ('s, anyhow, 'a) comp"

definition connect_with_token ::
  "(string \<Rightarrow> http_request \<Rightarrow> ('s, anyhow, 'b http_response) comp) \<Rightarrow> (nat \<Rightarrow> string) \<Rightarrow> string \<Rightarrow> string \<Rightarrow> ('s, 'b) Client" where
  "connect_with_token http reason host token =
     \<lparr>rc_base_url = normalize_base_url host, rc_access_token = token, rc_send = http, rc_reason = reason\<rparr>"

definition connect ::
  "(string \<Rightarrow> http_request \<Rightarrow> ('s, anyhow, 'x body http_response) comp) \<Rightarrow> (nat \<Rightarrow> string) \<Rightarrow> string \<Rightarrow> string \<Rightarrow> string
     \<Rightarrow> ('s, anyhow, ('s, 'x body) Client) comp" where
  "connect http reason host username password =
     bindM (map_errM (with_context ''failed to call token endpoint'')
        (http (normalize_base_url host) (client_request (\<lambda>_. []) (ClToken username password)))) (\<lambda>r.
     if \<not> is_success (hp_status r)
     then throwM (anyhow_msg (''token endpoint failed with status '' @ show_nat (hp_status r) @ '' '' @ reason (hp_status r) @ '': ''
        @ read_error_body r))
     else (case hp_body r of
             Inl e \<Rightarrow> throwM (with_context ''failed to parse token response'' e)
           | Inr b \<Rightarrow>
               (case token_of b of
                  None \<Rightarrow> throwM [''failed to parse token response'']
                | Some token \<Rightarrow> returnM (connect_with_token http reason host token))))"

definition validate_auth :: "('s, 'x, unit) client_op" where
  "validate_auth C =
     bindM (send C ''failed to call dummy endpoint'' (client_request (\<lambda>_. []) ClValidate)) (\<lambda>r.
     if is_success (hp_status r) then returnM ()
     else if hp_status r = 401 then throwM (anyhow_msg (''unauthorized (401): '' @ read_error_body r))
     else throwM (request_failed (rc_reason C) r))"

definition api_get_timeline :: "nat option \<Rightarrow> ('s, 'x, CaptureInfo list) client_op" where
  "api_get_timeline limit C = call_json C ''failed to call timeline endpoint'' (\<lambda>_. []) (ClTimeline limit) captures_of"

definition api_get_captures :: "int list option \<Rightarrow> ('s, 'x, CaptureInfo list) client_op" where
  "api_get_captures ids C = call_json C ''failed to call captures endpoint'' (\<lambda>_. []) (ClCaptures ids) captures_of"

definition api_search :: "string \<Rightarrow> nat option \<Rightarrow> ('s, 'x, CaptureInfo list) client_op" where
  "api_search query limit C = call_json C ''failed to call search endpoint'' (\<lambda>_. []) (ClSearch query limit) captures_of"

definition api_search_similar :: "int \<Rightarrow> nat option \<Rightarrow> ('s, 'x, CaptureInfo list) client_op" where
  "api_search_similar cid limit C =
     call_json C ''failed to call similar search endpoint'' (\<lambda>_. []) (ClSearchSimilar cid limit) captures_of"

definition api_get_entities_by_type :: "string \<Rightarrow> ('s, 'x, KnowledgeEntityInfo list) client_op" where
  "api_get_entities_by_type etype C = call_json C ''failed to call entity endpoint'' (\<lambda>_. []) (ClEntitiesByType etype) entities_of"

definition api_get_entity :: "int \<Rightarrow> ('s, 'x, KnowledgeEntityInfo) client_op" where
  "api_get_entity i C = call_json C ''failed to call entity endpoint'' (\<lambda>_. []) (ClEntity i) entity_of"

definition api_export_entities ::
  "int option \<Rightarrow> int \<Rightarrow> nat \<Rightarrow> ('s, 'x, KnowledgeEntityInfo ExportRow list \<times> int option) client_op" where
  "api_export_entities user after_id limit C =
     bindM (send C ''failed to call entity export endpoint'' (client_request (\<lambda>_. []) (ClExportEntities user after_id limit))) (\<lambda>r.
     liftM (parse_ndjson_response (rc_reason C) entity_rows_of r))"

definition api_export_users :: "int option \<Rightarrow> ('s, 'x, UserInfo ExportRow list) client_op" where
  "api_export_users user C =
     bindM (send C ''failed to call user export endpoint'' (client_request (\<lambda>_. []) (ClExportUsers user))) (\<lambda>r.
     liftM (map_sum id fst (parse_ndjson_response (rc_reason C) user_rows_of r)))"

definition api_import_capture :: "(timestamp \<Rightarrow> string) \<Rightarrow> string \<Rightarrow> timestamp \<Rightarrow> ('s, 'x, CaptureInfo) client_op" where
  "api_import_capture fmt media_bytes created_at C =
     call_json C ''failed to call import capture endpoint'' fmt (ClImport media_bytes created_at) capture_of"

definition api_delete_capture :: "int \<Rightarrow> ('s, 'x, unit) client_op" where
  "api_delete_capture cid C = call_no_content C ''failed to call delete capture endpoint'' (ClDelete cid)"

definition api_archive_capture :: "int \<Rightarrow> ('s, 'x, unit) client_op" where
  "api_archive_capture cid C = call_no_content C ''failed to call archive capture endpoint'' (ClArchive cid)"

definition api_unarchive_capture :: "int \<Rightarrow> ('s, 'x, unit) client_op" where
  "api_unarchive_capture cid C = call_no_content C ''failed to call unarchive capture endpoint'' (ClUnarchive cid)"

definition api_backfill_pump :: "BackfillPumpRequest \<Rightarrow> ('s, 'x, BackfillPumpResponse) client_op" where
  "api_backfill_pump req C = call_json C ''failed to call admin backfill pump endpoint'' (\<lambda>_. []) (ClPump req) pump_of"

definition api_backfill_status :: "string \<Rightarrow> ('s, 'x, BackfillStatusResponse) client_op" where
  "api_backfill_status bid C =
     call_json C ''failed to call admin backfill status endpoint'' (\<lambda>_. []) (ClBackfillStatus bid) backfill_status_of"

definition api_backfill_failures :: "string \<Rightarrow> ('s, 'x, string \<times> TaskRunInfo list) client_op" where
  "api_backfill_failures bid C =
     call_json C ''failed to call admin backfill failures endpoint'' (\<lambda>_. []) (ClBackfillFailures bid) backfill_failures_of"

definition api_enqueue_illuminate ::
  "int \<Rightarrow> IlluminationVersion \<Rightarrow> ThinkingLevel option \<Rightarrow> bool \<Rightarrow> ('s, 'x, string) client_op" where
  "api_enqueue_illuminate cid version level persist C =
     call_json C ''failed to submit illumination task'' (\<lambda>_. []) (ClIlluminate cid version level persist) run_id_of"

definition api_enqueue_search_index :: "int \<Rightarrow> ('s, 'x, string) client_op" where
  "api_enqueue_search_index cid C = call_json C ''failed to submit search-index task'' (\<lambda>_. []) (ClSearchIndex cid) run_id_of"

definition api_get_task_run :: "string \<Rightarrow> ('s, 'x, TaskRunInfo) client_op" where
  "api_get_task_run rid C = call_json C ''failed to query task-run status'' (\<lambda>_. []) (ClTaskRun rid) task_run_of"

definition api_get_illumination_raw :: "string \<Rightarrow> ('s, 'x, json) client_op" where
  "api_get_illumination_raw rid C =
     call_json C ''failed to fetch raw illumination result'' (\<lambda>_. []) (ClIlluminationRaw rid) json_of_body"

definition api_change_password :: "string \<Rightarrow> string \<Rightarrow> ('s, 'x, unit) client_op" where
  "api_change_password current new C = call_no_content C ''failed to call account password endpoint'' (ClChangePassword current new)"

definition api_queue_stats :: "string option \<Rightarrow> ('s, 'x, 'x QueueStatsResponse) client_op" where
  "api_queue_stats hours C = call_json C ''failed to call admin queue stats endpoint'' (\<lambda>_. []) (ClQueueStats hours) queue_stats_of"

definition api_queue_failures :: "string option \<Rightarrow> int option \<Rightarrow> bool \<Rightarrow> ('s, 'x, QueueFailuresResponse) client_op" where
  "api_queue_failures hours limit retrying C =
     call_json C ''failed to call admin queue failures endpoint'' (\<lambda>_. []) (ClQueueFailures hours limit retrying) queue_failures_of"

definition api_inference_meta :: "string \<Rightarrow> ('s, 'x, InferenceMetaInfo list) client_op" where
  "api_inference_meta rid C =
     call_json C ''failed to call admin inference meta endpoint'' (\<lambda>_. []) (ClInferenceMeta rid) inference_meta_of"

definition api_inference_stats :: "string option \<Rightarrow> ('s, 'x, (int \<times> 'x InferenceStats list) list) client_op" where
  "api_inference_stats hours C =
     call_json C ''failed to call admin inference stats endpoint'' (\<lambda>_. []) (ClInferenceStats hours) inference_stats_of"

section \<open>Exports as lines of JSON\<close>

text \<open>
  \<open>ndjson\<close> of \<open>r_export.rs\<close> and the lines the client reads. The serializer of a row is an
  argument; \<open>str::lines\<close> drops a carriage return before a line feed, and no line follows the last one.
\<close>

definition ndjson :: "('t \<Rightarrow> string) \<Rightarrow> 't list \<Rightarrow> string" where
  "ndjson to_string rows = concat (map (\<lambda>row. to_string row @ [CHR 0x0A]) rows)"

definition strip_cr :: "string \<Rightarrow> string" where
  "strip_cr l = (if l \<noteq> [] \<and> last l = CHR 0x0D then butlast l else l)"

definition str_lines :: "string \<Rightarrow> string list" where
  "str_lines s =
     (let parts = split_on CHR 0x0A s;
          closed = map strip_cr (butlast parts)
      in if last parts = [] then closed else closed @ [last parts])"

definition parse_lines :: "(string \<Rightarrow> 't option) \<Rightarrow> string \<Rightarrow> 't list option" where
  "parse_lines from_str body = all_some (map from_str (filter (\<lambda>line. trim line \<noteq> []) (str_lines body)))"

lemma split_on_nonempty [simp]: "split_on d s \<noteq> []"
  by (induction s) (auto split: list.splits)

lemma str_lines_Cons:
  assumes "CHR 0x0A \<notin> set l"
  shows "str_lines (l @ CHR 0x0A # s) = strip_cr l # str_lines s"
  using assms by (simp add: str_lines_def Let_def split_on_append)

lemma str_lines_ndjson:
  assumes "\<And>x. x \<in> set rows \<Longrightarrow> CHR 0x0A \<notin> set (enc x) \<and> (enc x \<noteq> [] \<longrightarrow> last (enc x) \<noteq> CHR 0x0D)"
  shows "str_lines (ndjson enc rows) = map enc rows"
  using assms
proof (induction rows)
  case Nil
  show ?case by (simp add: str_lines_def ndjson_def)
next
  case (Cons x rows)
  have "ndjson enc (x # rows) = enc x @ CHR 0x0A # ndjson enc rows" by (simp add: ndjson_def)
  moreover have "CHR 0x0A \<notin> set (enc x)" "strip_cr (enc x) = enc x" using Cons.prems [of x] by (auto simp: strip_cr_def)
  ultimately show ?case using Cons by (simp add: str_lines_Cons)
qed

section \<open>Served by the router\<close>

text \<open>
  The client talking to \<open>serve\<close>: the framework answers what it cannot decode, an error is
  reported as text, a panic breaks the connection, and another origin is another server.
\<close>

record 'b framework =
  fw_origin :: string
  fw_now :: "world \<Rightarrow> nat"
  fw_report_id :: "world \<Rightarrow> string"
  fw_trace_id :: "world \<Rightarrow> string option"
  fw_json_text :: "json \<Rightarrow> string"
  fw_body_text :: "'b \<Rightarrow> string"
  fw_no_body :: anyhow
  fw_broken :: anyhow
  fw_undecoded :: "http_request \<Rightarrow> 'b http_response"
  fw_elsewhere :: "string \<Rightarrow> http_request \<Rightarrow> (world, anyhow, 'b http_response) comp"

fun next_after_id_header :: "'x body \<Rightarrow> string option" where
  "next_after_id_header (EntityRowsBody rows next) = next"
| "next_after_id_header _ = None"

text \<open>
  What of a body is on the wire. \<open>serde(skip)\<close> leaves five fields of a media out of its JSON, and the
  client's deserializer fills them with their defaults. The other types carry every field; the
  ones some leave out when empty are read back as empty.
\<close>

definition media_on_wire :: "MediaInfo \<Rightarrow> MediaInfo" where
  "media_on_wire m = m\<lparr>mi_hash_blake3 := None, mi_storage_provider := [], mi_storage_bucket := None,
     mi_storage_shard := [], mi_storage_extension := None\<rparr>"

definition capture_on_wire :: "CaptureInfo \<Rightarrow> CaptureInfo" where
  "capture_on_wire c = c\<lparr>ci_medias := map media_on_wire (ci_medias c)\<rparr>"

fun body_on_wire :: "'x body \<Rightarrow> 'x body" where
  "body_on_wire (CapturesBody cs) = CapturesBody (map capture_on_wire cs)"
| "body_on_wire (CaptureBody c) = CaptureBody (capture_on_wire c)"
| "body_on_wire b = b"

definition text_answer :: "'b framework \<Rightarrow> nat \<times> string \<Rightarrow> 'b http_response" where
  "text_answer FW = (\<lambda>(status, t). \<lparr>hp_status = status, hp_next_after_id = None, hp_text = Some t, hp_body = Inl (fw_no_body FW)\<rparr>)"

definition http_answer :: "'x body framework \<Rightarrow> world \<Rightarrow> refusal + 'x answer \<Rightarrow> anyhow + 'x body http_response" where
  "http_answer FW w r =
     (case r of
        Inr (status, b) \<Rightarrow> Inr \<lparr>hp_status = status, hp_next_after_id = next_after_id_header b,
          hp_text = Some (fw_body_text FW (body_on_wire b)), hp_body = Inr (body_on_wire b)\<rparr>
      | Inl (Rejected e) \<Rightarrow> Inr (text_answer FW (map_prod id (fw_json_text FW) (auth_error_response e)))
      | Inl (Handler (Failed e)) \<Rightarrow> Inr (text_answer FW (into_response (fw_report_id FW w) (fw_trace_id FW w) e))
      | Inl (Handler Panicked) \<Rightarrow> Inl (fw_broken FW))"

definition http_serve ::
  "'x body framework \<Rightarrow> 'x libraries \<Rightarrow> ('f, 'd) RestState \<Rightarrow> env \<Rightarrow> string \<Rightarrow> http_request
     \<Rightarrow> (world, anyhow, 'x body http_response) comp" where
  "http_serve FW L self E base q =
     (if base \<noteq> fw_origin FW @ ''/api'' then fw_elsewhere FW base q
      else case decode_request q of
        None \<Rightarrow> returnM (fw_undecoded FW q)
      | Some req \<Rightarrow> (\<lambda>w. case serve L self E (fw_now FW w) (hq_bearer q) req w of (r, w') \<Rightarrow> (http_answer FW w r, w')))"

lemma decode_request_bearer [simp]: "decode_request (q\<lparr>hq_bearer := t\<rparr>) = decode_request q"
  by (simp add: decode_request_def split: http_method.splits prod.splits)

text \<open>A request of the client, once the handler it names has run.\<close>

lemma send_served:
  assumes "sendable c" "normalize_base_url host = fw_origin FW @ ''/api''"
  shows "send (connect_with_token (http_serve FW L self E) reason host token) what (client_request fmt c) w =
    (case serve L self E (fw_now FW w) (Some token) (client_target fmt c) w of
       (r, w') \<Rightarrow> (map_sum (with_context what) id (http_answer FW w r), w'))"
  by (simp add: send_def connect_with_token_def http_serve_def decode_client_request [OF assms(1)] assms(2) map_errM_def
      split: prod.splits sum.splits)

lemma rc_reason_connect [simp]: "rc_reason (connect_with_token http reason host token) = reason"
  by (simp add: connect_with_token_def)

lemma call_json_served:
  assumes "sendable c" "normalize_base_url host = fw_origin FW @ ''/api''"
  shows "call_json (connect_with_token (http_serve FW L self E) reason host token) what fmt c sel w =
    (case serve L self E (fw_now FW w) (Some token) (client_target fmt c) w of
       (r, w') \<Rightarrow>
         (case http_answer FW w r of
            Inl e \<Rightarrow> Inl (with_context what e)
          | Inr response \<Rightarrow> parse_json_response reason sel response, w'))"
  by (simp add: call_json_def run_bindM send_served [OF assms] run_liftM split: prod.split sum.split)

text \<open>
  The caller of a remote method sees what the caller of the handler sees, as far as it is on the
  wire, and an error as some error.
\<close>

definition wire_answer :: "('a \<Rightarrow> 'b) \<Rightarrow> (anyhow + 'b) \<times> world \<Rightarrow> (failure + 'a) \<times> world \<Rightarrow> bool" where
  "wire_answer wire remote_call local_call \<longleftrightarrow>
     snd remote_call = snd local_call \<and>
     (case fst local_call of Inr x \<Rightarrow> fst remote_call = Inr (wire x) | Inl _ \<Rightarrow> isl (fst remote_call))"

abbreviation same_answer :: "(anyhow + 'a) \<times> world \<Rightarrow> (failure + 'a) \<times> world \<Rightarrow> bool" where
  "same_answer \<equiv> wire_answer (\<lambda>x. x)"

definition as_failure :: "(ApiError + 'a) \<times> world \<Rightarrow> (failure + 'a) \<times> world" where
  "as_failure = map_prod (map_sum Failed id) id"

lemma parse_json_error: "isl (parse_json_response reason sel (text_answer FW e))"
  by (cases e) (simp add: parse_json_response_def text_answer_def)

lemma parse_json_success:
  "is_success status \<Longrightarrow> parse_json_response reason sel
     \<lparr>hp_status = status, hp_next_after_id = a, hp_text = t, hp_body = Inr b\<rparr> =
   (case sel b of Some x \<Rightarrow> Inr x | None \<Rightarrow> Inl [''failed to parse JSON response''])"
  by (simp add: parse_json_response_def)

lemma call_json_same:
  assumes "sendable c" "normalize_base_url host = fw_origin FW @ ''/api''" "client_target fmt c = Protected called"
    "from_request_parts (lib_jwt L) (fw_now FW w) (Some (rs_jwt_config self)) (Some token) = Inr user"
    "call_handler L self E (context_from user) called w = bindM m (\<lambda>x. returnM (status, body x)) w"
    "is_success status" "\<And>x. sel (body_on_wire (body x)) = Some (wire x)"
  shows "wire_answer wire (call_json (connect_with_token (http_serve FW L self E) reason host token) what fmt c sel w) (m w)"
proof -
  have "serve L self E (fw_now FW w) (Some token) (client_target fmt c) w =
      map_errM Handler (bindM m (\<lambda>x. returnM (status, body x))) w"
    by (simp add: serve_def assms(3,4) run_map_errM assms(5))
  then show ?thesis
    using assms(6,7)
    by (cases "m w"; cases "fst (m w)")
      (auto simp: call_json_def send_served [OF assms(1,2)] wire_answer_def http_answer_def runs parse_json_error
        parse_json_success split: failure.splits)
qed

text \<open>Errors that a computation can end with.\<close>

definition raises :: "('e \<Rightarrow> bool) \<Rightarrow> ('s, 'e, 'a) comp \<Rightarrow> bool" where
  "raises P m \<longleftrightarrow> (\<forall>w e. fst (m w) = Inl e \<longrightarrow> P e)"

lemma raises_bindM: "raises P m \<Longrightarrow> (\<And>x. raises P (f x)) \<Longrightarrow> raises P (bindM m f)"
  unfolding raises_def bindM_def by (auto split: prod.splits sum.splits) (metis fst_conv)+

lemma raises_throwM [simp]: "raises P (throwM e) \<longleftrightarrow> P e"
  by (simp add: raises_def runs)

lemma raises_returnM [simp]: "raises P (returnM x)"
  by (simp add: raises_def runs)

lemma raises_map_errM: "(\<And>e. P (f e)) \<Longrightarrow> raises P (map_errM f m)"
  by (auto simp: raises_def map_errM_def split: prod.splits sum.splits)

lemma raises_utc_now: "raises P (utc_now E)"
  by (simp add: raises_def utc_now_def)

lemma api_of_db_status: "http_status_code (api_of_db e) = 500"
  by (simp add: api_ctor_defs)

abbreviation not_204 :: "ApiError \<Rightarrow> bool" where
  "not_204 e \<equiv> http_status_code e \<noteq> 204"

lemma db_not_204: "raises not_204 (map_errM api_of_db m)"
  by (rule raises_map_errM) (simp add: api_of_db_status)

lemma own_capture_not_204: "raises not_204 (own_capture E context cid)"
  unfolding own_capture_def by (rule raises_bindM [OF db_not_204]) (auto simp: access_denied_def api_ctor_defs split: option.splits)

lemma archive_state_not_204: "raises not_204 (set_capture_archive_state E context cid archived)"
  unfolding set_capture_archive_state_def
  by (intro raises_bindM own_capture_not_204 db_not_204) (auto intro: raises_bindM raises_utc_now)

lemma delete_not_204: "raises not_204 (delete_capture E context cid)"
  unfolding delete_capture_def
  by (rule raises_bindM [OF db_not_204]) (auto simp: access_denied_def api_ctor_defs Let_def intro: db_not_204 split: option.splits)

lemma change_password_not_204: "raises not_204 (change_password A E context current new)"
  unfolding change_password_def
  by (auto simp: api_ctor_defs intro!: raises_bindM db_not_204 split: option.splits sum.splits)

lemma call_no_content_same:
  assumes "sendable c" "normalize_base_url host = fw_origin FW @ ''/api''" "client_target (\<lambda>_. []) c = Protected called"
    "from_request_parts (lib_jwt L) (fw_now FW w) (Some (rs_jwt_config self)) (Some token) = Inr user"
    "call_handler L self E (context_from user) called w = bindM (map_errM Failed m) (\<lambda>_. returnM no_content) w" "raises not_204 m"
  shows "same_answer (call_no_content (connect_with_token (http_serve FW L self E) reason host token) what c w) (as_failure (m w))"
proof -
  have "serve L self E (fw_now FW w) (Some token) (client_target (\<lambda>_. []) c) w =
      map_errM Handler (bindM (map_errM Failed m) (\<lambda>_. returnM no_content)) w"
    by (simp add: serve_def assms(3,4) run_map_errM assms(5))
  moreover have "http_status_code e \<noteq> 204" if "fst (m w) = Inl e" for e
    using assms(6) that by (auto simp: raises_def)
  ultimately show ?thesis
    by (cases "m w"; cases "fst (m w)")
      (auto simp: call_no_content_def send_served [OF assms(1,2)] wire_answer_def as_failure_def http_answer_def runs no_content_def
        parse_no_content_def text_answer_def into_response_def)
qed

lemma as_failure_same: "wire_answer wire r (map_errM Failed m w) \<Longrightarrow> wire_answer wire r (as_failure (m w))"
  by (cases "m w"; cases "fst (m w)") (auto simp: as_failure_def runs)

text \<open>Against one server that accepts the token, method by method.\<close>

definition remote_client :: "'x body framework \<Rightarrow> 'x libraries \<Rightarrow> ('f, 'd) RestState \<Rightarrow> env \<Rightarrow> (nat \<Rightarrow> string) \<Rightarrow> string \<Rightarrow> string
    \<Rightarrow> (world, 'x body) Client" where
  "remote_client FW L self E reason = connect_with_token (http_serve FW L self E) reason"

lemma remote_method:
  fixes E :: env and w :: world and FW :: "'x body framework" and self :: "('f, 'd) RestState"
    and L :: "'x libraries" and reason :: "nat \<Rightarrow> string" and host token :: string and user :: DreamscrollAuthUser
  assumes "normalize_base_url host = fw_origin FW @ ''/api''"
    and "from_request_parts (lib_jwt L) (fw_now FW w) (Some (rs_jwt_config self)) (Some token) = Inr user"
  defines "C \<equiv> remote_client FW L self E reason host token"
    and "ctx \<equiv> context_from user" and "api \<equiv> rs_user_api self"
  shows "n < 2 ^ 64 \<Longrightarrow> wire_answer (map capture_on_wire) (api_get_timeline (Some n) C w) (client_get_timeline_captures api E ctx n w)"
    and "ids \<noteq> [] \<Longrightarrow> list_all in_i32 ids \<Longrightarrow> wire_answer (map capture_on_wire) (api_get_captures (Some ids) C w) (client_get_captures api E ctx ids w)"
    and "trim query \<noteq> [] \<Longrightarrow> pred_option (\<lambda>n. n < 2 ^ 64) limit \<Longrightarrow>
      wire_answer (map capture_on_wire) (api_search query limit C w) (client_search api E ctx query limit w)"
    and "in_i32 cid \<Longrightarrow> pred_option (\<lambda>n. n < 2 ^ 64) limit \<Longrightarrow>
      wire_answer (map capture_on_wire) (api_search_similar cid limit C w) (client_search_similar api E ctx cid limit w)"
    and "same_answer (api_get_entities_by_type etype C w) (as_failure (client_get_entities_by_type E ctx etype w))"
    and "in_i32 i \<Longrightarrow> same_answer (api_get_entity i C w) (as_failure (client_get_entity E ctx i w))"
    and "url_safe rid \<Longrightarrow> same_answer (api_get_task_run rid C w) (as_failure (client_get_task_run E ctx rid w))"
    and "url_safe rid \<Longrightarrow> same_answer (api_get_illumination_raw rid C w) (as_failure (get_illumination_raw E ctx rid w))"
    and "in_i32 cid \<Longrightarrow> same_answer (api_enqueue_illuminate cid version level persist C w)
      (as_failure (enqueue_illumination api E ctx cid version level persist w))"
    and "in_i32 cid \<Longrightarrow> same_answer (api_enqueue_search_index cid C w) (as_failure (enqueue_search_index E ctx cid w))"
    and "in_i32 cid \<Longrightarrow> same_answer (api_archive_capture cid C w) (as_failure (archive_capture E ctx cid w))"
    and "in_i32 cid \<Longrightarrow> same_answer (api_unarchive_capture cid C w) (as_failure (unarchive_capture E ctx cid w))"
    and "in_i32 cid \<Longrightarrow> same_answer (api_delete_capture cid C w) (as_failure (delete_capture E ctx cid w))"
    and "same_answer (api_change_password current new C w) (as_failure (change_password (lib_argon2 L) E ctx current new w))"
proof -
  note json = call_json_same [where E = E and reason = reason, OF _ assms(1) _ assms(2), folded remote_client_def, folded C_def ctx_def]
  note empty = call_no_content_same [where E = E and reason = reason, OF _ assms(1) _ assms(2), folded remote_client_def, folded C_def ctx_def]
  have ok: "is_success 200" "is_success 202" by (simp_all add: is_success_def)
  show "wire_answer (map capture_on_wire) (api_get_timeline (Some n) C w) (client_get_timeline_captures api E ctx n w)" if "n < 2 ^ 64"
    unfolding api_get_timeline_def
    by (rule json [where status = 200 and body = CapturesBody and wire = "map capture_on_wire"], use that in \<open>simp\<close>, rule client_target.simps)
      (use that in \<open>simp_all add: ok call_handler.simps r_timeline_get_def json_answer_def api_def\<close>)
  show "wire_answer (map capture_on_wire) (api_get_captures (Some ids) C w) (client_get_captures api E ctx ids w)" if "ids \<noteq> []" "list_all in_i32 ids"
    unfolding api_get_captures_def
    by (rule json [where status = 200 and body = CapturesBody and wire = "map capture_on_wire"], use that in \<open>simp\<close>, rule client_target.simps)
      (use that in \<open>simp_all add: ok call_handler.simps r_capture_get_def json_answer_def api_def\<close>)
  show "wire_answer (map capture_on_wire) (api_search query limit C w) (client_search api E ctx query limit w)"
    if "trim query \<noteq> []" "pred_option (\<lambda>n. n < 2 ^ 64) limit"
    unfolding api_search_def
    by (rule json [where status = 200 and body = CapturesBody and wire = "map capture_on_wire"], use that in \<open>simp\<close>, rule client_target.simps)
      (use that in \<open>simp_all add: ok call_handler.simps r_search_get_def json_answer_def api_def\<close>)
  show "wire_answer (map capture_on_wire) (api_search_similar cid limit C w) (client_search_similar api E ctx cid limit w)"
    if "in_i32 cid" "pred_option (\<lambda>n. n < 2 ^ 64) limit"
    unfolding api_search_similar_def
    by (rule json [where status = 200 and body = CapturesBody and wire = "map capture_on_wire"], use that in \<open>simp\<close>, rule client_target.simps)
      (use that in \<open>simp_all add: ok call_handler.simps r_search_similar_get_def json_answer_def api_def\<close>)
  show "same_answer (api_get_entities_by_type etype C w) (as_failure (client_get_entities_by_type E ctx etype w))"
    unfolding api_get_entities_by_type_def
    by (rule as_failure_same, rule json [where status = 200 and body = EntitiesBody and wire = "\<lambda>x. x"], simp, rule client_target.simps)
      (simp_all add: ok call_handler.simps r_entity_get_def json_answer_def)
  show "same_answer (api_get_entity i C w) (as_failure (client_get_entity E ctx i w))" if "in_i32 i"
    unfolding api_get_entity_def
    by (rule as_failure_same, rule json [where status = 200 and body = EntityBody and wire = "\<lambda>x. x"], use that in \<open>simp\<close>, rule client_target.simps)
      (use that in \<open>simp_all add: ok call_handler.simps r_entity_get_by_id_def json_answer_def\<close>)
  show "same_answer (api_get_task_run rid C w) (as_failure (client_get_task_run E ctx rid w))" if "url_safe rid"
    unfolding api_get_task_run_def
    by (rule as_failure_same, rule json [where status = 200 and body = TaskRunBody and wire = "\<lambda>x. x"], use that in \<open>simp\<close>, rule client_target.simps)
      (use that in \<open>simp_all add: ok call_handler.simps r_task_get_run_def json_answer_def\<close>)
  show "same_answer (api_get_illumination_raw rid C w) (as_failure (get_illumination_raw E ctx rid w))" if "url_safe rid"
    unfolding api_get_illumination_raw_def
    by (rule as_failure_same, rule json [where status = 200 and body = JsonBody and wire = "\<lambda>x. x"], use that in \<open>simp\<close>, rule client_target.simps)
      (use that in \<open>simp_all add: ok call_handler.simps r_illumination_raw_get_def json_answer_def\<close>)
  show "same_answer (api_enqueue_illuminate cid version level persist C w)
      (as_failure (enqueue_illumination api E ctx cid version level persist w))" if "in_i32 cid"
    unfolding api_enqueue_illuminate_def
    by (rule as_failure_same, rule json [where status = 202 and body = RunIdBody and wire = "\<lambda>x. x"], use that in \<open>simp\<close>, rule client_target.simps)
      (use that in \<open>simp_all add: ok call_handler.simps r_queue_post_illuminate_def accepted_task_run_response_def api_def\<close>)
  show "same_answer (api_enqueue_search_index cid C w) (as_failure (enqueue_search_index E ctx cid w))" if "in_i32 cid"
    unfolding api_enqueue_search_index_def
    by (rule as_failure_same, rule json [where status = 202 and body = RunIdBody and wire = "\<lambda>x. x"], use that in \<open>simp\<close>, rule client_target.simps)
      (use that in \<open>simp_all add: ok call_handler.simps r_queue_post_search_index_def accepted_task_run_response_def\<close>)
  show "same_answer (api_archive_capture cid C w) (as_failure (archive_capture E ctx cid w))" if "in_i32 cid"
    unfolding api_archive_capture_def
    by (rule empty, use that in \<open>simp\<close>, rule client_target.simps) (use that in \<open>simp_all add: call_handler.simps r_capture_archive_def archive_capture_def archive_state_not_204\<close>)
  show "same_answer (api_unarchive_capture cid C w) (as_failure (unarchive_capture E ctx cid w))" if "in_i32 cid"
    unfolding api_unarchive_capture_def
    by (rule empty, use that in \<open>simp\<close>, rule client_target.simps) (use that in \<open>simp_all add: call_handler.simps r_capture_unarchive_def unarchive_capture_def archive_state_not_204\<close>)
  show "same_answer (api_delete_capture cid C w) (as_failure (delete_capture E ctx cid w))" if "in_i32 cid"
    unfolding api_delete_capture_def
    by (rule empty, use that in \<open>simp\<close>, rule client_target.simps) (use that in \<open>simp_all add: call_handler.simps r_capture_delete_def delete_not_204\<close>)
  show "same_answer (api_change_password current new C w) (as_failure (change_password (lib_argon2 L) E ctx current new w))"
    unfolding api_change_password_def
    by (rule empty, simp, rule client_target.simps) (simp_all add: call_handler.simps r_change_password_post_def change_password_not_204)
qed

section \<open>Properties\<close>


text \<open>
  An export survives the wire: the lines \<open>r_export\<close> writes, one row each, are read back by
  the client as the same rows in the same order, whatever the serializer, as long as it puts
  a row on one line that is not blank and does not end in a carriage return.
\<close>

theorem ndjson_roundtrip:
  assumes "\<And>row. row \<in> set rows \<Longrightarrow> from_str (to_string row) = Some row"
    and "\<And>row. row \<in> set rows \<Longrightarrow> trim (to_string row) \<noteq> [] \<and> CHR 0x0A \<notin> set (to_string row) \<and> last (to_string row) \<noteq> CHR 0x0D"
  shows "parse_lines from_str (ndjson to_string rows) = Some rows"
proof -
  have "str_lines (ndjson to_string rows) = map to_string rows"
    by (rule str_lines_ndjson) (use assms(2) in blast)
  moreover have "filter (\<lambda>line. trim line \<noteq> []) (map to_string rows) = map to_string rows"
    using assms(2) by (auto simp: filter_id_conv)
  moreover have "all_some (map (\<lambda>row. from_str (to_string row)) rows) = Some rows"
    using assms(1) by (induction rows) auto
  ultimately show ?thesis by (simp add: parse_lines_def comp_def)
qed

section \<open>Examples\<close>

definition demo_framework :: "'b framework" where
  "demo_framework = \<lparr>fw_origin = ''http://localhost'', fw_now = (\<lambda>_. 120), fw_report_id = (\<lambda>_. ''r''), fw_trace_id = (\<lambda>_. None),
     fw_json_text = (\<lambda>_. ''{}''), fw_body_text = (\<lambda>_. ''{}''), fw_no_body = [''EOF''], fw_broken = [''connection closed''],
     fw_undecoded = (\<lambda>_. \<lparr>hp_status = 404, hp_next_after_id = None, hp_text = Some [], hp_body = Inl [''EOF'']\<rparr>),
     fw_elsewhere = (\<lambda>_ _. throwM [''unreachable''])\<rparr>"

definition demo_listed :: world where
  "demo_listed = demo_data\<lparr>medias := [demo_media\<lparr>md_capture_id := 1\<rparr>]\<rparr>"

lemma demo_listed_read:
  "case client_get_captures (rs_user_api demo_state) quiet_env (context_from demo_api_user) [1] demo_listed of
     (Inr cs, _) \<Rightarrow> map (\<lambda>c. (ci_id c, map mi_storage_extension (ci_medias c))) cs = [(1, [Some ''png''])] | _ \<Rightarrow> False"
  by code_simp


theorem ndjson_roundtrip_witness:
  "parse_lines parse_i32 (ndjson show_int [12, -3]) = Some [12, -3]"
proof -
  have "parse_i32 (show_int 12) = Some 12" "parse_i32 (show_int (-3)) = Some (-3)"
    "trim (show_int 12) = ''12''" "trim (show_int (-3)) = ''-3''" "show_int 12 = ''12''" "show_int (-3) = ''-3''"
    by code_simp+
  then show ?thesis by (intro ndjson_roundtrip) auto
qed

end
