(* ===== verification/Cli.thy ===== *)
theory Cli
  imports Rest_Client
begin

text \<open>
  \<open>bin/dreamscroll_api.rs\<close> and \<open>util_cmds/api/*.rs\<close>: the command line tool over the REST client.
  Its state is the server's, what was printed, the lines waiting on standard input, the
  keyring, the files and the clock. The environment, the keyring's refusals, the formatting of
  JSON and times, and how long a request or a sleep takes are arguments.
\<close>

section \<open>The terminal\<close>

record 's terminal =
  tm_server :: 's
  tm_out :: "string list"
  tm_err :: "string list"
  tm_input :: "string list"
  tm_keys :: "string \<rightharpoonup> string"
  tm_accesses :: nat
  tm_dirs :: "string list"
  tm_files :: "string \<rightharpoonup> string"
  tm_now :: nat

record ('s, 'x) machine =
  mc_blake3_hex :: "string \<Rightarrow> string"
  mc_keyring_error :: "nat \<Rightarrow> string option"
  mc_no_input :: string
  mc_pretty :: "'x body \<Rightarrow> string"
  mc_show_time :: "timestamp \<Rightarrow> string"
  mc_rfc3339 :: "timestamp \<Rightarrow> string"
  mc_claims :: "string \<Rightarrow> json option"
  mc_debug :: "string \<Rightarrow> string"
  mc_lowercase :: "string \<Rightarrow> string"
  mc_latest_instant :: nat
  mc_delay :: "nat \<Rightarrow> nat"
  mc_oversleep :: "nat \<Rightarrow> nat"
  mc_firestarter :: "string \<Rightarrow> string \<Rightarrow> CaptureInfo list \<Rightarrow> ('s, anyhow, SparkResponse InferenceOutcome) comp"
  mc_debug_metadata :: "InferenceMetadata \<Rightarrow> string"
  mc_debug_duration :: "nat \<Rightarrow> string"

type_synonym ('s, 'a) command = "('s terminal, anyhow, 'a) comp"

definition print_line :: "string \<Rightarrow> ('s, unit) command" where
  "print_line l = modifyM (\<lambda>t. t\<lparr>tm_out := tm_out t @ [l]\<rparr>)"

definition eprint_line :: "string \<Rightarrow> ('s, unit) command" where
  "eprint_line l = modifyM (\<lambda>t. t\<lparr>tm_err := tm_err t @ [l]\<rparr>)"

definition print_lines :: "string list \<Rightarrow> ('s, unit) command" where
  "print_lines ls = modifyM (\<lambda>t. t\<lparr>tm_out := tm_out t @ ls\<rparr>)"

definition read_input :: "('s, 'x) machine \<Rightarrow> ('s, string) command" where
  "read_input M = (\<lambda>t. case tm_input t of
     [] \<Rightarrow> (Inl (anyhow_msg (mc_no_input M)), t)
   | l # ls \<Rightarrow> (Inr l, t\<lparr>tm_input := ls\<rparr>))"

text \<open>\<open>read_line\<close> reads nothing at the end of the input; the hidden read of a password fails there.\<close>

definition read_stdin :: "('s, string) command" where
  "read_stdin = (\<lambda>t. case tm_input t of [] \<Rightarrow> (Inr [], t) | l # ls \<Rightarrow> (Inr l, t\<lparr>tm_input := ls\<rparr>))"

text \<open>A call of the REST client: it touches the server, and the clock moves on.\<close>

definition on_server :: "('s, 'x) machine \<Rightarrow> ('s, anyhow, 'a) comp \<Rightarrow> ('s, 'a) command" where
  "on_server M m = (\<lambda>t. case m (tm_server t) of (r, s) \<Rightarrow> (r, t\<lparr>tm_server := s, tm_now := tm_now t + mc_delay M (tm_now t)\<rparr>))"

lemma run_on_server [runs]:
  "on_server M m t = (fst (m (tm_server t)), t\<lparr>tm_server := snd (m (tm_server t)), tm_now := tm_now t + mc_delay M (tm_now t)\<rparr>)"
  by (simp add: on_server_def split: prod.split)

lemma run_prints [runs]:
  "print_line l t = (Inr (), t\<lparr>tm_out := tm_out t @ [l]\<rparr>)"
  "eprint_line l t = (Inr (), t\<lparr>tm_err := tm_err t @ [l]\<rparr>)"
  "print_lines ls t = (Inr (), t\<lparr>tm_out := tm_out t @ ls\<rparr>)"
  by (simp_all add: print_line_def eprint_line_def print_lines_def runs)

record ('s, 'x) ApiCmdState =
  cs_xai_api_key :: "string option"
  cs_gemini_api_key :: "string option"
  cs_rest_host :: string
  cs_rest_user :: "string option"
  cs_rest_client :: "('s, 'x body) Client"

definition print_json :: "('s, 'x) machine \<Rightarrow> 'x body \<Rightarrow> ('s, unit) command" where
  "print_json M b = print_line (mc_pretty M b)"

section \<open>Capture ids\<close>

definition quoted :: "string \<Rightarrow> string" where
  "quoted s = [CHR 0x27] @ s @ [CHR 0x27]"

definition parse_capture_token :: "string \<Rightarrow> anyhow + int list" where
  "parse_capture_token token =
     (let trimmed = trim token in
      if trimmed = [] then Inl (anyhow_msg ''Capture ID argument cannot be empty.'')
      else case split_once CHR ''-'' trimmed of
        Some (start_raw, end_raw) \<Rightarrow>
          (case parse_i32 start_raw of
             None \<Rightarrow> Inl (anyhow_msg (''Invalid range start '' @ quoted start_raw @ ''. Expected an integer in '' @ quoted token @ ''.''))
           | Some start \<Rightarrow>
               (case parse_i32 end_raw of
                  None \<Rightarrow> Inl (anyhow_msg (''Invalid range end '' @ quoted end_raw @ ''. Expected an integer in '' @ quoted token @ ''.''))
                | Some end' \<Rightarrow> Inr (if start \<le> end' then [start..end'] else rev [end'..start])))
      | None \<Rightarrow>
          (case parse_i32 trimmed of
             None \<Rightarrow> Inl (anyhow_msg (''Invalid capture ID '' @ quoted token @ ''. Use an integer or range like 205-209.''))
           | Some i \<Rightarrow> Inr [i]))"

fun parse_capture_id_tokens :: "string list \<Rightarrow> anyhow + int list" where
  "parse_capture_id_tokens [] = Inr []"
| "parse_capture_id_tokens (token # tokens) =
     (case parse_capture_token token of
        Inl e \<Rightarrow> Inl e
      | Inr ids \<Rightarrow> map_sum id (\<lambda>rest. ids @ rest) (parse_capture_id_tokens tokens))"

text \<open>What the arguments stand for.\<close>

datatype id_argument = OneId int | IdRange int int

fun argument_text :: "id_argument \<Rightarrow> string" where
  "argument_text (OneId i) = show_int i"
| "argument_text (IdRange a b) = show_int a @ ''-'' @ show_int b"

fun argument_ids :: "id_argument \<Rightarrow> int list" where
  "argument_ids (OneId i) = [i]"
| "argument_ids (IdRange a b) = (if a \<le> b then [a..b] else rev [b..a])"

fun argument_ok :: "id_argument \<Rightarrow> bool" where
  "argument_ok (OneId i) = (0 \<le> i \<and> in_i32 i)"
| "argument_ok (IdRange a b) = (0 \<le> a \<and> in_i32 a \<and> in_i32 b)"

lemma strip_one_None:
  assumes "\<And>w. w \<in> set ws \<Longrightarrow> w \<noteq> [] \<and> set w \<inter> set s = {}"
  shows "strip_one ws s = None"
proof -
  have "\<not> starts_with s w" if "w \<in> set ws" for w
  proof
    assume "starts_with s w"
    then have "take (length w) s = w" by (simp add: starts_with_def)
    then have "set w \<subseteq> set s" by (metis set_take_subset)
    with assms [OF that] show False by (cases w) auto
  qed
  then show ?thesis by (simp add: strip_one_def find_None_iff split: option.split)
qed

lemma trim_plain:
  assumes "\<And>w. w \<in> set white_space \<Longrightarrow> set w \<inter> set s = {}"
  shows "trim s = s"
proof -
  have ws: "[] \<notin> set white_space" by (simp add: white_space_def)
  have "strip_one white_space s = None"
    by (rule strip_one_None) (use assms ws in auto)
  moreover have "strip_one (map rev white_space) (rev s) = None"
  proof (rule strip_one_None)
    fix w
    assume "w \<in> set (map rev white_space)"
    then obtain v where "w = rev v" "v \<in> set white_space" by auto
    with assms [of v] ws show "w \<noteq> [] \<and> set w \<inter> set (rev s) = {}" by auto
  qed
  ultimately show ?thesis by (simp add: trim_def trim_start_def trim_end_def strip_all_id)
qed

lemma trim_digits:
  assumes "\<And>c. c \<in> set s \<Longrightarrow> is_digit c \<or> c = CHR ''-''"
  shows "trim s = s"
proof (rule trim_plain)
  fix w
  assume "w \<in> set white_space"
  moreover have "list_all (list_all (\<lambda>c. \<not> (is_digit c \<or> c = CHR ''-''))) white_space" by code_simp
  ultimately show "set w \<inter> set s = {}" using assms by (fastforce simp: list_all_iff)
qed

lemma parse_argument:
  assumes "argument_ok arg"
  shows "parse_capture_token (argument_text arg) = Inr (argument_ids arg)"
proof -
  have trimmed: "trim (argument_text arg) = argument_text arg"
    by (rule trim_digits) (cases arg; auto dest: show_int_chars)
  have dash: "CHR ''-'' \<notin> set (show_int i)" if "0 \<le> i" for i
  proof
    assume "CHR ''-'' \<in> set (show_int i)"
    from show_int_nonneg_digits [OF that this] show False by (simp add: is_digit_def digit_val_def)
  qed
  show ?thesis
  proof (cases arg)
    case (OneId i)
    with assms have "split_once CHR ''-'' (show_int i) = None" using dash [of i] by (simp add: split_once_None)
    with assms OneId trimmed show ?thesis by (simp add: parse_capture_token_def Let_def)
  next
    case (IdRange a b)
    with assms dash [of a] trimmed show ?thesis
      by (simp add: parse_capture_token_def split_once_append)
  qed
qed

lemma parsed_token_range: "parse_capture_token token = Inr ids \<Longrightarrow> i \<in> set ids \<Longrightarrow> in_i32 i"
  by (auto simp: parse_capture_token_def Let_def in_i32_def dest!: parse_i32_range split: if_splits option.splits)

section \<open>Captures and search\<close>

definition media_line :: "MediaInfo \<Rightarrow> string" where
  "media_line m = ''  media_id='' @ show_int (mi_id m) @ '' mime_type='' @ (case mi_mime_type m of Some t \<Rightarrow> t | None \<Rightarrow> ''-'')
     @ '' url='' @ mi_url m"

definition capture_lines :: "(timestamp \<Rightarrow> string) \<Rightarrow> CaptureInfo \<Rightarrow> string list" where
  "capture_lines show_time c =
     (''capture_id='' @ show_int (ci_id c) @ '' user_id='' @ show_int (ci_user_id c) @ '' created_at='' @ show_time (ci_created_at c))
     # map media_line (ci_medias c)"

definition missing_ids :: "int list \<Rightarrow> CaptureInfo list \<Rightarrow> int list" where
  "missing_ids ids found = filter (\<lambda>i. \<not> (\<exists>c \<in> set found. ci_id c = i)) ids"

definition captures_report :: "(timestamp \<Rightarrow> string) \<Rightarrow> int list \<Rightarrow> CaptureInfo list \<Rightarrow> string list" where
  "captures_report show_time ids found =
     (''Found '' @ show_nat (length found) @ '' of '' @ show_nat (length ids) @ '' capture(s)'')
     # concat (map (capture_lines show_time) found)
     @ (let missing = missing_ids ids found in
        if missing = [] then [] else [''Not found: '' @ join '', '' (map show_int missing)])"

definition run_captures :: "('s, 'x) machine \<Rightarrow> ('s, 'x) ApiCmdState \<Rightarrow> string list \<Rightarrow> bool \<Rightarrow> ('s, unit) command" where
  "run_captures M state tokens raw_json =
     (if tokens = [] then throwM (anyhow_msg ''At least one capture ID must be provided.'')
      else bindM (liftM (parse_capture_id_tokens tokens)) (\<lambda>ids.
           bindM (on_server M (api_get_captures (Some ids) (cs_rest_client state))) (\<lambda>found.
           if raw_json then print_json M (CapturesBody found)
           else print_lines (captures_report (mc_show_time M) ids found))))"

definition found_line :: "(timestamp \<Rightarrow> string) \<Rightarrow> CaptureInfo \<Rightarrow> string" where
  "found_line show_time c = ''capture_id='' @ show_int (ci_id c) @ '' created_at='' @ show_time (ci_created_at c)"

definition run_search :: "('s, 'x) machine \<Rightarrow> ('s, 'x) ApiCmdState \<Rightarrow> string \<Rightarrow> nat \<Rightarrow> bool \<Rightarrow> ('s, unit) command" where
  "run_search M state query limit raw_json =
     bindM (on_server M (api_search query (Some limit) (cs_rest_client state))) (\<lambda>found.
     if raw_json then print_json M (CapturesBody found)
     else print_lines ((''Found '' @ show_nat (length found) @ '' capture(s) for query: '' @ query)
       # map (found_line (mc_show_time M)) found))"

definition run_search_similar :: "('s, 'x) machine \<Rightarrow> ('s, 'x) ApiCmdState \<Rightarrow> int \<Rightarrow> nat \<Rightarrow> bool \<Rightarrow> ('s, unit) command" where
  "run_search_similar M state cid limit raw_json =
     bindM (on_server M (api_search_similar cid (Some limit) (cs_rest_client state))) (\<lambda>found.
     if raw_json then print_json M (CapturesBody found)
     else print_lines ((''Found '' @ show_nat (length found) @ '' similar capture(s) for capture_id='' @ show_int cid)
       # map (found_line (mc_show_time M)) found))"

section \<open>Entities\<close>

text \<open>\<open>{:<w}\<close> and \<open>{:>w}\<close>: the width counts characters.\<close>

definition pad_right :: "nat \<Rightarrow> string \<Rightarrow> string" where
  "pad_right w s = s @ replicate (w - chars_count s) CHR '' ''"

definition pad_left :: "nat \<Rightarrow> string \<Rightarrow> string" where
  "pad_left w s = replicate (w - chars_count s) CHR '' '' @ s"

definition unknown_entity_line :: "nat \<Rightarrow> string \<Rightarrow> string \<Rightarrow> string \<Rightarrow> string" where
  "unknown_entity_line name_width i name cid = ''  '' @ pad_right 8 i @ '' '' @ pad_right name_width name @ '' '' @ pad_left 10 cid"

definition run_unknown_entities :: "('s, 'x) machine \<Rightarrow> ('s, 'x) ApiCmdState \<Rightarrow> bool \<Rightarrow> ('s, unit) command" where
  "run_unknown_entities M state raw_json =
     bindM (on_server M (api_get_entities_by_type ''unknown'' (cs_rest_client state))) (\<lambda>entities.
     bindM (eprint_line (''Retrieved '' @ show_nat (length entities) @ '' unknown entities'')) (\<lambda>_.
     if raw_json then print_json M (EntitiesBody entities)
     else if entities = [] then print_line ''(none)''
     else let name_width = max 4 (Max (set (map (\<lambda>e. chars_count (ki_name e)) entities))) in
       print_lines (unknown_entity_line name_width ''id'' ''name'' ''capture_id''
         # map (\<lambda>e. unknown_entity_line name_width (show_int (ki_id e)) (ki_name e) (show_int (ki_capture_id e))) entities)))"

definition run_entity :: "('s, 'x) machine \<Rightarrow> ('s, 'x) ApiCmdState \<Rightarrow> int \<Rightarrow> ('s, unit) command" where
  "run_entity M state i =
     bindM (on_server M (api_get_entity i (cs_rest_client state))) (\<lambda>entity. print_json M (EntityBody entity))"

section \<open>The token cache\<close>

text \<open>\<open>token_cache.rs\<close> on the keyring of the system, any access to which may be refused.\<close>

definition SERVICE_NAME :: string where
  "SERVICE_NAME = ''dreamscroll-api-rest-token''"

definition strip_suffix :: "string \<Rightarrow> string \<Rightarrow> string option" where
  "strip_suffix suffix s = map_option rev (strip_prefix (rev suffix) (rev s))"

definition canonicalize_host_for_cache :: "string \<Rightarrow> string" where
  "canonicalize_host_for_cache host =
     (let lower = ascii_lower (trim_end_matches CHR ''/'' (trim host));
          bare = (case strip_prefix ''https://'' lower of
              Some h \<Rightarrow> h
            | None \<Rightarrow> (case strip_prefix ''http://'' lower of Some h \<Rightarrow> h | None \<Rightarrow> lower))
      in case strip_suffix ''/api'' bare of Some h \<Rightarrow> h | None \<Rightarrow> bare)"

definition canonicalize_username_for_cache :: "string \<Rightarrow> string" where
  "canonicalize_username_for_cache username = ascii_lower (trim username)"

definition canonical_identity :: "string \<Rightarrow> string \<Rightarrow> string" where
  "canonical_identity host username = canonicalize_host_for_cache host @ ''|'' @ canonicalize_username_for_cache username"

definition account_key :: "('s, 'x) machine \<Rightarrow> string \<Rightarrow> string \<Rightarrow> string" where
  "account_key M host username = ''v2-'' @ mc_blake3_hex M (canonical_identity host username)"

definition keyring_access :: "('s, 'x) machine \<Rightarrow> string \<Rightarrow> ('s, unit) command" where
  "keyring_access M what = (\<lambda>t.
     (case mc_keyring_error M (tm_accesses t) of
        Some e \<Rightarrow> Inl (anyhow_msg (what @ e))
      | None \<Rightarrow> Inr (), t\<lparr>tm_accesses := Suc (tm_accesses t)\<rparr>))"

definition keyring_entry :: "('s, 'x) machine \<Rightarrow> string \<Rightarrow> string \<Rightarrow> ('s, string) command" where
  "keyring_entry M host username = bindM (keyring_access M []) (\<lambda>_. returnM (account_key M host username))"

definition get_token :: "('s, 'x) machine \<Rightarrow> string \<Rightarrow> string \<Rightarrow> ('s, string option) command" where
  "get_token M host username =
     bindM (keyring_entry M host username) (\<lambda>key.
     bindM (keyring_access M ''failed reading cached API token: '') (\<lambda>_.
     getM (\<lambda>t. tm_keys t key)))"

definition set_token :: "('s, 'x) machine \<Rightarrow> string \<Rightarrow> string \<Rightarrow> string \<Rightarrow> ('s, unit) command" where
  "set_token M host username token =
     bindM (keyring_entry M host username) (\<lambda>key.
     bindM (keyring_access M ''failed storing cached API token: '') (\<lambda>_.
     modifyM (\<lambda>t. t\<lparr>tm_keys := (tm_keys t)(key \<mapsto> token)\<rparr>)))"

definition delete_token :: "('s, 'x) machine \<Rightarrow> string \<Rightarrow> string \<Rightarrow> ('s, unit) command" where
  "delete_token M host username =
     bindM (keyring_entry M host username) (\<lambda>key.
     bindM (keyring_access M ''failed deleting cached API token: '') (\<lambda>_.
     modifyM (\<lambda>t. t\<lparr>tm_keys := (tm_keys t)(key := None)\<rparr>)))"

section \<open>Connecting\<close>

definition TOKEN_ENV :: string where
  "TOKEN_ENV = ''DREAMSCROLL_API_TOKEN''"

definition env_token :: "string option \<Rightarrow> string option" where
  "env_token var = (case map_option trim var of Some token \<Rightarrow> if token = [] then None else Some token | None \<Rightarrow> None)"

definition token_username :: "('s, 'x) machine \<Rightarrow> string \<Rightarrow> string option" where
  "token_username M token =
     (case split_on CHR ''.'' token of
        _ # payload # _ \<Rightarrow>
          (case mc_claims M payload of
             None \<Rightarrow> None
           | Some claims \<Rightarrow> (case member claims ''username'' of None \<Rightarrow> None | Some v \<Rightarrow> as_string v))
      | _ \<Rightarrow> None)"

definition warn_on_redundant_user :: "('s, 'x) machine \<Rightarrow> string option \<Rightarrow> string option \<Rightarrow> ('s, unit) command" where
  "warn_on_redundant_user M token user =
     (case (token, user) of
        (Some t, Some u) \<Rightarrow>
          eprint_line (case token_username M t of
            Some caller \<Rightarrow>
              if caller \<noteq> u
              then ''warning: --user '' @ quoted u @ '' is ignored for authentication; the token belongs to '' @ quoted caller
              else ''warning: --user '' @ quoted caller @ '' is redundant; DREAMSCROLL_API_TOKEN already identifies the caller''
          | None \<Rightarrow> ''warning: --user '' @ quoted u @ '' is ignored for authentication; DREAMSCROLL_API_TOKEN is used instead'')
      | _ \<Rightarrow> returnM ())"

definition prompt_username_stdin :: "('s, string) command" where
  "prompt_username_stdin =
     bindM (print_line ''Enter username: '') (\<lambda>_. bindM read_stdin (\<lambda>line. returnM (trim line)))"

definition prompt_password_stdin :: "('s, 'x) machine \<Rightarrow> ('s, string) command" where
  "prompt_password_stdin M = bindM (print_line ''Enter password: '') (\<lambda>_. read_input M)"

text \<open>The HTTP side of a client: how requests are sent, and the names of the status codes.\<close>

type_synonym ('s, 'x) http = "(string \<Rightarrow> http_request \<Rightarrow> ('s, anyhow, 'x body http_response) comp) \<times> (nat \<Rightarrow> string)"

definition try_client_with_env_token ::
  "('s, 'x) machine \<Rightarrow> ('s, 'x) http \<Rightarrow> string \<Rightarrow> string option \<Rightarrow> ('s, ('s, 'x body) Client option) command" where
  "try_client_with_env_token M http host token =
     (case token of
        None \<Rightarrow> returnM None
      | Some token \<Rightarrow>
          let client = connect_with_token (fst http) (snd http) host token in
          bindM (map_errM (\<lambda>e. anyhow_msg (TOKEN_ENV @ '' was rejected by '' @ quoted host @ '': '' @ anyhow_display e
             @ ''. Unset it to log in interactively.'')) (on_server M (validate_auth client))) (\<lambda>_.
          returnM (Some client)))"

definition try_client_from_token ::
  "('s, 'x) machine \<Rightarrow> ('s, 'x) http \<Rightarrow> string \<Rightarrow> string \<Rightarrow> ('s, ('s, 'x body) Client option) command" where
  "try_client_from_token M http host username =
     bindM (get_token M host username) (\<lambda>cached.
     case cached of
       None \<Rightarrow> returnM None
     | Some token \<Rightarrow>
         let client = connect_with_token (fst http) (snd http) host token in
         bindM (catchM (on_server M (validate_auth client))) (\<lambda>valid.
         case valid of
           Inr _ \<Rightarrow> returnM (Some client)
         | Inl e \<Rightarrow>
             if contains_sub ''unauthorized (401)'' (anyhow_display e)
             then bindM (catchM (delete_token M host username)) (\<lambda>_. returnM None)
             else throwM e))"

definition try_client_from_prompt ::
  "('s, 'x) machine \<Rightarrow> ('s, 'x) http \<Rightarrow> string \<Rightarrow> string \<Rightarrow> ('s, ('s, 'x body) Client) command" where
  "try_client_from_prompt M http host username =
     bindM (prompt_password_stdin M) (\<lambda>password.
     bindM (on_server M (connect (fst http) (snd http) host username password)) (\<lambda>client.
     bindM (catchM (set_token M host username (rc_access_token client))) (\<lambda>stored.
     bindM (case stored of
         Inr _ \<Rightarrow> returnM ()
       | Inl e \<Rightarrow> eprint_line (''Warning: unable to cache API token: '' @ anyhow_display e)) (\<lambda>_.
     returnM client))))"

text \<open>\<open>main\<close> up to the command.\<close>

definition connect_state ::
  "('s, 'x) machine \<Rightarrow> ('s, 'x) http \<Rightarrow> string option \<times> string option \<Rightarrow> string \<Rightarrow> string option \<Rightarrow> string option
     \<Rightarrow> ('s, ('s, 'x) ApiCmdState) command" where
  "connect_state M http keys host user var =
     (let token = env_token var in
      bindM (warn_on_redundant_user M token user) (\<lambda>_.
      bindM (case user of
          Some u \<Rightarrow> returnM u
        | None \<Rightarrow>
            (case token of
               Some t \<Rightarrow> returnM (case token_username M t of Some u \<Rightarrow> u | None \<Rightarrow> ''token'')
             | None \<Rightarrow> prompt_username_stdin)) (\<lambda>username.
      bindM (try_client_with_env_token M http host token) (\<lambda>from_env.
      bindM (case from_env of
          Some client \<Rightarrow> returnM client
        | None \<Rightarrow>
            bindM (try_client_from_token M http host username) (\<lambda>cached.
            case cached of
              Some client \<Rightarrow> returnM client
            | None \<Rightarrow> try_client_from_prompt M http host username)) (\<lambda>client.
      returnM \<lparr>cs_xai_api_key = fst keys, cs_gemini_api_key = snd keys, cs_rest_host = host, cs_rest_user = Some username,
        cs_rest_client = client\<rparr>)))))"

section \<open>The account\<close>

definition rest_user :: "('s, 'x) ApiCmdState \<Rightarrow> ('s, string) command" where
  "rest_user state = (case cs_rest_user state of Some u \<Rightarrow> returnM u | None \<Rightarrow> throwM (anyhow_msg ''REST username missing''))"

definition run_clear_token :: "('s, 'x) machine \<Rightarrow> ('s, 'x) ApiCmdState \<Rightarrow> ('s, unit) command" where
  "run_clear_token M state =
     bindM (rest_user state) (\<lambda>user.
     bindM (delete_token M (cs_rest_host state) user) (\<lambda>_.
     print_lines [''Cleared cached API token.'', ''- Host: '' @ cs_rest_host state, ''- Username: '' @ user]))"

definition run_change_password :: "('s, 'x) machine \<Rightarrow> ('s, 'x) ApiCmdState \<Rightarrow> ('s, unit) command" where
  "run_change_password M state =
     bindM (rest_user state) (\<lambda>user.
     bindM (print_line ''Enter current password:'') (\<lambda>_.
     bindM (read_input M) (\<lambda>current_password.
     bindM (print_line ''Enter new password:'') (\<lambda>_.
     bindM (read_input M) (\<lambda>new_password.
     bindM (print_line ''Confirm new password:'') (\<lambda>_.
     bindM (read_input M) (\<lambda>confirmed.
     if new_password \<noteq> confirmed then throwM (anyhow_msg ''New password and confirmation do not match'')
     else bindM (map_errM (with_context ''failed to change password'')
            (on_server M (api_change_password current_password new_password (cs_rest_client state)))) (\<lambda>_.
          bindM (print_line ''Password changed successfully.'') (\<lambda>_.
          bindM (catchM (delete_token M (cs_rest_host state) user)) (\<lambda>deleted.
          case deleted of
            Inr _ \<Rightarrow> returnM ()
          | Inl e \<Rightarrow> eprint_line (''Warning: unable to clear cached API token: '' @ anyhow_display e)))))))))))"

section \<open>Backfills\<close>

definition describe_error :: "int option \<Rightarrow> string option \<Rightarrow> string" where
  "describe_error code message' =
     (case (code, map_option (\<lambda>m. join '' '' (split_whitespace m)) message') of
        (Some c, Some m) \<Rightarrow> if m \<noteq> [] then show_int c @ '' '' @ m else show_int c
      | (Some c, None) \<Rightarrow> show_int c
      | (None, Some m) \<Rightarrow> if m \<noteq> [] then m else ''no error recorded''
      | (None, None) \<Rightarrow> ''no error recorded'')"

definition pump_report :: "(timestamp \<Rightarrow> string) \<Rightarrow> BackfillPumpResponse \<Rightarrow> string list" where
  "pump_report fmt r =
     [''Backfill: '' @ rp_backfill_id r,
      ''Pump results (this invocation only):'',
      ''- Candidates attempted: '' @ show_nat (rp_selected_count r),
      ''- Newly enqueued: '' @ show_nat (rp_enqueued_count r),
      ''- Skipped (already recorded for this backfill): '' @ show_nat (rp_already_submitted_count r),
      ''- Skipped (conflicting run already in flight): '' @ show_nat (rp_refused_in_flight_count r),
      ''- Submission errors: '' @ show_nat (length (rp_errors r))]
     @ map (\<lambda>e. ''  - Entity '' @ show_int (be_entity_id e) @ '': '' @ be_error e) (rp_errors r)
     @ [''- Recorded at: '' @ fmt (rp_pumped_at r),
        (case rp_dry_since r of
           Some t \<Rightarrow> ''- Dry since '' @ fmt t @ '': no eligible targets; later pumps refuse unless --force is passed''
         | None \<Rightarrow> ''- Still open: this pump selected eligible targets''),
        ''For overall progress, use: backfill status '' @ rp_backfill_id r]"

definition status_report :: "(timestamp \<Rightarrow> string) \<Rightarrow> BackfillStatusResponse \<Rightarrow> string list" where
  "status_report fmt r =
     [''Backfill: '' @ sr_backfill_id r,
      ''Last pumped: '' @ (case sr_last_pumped_at r of Some t \<Rightarrow> fmt t | None \<Rightarrow> ''never''),
      (case sr_dry_since r of
         Some t \<Rightarrow> ''Dry since '' @ fmt t @ '': pumps refuse unless --force is passed.''
       | None \<Rightarrow> ''Still open: no recorded dry streak.'')]
     @ (if sr_counts r = [] then [''No tagged task runs yet.'']
        else ''Runs (includes descendants):''
          # (''  '' @ pad_left 6 ''n'' @ ''  '' @ pad_right 20 ''task_type'' @ '' status'')
          # map (\<lambda>c. ''  '' @ pad_left 6 (show_nat (sn_count c)) @ ''  '' @ pad_right 20 (sn_task_type c) @ '' '' @ as_str (sn_status c))
              (sr_counts r))"

definition failure_line :: "TaskRunInfo \<Rightarrow> string" where
  "failure_line f =
     ''- '' @ ti_entity_type f @ '' '' @ show_int (ti_entity_id f) @ '' ['' @ ti_task_type f @ '' run '' @ show_int (ti_run_number f)
     @ '', '' @ show_int (ti_attempts f) @ '' attempts, '' @ as_str (ti_status f) @ '']: '' @ describe_error (ti_error_code f) (ti_error_message f)"

definition failures_report :: "string \<times> TaskRunInfo list \<Rightarrow> string list" where
  "failures_report r =
     (''Backfill: '' @ fst r)
     # (if snd r = [] then [''No terminally unsuccessful runs.'']
        else (''Terminally unsuccessful runs (includes descendants): '' @ show_nat (length (snd r))) # map failure_line (snd r))"

datatype backfill_command =
    BackfillPump string "nat option" bool bool
  | BackfillStatus string bool
  | BackfillFailures string bool

definition dry_refusal :: "string \<Rightarrow> anyhow \<Rightarrow> anyhow" where
  "dry_refusal bid error =
     anyhow_msg (''Pump refused: '' @ bid @ '' is dry. Run `backfill status '' @ bid @ ''` for the dry timestamp, or pass --force to pump again. (''
       @ anyhow_display error @ '')'')"

fun run_backfill :: "('s, 'x) machine \<Rightarrow> ('s, 'x) ApiCmdState \<Rightarrow> backfill_command \<Rightarrow> ('s, unit) command" where
  "run_backfill M state (BackfillPump bid limit force raw_json) =
     bindM (map_errM (\<lambda>e. if contains_sub ''409 Conflict'' (anyhow_display e) then dry_refusal bid e else e)
        (on_server M (api_backfill_pump \<lparr>rq_backfill_id = bid, rq_limit = limit, rq_force = force\<rparr> (cs_rest_client state)))) (\<lambda>r.
     if raw_json then print_json M (PumpBody r) else print_lines (pump_report (mc_rfc3339 M) r))"
| "run_backfill M state (BackfillStatus bid raw_json) =
     bindM (on_server M (api_backfill_status bid (cs_rest_client state))) (\<lambda>r.
     if raw_json then print_json M (BackfillStatusBody r) else print_lines (status_report (mc_rfc3339 M) r))"
| "run_backfill M state (BackfillFailures bid raw_json) =
     bindM (on_server M (api_backfill_failures bid (cs_rest_client state))) (\<lambda>r.
     if raw_json then print_json M (BackfillFailuresBody r) else print_lines (failures_report r))"

text \<open>A failure is one line, whatever line breaks the recorded message has.\<close>

lemma describe_error_one_line: "CHR 0x0A \<notin> set (describe_error code m)"
proof -
  have "CHR 0x0A \<notin> set (join '' '' (split_whitespace x))" for x
    using set_join [of "'' ''" "split_whitespace x"] split_words_flat [of _ "[]" x] by (auto simp: split_whitespace_def)
  moreover have "CHR 0x0A \<notin> set (show_int i)" for i
  proof
    assume "CHR 0x0A \<in> set (show_int i)"
    from show_int_chars [OF this] show False by (simp add: is_digit_def digit_val_def)
  qed
  ultimately show ?thesis by (auto simp: describe_error_def split: option.splits)
qed

section \<open>Waiting for an illumination\<close>

definition is_settled :: "TaskRunStatus \<Rightarrow> bool" where
  "is_settled status \<longleftrightarrow> status = SubmissionFailed \<or> status = CompleteSuccess \<or> status = CompleteFailure"

text \<open>
  \<open>tokio::time::timeout\<close>: what is not there in time is abandoned at the deadline. A sleep
  lasts at least as long as asked.
\<close>

definition timeout_at :: "nat \<Rightarrow> anyhow \<Rightarrow> ('s, 'a) command \<Rightarrow> ('s, 'a) command" where
  "timeout_at deadline late fetch = (\<lambda>t.
     case fetch t of (r, t') \<Rightarrow>
       if tm_now t' \<le> max deadline (tm_now t) then (r, t') else (Inl late, t'\<lparr>tm_now := max deadline (tm_now t)\<rparr>))"

definition sleep :: "('s, 'x) machine \<Rightarrow> nat \<Rightarrow> 's terminal \<Rightarrow> 's terminal" where
  "sleep M d t = t\<lparr>tm_now := tm_now t + d + mc_oversleep M (tm_now t)\<rparr>"

partial_function (option) poll ::
  "('s, 'x) machine \<Rightarrow> nat \<Rightarrow> nat \<Rightarrow> ('s, TaskRunInfo) command \<Rightarrow> 's terminal
     \<Rightarrow> ((anyhow + TaskRunInfo) \<times> 's terminal) option" where
  "poll M deadline interval fetch t =
     (case timeout_at deadline (anyhow_msg ''timed out waiting to fetch task-run status'') fetch t of
        (Inl e, t') \<Rightarrow> Some (Inl e, t')
      | (Inr status, t') \<Rightarrow>
          if is_settled (ti_status status) \<or> deadline \<le> tm_now t' then Some (Inr status, t')
          else poll M deadline interval fetch (sleep M (min interval (deadline - tm_now t')) t'))"

definition wait_for_task_run_with ::
  "('s, 'x) machine \<Rightarrow> nat \<Rightarrow> nat \<Rightarrow> ('s, TaskRunInfo) command \<Rightarrow> 's terminal
     \<Rightarrow> ((anyhow + TaskRunInfo) \<times> 's terminal) option" where
  "wait_for_task_run_with M timeout interval fetch t =
     (if mc_latest_instant M < tm_now t + timeout then Some (Inl (anyhow_msg ''wait timeout is too large''), t)
      else poll M (tm_now t + timeout) interval fetch t)"

definition parse_prompt_version :: "('s, 'x) machine \<Rightarrow> string \<Rightarrow> anyhow + IlluminationVersion" where
  "parse_prompt_version M value' =
     (if value' = ''v1'' then Inr V1
      else if value' = ''v2'' then Inr V2
      else Inl (anyhow_msg (''unsupported prompt version '' @ mc_debug M value' @ ''; expected v1 or v2'')))"

definition ensure_successful_run :: "TaskRunInfo \<Rightarrow> anyhow + unit" where
  "ensure_successful_run r =
     (let run = ''illumination TaskRun '' @ ti_run_id r @ '' (logical ID '' @ ti_logical_id r @ '', run number ''
            @ show_int (ti_run_number r) @ '')'';
          attempts = '' after '' @ show_int (ti_attempts r) @ '' attempt(s)''
      in if ti_status r = CompleteSuccess then Inr ()
         else if is_settled (ti_status r)
         then Inl (anyhow_msg (run @ '' ended with status '' @ status_display (ti_status r) @ attempts))
         else Inl (anyhow_msg (''timed out waiting for '' @ run @ ''; latest status '' @ status_display (ti_status r) @ attempts)))"

definition v1_to_markdown :: "json \<Rightarrow> string option" where
  "v1_to_markdown content =
     map_option (\<lambda>(summary, details, searches, entities, accounts).
          ''## Summary'' @ ln @ ln @ summary @ ln @ ln @ ''## Details'' @ ln @ ln @ details @ ln
          @ (if searches = [] then [] else ln @ ''## Suggested searches'' @ ln @ concat (map (\<lambda>s. ''- '' @ s @ ln) searches))
          @ (if entities = [] then [] else ln @ ''## Entities'' @ ln
               @ concat (map (\<lambda>(n, d, t). ''- **'' @ n @ ''** (`'' @ t @ ''`) '' @ em_dash @ '' '' @ d @ ln) entities))
          @ (if accounts = [] then [] else ln @ ''## Social media accounts'' @ ln
               @ concat (map (\<lambda>(n, h, p). ''- **'' @ n @ ''** (`'' @ h @ ''`; '' @ p @ '')'' @ ln) accounts)))
       (v1_fields content)"

definition render_illumination :: "IlluminationVersion \<Rightarrow> json \<Rightarrow> anyhow + string" where
  "render_illumination version content =
     (case version of
        V1 \<Rightarrow> (case v1_to_markdown content of
            Some m \<Rightarrow> Inr m | None \<Rightarrow> Inl (anyhow_msg ''failed to parse raw v1 illumination result''))
      | V2 \<Rightarrow> (case from_raw_json content of
            Some x \<Rightarrow> Inr (to_markdown x) | None \<Rightarrow> Inl (anyhow_msg ''failed to parse raw v2 illumination result'')))"

definition seconds :: "nat \<Rightarrow> nat" where
  "seconds n = 1000000000 * n"

text \<open>The three stages of \<open>run\<close>; only the wait in the middle may not return.\<close>

definition submit_illumination ::
  "('s, 'x) machine \<Rightarrow> ('s, 'x) ApiCmdState \<Rightarrow> int \<Rightarrow> string \<Rightarrow> ThinkingLevel option \<Rightarrow> bool
     \<Rightarrow> ('s, IlluminationVersion \<times> string) command" where
  "submit_illumination M state cid prompt_version level persist =
     bindM (liftM (parse_prompt_version M prompt_version)) (\<lambda>version.
     bindM (eprint_line (''Enqueueing illumination for capture '' @ show_int cid @ '' ('' @ version_as_str version @ '')...'')) (\<lambda>_.
     bindM (on_server M (api_enqueue_illuminate cid version level persist (cs_rest_client state))) (\<lambda>rid.
     bindM (eprint_line (''Enqueued TaskRun '' @ rid @ ''.'')) (\<lambda>_.
     bindM (eprint_line ''Polling for task completion...'') (\<lambda>_.
     returnM (version, rid))))))"

definition show_illumination ::
  "('s, 'x) machine \<Rightarrow> ('s, 'x) ApiCmdState \<Rightarrow> IlluminationVersion \<Rightarrow> string \<Rightarrow> bool \<Rightarrow> TaskRunInfo \<Rightarrow> ('s, unit) command" where
  "show_illumination M state version rid raw_json info =
     bindM (liftM (ensure_successful_run info)) (\<lambda>_.
     bindM (eprint_line ''Fetching raw illumination result by TaskRun ID...'') (\<lambda>_.
     bindM (on_server M (api_get_illumination_raw rid (cs_rest_client state))) (\<lambda>raw.
     if raw_json then print_json M (JsonBody raw)
     else bindM (liftM (render_illumination version raw)) print_line)))"

definition run_illuminate ::
  "('s, 'x) machine \<Rightarrow> ('s, 'x) ApiCmdState \<Rightarrow> int \<Rightarrow> string \<Rightarrow> ThinkingLevel option \<Rightarrow> bool \<Rightarrow> nat \<Rightarrow> bool \<Rightarrow> 's terminal
     \<Rightarrow> ((anyhow + unit) \<times> 's terminal) option" where
  "run_illuminate M state cid prompt_version level persist wait_seconds raw_json t =
     (case submit_illumination M state cid prompt_version level persist t of
        (Inl e, t') \<Rightarrow> Some (Inl e, t')
      | (Inr (version, rid), t') \<Rightarrow>
          (case wait_for_task_run_with M (seconds wait_seconds) (seconds 2)
              (on_server M (api_get_task_run rid (cs_rest_client state))) t' of
             None \<Rightarrow> None
           | Some (Inl e, t'') \<Rightarrow> Some (Inl e, t'')
           | Some (Inr info, t'') \<Rightarrow> Some (show_illumination M state version rid raw_json info t'')))"

section \<open>Sparks\<close>

definition link_lines :: "nat \<Rightarrow> SparkRecommendedLink \<Rightarrow> string list" where
  "link_lines i l = [''  '' @ show_nat (Suc i) @ ''. '' @ rl_url l, ''     '' @ rl_commentary l]"

definition cluster_lines :: "nat \<Rightarrow> nat \<Rightarrow> SparkRecommendedCluster \<Rightarrow> string list" where
  "cluster_lines count i c =
     [''Cluster '' @ show_nat (Suc i), ''Title: '' @ rc_title c, ''Summary: '' @ rc_summary c,
      ''Capture IDs: '' @ join '', '' (map show_int (rc_capture_ids c))]
     @ (if rc_recommended_links c = [] then [''Recommendations: none'']
        else ''Recommendations:'' # concat (map (\<lambda>(j, l). link_lines j l) (enumerate 0 (rc_recommended_links c))))
     @ (if Suc i < count then [[]] else [])"

definition spark_lines :: "SparkResponse \<Rightarrow> string list" where
  "spark_lines spark =
     (if spark = [] then [''No clusters returned.'']
      else concat (map (\<lambda>(i, c). cluster_lines (length (spark)) i c) (enumerate 0 (spark))))"

definition spark_key :: "('s, 'x) machine \<Rightarrow> ('s, 'x) ApiCmdState \<Rightarrow> string \<Rightarrow> anyhow + string \<times> string" where
  "spark_key M state firestarter =
     (let model = mc_lowercase M (trim firestarter) in
      if model = ''grok'' then
        (case cs_xai_api_key state of Some k \<Rightarrow> Inr (model, k) | None \<Rightarrow> Inl (anyhow_msg ''XAI_API_KEY is not configured''))
      else if model = ''gemini'' then
        (case cs_gemini_api_key state of Some k \<Rightarrow> Inr (model, k) | None \<Rightarrow> Inl (anyhow_msg ''GEMINI_API_KEY is not configured''))
      else Inl (anyhow_msg (''Unknown firestarter provider '' @ quoted firestarter @ ''. Expected one of: grok, gemini'')))"

definition run_spark :: "('s, 'x) machine \<Rightarrow> ('s, 'x) ApiCmdState \<Rightarrow> string list \<Rightarrow> string \<Rightarrow> ('s, unit) command" where
  "run_spark M state tokens firestarter =
     (if tokens = [] then throwM (anyhow_msg ''At least one capture ID must be provided.'')
      else bindM (liftM (parse_capture_id_tokens tokens)) (\<lambda>ids.
           bindM (on_server M (api_get_captures (Some ids) (cs_rest_client state))) (\<lambda>found.
           if found = [] then throwM (anyhow_msg ''No matching captures found for provided IDs.'')
           else bindM (liftM (spark_key M state firestarter)) (\<lambda>(model, key).
                bindM (getM tm_now) (\<lambda>start.
                bindM (on_server M (mc_firestarter M model key found)) (\<lambda>outcome.
                bindM (getM tm_now) (\<lambda>stop.
                bindM (print_lines [''Spark request'', ''- Requested capture IDs: '' @ join '', '' tokens,
                    ''- Expanded capture IDs: '' @ join '', '' (map show_int ids),
                    ''- Captures matched: '' @ show_nat (length found), ''- Firestarter: '' @ (if model = ''grok'' then ''GrokFirestarter'' else ''GeminiFirestarter''),
                    ''- Spark duration: '' @ mc_debug_duration M (stop - start),
                    ''- Inference metadata: '' @ mc_debug_metadata M (oc_metadata outcome), []]) (\<lambda>_.
                bindM (liftM (oc_output outcome)) (\<lambda>spark.
                print_lines (spark_lines spark))))))))))"

lemma timeout_at_cases:
  assumes "timeout_at deadline late fetch t = (r, t')" "tm_now t \<le> tm_now (snd (fetch t))"
  shows "tm_now t \<le> tm_now t'" "tm_now t' \<le> max deadline (tm_now t)" "r = fst (fetch t) \<or> r = Inl late"
  using assms by (auto simp: timeout_at_def split: prod.splits if_splits)

text \<open>Every round ends or brings the clock closer to the deadline.\<close>

lemma poll_ends:
  assumes "0 < interval" and "\<And>t. tm_now t \<le> tm_now (snd (fetch t))"
  shows "\<exists>r t'. poll M deadline interval fetch t = Some (r, t') \<and>
    (\<forall>info. r = Inr info \<longrightarrow> is_settled (ti_status info) \<or> deadline \<le> tm_now t') \<and>
    ((\<forall>n. mc_oversleep M n = 0) \<longrightarrow> tm_now t \<le> deadline \<longrightarrow> tm_now t' \<le> deadline)"
proof (induction "deadline - tm_now t" arbitrary: t rule: less_induct)
  case less
  let ?late = "anyhow_msg ''timed out waiting to fetch task-run status''"
  obtain r t' where round: "timeout_at deadline ?late fetch t = (r, t')" by fastforce
  note moved = timeout_at_cases [OF round assms(2)]
  show ?case
  proof (cases "\<exists>info. r = Inr info \<and> \<not> is_settled (ti_status info) \<and> tm_now t' < deadline")
    case True
    let ?t = "sleep M (min interval (deadline - tm_now t')) t'"
    from True have again: "poll M deadline interval fetch t = poll M deadline interval fetch ?t"
      by (subst poll.simps) (auto simp: round)
    have "deadline - tm_now ?t < deadline - tm_now t" using True moved assms(1) by (auto simp: sleep_def)
    from less [OF this] True show ?thesis unfolding again by (auto simp: sleep_def)
  next
    case False
    then have "poll M deadline interval fetch t = Some (r, t')"
      by (subst poll.simps) (auto simp: round split: sum.splits)
    with False moved show ?thesis by fastforce
  qed
qed

lemma waiting_ends:
  assumes "0 < interval" and "\<And>t. tm_now t \<le> tm_now (snd (fetch t))"
  shows "\<exists>r t'. wait_for_task_run_with M timeout interval fetch t = Some (r, t') \<and>
    (\<forall>info. r = Inr info \<longrightarrow> is_settled (ti_status info) \<or> tm_now t + timeout \<le> tm_now t') \<and>
    ((\<forall>n. mc_oversleep M n = 0) \<longrightarrow> tm_now t' \<le> tm_now t + timeout)"
  using poll_ends [OF assms, of M "tm_now t + timeout" t] by (auto simp: wait_for_task_run_with_def)

section \<open>Properties\<close>

text \<open>
  C39: the capture ids of a command line. Arguments written as ids and as ranges are read as
  exactly the ids they stand for, a range in the direction it is written; whatever is
  accepted is a list of 32-bit ids; and an argument of white space or a negative id is refused.
\<close>

theorem capture_id_arguments_correct:
  shows "(list_all argument_ok args \<longrightarrow>
      parse_capture_id_tokens (map argument_text args) = Inr (concat (map argument_ids args))) \<and>
    (\<forall>ids. parse_capture_id_tokens tokens = Inr ids \<longrightarrow> list_all in_i32 ids) \<and>
    (i < 0 \<or> trim blank = [] \<longrightarrow> isl (parse_capture_id_tokens (before @ (if i < 0 then show_int i else blank) # after)))"
proof (intro conjI impI allI)
  show "parse_capture_id_tokens (map argument_text args) = Inr (concat (map argument_ids args))" if "list_all argument_ok args"
    using that by (induction args) (simp_all add: parse_argument)
  show "list_all in_i32 ids" if "parse_capture_id_tokens tokens = Inr ids" for ids
    using that
  proof (induction tokens arbitrary: ids)
    case (Cons token tokens)
    then obtain now rest where "parse_capture_token token = Inr now" "parse_capture_id_tokens tokens = Inr rest" "ids = now @ rest"
      by (cases "parse_capture_token token"; cases "parse_capture_id_tokens tokens") auto
    with Cons.IH parsed_token_range show ?case by (auto simp: list_all_iff)
  qed simp
  assume bad: "i < 0 \<or> trim blank = []"
  let ?bad = "if i < 0 then show_int i else blank"
  have "isl (parse_capture_token ?bad)"
  proof (cases "i < 0")
    case True
    then have sign: "show_int i = CHR ''-'' # show_nat (nat (- i))" by (simp add: show_int_def)
    have "trim (show_int i) = show_int i" by (rule trim_digits) (auto dest: show_int_chars)
    with True sign show ?thesis by (simp add: parse_capture_token_def parse_i32_def parse_int_def)
  qed (use bad in \<open>simp add: parse_capture_token_def\<close>)
  then show "isl (parse_capture_id_tokens (before @ ?bad # after))"
    by (induction before) (auto split: sum.splits simp: isl_def)
qed

text \<open>
  The illuminate command always ends. It waits for the run it submitted until that is
  settled or the time it was given is over, and not longer when sleeps are exact; it prints
  an illumination only of a run that completed, and ends with an error for any other.
\<close>

theorem illuminate_command_ends:
  "\<exists>r t'. run_illuminate M state cid version level persist wait raw_json t = Some (r, t') \<and>
     (\<forall>v rid t1. submit_illumination M state cid version level persist t = (Inr (v, rid), t1) \<longrightarrow>
        (\<exists>answer t2. wait_for_task_run_with M (seconds wait) (seconds 2)
            (on_server M (api_get_task_run rid (cs_rest_client state))) t1 = Some (answer, t2) \<and>
          ((\<forall>n. mc_oversleep M n = 0) \<longrightarrow> tm_now t2 \<le> tm_now t1 + seconds wait) \<and>
          (case answer of
             Inl e \<Rightarrow> (r, t') = (Inl e, t2)
           | Inr info \<Rightarrow>
               (is_settled (ti_status info) \<or> tm_now t1 + seconds wait \<le> tm_now t2) \<and>
               (if ti_status info = CompleteSuccess
                then (r, t') = show_illumination M state v rid raw_json info t2
                else isl r \<and> t' = t2))))"
proof -
  have clock: "tm_now t \<le> tm_now (snd (on_server M m t))" for m :: "('a, anyhow, TaskRunInfo) comp" and t
    by (simp add: runs)
  have pos: "0 < seconds 2" by (simp add: seconds_def)
  have failed: "isl (fst (show_illumination M state v rid raw_json info t2)) \<and> snd (show_illumination M state v rid raw_json info t2) = t2"
    if "ti_status info \<noteq> CompleteSuccess" for v rid info t2
    using that by (simp add: show_illumination_def ensure_successful_run_def Let_def runs)
  show ?thesis
  proof (cases "submit_illumination M state cid version level persist t")
    case (Pair submitted t1)
    show ?thesis
    proof (cases submitted)
      case (Inr task)
      then obtain v rid where task: "submitted = Inr (v, rid)" by (cases task) auto
      from waiting_ends [OF pos, of "on_server M (api_get_task_run rid (cs_rest_client state))" M "seconds wait" t1, OF clock]
      obtain answer t2 where waited: "wait_for_task_run_with M (seconds wait) (seconds 2)
          (on_server M (api_get_task_run rid (cs_rest_client state))) t1 = Some (answer, t2)"
        and kept: "\<forall>info. answer = Inr info \<longrightarrow> is_settled (ti_status info) \<or> tm_now t1 + seconds wait \<le> tm_now t2"
          "(\<forall>n. mc_oversleep M n = 0) \<longrightarrow> tm_now t2 \<le> tm_now t1 + seconds wait" by blast
      show ?thesis
      proof (cases answer)
        case (Inl e)
        with Pair task waited kept show ?thesis by (auto simp: run_illuminate_def)
      next
        case (Inr info)
        with Pair task waited kept failed [of info v rid t2] show ?thesis
          by (cases "show_illumination M state v rid raw_json info t2") (auto simp: run_illuminate_def)
      qed
    qed (use Pair in \<open>auto simp: run_illuminate_def\<close>)
  qed
qed

text \<open>What connecting does to a keyring that works.\<close>

lemma keyring_runs:
  assumes "\<forall>n. mc_keyring_error M n = None"
  shows "get_token M host u t = (Inr (tm_keys t (account_key M host u)), t\<lparr>tm_accesses := Suc (Suc (tm_accesses t))\<rparr>)"
    and "set_token M host u token t = (Inr (), t\<lparr>tm_accesses := Suc (Suc (tm_accesses t)),
      tm_keys := (tm_keys t)(account_key M host u \<mapsto> token)\<rparr>)"
    and "delete_token M host u t = (Inr (), t\<lparr>tm_accesses := Suc (Suc (tm_accesses t)),
      tm_keys := (tm_keys t)(account_key M host u := None)\<rparr>)"
  using assms by (simp_all add: get_token_def set_token_def delete_token_def keyring_entry_def keyring_access_def runs)

lemma prompt_keys:
  assumes "\<forall>n. mc_keyring_error M n = None" "try_client_from_prompt M http host u t = (r, t')"
  shows "tm_keys t' = (case r of Inr client \<Rightarrow> (tm_keys t)(account_key M host u \<mapsto> rc_access_token client) | Inl _ \<Rightarrow> tm_keys t)"
  using assms(2)
  by (auto simp: try_client_from_prompt_def prompt_password_stdin_def read_input_def keyring_runs [OF assms(1)] runs
      split: list.splits sum.splits)

lemma cached_keys:
  assumes "\<forall>n. mc_keyring_error M n = None" "try_client_from_token M http host u t = (r, t')"
  shows "case r of
      Inr (Some client) \<Rightarrow> tm_keys t' = tm_keys t \<and> tm_keys t (account_key M host u) = Some (rc_access_token client)
    | Inr None \<Rightarrow> tm_keys t' = tm_keys t \<or> tm_keys t' = (tm_keys t)(account_key M host u := None)
    | Inl _ \<Rightarrow> tm_keys t' = tm_keys t"
proof (cases "tm_keys t (account_key M host u)")
  case None
  with assms(2) show ?thesis by (auto simp: try_client_from_token_def keyring_runs [OF assms(1)] runs)
next
  case (Some token)
  let ?C = "connect_with_token (fst http) (snd http) host token"
  have "try_client_from_token M http host u t =
      bindM (catchM (on_server M (validate_auth ?C))) (\<lambda>valid. case valid of
           Inr _ \<Rightarrow> returnM (Some ?C)
         | Inl e \<Rightarrow> if contains_sub ''unauthorized (401)'' (anyhow_display e)
             then bindM (catchM (delete_token M host u)) (\<lambda>_. returnM None)
             else throwM e) (t\<lparr>tm_accesses := Suc (Suc (tm_accesses t))\<rparr>)"
    by (simp add: try_client_from_token_def keyring_runs [OF assms(1)] run_bindM Some Let_def)
  with assms(2) Some show ?thesis
    by (cases "fst (validate_auth ?C (tm_server t))")
      (auto simp: keyring_runs [OF assms(1)] runs connect_with_token_def split: if_splits)
qed

lemma prompt_connects:
  "try_client_from_prompt M http host u t = (Inr client, t') \<Longrightarrow>
     \<exists>password s. fst (connect (fst http) (snd http) host u password s) = Inr client"
  by (auto simp: try_client_from_prompt_def prompt_password_stdin_def read_input_def runs split: list.splits sum.splits)

text \<open>The account a run without a token is for: the one named by \<open>--user\<close>, or the line typed at the prompt.\<close>

definition account_name :: "string option \<Rightarrow> 's terminal \<Rightarrow> string" where
  "account_name user t =
     (case user of Some u \<Rightarrow> u | None \<Rightarrow> trim (case tm_input t of [] \<Rightarrow> [] | line # _ \<Rightarrow> line))"

lemma account_asked:
  "(case user of Some u \<Rightarrow> returnM u | None \<Rightarrow> prompt_username_stdin) t =
     (Inr (account_name user t), (case user of Some _ \<Rightarrow> t
        | None \<Rightarrow> t\<lparr>tm_out := tm_out t @ [''Enter username: ''], tm_input := drop 1 (tm_input t)\<rparr>))"
  by (cases user; cases "tm_input t") (simp_all add: account_name_def prompt_username_stdin_def read_stdin_def runs)

text \<open>
  C22: how the tool authenticates. With a token in the environment it uses that token or fails:
  no prompt, no access to the keyring. Without one the account is the one given, or else the
  trimmed line typed at the prompt. While the keyring works, every connection that succeeds uses
  the token that was cached for this account or one the server just issued to it, and leaves it
  under the account's entry; one that fails at most drops that entry; no other entry is touched.
\<close>

theorem connection_correct:
  fixes t :: "'s terminal"
  shows "case connect_state M http keys host user var t of (r, t') \<Rightarrow>
    (case env_token var of
       Some token \<Rightarrow>
         tm_keys t' = tm_keys t \<and> tm_accesses t' = tm_accesses t \<and> tm_input t' = tm_input t \<and>
         (case fst (validate_auth (connect_with_token (fst http) (snd http) host token) (tm_server t)) of
            Inr _ \<Rightarrow> \<exists>state. r = Inr state \<and> cs_rest_client state = connect_with_token (fst http) (snd http) host token
          | Inl _ \<Rightarrow> isl r)
     | None \<Rightarrow>
         (\<forall>n. mc_keyring_error M n = None) \<longrightarrow>
         (let u = account_name user t; entry = account_key M host u in
            (\<forall>k. k \<noteq> entry \<longrightarrow> tm_keys t' k = tm_keys t k) \<and>
            (case r of
               Inr state \<Rightarrow> cs_rest_user state = Some u \<and> cs_rest_host state = host \<and>
                  tm_keys t' entry = Some (rc_access_token (cs_rest_client state)) \<and>
                  (tm_keys t entry = Some (rc_access_token (cs_rest_client state)) \<or>
                   (\<exists>password s. fst (connect (fst http) (snd http) host u password s) = Inr (cs_rest_client state)))
             | Inl _ \<Rightarrow> tm_keys t' entry = tm_keys t entry \<or> tm_keys t' entry = None)))"
proof (cases "env_token var")
  case (Some token)
  obtain l where l: "warn_on_redundant_user M (Some token) user t = (Inr (), t\<lparr>tm_err := l\<rparr>)"
  proof (cases user)
    case None
    then show ?thesis using that [of "tm_err t"] by (simp add: warn_on_redundant_user_def runs)
  next
    case (Some u)
    then show ?thesis by (intro that) (simp add: warn_on_redundant_user_def runs)
  qed
  let ?C = "connect_with_token (fst http) (snd http) host token"
  obtain v s where valid: "validate_auth ?C (tm_server t) = (v, s)" by fastforce
  obtain name where name: "(case user of Some u \<Rightarrow> returnM u | None \<Rightarrow> (case Some token of
      Some t \<Rightarrow> returnM (case token_username M t of Some u \<Rightarrow> u | None \<Rightarrow> ''token'') | None \<Rightarrow> prompt_username_stdin))
      = (returnM name :: ('s, string) command)"
    by (cases user) auto
  note unfolded = connect_state_def [of M http keys host user var, unfolded Some Let_def name]
  have tried: "try_client_with_env_token M http host (Some token) t' =
      (map_sum (\<lambda>e. anyhow_msg (TOKEN_ENV @ '' was rejected by '' @ quoted host @ '': '' @ anyhow_display e
          @ ''. Unset it to log in interactively.'')) (\<lambda>_. Some ?C) (fst (validate_auth ?C (tm_server t'))),
       t'\<lparr>tm_server := snd (validate_auth ?C (tm_server t')), tm_now := tm_now t' + mc_delay M (tm_now t')\<rparr>)" for t'
    by (cases "fst (validate_auth ?C (tm_server t'))") (simp_all add: try_client_with_env_token_def Let_def runs)
  from valid show ?thesis
    by (cases v) (simp_all add: Some unfolded tried runs l)
next
  case None
  define u where "u = account_name user t"
  define t0 where "t0 = (case user of Some _ \<Rightarrow> t
        | None \<Rightarrow> t\<lparr>tm_out := tm_out t @ [''Enter username: ''], tm_input := drop 1 (tm_input t)\<rparr>)"
  have t0: "tm_keys t0 = tm_keys t" by (simp add: t0_def split: option.split)
  obtain cached t1 where cached: "try_client_from_token M http host u t0 = (cached, t1)" by fastforce
  obtain client t2 where prompted: "try_client_from_prompt M http host u t1 = (client, t2)" by fastforce
  note asked = account_asked [of user t, folded u_def t0_def]
  have run: "connect_state M http keys host user var t =
      (case cached of
         Inl e \<Rightarrow> (Inl e, t1)
       | Inr (Some C) \<Rightarrow> (Inr \<lparr>cs_xai_api_key = fst keys, cs_gemini_api_key = snd keys, cs_rest_host = host, cs_rest_user = Some u, cs_rest_client = C\<rparr>, t1)
       | Inr None \<Rightarrow> (map_sum id (\<lambda>C. \<lparr>cs_xai_api_key = fst keys, cs_gemini_api_key = snd keys, cs_rest_host = host, cs_rest_user = Some u, cs_rest_client = C\<rparr>) client, t2))"
  proof -
    have steps: "(case cached of Inl e \<Rightarrow> (Inl e, t1) | Inr x \<Rightarrow> (case x of Some C \<Rightarrow> returnM C | None \<Rightarrow> try_client_from_prompt M http host u) t1) =
        (case cached of Inl e \<Rightarrow> (Inl e, t1) | Inr (Some C) \<Rightarrow> (Inr C, t1) | Inr None \<Rightarrow> (client, t2))"
      by (simp add: run_returnM prompted split: sum.split option.split)
    have env: "(case env_token var of None \<Rightarrow> prompt_username_stdin | Some token \<Rightarrow> f token) = prompt_username_stdin" for f
      by (simp add: None)
    have "connect_state M http keys host user var t =
        (case (case cached of Inl e \<Rightarrow> (Inl e, t1) | Inr (Some C) \<Rightarrow> (Inr C, t1) | Inr None \<Rightarrow> (client, t2)) of
           (Inl e, t') \<Rightarrow> (Inl e, t')
         | (Inr C, t') \<Rightarrow> (Inr \<lparr>cs_xai_api_key = fst keys, cs_gemini_api_key = snd keys, cs_rest_host = host, cs_rest_user = Some u, cs_rest_client = C\<rparr>, t'))"
    proof (cases user)
      case None
      have "prompt_username_stdin t = (Inr u, t0)" using asked by (simp add: None)
      with cached steps show ?thesis
        by (simp add: connect_state_def \<open>env_token var = None\<close> None Let_def warn_on_redundant_user_def run_bindM run_returnM
            try_client_with_env_token_def) (simp add: run_returnM split: prod.split sum.split option.split)
    next
      case (Some x)
      then have "x = u" "t0 = t" by (simp_all add: u_def t0_def account_name_def)
      with cached steps show ?thesis
        by (simp add: connect_state_def \<open>env_token var = None\<close> Some Let_def warn_on_redundant_user_def run_bindM run_returnM
            try_client_with_env_token_def) (simp add: run_returnM split: prod.split sum.split option.split)
    qed
    then show ?thesis by (auto split: sum.split option.split)
  qed
  show ?thesis
    unfolding run None option.case prod.case Let_def u_def [symmetric]
    using cached_keys [OF _ cached] prompt_keys [OF _ prompted] prompt_connects [of M http host u t1 _ t2] prompted t0
    by (cases cached; cases client) (auto split: option.splits)
qed

section \<open>Examples\<close>

definition demo_machine :: "('s, nat) machine" where
  "demo_machine = \<lparr>mc_blake3_hex = id, mc_keyring_error = (\<lambda>_. None), mc_no_input = ''end of file'', mc_pretty = (\<lambda>_. ''{}''),
     mc_show_time = show_int, mc_rfc3339 = show_int, mc_claims = (\<lambda>_. None), mc_debug = id, mc_lowercase = id,
     mc_latest_instant = 10 ^ 18, mc_delay = (\<lambda>_. 0), mc_oversleep = (\<lambda>_. 0),
     mc_firestarter = (\<lambda>_ _ _. throwM [''offline'']), mc_debug_metadata = (\<lambda>_. []), mc_debug_duration = (\<lambda>_. [])\<rparr>"

definition demo_response :: "nat \<Rightarrow> nat body \<Rightarrow> nat body http_response" where
  "demo_response status b = \<lparr>hp_status = status, hp_next_after_id = None, hp_text = Some [], hp_body = Inr b\<rparr>"

definition demo_run_info :: TaskRunInfo where
  "demo_run_info = \<lparr>ti_logical_id = ''l'', ti_run_id = ''r1'', ti_run_number = 1, ti_task_type = ''illuminate'', ti_entity_type = ''capture'',
     ti_entity_id = 1, ti_status = Queued, ti_attempts = 0, ti_error_code = None, ti_error_message = None, ti_created_at = 0,
     ti_updated_at = 0\<rparr>"

text \<open>A server that issues the token \<open>fresh\<close>, accepts no other, and never starts a run.\<close>

definition demo_http :: "(unit, nat) http" where
  "demo_http =
     (\<lambda>_ q. returnM (
        if hq_path q = ''/token'' then
          demo_response 200 (TokenBody \<lparr>tkr_access_token = ''fresh'', tkr_token_type = ''Bearer'', tkr_expires_in = 60\<rparr>)
        else if hq_bearer q \<noteq> Some ''fresh'' then demo_response 401 NoBody
        else if hq_method q = POST then demo_response 202 (RunIdBody ''r1'')
        else demo_response 200 (TaskRunBody demo_run_info)),
      \<lambda>_. ''reason'')"

definition demo_terminal :: "unit terminal" where
  "demo_terminal = \<lparr>tm_server = (), tm_out = [], tm_err = [], tm_input = [''pw''], tm_keys = [''v2-localhost|ann'' \<mapsto> ''stale''],
     tm_accesses = 0, tm_dirs = [], tm_files = Map.empty, tm_now = 0\<rparr>"

definition demo_cli :: "(unit, nat) ApiCmdState" where
  "demo_cli = \<lparr>cs_xai_api_key = None, cs_gemini_api_key = None, cs_rest_host = ''localhost'', cs_rest_user = Some ''ann'',
     cs_rest_client = connect_with_token (fst demo_http) (snd demo_http) ''localhost'' ''fresh''\<rparr>"

theorem capture_id_arguments_correct_witness:
  "parse_capture_id_tokens [''7'', ''3-1'', ''5-6''] = Inr [7, 3, 2, 1, 5, 6] \<and> isl (parse_capture_id_tokens [''7'', ''-2''])"
proof -
  have args: "list_all argument_ok [OneId 7, IdRange 3 1, IdRange 5 6]" by (simp add: in_i32_def)
  have shown: "show_int 7 = ''7''" "show_int 3 = ''3''" "show_int 1 = ''1''" "show_int 5 = ''5''" "show_int 6 = ''6''"
    "show_int (-2) = ''-2''" "[1..3::int] = [1, 2, 3]" "[5..6::int] = [5, 6]"
    by code_simp+
  have "parse_capture_id_tokens (map argument_text [OneId 7, IdRange 3 1, IdRange 5 6]) =
      Inr (concat (map argument_ids [OneId 7, IdRange 3 1, IdRange 5 6]))"
    using capture_id_arguments_correct [of "[OneId 7, IdRange 3 1, IdRange 5 6]"] args by blast
  moreover have "isl (parse_capture_id_tokens ([''7''] @ (if (-2 :: int) < 0 then show_int (-2) else []) # []))"
    using capture_id_arguments_correct [where i = "-2" and before = "[''7'']" and after = "[]" and blank = "[]"] by simp
  ultimately show ?thesis by (simp add: shown)
qed

theorem illuminate_command_ends_witness:
  "\<exists>r t'. run_illuminate demo_machine demo_cli 1 ''v2'' None True 5 False demo_terminal = Some (r, t') \<and> isl r \<and>
     tm_now t' \<le> seconds 5"
proof -
  let ?t1 = "demo_terminal\<lparr>tm_err := [''Enqueueing illumination for capture '' @ show_int 1 @ '' (v2)...'', ''Enqueued TaskRun r1.'',
      ''Polling for task completion...'']\<rparr>"
  have submitted: "submit_illumination demo_machine demo_cli 1 ''v2'' None True demo_terminal = (Inr (V2, ''r1''), ?t1)"
    by (simp add: submit_illumination_def parse_prompt_version_def api_enqueue_illuminate_def call_json_def send_def demo_cli_def
        connect_with_token_def demo_http_def http_post_def demo_response_def parse_json_response_def is_success_def demo_machine_def
        demo_terminal_def runs)
  have shown: "isl (fst (show_illumination demo_machine demo_cli V2 ''r1'' False info t2)) \<and>
      tm_now (snd (show_illumination demo_machine demo_cli V2 ''r1'' False info t2)) = tm_now t2" for info t2
    by (cases "ensure_successful_run info")
      (simp_all add: show_illumination_def api_get_illumination_raw_def call_json_def send_def demo_cli_def connect_with_token_def
        demo_http_def http_get_def demo_response_def parse_json_response_def is_success_def demo_machine_def runs)
  from illuminate_command_ends [of demo_machine demo_cli 1 "''v2''" None True 5 False demo_terminal] submitted
  obtain r t' answer t2 where run: "run_illuminate demo_machine demo_cli 1 ''v2'' None True 5 False demo_terminal = Some (r, t')"
    and time: "(\<forall>n. mc_oversleep (demo_machine :: (unit, nat) machine) n = 0) \<longrightarrow> tm_now t2 \<le> tm_now ?t1 + seconds 5"
    and out: "case answer of
             Inl e \<Rightarrow> (r, t') = (Inl e, t2)
           | Inr info \<Rightarrow>
               (is_settled (ti_status info) \<or> tm_now ?t1 + seconds 5 \<le> tm_now t2) \<and>
               (if ti_status info = CompleteSuccess
                then (r, t') = show_illumination demo_machine demo_cli V2 ''r1'' False info t2
                else isl r \<and> t' = t2)" by blast
  have "isl r \<and> tm_now t' = tm_now t2"
  proof (cases answer)
    case (Inr info)
    with out shown [of info t2] show ?thesis
      by (cases "show_illumination demo_machine demo_cli V2 ''r1'' False info t2") (auto split: if_splits)
  qed (use out in auto)
  moreover have "tm_now t2 \<le> seconds 5" using time by (simp add: demo_machine_def demo_terminal_def)
  ultimately show ?thesis using run by auto
qed

text \<open>The cached token is stale: it is dropped, the password is asked for, and the new token cached.\<close>

text \<open>A stale token is dropped and replaced by a new one, for the account given or for the one typed.\<close>

definition demo_asked :: "unit terminal" where
  "demo_asked = demo_terminal\<lparr>tm_input := ['' ann '', ''pw'']\<rparr>"

theorem connection_correct_witness:
  "tm_keys (snd (connect_state demo_machine demo_http (None, None) ''localhost'' (Some ''ann'') None demo_terminal))
     ''v2-localhost|ann'' = Some ''fresh'' \<and>
   tm_keys (snd (connect_state demo_machine demo_http (None, None) ''localhost'' None None demo_asked))
     ''v2-localhost|ann'' = Some ''fresh'' \<and>
   isl (fst (connect_state demo_machine demo_http (None, None) ''localhost'' None (Some ''other'') demo_terminal))"
proof -
  have key: "account_key (demo_machine :: (unit, nat) machine) ''localhost'' ''ann'' = ''v2-localhost|ann''"
  proof -
    have "canonical_identity ''localhost'' ''ann'' = ''localhost|ann''" by code_simp
    then show ?thesis by (simp add: account_key_def demo_machine_def)
  qed
  have keyring: "\<forall>n. mc_keyring_error (demo_machine :: (unit, nat) machine) n = None" by (simp add: demo_machine_def)
  have env: "env_token (Some ''other'') = Some ''other''" "env_token None = None" by code_simp+
  note correct = connection_correct [where M = demo_machine and http = demo_http and keys = "(None, None)" and host = "''localhost''"]
  have rejected: "isl (fst (validate_auth (connect_with_token (fst demo_http) (snd demo_http) ''localhost'' ''other'') (tm_server demo_terminal)))"
    by (simp add: validate_auth_def send_def connect_with_token_def demo_http_def http_get_def demo_response_def is_success_def runs)
  have third: "isl (fst (connect_state demo_machine demo_http (None, None) ''localhost'' None (Some ''other'') demo_terminal))"
    using correct [where user = None and var = "Some ''other''" and t = demo_terminal] rejected by (auto simp: env split: prod.splits sum.splits)
  note http = send_def connect_with_token_def demo_http_def http_get_def http_post_def demo_response_def is_success_def runs
  have stale: "validate_auth (connect_with_token (fst demo_http) (snd demo_http) ''localhost'' ''stale'') s =
      (Inl [''unauthorized (401): ''], s)" for s
    by (simp add: validate_auth_def http read_error_body_def anyhow_msg_def)
  have fresh: "connect (fst demo_http) (snd demo_http) ''localhost'' ''ann'' ''pw'' s =
      (Inr (connect_with_token (fst demo_http) (snd demo_http) ''localhost'' ''fresh''), s)" for s
    by (simp add: connect_def http)
  have typed: "trim '' ann '' = ''ann''" by code_simp
  have login: "\<exists>client t1 t2. try_client_from_token demo_machine demo_http ''localhost'' ''ann'' t0 = (Inr None, t1) \<and>
      try_client_from_prompt demo_machine demo_http ''localhost'' ''ann'' t1 = (Inr client, t2) \<and> rc_access_token client = ''fresh''"
    if start: "tm_keys t0 = tm_keys demo_terminal" "tm_input t0 = [''pw'']" for t0
  proof -
    obtain t1 where t1: "try_client_from_token demo_machine demo_http ''localhost'' ''ann'' t0 = (Inr None, t1)" "tm_input t1 = [''pw'']"
      using start
      by (simp add: try_client_from_token_def keyring_runs [OF keyring] key run_bindM Let_def run_catchM run_on_server stale run_returnM
          demo_terminal_def anyhow_display_def starts_with_def)
    from t1(2) have "fst (try_client_from_prompt demo_machine demo_http ''localhost'' ''ann'' t1) =
        Inr (connect_with_token (fst demo_http) (snd demo_http) ''localhost'' ''fresh'')"
      by (simp add: try_client_from_prompt_def prompt_password_stdin_def read_input_def keyring_runs [OF keyring] runs fresh)
    with t1(1) show ?thesis
      by (cases "try_client_from_prompt demo_machine demo_http ''localhost'' ''ann'' t1") (simp add: connect_with_token_def)
  qed
  have "\<exists>state. fst (connect_state demo_machine demo_http (None, None) ''localhost'' (Some ''ann'') None demo_terminal) = Inr state \<and>
      rc_access_token (cs_rest_client state) = ''fresh''"
    using login [of demo_terminal]
    by (auto simp: demo_terminal_def connect_state_def env warn_on_redundant_user_def try_client_with_env_token_def run_bindM run_returnM Let_def)
  moreover have "\<exists>state. fst (connect_state demo_machine demo_http (None, None) ''localhost'' None None demo_asked) = Inr state \<and>
      rc_access_token (cs_rest_client state) = ''fresh''"
    using login [of "demo_asked\<lparr>tm_out := tm_out demo_asked @ [''Enter username: ''], tm_input := [''pw'']\<rparr>"] typed
    by (auto simp: demo_asked_def connect_state_def env warn_on_redundant_user_def try_client_with_env_token_def run_bindM run_returnM Let_def
        prompt_username_stdin_def read_stdin_def run_prints)
  moreover have "account_name None demo_asked = ''ann''" using typed by (simp add: account_name_def demo_asked_def)
  ultimately show ?thesis
    using correct [where user = "Some ''ann''" and var = None and t = demo_terminal]
      correct [where user = None and var = None and t = demo_asked] keyring third
    by (auto simp: env key Let_def account_name_def [of "Some ''ann''"] split: prod.splits)
qed

end
