(* ===== verification/Digest.thy ===== *)
theory Digest
  imports Cli
begin

text \<open>
  \<open>util_cmds/api/export_digest.rs\<close> and \<open>import_digest.rs\<close>: all captures of a user as a directory of
  images with a JSON digest, and back. The JSON text of a digest, the file system's refusals, the
  calendar and the fetch of a media are arguments.
\<close>

section \<open>The digest\<close>

record CaptureDigestEntry =
  de_original_id :: int
  de_created_at :: timestamp
  de_media_files :: "string list"

record FullDigest =
  dg_version :: nat
  dg_exported_at :: timestamp
  dg_captures :: "CaptureDigestEntry list"

definition full_digest_new :: "timestamp \<Rightarrow> FullDigest" where
  "full_digest_new now = \<lparr>dg_version = 1, dg_exported_at = now, dg_captures = []\<rparr>"

record host_system =
  hs_utc :: "nat \<Rightarrow> timestamp"
  hs_stamp :: "timestamp \<Rightarrow> string"
  hs_digest_text :: "FullDigest \<Rightarrow> string"
  hs_digest_parse :: "string \<Rightarrow> anyhow + FullDigest"
  hs_create_error :: "string \<Rightarrow> string option"
  hs_write_error :: "string \<Rightarrow> string option"
  hs_rfc3339 :: "timestamp \<Rightarrow> string"
  hs_debug_error :: "anyhow \<Rightarrow> string"
  hs_fetch :: "string \<Rightarrow> anyhow + nat \<times> (anyhow + string)"

definition path_join :: "string \<Rightarrow> string \<Rightarrow> string" where
  "path_join base name =
     (if starts_with name ''/'' then name
      else if base = [] \<or> last base = CHR ''/'' then base @ name else base @ ''/'' @ name)"

definition io_result :: "string option \<Rightarrow> anyhow + unit" where
  "io_result e = (case e of Some t \<Rightarrow> Inl (anyhow_msg t) | None \<Rightarrow> Inr ())"

definition create_dir_all :: "host_system \<Rightarrow> string \<Rightarrow> ('s, unit) command" where
  "create_dir_all H dir =
     bindM (liftM (io_result (hs_create_error H dir))) (\<lambda>_. modifyM (\<lambda>t. t\<lparr>tm_dirs := tm_dirs t @ [dir]\<rparr>))"

definition write_file :: "host_system \<Rightarrow> string \<Rightarrow> string \<Rightarrow> ('s, unit) command" where
  "write_file H path content =
     bindM (liftM (io_result (hs_write_error H path))) (\<lambda>_. modifyM (\<lambda>t. t\<lparr>tm_files := (tm_files t)(path \<mapsto> content)\<rparr>))"

section \<open>Export\<close>

definition media_file_name :: "MediaInfo \<Rightarrow> string" where
  "media_file_name media =
     (case mi_storage_extension media of
        Some ext \<Rightarrow> if ext = [] then mi_storage_uuid media else mi_storage_uuid media @ ''.'' @ ext
      | None \<Rightarrow> mi_storage_uuid media)"

text \<open>The extension is not on the wire, so a media of an answer is saved under its UUID alone.\<close>

lemma exported_name_has_no_extension: "media_file_name (media_on_wire m) = mi_storage_uuid m"
  by (simp add: media_file_name_def media_on_wire_def)

definition export_media :: "('s, 'x) machine \<Rightarrow> host_system \<Rightarrow> string \<Rightarrow> (nat \<Rightarrow> string) \<Rightarrow> CaptureInfo \<Rightarrow> MediaInfo
    \<Rightarrow> ('s, CaptureDigestEntry) command" where
  "export_media M H dir reason capture media =
     (case hs_fetch H (mi_url media) of
        Inl e \<Rightarrow> throwM (with_context (''failed to fetch media from '' @ mi_url media) e)
      | Inr (status, content) \<Rightarrow>
          if \<not> is_success status
          then throwM (anyhow_msg (''failed to fetch media for capture '' @ show_int (ci_id capture) @ '' from '' @ mi_url media
             @ '': status '' @ show_nat status @ '' '' @ reason status))
          else (case content of
              Inl e \<Rightarrow> throwM (with_context (''failed reading media body from '' @ mi_url media) e)
            | Inr bytes \<Rightarrow>
                bindM (write_file H (path_join dir (media_file_name media)) bytes) (\<lambda>_.
                returnM \<lparr>de_original_id = ci_id capture, de_created_at = ci_created_at capture,
                  de_media_files = [media_file_name media]\<rparr>)))"

fun export_captures :: "('s, 'x) machine \<Rightarrow> host_system \<Rightarrow> string \<Rightarrow> (nat \<Rightarrow> string) \<Rightarrow> CaptureInfo list
    \<Rightarrow> ('s, CaptureDigestEntry list) command" where
  "export_captures M H dir reason [] = returnM []"
| "export_captures M H dir reason (capture # rest) =
     (case ci_medias capture of
        [] \<Rightarrow> bindM (eprint_line (''Warning: Capture '' @ show_int (ci_id capture) @ '' has no media, skipping'')) (\<lambda>_.
              export_captures M H dir reason rest)
      | media # _ \<Rightarrow>
          bindM (export_media M H dir reason capture media) (\<lambda>entry.
          bindM (export_captures M H dir reason rest) (\<lambda>entries.
          returnM (entry # entries))))"

definition run_export_digest :: "('s, 'x) machine \<Rightarrow> host_system \<Rightarrow> ('s, 'x) ApiCmdState \<Rightarrow> string \<Rightarrow> ('s, unit) command" where
  "run_export_digest M H state root_dir =
     bindM (getM (\<lambda>t. hs_utc H (tm_now t))) (\<lambda>timestamp.
     let export_dir = path_join root_dir (''dreamscroll_export_'' @ hs_stamp H timestamp) in
     bindM (create_dir_all H export_dir) (\<lambda>_.
     bindM (print_line (''Created export directory: '' @ export_dir)) (\<lambda>_.
     bindM (on_server M (api_get_captures None (cs_rest_client state))) (\<lambda>infos.
     bindM (print_line (''Found '' @ show_nat (length infos) @ '' captures to export.'')) (\<lambda>_.
     bindM (getM (\<lambda>t. full_digest_new (hs_utc H (tm_now t)))) (\<lambda>digest.
     bindM (export_captures M H export_dir (rc_reason (cs_rest_client state)) infos) (\<lambda>entries.
     let full = digest\<lparr>dg_captures := entries\<rparr>; digest_path = path_join export_dir ''digest.json'' in
     bindM (write_file H digest_path (hs_digest_text H full)) (\<lambda>_.
     print_lines [''Export complete: '' @ show_nat (length entries) @ '' captures.'', ''Digest written to: '' @ digest_path]))))))))"

section \<open>Import\<close>

text \<open>One entry: whether its first media was imported, or skipped as known.\<close>

definition import_entry :: "('s, 'x) machine \<Rightarrow> host_system \<Rightarrow> ('s, 'x) ApiCmdState \<Rightarrow> string \<Rightarrow> CaptureDigestEntry \<Rightarrow> ('s, bool) command" where
  "import_entry M H state export_dir entry =
     (case de_media_files entry of
        [] \<Rightarrow> throwM (anyhow_msg ''Capture has no media files'')
      | first_media # _ \<Rightarrow>
          let media_path = path_join export_dir first_media in
          bindM (getM (\<lambda>t. tm_files t media_path)) (\<lambda>file.
          case file of
            None \<Rightarrow> throwM (anyhow_msg (''Media file not found: '' @ media_path))
          | Some media_bytes \<Rightarrow>
              bindM (catchM (on_server M (api_import_capture (hs_rfc3339 H) media_bytes (de_created_at entry) (cs_rest_client state)))) (\<lambda>result.
              case result of
                Inr _ \<Rightarrow> returnM True
              | Inl e \<Rightarrow>
                  if contains_sub ''status 409'' (anyhow_display e)
                  then bindM (eprint_line (''Skipped capture '' @ show_int (de_original_id entry)
                         @ '' because media hash already exists.'')) (\<lambda>_. returnM False)
                  else throwM (anyhow_msg (''Failed to import capture '' @ show_int (de_original_id entry) @ '': '' @ hs_debug_error H e)))))"

fun import_entries :: "('s, 'x) machine \<Rightarrow> host_system \<Rightarrow> ('s, 'x) ApiCmdState \<Rightarrow> string \<Rightarrow> CaptureDigestEntry list \<Rightarrow> ('s, nat \<times> nat) command" where
  "import_entries M H state export_dir [] = returnM (0, 0)"
| "import_entries M H state export_dir (entry # entries) =
     bindM (import_entry M H state export_dir entry) (\<lambda>imported.
     bindM (import_entries M H state export_dir entries) (\<lambda>(done', skipped).
     returnM (if imported then (Suc done', skipped) else (done', Suc skipped))))"

definition run_import_digest :: "('s, 'x) machine \<Rightarrow> host_system \<Rightarrow> ('s, 'x) ApiCmdState \<Rightarrow> string \<Rightarrow> ('s, unit) command" where
  "run_import_digest M H state export_dir =
     bindM (getM (\<lambda>t. export_dir \<in> set (tm_dirs t))) (\<lambda>is_dir.
     if \<not> is_dir then throwM (anyhow_msg (quoted export_dir @ '' is not a directory''))
     else bindM (getM (\<lambda>t. tm_files t (path_join export_dir ''digest.json''))) (\<lambda>file.
     case file of
       None \<Rightarrow> throwM (anyhow_msg (''digest.json not found in '' @ quoted export_dir))
     | Some content \<Rightarrow>
         bindM (liftM (hs_digest_parse H content)) (\<lambda>digest.
         bindM (print_line (''Found digest v'' @ show_nat (dg_version digest) @ '' exported at '' @ mc_show_time M (dg_exported_at digest)
            @ '' with '' @ show_nat (length (dg_captures digest)) @ '' captures.'')) (\<lambda>_.
         bindM (import_entries M H state export_dir (dg_captures digest)) (\<lambda>(imported, skipped).
         print_line (''Completedigest_contained: '' @ show_nat (length (dg_captures digest)) @ '' imported: '' @ show_nat imported
            @ '' skipped: '' @ show_nat skipped))))))"

section \<open>Exports fail\<close>

lemma get_captures_without_ids:
  assumes "normalize_base_url host = fw_origin FW @ ''/api''"
  shows "isl (fst (api_get_captures None (connect_with_token (http_serve FW L self E) reason host token) w)) \<and>
    snd (api_get_captures None (connect_with_token (http_serve FW L self E) reason host token) w) = w"
proof -
  have "sendable (ClCaptures None)" by simp
  note served = call_json_served [OF this assms, where L = L and self = self and E = E and reason = reason and token = token]
  have answer: "\<exists>e. serve L self E (fw_now FW w) (Some token) (Protected (GetCaptures [])) w = (Inl e, w) \<and> e \<noteq> Handler Panicked"
    by (auto simp: serve_def r_capture_get_def runs split: sum.splits)
  then obtain e where e: "serve L self E (fw_now FW w) (Some token) (Protected (GetCaptures [])) w = (Inl e, w)"
    "e \<noteq> Handler Panicked" by blast
  from e(2) have "\<exists>response. http_answer FW w (Inl e) = Inr response \<and> isl (parse_json_response reason captures_of response)"
    by (auto simp: http_answer_def parse_json_error split: refusal.split failure.split)
  with e(1) show ?thesis by (auto simp: api_get_captures_def served)
qed

text \<open>
  C23: against the server of the repository the export command never exports anything. It asks
  for all captures by sending no id, which the route refuses, so it always ends with an error,
  whatever the account holds, and leaves the server and every file as they were.
\<close>

theorem export_digest_always_fails:
  assumes "normalize_base_url host = fw_origin FW @ ''/api''"
    and "cs_rest_client state = connect_with_token (http_serve FW L self E) reason host token"
  shows "case run_export_digest M H state root_dir t of (r, t') \<Rightarrow>
    isl r \<and> tm_server t' = tm_server t \<and> tm_files t' = tm_files t"
proof -
  obtain r w where call': "api_get_captures None (cs_rest_client state) (tm_server t) = (r, w)" by fastforce
  from get_captures_without_ids [OF assms(1), where L = L and self = self and E = E and reason = reason and token = token and w = "tm_server t"]
  obtain e where "r = Inl e" "w = tm_server t" by (auto simp: call' assms(2) [symmetric] isl_def)
  with call' show ?thesis
    by (cases "hs_create_error H (path_join root_dir (''dreamscroll_export_'' @ hs_stamp H (hs_utc H (tm_now t))))")
      (simp_all add: run_export_digest_def create_dir_all_def io_result_def Let_def runs)
qed

section \<open>Imports\<close>

text \<open>What imports of bytes with the given hashes may do to the tables of captures and media.\<close>

definition grows :: "int \<Rightarrow> string set \<Rightarrow> world \<Rightarrow> world \<Rightarrow> bool" where
  "grows uid hexes w w' \<longleftrightarrow>
     (\<exists>cs ms. captures w' = captures w @ cs \<and> medias w' = medias w @ ms \<and> length cs = length ms \<and>
        (\<forall>c \<in> set cs. ca_user_id c = uid) \<and> distinct (map md_hash_blake3 ms) \<and>
        (\<forall>m \<in> set ms. md_user_id m = uid \<and> (\<exists>hex \<in> hexes. md_hash_blake3 m = Some hex) \<and>
           (\<forall>k \<in> set (medias w). md_user_id k = uid \<longrightarrow> md_hash_blake3 k \<noteq> md_hash_blake3 m)))"

lemma grows_same: "captures w' = captures w \<Longrightarrow> medias w' = medias w \<Longrightarrow> grows uid hexes w w'"
  unfolding grows_def by (intro exI [of _ "[]"]) simp

lemma grows_mono: "grows uid hexes w w' \<Longrightarrow> hexes \<subseteq> hexes' \<Longrightarrow> grows uid hexes' w w'"
  unfolding grows_def by (elim exE, intro exI) blast

lemma grows_trans:
  assumes "grows uid hexes w w1" "grows uid hexes w1 w2"
  shows "grows uid hexes w w2"
proof -
  from assms obtain cs ms cs' ms' where
    1: "captures w1 = captures w @ cs" "medias w1 = medias w @ ms" "length cs = length ms" "\<forall>c \<in> set cs. ca_user_id c = uid"
      "distinct (map md_hash_blake3 ms)"
      "\<forall>m \<in> set ms. md_user_id m = uid \<and> (\<exists>hex \<in> hexes. md_hash_blake3 m = Some hex) \<and>
        (\<forall>k \<in> set (medias w). md_user_id k = uid \<longrightarrow> md_hash_blake3 k \<noteq> md_hash_blake3 m)"
    and 2: "captures w2 = captures w1 @ cs'" "medias w2 = medias w1 @ ms'" "length cs' = length ms'" "\<forall>c \<in> set cs'. ca_user_id c = uid"
      "distinct (map md_hash_blake3 ms')"
      "\<forall>m \<in> set ms'. md_user_id m = uid \<and> (\<exists>hex \<in> hexes. md_hash_blake3 m = Some hex) \<and>
        (\<forall>k \<in> set (medias w1). md_user_id k = uid \<longrightarrow> md_hash_blake3 k \<noteq> md_hash_blake3 m)"
    unfolding grows_def by blast
  have "\<forall>m \<in> set ms'. \<forall>k \<in> set ms. md_hash_blake3 k \<noteq> md_hash_blake3 m"
    using 1(6) 2(6) by (simp add: 1(2))
  then have "distinct (map md_hash_blake3 (ms @ ms'))" using 1(5) 2(5) by (force simp: image_iff)
  moreover have "\<forall>m \<in> set (ms @ ms'). md_user_id m = uid \<and> (\<exists>hex \<in> hexes. md_hash_blake3 m = Some hex) \<and>
        (\<forall>k \<in> set (medias w). md_user_id k = uid \<longrightarrow> md_hash_blake3 k \<noteq> md_hash_blake3 m)"
    using 1(6) 2(6) by (auto simp: 1(2))
  ultimately show ?thesis
    unfolding grows_def using 1(1,2,3,4) 2(1,2,3,4) by (intro exI [of _ "cs @ cs'"] exI [of _ "ms @ ms'"]) auto
qed

lemma import_grows:
  "grows (ctx_user_id ctx) {blake3_hex (uc_uploads self) bytes} w (snd (client_import_capture self E ctx bytes created_at w))"
proof -
  obtain r w' where step: "store_and_signal self E ctx bytes True (Some created_at) w = (r, w')" by fastforce
  show ?thesis
  proof (cases "captures w' = captures w \<and> medias w' = medias w")
    case True
    with step show ?thesis by (auto simp: client_import_capture_def intro: grows_same)
  next
    case False
    with upload_result [OF step] obtain x where x: "adds_capture (uc_uploads self) ctx bytes (Some created_at) w x w'"
      and new: "\<forall>m \<in> set (medias w). \<not> (md_user_id m = ctx_user_id ctx \<and> md_hash_blake3 m = Some (blake3_hex (uc_uploads self) bytes))"
      by auto
    from x obtain c m where "captures w' = captures w @ [c]" "medias w' = medias w @ [m]" "ca_user_id c = ctx_user_id ctx"
      "md_user_id m = ctx_user_id ctx" "md_hash_blake3 m = Some (blake3_hex (uc_uploads self) bytes)"
      unfolding adds_capture_def by (auto simp: media_row_for_def)
    with new step show ?thesis
      by (auto simp: grows_def client_import_capture_def intro!: exI [of _ "[c]"] exI [of _ "[m]"])
  qed
qed

lemma handler_grows:
  "grows (ctx_user_id ctx) {blake3_hex (uc_uploads (rs_user_api self)) bytes} w
     (snd (r_import_capture_post L self E ctx (import_form fmt bytes created_at) w))"
proof (cases "lib_rfc3339 L (fmt created_at)")
  case (Inl e)
  then show ?thesis by (simp add: r_import_capture_post_def extract_import_form_def import_form_def runs grows_same)
next
  case (Inr stamp)
  obtain r w' where run: "client_import_capture (rs_user_api self) E ctx bytes stamp w = (r, w')" by fastforce
  from Inr have "snd (r_import_capture_post L self E ctx (import_form fmt bytes created_at) w) = w'"
    by (auto simp: r_import_capture_post_def extract_import_form_def import_form_def runs run split: sum.split failure.split)
  with import_grows [of ctx "rs_user_api self" bytes w E stamp] run show ?thesis by simp
qed

lemma entry_grows:
  fixes t :: "world terminal"
  assumes "normalize_base_url host = fw_origin FW @ ''/api''"
    and "cs_rest_client state = connect_with_token (http_serve FW L self E) reason host token"
    and "\<And>w. from_request_parts (lib_jwt L) (fw_now FW w) (Some (rs_jwt_config self)) (Some token) = Inr user"
  shows "tm_files (snd (import_entry M H state dir entry t)) = tm_files t \<and>
    grows (au_id user)
      {blake3_hex (uc_uploads (rs_user_api self)) bytes | bytes. \<exists>name rest. de_media_files entry = name # rest \<and>
         tm_files t (path_join dir name) = Some bytes}
      (tm_server t) (tm_server (snd (import_entry M H state dir entry t)))"
proof (cases "\<exists>name rest bytes. de_media_files entry = name # rest \<and> tm_files t (path_join dir name) = Some bytes")
  case False
  then show ?thesis
    by (cases "de_media_files entry") (auto simp: import_entry_def Let_def runs grows_same split: option.splits)
next
  case True
  then obtain name rest bytes where entry: "de_media_files entry = name # rest" "tm_files t (path_join dir name) = Some bytes"
    by blast
  let ?w = "tm_server t"
  let ?call = "api_import_capture (hs_rfc3339 H) bytes (de_created_at entry) (cs_rest_client state)"
  have "sendable (ClImport bytes (de_created_at entry))" by simp
  note served = call_json_served [OF this assms(1)]
  have "snd (?call ?w) = snd (r_import_capture_post L self E (context_from user) (import_form (hs_rfc3339 H) bytes (de_created_at entry)) ?w)"
    by (simp add: api_import_capture_def assms(2) served serve_def assms(3) run_map_errM split: prod.split sum.split)
  with handler_grows [of "context_from user" self bytes ?w L E "hs_rfc3339 H" "de_created_at entry"]
  have step: "grows (au_id user) {blake3_hex (uc_uploads (rs_user_api self)) bytes} ?w (snd (?call ?w))"
    by (simp add: context_from_def ctx_user_id_def)
  have "tm_server (snd (import_entry M H state dir entry t)) = snd (?call ?w)"
    "tm_files (snd (import_entry M H state dir entry t)) = tm_files t"
    by (auto simp: import_entry_def entry Let_def runs split: sum.split)
  with step entry show ?thesis by simp
qed

text \<open>The hashes of the images a digest names, as the server computes them.\<close>

definition digest_hexes :: "uploads \<Rightarrow> string \<Rightarrow> (string \<rightharpoonup> string) \<Rightarrow> CaptureDigestEntry list \<Rightarrow> string set" where
  "digest_hexes S dir files entries =
     {blake3_hex S bytes | bytes. \<exists>entry \<in> set entries. \<exists>name rest. de_media_files entry = name # rest \<and>
        files (path_join dir name) = Some bytes}"

lemma entries_grow:
  fixes t :: "world terminal"
  assumes "normalize_base_url host = fw_origin FW @ ''/api''"
    and "cs_rest_client state = connect_with_token (http_serve FW L self E) reason host token"
    and "\<And>w. from_request_parts (lib_jwt L) (fw_now FW w) (Some (rs_jwt_config self)) (Some token) = Inr user"
  shows "grows (au_id user) (digest_hexes (uc_uploads (rs_user_api self)) dir (tm_files t) entries)
      (tm_server t) (tm_server (snd (import_entries M H state dir entries t)))"
proof (induction entries arbitrary: t)
  case Nil
  show ?case by (simp add: runs grows_same)
next
  case (Cons entry entries)
  let ?S = "uc_uploads (rs_user_api self)"
  obtain r t1 where first: "import_entry M H state dir entry t = (r, t1)" by fastforce
  let ?all = "digest_hexes ?S dir (tm_files t) (entry # entries)"
  have one: "tm_files t1 = tm_files t \<and> grows (au_id user) ?all (tm_server t) (tm_server t1)"
    using entry_grows [OF assms, of M H dir entry t] unfolding first
    by (auto simp: digest_hexes_def elim!: grows_mono)
  moreover have "grows (au_id user) ?all (tm_server t1) (tm_server (snd (import_entries M H state dir entries t1)))"
  proof (rule grows_mono [OF Cons.IH [of t1]])
    show "digest_hexes ?S dir (tm_files t1) entries \<subseteq> ?all" using one unfolding digest_hexes_def by fastforce
  qed
  moreover have "snd (import_entries M H state dir (entry # entries) t) =
      (case r of Inl _ \<Rightarrow> t1 | Inr _ \<Rightarrow> snd (import_entries M H state dir entries t1))"
    by (cases r; cases "import_entries M H state dir entries t1"; cases "fst (import_entries M H state dir entries t1)")
      (auto simp: run_bindM first run_returnM)
  ultimately show ?case by (auto intro: grows_trans split: sum.splits)
qed

text \<open>
  C21: importing a digest, whatever fails on the way. The import only appends: as many media as
  captures, all of the user of the token, each with the hash of an image the digest names,
  no hash twice, and none that a media of the user already had. So repeating an import, or
  importing a digest whose images are all there, adds nothing.
\<close>

theorem import_digest_adds_each_image_once:
  fixes t :: "world terminal"
  assumes "normalize_base_url host = fw_origin FW @ ''/api''"
    and "cs_rest_client state = connect_with_token (http_serve FW L self E) reason host token"
    and "\<And>w. from_request_parts (lib_jwt L) (fw_now FW w) (Some (rs_jwt_config self)) (Some token) = Inr user"
  defines "known w \<equiv> md_hash_blake3 ` {m \<in> set (medias w). md_user_id m = au_id user}"
  shows "case run_import_digest M H state dir t of (r, t') \<Rightarrow>
    \<exists>cs ms. captures (tm_server t') = captures (tm_server t) @ cs \<and> medias (tm_server t') = medias (tm_server t) @ ms \<and>
      length cs = length ms \<and> (\<forall>c \<in> set cs. ca_user_id c = au_id user) \<and> (\<forall>m \<in> set ms. md_user_id m = au_id user) \<and>
      distinct (map md_hash_blake3 ms) \<and> set (map md_hash_blake3 ms) \<inter> known (tm_server t) = {} \<and>
      (\<forall>digest content. tm_files t (path_join dir ''digest.json'') = Some content \<and> hs_digest_parse H content = Inr digest \<longrightarrow>
         set (map md_hash_blake3 ms) \<subseteq> Some ` digest_hexes (uc_uploads (rs_user_api self)) dir (tm_files t) (dg_captures digest))"
proof -
  let ?file = "tm_files t (path_join dir ''digest.json'')"
  let ?S = "uc_uploads (rs_user_api self)"
  obtain hexes where hexes: "grows (au_id user) hexes (tm_server t) (tm_server (snd (run_import_digest M H state dir t)))"
    "\<forall>digest content. ?file = Some content \<and> hs_digest_parse H content = Inr digest \<longrightarrow>
       hexes = digest_hexes ?S dir (tm_files t) (dg_captures digest)"
  proof (cases "dir \<in> set (tm_dirs t) \<and> (\<exists>content digest. ?file = Some content \<and> hs_digest_parse H content = Inr digest)")
    case True
    then obtain content digest where input: "dir \<in> set (tm_dirs t)" "?file = Some content" "hs_digest_parse H content = Inr digest" by blast
    let ?l = "''Found digest v'' @ show_nat (dg_version digest) @ '' exported at '' @ mc_show_time M (dg_exported_at digest)
            @ '' with '' @ show_nat (length (dg_captures digest)) @ '' captures.''"
    let ?t = "t\<lparr>tm_out := tm_out t @ [?l]\<rparr>"
    have "tm_server (snd (run_import_digest M H state dir t)) = tm_server (snd (import_entries M H state dir (dg_captures digest) ?t))"
      by (cases "import_entries M H state dir (dg_captures digest) ?t"; cases "fst (import_entries M H state dir (dg_captures digest) ?t)")
        (auto simp: run_import_digest_def input runs)
    with entries_grow [OF assms(1-3), of dir ?t "dg_captures digest" M H] input that show ?thesis by simp
  next
    case False
    then have "tm_server (snd (run_import_digest M H state dir t)) = tm_server t"
      by (auto simp: run_import_digest_def runs split: option.splits sum.splits)
    then have same: "grows (au_id user) hexes (tm_server t) (tm_server (snd (run_import_digest M H state dir t)))" for hexes
      by (simp add: grows_same)
    show ?thesis
    proof (cases "\<exists>content digest. ?file = Some content \<and> hs_digest_parse H content = Inr digest")
      case True
      with same that show ?thesis by (metis Inr_inject option.inject)
    qed (use same that in blast)
  qed
  from hexes(1) obtain cs ms where
    "captures (tm_server (snd (run_import_digest M H state dir t))) = captures (tm_server t) @ cs"
    "medias (tm_server (snd (run_import_digest M H state dir t))) = medias (tm_server t) @ ms"
    "length cs = length ms" "\<forall>c \<in> set cs. ca_user_id c = au_id user" "distinct (map md_hash_blake3 ms)"
    and new: "\<forall>m \<in> set ms. md_user_id m = au_id user \<and> (\<exists>hex \<in> hexes. md_hash_blake3 m = Some hex) \<and>
        (\<forall>k \<in> set (medias (tm_server t)). md_user_id k = au_id user \<longrightarrow> md_hash_blake3 k \<noteq> md_hash_blake3 m)"
    unfolding grows_def by blast
  moreover have "set (map md_hash_blake3 ms) \<inter> known (tm_server t) = {}" using new by (auto simp: known_def) metis+
  moreover have "set (map md_hash_blake3 ms) \<subseteq> Some ` hexes" using new by auto
  ultimately show ?thesis
    using hexes(2) by (cases "run_import_digest M H state dir t") (auto intro!: exI [of _ cs] exI [of _ ms])
qed

section \<open>Examples\<close>

definition demo_digest :: FullDigest where
  "demo_digest = \<lparr>dg_version = 1, dg_exported_at = 0, dg_captures =
     [\<lparr>de_original_id = 1, de_created_at = 5, de_media_files = [''a.png'']\<rparr>,
      \<lparr>de_original_id = 2, de_created_at = 6, de_media_files = [''a.png'']\<rparr>]\<rparr>"

definition demo_host :: host_system where
  "demo_host = \<lparr>hs_utc = int, hs_stamp = show_int, hs_digest_text = (\<lambda>_. ''{}''), hs_digest_parse = (\<lambda>_. Inr demo_digest),
     hs_create_error = (\<lambda>_. None), hs_write_error = (\<lambda>_. None), hs_rfc3339 = show_int, hs_debug_error = anyhow_display,
     hs_fetch = (\<lambda>_. Inr (200, Inr ''img''))\<rparr>"

definition demo_remote :: "(world, nat) ApiCmdState" where
  "demo_remote = \<lparr>cs_xai_api_key = None, cs_gemini_api_key = None, cs_rest_host = ''localhost'', cs_rest_user = Some ''ann'',
     cs_rest_client = connect_with_token (http_serve demo_framework demo_libraries demo_state quiet_env) (\<lambda>_. ''reason'')
       ''localhost'' ''tokk''\<rparr>"

definition demo_directory :: "world terminal" where
  "demo_directory = \<lparr>tm_server = demo_data, tm_out = [], tm_err = [], tm_input = [], tm_keys = Map.empty, tm_accesses = 0,
     tm_dirs = [''d''], tm_files = [''d/digest.json'' \<mapsto> ''{}'', ''d/a.png'' \<mapsto> ''img''], tm_now = 0\<rparr>"

lemma demo_base: "normalize_base_url ''localhost'' = fw_origin demo_framework @ ''/api''"
  unfolding demo_framework_def by code_simp

theorem export_digest_always_fails_witness:
  "isl (fst (run_export_digest demo_machine demo_host demo_remote ''d'' demo_directory))"
proof -
  have "cs_rest_client demo_remote = connect_with_token (http_serve demo_framework demo_libraries demo_state quiet_env)
      (\<lambda>_. ''reason'') ''localhost'' ''tokk''" by (simp add: demo_remote_def)
  from export_digest_always_fails [OF demo_base this, where M = demo_machine and H = demo_host and root_dir = "''d''" and t = demo_directory] show ?thesis
    by (auto split: prod.splits)
qed

text \<open>Two entries with the same image add at most one capture.\<close>

theorem import_digest_adds_each_image_once_witness:
  "length (captures (tm_server (snd (run_import_digest demo_machine demo_host demo_remote ''d'' demo_directory))))
     \<le> Suc (length (captures demo_data))"
proof -
  have client: "cs_rest_client demo_remote = connect_with_token (http_serve demo_framework demo_libraries demo_state quiet_env)
      (\<lambda>_. ''reason'') ''localhost'' ''tokk''" by (simp add: demo_remote_def)
  have token: "from_request_parts (lib_jwt demo_libraries) (fw_now demo_framework w) (Some (rs_jwt_config demo_state)) (Some ''tokk'') =
      Inr demo_api_user" for w by (simp add: demo_framework_def demo_token)
  have paths: "path_join ''d'' ''digest.json'' = ''d/digest.json''" "path_join ''d'' ''a.png'' = ''d/a.png''"
    by (simp_all add: path_join_def starts_with_def)
  have "digest_hexes S ''d'' (tm_files demo_directory) (dg_captures demo_digest) \<subseteq> {blake3_hex S ''img''}" for S
    by (auto simp: digest_hexes_def demo_digest_def demo_directory_def paths)
  then have "set (map md_hash_blake3 ms) \<subseteq> Some ` digest_hexes S ''d'' (tm_files demo_directory) (dg_captures demo_digest) \<Longrightarrow>
      distinct (map md_hash_blake3 ms) \<Longrightarrow> length ms \<le> 1" for S ms
    using card_mono [of "{Some (blake3_hex S ''img'')}" "set (map md_hash_blake3 ms)"] distinct_card [of "map md_hash_blake3 ms"]
    by (fastforce simp del: set_map)
  then show ?thesis
    using import_digest_adds_each_image_once [OF demo_base client token, where M = demo_machine and H = demo_host and dir = "''d''" and t = demo_directory]
    by (auto simp: demo_directory_def demo_host_def paths split: prod.splits)
qed

end
