(* ===== verification/Reports.thy ===== *)
theory Reports
  imports Cli
begin

text \<open>
  \<open>util_cmds/api/throughput.rs\<close>: the tables of the commands that inspect queues and inference.
  How a floating-point number compares and prints is an argument.
\<close>

section \<open>Cells\<close>

record 'x float_format =
  ff_of_int :: "int \<Rightarrow> 'x"
  ff_less :: "'x \<Rightarrow> nat \<Rightarrow> bool"
  ff_at_least :: "'x \<Rightarrow> nat \<Rightarrow> bool"
  ff_fixed0 :: "'x \<Rightarrow> string"
  ff_fixed1_over :: "'x \<Rightarrow> nat \<Rightarrow> string"

definition fmt_ms :: "'x float_format \<Rightarrow> 'x option \<Rightarrow> string" where
  "fmt_ms F v =
     (case v of
        None \<Rightarrow> em_dash
      | Some ms \<Rightarrow>
          if ff_less F ms 1000 then ff_fixed0 F ms @ ''ms''
          else if ff_less F ms 120000 then ff_fixed1_over F ms 1000 @ ''s''
          else if ff_less F ms 5400000 then ff_fixed1_over F ms 60000 @ ''m''
          else ff_fixed1_over F ms 3600000 @ ''h'')"

definition fmt_qty :: "'x float_format \<Rightarrow> 'x option \<Rightarrow> string" where
  "fmt_qty F v =
     (case v of
        None \<Rightarrow> em_dash
      | Some qty \<Rightarrow> if ff_at_least F qty 1000 then ff_fixed1_over F qty 1000 @ ''k'' else ff_fixed0 F qty)"

definition fmt_token :: "int option \<Rightarrow> string" where
  "fmt_token v = (case v of Some n \<Rightarrow> show_int n | None \<Rightarrow> em_dash)"

definition fmt_hours :: "int \<Rightarrow> string" where
  "fmt_hours hours =
     (if 24 \<le> hours \<and> hours mod 24 = 0 then show_int hours @ ''h ('' @ show_int (hours div 24) @ ''d)'' else show_int hours @ ''h'')"

definition clip :: "string \<Rightarrow> nat \<Rightarrow> string" where
  "clip message' n =
     (let line = (case str_lines message' of [] \<Rightarrow> [] | l # _ \<Rightarrow> l) in
      if n < chars_count line then chars_take n line @ utf8_ellipsis else chars_take n line)"

section \<open>Tables\<close>

definition stats_row :: "string list \<Rightarrow> 'x MetricStats \<Rightarrow> ('x option \<Rightarrow> string) \<Rightarrow> string list" where
  "stats_row labels stats format =
     show_nat (ms_n stats) # labels
     @ map format [ms_avg stats, ms_p50 stats, ms_p75 stats, ms_p90 stats, ms_p99 stats]"

definition column_widths :: "string list \<Rightarrow> string list list \<Rightarrow> nat list" where
  "column_widths headers rows =
     foldl (\<lambda>widths row. map (\<lambda>(w, cell). max w (chars_count cell)) (zip widths row)) (map length headers) rows"

definition pad_cell :: "nat \<Rightarrow> bool \<Rightarrow> string \<Rightarrow> string" where
  "pad_cell width right cell = (if right then pad_left width cell else pad_right width cell)"

definition padded_row :: "nat list \<Rightarrow> bool list \<Rightarrow> string list \<Rightarrow> string list" where
  "padded_row widths right cells = map (\<lambda>(cell, width, r). pad_cell width r cell) (zip cells (zip widths right))"

definition table_line :: "string list \<Rightarrow> nat list \<Rightarrow> bool list \<Rightarrow> string" where
  "table_line cells widths right = trim_end (join ''  '' (padded_row widths right cells))"

definition push_table :: "string list \<Rightarrow> string list list \<Rightarrow> bool list \<Rightarrow> string" where
  "push_table headers rows right =
     (let widths = column_widths headers rows in
      concat (map (\<lambda>row. ''  '' @ table_line row widths right @ ln) (headers # rows)))"

definition QUEUE_STAT_HEADERS :: "string list" where
  "QUEUE_STAT_HEADERS = [''n'', ''Queue'', ''State'', ''avg'', ''p50'', ''p75'', ''p90'', ''p99'']"

definition PHASE_STAT_HEADERS :: "string list" where
  "PHASE_STAT_HEADERS = [''n'', ''Outcome'', ''Phase'', ''avg'', ''p50'', ''p75'', ''p90'', ''p99'']"

definition TWO_LABEL_ALIGN :: "bool list" where
  "TWO_LABEL_ALIGN = [True, False, False, True, True, True, True, True]"

definition FAILURE_HEADERS :: "string list" where
  "FAILURE_HEADERS = [''when'', ''queue'', ''entity'', ''att'', ''code'', ''duration'', ''message'']"

definition FAILURE_ALIGN :: "bool list" where
  "FAILURE_ALIGN = [True, False, False, True, True, True, False]"

definition METRIC_STAT_HEADERS :: "string list" where
  "METRIC_STAT_HEADERS = [''n'', ''Metric'', ''avg'', ''p50'', ''p75'', ''p90'', ''p99'']"

definition METRIC_STAT_ALIGN :: "bool list" where
  "METRIC_STAT_ALIGN = [True, False, True, True, True, True, True]"

section \<open>Reports\<close>

definition render_backlog :: "'x float_format \<Rightarrow> 'x QueueBacklogRow list \<Rightarrow> string" where
  "render_backlog F backlog =
     (let rows = concat (map (\<lambda>row.
          map (\<lambda>(state, stats). stats_row [qb_queue row, state] stats (fmt_ms F))
            (filter (\<lambda>(state, stats). 0 < ms_n stats)
              [(''queued'', qb_queued row), (''in_progress'', qb_in_progress row), (''error_will_retry'', qb_error_will_retry row)]))
          backlog)
      in if rows = [] then ''  (none)'' @ ln else push_table QUEUE_STAT_HEADERS rows TWO_LABEL_ALIGN)"

definition render_queue_stats :: "'x float_format \<Rightarrow> 'x QueueStats \<Rightarrow> string" where
  "render_queue_stats F queue =
     (let rows = map (\<lambda>(outcome, phase, stats). stats_row [outcome, phase] stats (fmt_ms F))
            (filter (\<lambda>(outcome, phase, stats). 0 < ms_n stats)
              [(''success'', ''queued'', qs_queued_success queue), (''success'', ''processing'', qs_processing_success queue),
               (''failure'', ''queued'', qs_queued_failure queue), (''failure'', ''processing'', qs_processing_failure queue)])
      in ln @ qs_task_type queue @ ''  (queue: '' @ qs_queue queue @ '')'' @ ln
         @ (if rows = [] then ''  (no runs)'' @ ln else push_table PHASE_STAT_HEADERS rows TWO_LABEL_ALIGN)
         @ (if qs_failure_codes queue = [] then []
            else ''  failures: '' @ join '', '' (map (\<lambda>entry.
                   (case fc_code entry of Some code \<Rightarrow> show_int code | None \<Rightarrow> ''no-code'') @ '' x'' @ show_nat (fc_count entry))
                   (qs_failure_codes queue)) @ ln))"

definition window_title :: "int \<Rightarrow> string" where
  "window_title hours = ln @ ''== Last '' @ fmt_hours hours @ '' =='' @ ln"

definition render_queue :: "'x float_format \<Rightarrow> 'x QueueStatsResponse \<Rightarrow> string" where
  "render_queue F response =
     (if qr_snapshot_suppressed response then
        ''Suppressing current snapshot (in flight) for TASK_BACKEND=local'' @ ln
        @ ''  (local queue drops in-memory tasks on restart, leaving stale Queued/InProgress rows)'' @ ln
      else ''Current snapshot (Queued + InProgress + ErrorWillRetry)'' @ ln @ render_backlog F (qr_backlog response))
     @ concat (map (\<lambda>window. window_title (qw_hours window)
         @ (if qw_queues window = [] then ''  (no runs)'' @ ln else concat (map (render_queue_stats F) (qw_queues window))))
         (qr_windows response))"

definition render_inference_stats :: "'x float_format \<Rightarrow> 'x InferenceStats \<Rightarrow> string" where
  "render_inference_stats F inference =
     ln @ is_task_type inference @ ''  '' @ is_model inference @ ''  '' @ is_backend inference @ ln
     @ push_table METRIC_STAT_HEADERS
         [stats_row [''duration''] (is_duration inference) (fmt_ms F),
          stats_row [''tokens_in''] (is_tokens_in inference) (fmt_qty F),
          stats_row [''tokens_in_cached''] (is_tokens_in_cached inference) (fmt_qty F),
          stats_row [''tokens_out''] (is_tokens_out inference) (fmt_qty F),
          stats_row [''tokens_thought''] (is_tokens_thought inference) (fmt_qty F)] METRIC_STAT_ALIGN"

definition render_inference :: "'x float_format \<Rightarrow> (int \<times> 'x InferenceStats list) list \<Rightarrow> string" where
  "render_inference F windows =
     concat (map (\<lambda>(hours, inferences). window_title hours
         @ (if inferences = [] then ''  (no inference records)'' @ ln else concat (map (render_inference_stats F) inferences))) windows)"

definition failure_cells :: "'x float_format \<Rightarrow> QueueFailure \<Rightarrow> string list" where
  "failure_cells F failure =
     [fmt_ms F (Some (ff_of_int F (qf_age_ms failure))) @ '' ago'', qf_queue failure,
      qf_entity_type failure @ '' '' @ show_int (qf_entity_id failure), show_int (qf_attempts failure),
      (case qf_error_code failure of Some code \<Rightarrow> show_int code | None \<Rightarrow> em_dash),
      (case qf_duration_ms failure of Some ms \<Rightarrow> fmt_ms F (Some (ff_of_int F ms)) | None \<Rightarrow> em_dash),
      clip (case qf_error_message failure of Some m \<Rightarrow> m | None \<Rightarrow> em_dash) 100]"

definition render_failures :: "'x float_format \<Rightarrow> QueueFailuresResponse \<Rightarrow> string" where
  "render_failures F response =
     ''== Last '' @ fmt_hours (fr_hours response) @ '', ''
     @ (if fr_include_retrying response then ''failures + retrying'' else ''terminal failures'')
     @ '' (n='' @ show_nat (length (fr_failures response)) @ '') =='' @ ln
     @ (if fr_failures response = [] then ''  (none)'' @ ln
        else push_table FAILURE_HEADERS (map (failure_cells F) (fr_failures response)) FAILURE_ALIGN)"

text \<open>The JSON of a value, indented, when it can be written.\<close>

definition meta_value_lines :: "(json \<Rightarrow> string option) \<Rightarrow> string \<times> json \<Rightarrow> string" where
  "meta_value_lines pretty = (\<lambda>(label, v).
     ''  '' @ label @ ln
     @ (case pretty v of
          Some p \<Rightarrow> concat (map (\<lambda>line. ''    '' @ line @ ln) (str_lines p))
        | None \<Rightarrow> ''    <unserializable>'' @ ln))"

definition render_meta :: "'x float_format \<Rightarrow> (json \<Rightarrow> string option) \<Rightarrow> InferenceMetaInfo \<Rightarrow> string" where
  "render_meta F pretty meta =
     ln @ ''attempt '' @ (case nf_attempt meta of Some a \<Rightarrow> show_int a | None \<Rightarrow> ''?'') @ ln
     @ ''  '' @ nf_provider meta @ ''/'' @ nf_backend meta @ ''/'' @ nf_model meta @ ''  duration ''
     @ fmt_ms F (Some (ff_of_int F (nf_duration_ms meta))) @ ln
     @ ''  tokens  in='' @ fmt_token (nf_tokens_in meta) @ '' cached='' @ fmt_token (nf_tokens_in_cached meta)
     @ '' out='' @ fmt_token (nf_tokens_out meta) @ '' thought='' @ fmt_token (nf_tokens_thought meta) @ ln
     @ concat (map (meta_value_lines pretty) [(''params'', nf_params meta), (''provider_metadata'', nf_provider_metadata meta)])"

definition render_inference_meta :: "'x float_format \<Rightarrow> (json \<Rightarrow> string option) \<Rightarrow> string \<Rightarrow> InferenceMetaInfo list \<Rightarrow> string" where
  "render_inference_meta F pretty rid metas =
     ''Inference meta for '' @ rid @ ln
     @ (if metas = [] then ''  (no inference metadata recorded)'' @ ln else concat (map (render_meta F pretty) metas))"

section \<open>Commands\<close>

datatype report_command =
    QueueThroughput "string option" bool
  | QueueFailuresCmd "string option" "int option" bool bool
  | InferenceThroughput "string option" bool
  | InferenceMeta string bool

definition print_text :: "string \<Rightarrow> ('s, unit) command" where
  "print_text out = print_lines (str_lines out)"

fun run_report :: "('s, 'x) machine \<Rightarrow> 'x float_format \<Rightarrow> (json \<Rightarrow> string option) \<Rightarrow> ('s, 'x) ApiCmdState \<Rightarrow> report_command
    \<Rightarrow> ('s, unit) command" where
  "run_report M F pretty state (QueueThroughput hours raw_json) =
     bindM (on_server M (api_queue_stats hours (cs_rest_client state))) (\<lambda>r.
     if raw_json then print_json M (QueueStatsBody r) else print_text (render_queue F r))"
| "run_report M F pretty state (QueueFailuresCmd hours limit include_retrying raw_json) =
     bindM (on_server M (api_queue_failures hours limit include_retrying (cs_rest_client state))) (\<lambda>r.
     if raw_json then print_json M (QueueFailuresBody r) else print_text (render_failures F r))"
| "run_report M F pretty state (InferenceThroughput hours raw_json) =
     bindM (on_server M (api_inference_stats hours (cs_rest_client state))) (\<lambda>r.
     if raw_json then print_json M (InferenceStatsBody r) else print_text (render_inference F r))"
| "run_report M F pretty state (InferenceMeta rid raw_json) =
     bindM (on_server M (api_inference_meta rid (cs_rest_client state))) (\<lambda>r.
     if raw_json then print_json M (InferenceMetaBody r) else print_text (render_inference_meta F pretty rid r))"

section \<open>Alignment\<close>

lemma chars_count_spaces [simp]: "chars_count (replicate k CHR '' '') = k"
  by (simp add: chars_count_def is_continuation_def)

lemma chars_count_pad: "chars_count cell \<le> w \<Longrightarrow> chars_count (pad_cell w r cell) = w"
  by (simp add: pad_cell_def pad_left_def pad_right_def)

text \<open>Each width is the largest of its start value and the cells of its column.\<close>

lemma widths_of_rows:
  assumes "\<forall>row \<in> set rows. length row = length ws"
  defines "widths \<equiv> foldl (\<lambda>widths row. map (\<lambda>(w, cell). max w (chars_count cell)) (zip widths row)) ws rows"
  shows "length widths = length ws \<and>
    (\<forall>i < length ws. ws ! i \<le> widths ! i \<and> (\<forall>row \<in> set rows. chars_count (row ! i) \<le> widths ! i) \<and>
       (widths ! i = ws ! i \<or> (\<exists>row \<in> set rows. widths ! i = chars_count (row ! i))))"
  using assms(1) unfolding widths_def
proof (induction rows arbitrary: ws)
  case (Cons row rows)
  let ?ws = "map (\<lambda>(w, cell). max w (chars_count cell)) (zip ws row)"
  have len: "length ?ws = length ws" using Cons.prems by simp
  have at: "?ws ! i = max (ws ! i) (chars_count (row ! i))" if "i < length ws" for i
    using that Cons.prems by simp
  note rest = Cons.IH [of ?ws, unfolded len]
  have "\<forall>r \<in> set rows. length r = length ws" using Cons.prems by simp
  note rest = rest [OF this]
  show ?case
  proof (intro conjI allI impI)
    show "length (foldl (\<lambda>widths row. map (\<lambda>(w, cell). max w (chars_count cell)) (zip widths row)) ws (row # rows)) = length ws"
      using rest by simp
    fix i
    assume i: "i < length ws"
    let ?w = "foldl (\<lambda>widths row. map (\<lambda>(w, cell). max w (chars_count cell)) (zip widths row)) ?ws rows ! i"
    from rest i have "?ws ! i \<le> ?w" "\<forall>row \<in> set rows. chars_count (row ! i) \<le> ?w"
      "?w = ?ws ! i \<or> (\<exists>row \<in> set rows. ?w = chars_count (row ! i))" by blast+
    then show "ws ! i \<le> foldl (\<lambda>widths row. map (\<lambda>(w, cell). max w (chars_count cell)) (zip widths row)) ws (row # rows) ! i"
      "\<forall>r \<in> set (row # rows). chars_count (r ! i) \<le>
         foldl (\<lambda>widths row. map (\<lambda>(w, cell). max w (chars_count cell)) (zip widths row)) ws (row # rows) ! i"
      "foldl (\<lambda>widths row. map (\<lambda>(w, cell). max w (chars_count cell)) (zip widths row)) ws (row # rows) ! i = ws ! i \<or>
         (\<exists>r \<in> set (row # rows). foldl (\<lambda>widths row. map (\<lambda>(w, cell). max w (chars_count cell)) (zip widths row)) ws (row # rows) ! i =
            chars_count (r ! i))"
      using at [OF i] by (auto simp: max_def split: if_splits)
  qed
qed simp

text \<open>
  The tables of the reports are aligned. Every row has its cells padded to the width of
  their column, counted in characters, so a column starts at the same place in every line, a
  cell is never cut, and a column is no wider than its widest cell.
\<close>

theorem tables_are_aligned:
  assumes "\<forall>row \<in> set rows. length row = length headers" and "length right = length headers"
    and "\<forall>h \<in> set headers. chars_count h = length h"
  defines "widths \<equiv> column_widths headers rows"
  shows "length widths = length headers \<and>
    (\<forall>row \<in> set (headers # rows). \<forall>i < length headers.
       chars_count (padded_row widths right row ! i) = widths ! i \<and>
       (\<exists>spaces. padded_row widths right row ! i = (if right ! i then spaces @ row ! i else row ! i @ spaces) \<and>
          set spaces \<subseteq> {CHR '' ''})) \<and>
    (\<forall>i < length headers. \<exists>row \<in> set (headers # rows). chars_count (row ! i) = widths ! i)"
proof -
  have "\<forall>row \<in> set rows. length row = length (map length headers)" using assms(1) by simp
  note w = widths_of_rows [OF this, folded column_widths_def, folded widths_def]
  have len: "length widths = length headers" using w by simp
  have fits: "chars_count (row ! i) \<le> widths ! i" if "row \<in> set (headers # rows)" "i < length headers" for row i
    using w that assms(3) by auto
  have pad: "padded_row widths right row ! i = pad_cell (widths ! i) (right ! i) (row ! i)"
    if "row \<in> set (headers # rows)" "i < length headers" for row i
    using that assms(1,2) len by (auto simp: padded_row_def)
  have "\<exists>row \<in> set (headers # rows). chars_count (row ! i) = widths ! i" if i: "i < length headers" for i
  proof -
    have "widths ! i = length (headers ! i) \<or> (\<exists>row \<in> set rows. widths ! i = chars_count (row ! i))" using w i by auto
    moreover have "chars_count (headers ! i) = length (headers ! i)" using assms(3) i by simp
    ultimately show ?thesis by auto
  qed
  moreover have "chars_count (padded_row widths right row ! i) = widths ! i \<and>
       (\<exists>spaces. padded_row widths right row ! i = (if right ! i then spaces @ row ! i else row ! i @ spaces) \<and>
          set spaces \<subseteq> {CHR '' ''})" if "row \<in> set (headers # rows)" "i < length headers" for row i
    using pad [OF that] chars_count_pad [OF fits [OF that], of "right ! i"]
    by (auto simp: pad_cell_def pad_left_def pad_right_def)
  ultimately show ?thesis using len by blast
qed

section \<open>Example\<close>

theorem tables_are_aligned_witness:
  "let widths = column_widths [''n'', ''queue''] [[''12'', em_dash]] in
   chars_count (padded_row widths [True, False] [''12'', em_dash] ! 1) = widths ! 1 \<and> length widths = 2"
  using tables_are_aligned [of "[[''12'', em_dash]]" "[''n'', ''queue'']" "[True, False]"]
  by (auto simp: chars_count_def is_continuation_def Let_def)

end
