(* ===== verification/Web_Ui.thy ===== *)
theory Web_Ui
  imports Rest_Api "HOL-Library.Multiset"
begin

text \<open>
  \<open>webui/*.rs\<close>: the web pages. A protected route runs for the user the login layer found in the
  session; anyone else is sent to the login page. Templates, sessions and the framework are
  arguments: a page is the template's name and the values it is rendered with.
\<close>

section \<open>Cards\<close>

datatype FeedContent = Blend | OnlyCaptures | OnlySparks

record ContentSpec =
  sc_query :: string
  sc_limit :: "nat option"
  sc_content :: "FeedContent option"

definition search_query :: "ContentSpec \<Rightarrow> string" where
  "search_query self = trim (sc_query self)"

definition is_search :: "ContentSpec \<Rightarrow> bool" where
  "is_search self \<longleftrightarrow> search_query self \<noteq> []"

definition spec_limit :: "ContentSpec \<Rightarrow> nat" where
  "spec_limit self = (case sc_limit self of Some n \<Rightarrow> n | None \<Rightarrow> 50)"

definition content_mode :: "ContentSpec \<Rightarrow> FeedContent" where
  "content_mode self = (case sc_content self of Some m \<Rightarrow> m | None \<Rightarrow> Blend)"

datatype Card = CaptureCard CaptureInfo | SparkCard SparkInfo

fun card_created_at :: "Card \<Rightarrow> timestamp" where
  "card_created_at (CaptureCard c) = ci_created_at c"
| "card_created_at (SparkCard s) = spi_created_at s"

definition blend :: "Card list \<Rightarrow> Card list \<Rightarrow> Card list" where
  "blend capture_cards spark_cards = sort_key (\<lambda>card. - card_created_at card) (capture_cards @ spark_cards)"

definition render_search ::
  "('f, 'd) UserApiClient \<Rightarrow> env \<Rightarrow> Context \<Rightarrow> string \<Rightarrow> nat \<Rightarrow> (world, failure, Card list) comp" where
  "render_search api E context q limit =
     bindM (client_search api E context q (Some limit)) (\<lambda>infos. returnM (map CaptureCard infos))"

fun render_timeline ::
  "('f, 'd) UserApiClient \<Rightarrow> env \<Rightarrow> Context \<Rightarrow> FeedContent \<Rightarrow> nat \<Rightarrow> (world, failure, Card list) comp" where
  "render_timeline api E context OnlySparks limit =
     bindM (client_get_timeline_sparks api E context limit) (\<lambda>sparks. returnM (map SparkCard sparks))"
| "render_timeline api E context OnlyCaptures limit =
     bindM (client_get_timeline_captures api E context limit) (\<lambda>infos. returnM (map CaptureCard infos))"
| "render_timeline api E context Blend limit =
     bindM (client_get_timeline_captures api E context limit) (\<lambda>infos.
     bindM (client_get_timeline_sparks api E context limit) (\<lambda>sparks.
     returnM (blend (map CaptureCard infos) (map SparkCard sparks))))"

definition render_content ::
  "('f, 'd) UserApiClient \<Rightarrow> env \<Rightarrow> Context \<Rightarrow> ContentSpec \<Rightarrow> (world, failure, Card list) comp" where
  "render_content api E context spec =
     (if is_search spec then render_search api E context (search_query spec) (spec_limit spec)
      else render_timeline api E context (content_mode spec) (spec_limit spec))"

section \<open>Pages and responses\<close>

datatype page_value =
    PvText string
  | PvBool bool
  | PvTime timestamp
  | PvCapture CaptureInfo
  | PvCards "Card list"
  | PvEntity KnowledgeEntityInfo
  | PvEntities "KnowledgeEntityInfo list"

type_synonym page_context = "(string \<times> page_value) list"

definition page_insert :: "string \<Rightarrow> page_value \<Rightarrow> page_context \<Rightarrow> page_context" where
  "page_insert k v c = filter (\<lambda>(k', _). k' \<noteq> k) c @ [(k, v)]"

datatype web_body =
    EmptyBody
  | HtmlBody string
  | UploadBody int string
  | PreviewsBody "CapturePreviewInfo list"

record web_response =
  wr_status :: nat
  wr_headers :: "(string \<times> string) list"
  wr_body :: web_body

definition redirect_to :: "string \<Rightarrow> web_response" where
  "redirect_to location = \<lparr>wr_status = 303, wr_headers = [(''location'', location)], wr_body = EmptyBody\<rparr>"

definition html :: "string \<Rightarrow> web_response" where
  "html t = \<lparr>wr_status = 200, wr_headers = [], wr_body = HtmlBody t\<rparr>"

definition bare_status :: "nat \<Rightarrow> web_response" where
  "bare_status status = \<lparr>wr_status = status, wr_headers = [], wr_body = EmptyBody\<rparr>"

record ('f, 'd) WebState =
  ws_user_api :: "('f, 'd) UserApiClient"
  ws_tera :: "string \<Rightarrow> page_context \<Rightarrow> string + string"
  ws_asset_version :: string
  ws_max_upload_bytes :: nat
  ws_header_ok :: "string \<Rightarrow> string option"

text \<open>\<open>static_asset_version\<close> of \<open>make_ui_router\<close>: the revision of the deployment, or a digest of the assets that exist.\<close>

definition VERSIONED_ASSETS :: "string list" where
  "VERSIONED_ASSETS = map (\<lambda>f. ''web/v2/static/'' @ f)
     [''app-icon-192x192.png'', ''app-icon-512x512.png'', ''app-icon.svg'', ''dreamscroll-v2.css'', ''favicon-32x32.png'',
      ''manifest.webmanifest'', ''webui-v2.js'']"

definition asset_version :: "string option \<Rightarrow> string \<Rightarrow> (string \<Rightarrow> string) \<Rightarrow> (string \<Rightarrow> string option) \<Rightarrow> string" where
  "asset_version revision pkg_version hex read_file =
     (let digest = pkg_version @ ''-'' @ take 12 (hex (concat (List.map_filter read_file VERSIONED_ASSETS)))
      in case revision of Some v \<Rightarrow> if v \<noteq> [] then v else digest | None \<Rightarrow> digest)"

definition template_context :: "('f, 'd) WebState \<Rightarrow> page_context" where
  "template_context self = page_insert ''static_asset_version'' (PvText (ws_asset_version self)) []"

definition render :: "('f, 'd) WebState \<Rightarrow> string \<Rightarrow> page_context \<Rightarrow> (world, failure, string) comp" where
  "render self template c =
     liftM (case ws_tera self template c of
        Inl e \<Rightarrow> Inl (Failed (api_of_anyhow (anyhow_msg (''Failed to render '' @ template @ '': '' @ e))))
      | Inr t \<Rightarrow> Inr t)"

definition current_db_timestamp :: "env \<Rightarrow> (world, failure, timestamp) comp" where
  "current_db_timestamp E = map_errM (\<lambda>e. Failed (api_of_db e)) (stmt E (\<lambda>now. returnM now))"

section \<open>Captures and annotations\<close>

definition r_web_capture_get :: "('f, 'd) WebState \<Rightarrow> env \<Rightarrow> Context \<Rightarrow> int \<Rightarrow> (world, failure, web_response) comp" where
  "r_web_capture_get self E context cid =
     bindM (current_db_timestamp E) (\<lambda>snapshot.
     bindM (client_get_capture (ws_user_api self) E context cid) (\<lambda>capture.
     bindM (render self ''capture.html.tera''
       (page_insert ''archive_return_to'' (PvText (''/capture/'' @ show_int cid))
       (page_insert ''show_archive_actions'' (PvBool True)
       (page_insert ''capture'' (PvCapture capture)
       (page_insert ''feed_content_mode'' (PvText ''detail'')
       (page_insert ''page_snapshot_at'' (PvTime snapshot)
       (page_insert ''page_kind'' (PvText ''capture_detail'') (template_context self)))))))) (\<lambda>t.
     returnM (html t))))"

text \<open>\<open>char::is_control\<close> on UTF-8: U+0000 to U+001F, U+007F, and U+0080 to U+009F in two bytes.\<close>

fun has_control :: "string \<Rightarrow> bool" where
  "has_control [] = False"
| "has_control (c # cs) =
     (let n = of_char c :: nat in
      n < 32 \<or> n = 127 \<or> n = 0xC2 \<and> (case cs of d # _ \<Rightarrow> 0x80 \<le> (of_char d :: nat) \<and> (of_char d :: nat) \<le> 0x9F | [] \<Rightarrow> False) \<or>
      has_control cs)"

definition redirect_target :: "string \<Rightarrow> string \<Rightarrow> string" where
  "redirect_target next fallback =
     (if starts_with next ''/'' \<and> \<not> starts_with next ''//'' \<and> CHR 0x5C \<notin> set next \<and> \<not> has_control next
      then next else fallback)"

definition r_web_archive :: "('f, 'd) WebState \<Rightarrow> env \<Rightarrow> Context \<Rightarrow> int \<Rightarrow> string \<Rightarrow> (world, failure, web_response) comp" where
  "r_web_archive self E context cid next =
     bindM (map_errM Failed (archive_capture E context cid)) (\<lambda>_. returnM (redirect_to (redirect_target next ''/'')))"

definition r_web_unarchive :: "('f, 'd) WebState \<Rightarrow> env \<Rightarrow> Context \<Rightarrow> int \<Rightarrow> string \<Rightarrow> (world, failure, web_response) comp" where
  "r_web_unarchive self E context cid next =
     bindM (map_errM Failed (unarchive_capture E context cid)) (\<lambda>_. returnM (redirect_to (redirect_target next ''/archived'')))"

definition render_annotation_response ::
  "('f, 'd) WebState \<Rightarrow> CaptureInfo \<Rightarrow> string \<Rightarrow> bool \<Rightarrow> (world, failure, web_response) comp" where
  "render_annotation_response self capture annotation_template annotation_editing =
     (let c = page_insert ''capture'' (PvCapture capture) (template_context self) in
      bindM (render self annotation_template c) (\<lambda>annotation_html.
      bindM (render self ''partials/cards/annotation_footer_note.html.tera''
        (page_insert ''annotation_editing'' (PvBool annotation_editing) (page_insert ''oob'' (PvBool True) c))) (\<lambda>footer_html.
      returnM (html (annotation_html @ footer_html)))))"

definition annotated :: "('f, 'd) WebState \<Rightarrow> env \<Rightarrow> Context \<Rightarrow> int \<Rightarrow> string \<Rightarrow> bool \<Rightarrow> (world, failure, web_response) comp" where
  "annotated self E context cid template editing =
     bindM (client_get_capture (ws_user_api self) E context cid) (\<lambda>capture.
     render_annotation_response self capture template editing)"

definition r_annotation_form :: "('f, 'd) WebState \<Rightarrow> env \<Rightarrow> Context \<Rightarrow> int \<Rightarrow> (world, failure, web_response) comp" where
  "r_annotation_form self E context cid = annotated self E context cid ''partials/cards/annotation_editor.html.tera'' True"

definition r_annotation_block :: "('f, 'd) WebState \<Rightarrow> env \<Rightarrow> Context \<Rightarrow> int \<Rightarrow> (world, failure, web_response) comp" where
  "r_annotation_block self E context cid = annotated self E context cid ''partials/cards/annotation_block.html.tera'' False"

definition r_web_annotation_set ::
  "('f, 'd) WebState \<Rightarrow> env \<Rightarrow> Context \<Rightarrow> int \<Rightarrow> string \<Rightarrow> (world, failure, web_response) comp" where
  "r_web_annotation_set self E context cid content =
     bindM (map_errM Failed (client_set_annotation E context cid content)) (\<lambda>_. r_annotation_block self E context cid)"

definition r_web_annotation_soft_delete ::
  "('f, 'd) WebState \<Rightarrow> env \<Rightarrow> Context \<Rightarrow> int \<Rightarrow> (world, failure, web_response) comp" where
  "r_web_annotation_soft_delete self E context cid =
     bindM (map_errM Failed (soft_delete_annotation E context cid)) (\<lambda>_. r_annotation_block self E context cid)"

definition ARCHIVED_LIMIT :: nat where
  "ARCHIVED_LIMIT = 100"

definition r_archived_page :: "('f, 'd) WebState \<Rightarrow> env \<Rightarrow> Context \<Rightarrow> (world, failure, web_response) comp" where
  "r_archived_page self E context =
     bindM (current_db_timestamp E) (\<lambda>snapshot.
     bindM (client_get_captures_archived (ws_user_api self) E context ARCHIVED_LIMIT) (\<lambda>infos.
     bindM (render self ''index.html.tera''
       (page_insert ''archive_return_to'' (PvText ''/archived'')
       (page_insert ''show_archive_actions'' (PvBool True)
       (page_insert ''cards'' (PvCards (map CaptureCard infos))
       (page_insert ''feed_empty_message'' (PvText ''No archived captures.'')
       (page_insert ''feed_heading'' (PvText ''Archived'')
       (page_insert ''page_title'' (PvText ''dreamscroll - archived'')
       (page_insert ''feed_content_mode'' (PvText ''archived'')
       (page_insert ''page_snapshot_at'' (PvTime snapshot)
       (page_insert ''page_kind'' (PvText ''feed'') (template_context self))))))))))) (\<lambda>t.
     returnM (html t))))"

section \<open>Entities, illuminations, related captures\<close>

definition siblings_of :: "KnowledgeEntityInfo \<Rightarrow> CaptureInfo \<Rightarrow> KnowledgeEntityInfo list" where
  "siblings_of entity capture =
     (case ci_illuminations capture of
        [] \<Rightarrow> []
      | illumination # _ \<Rightarrow> filter (\<lambda>sibling. ki_id sibling \<noteq> ki_id entity) (ii_knowledge_entities illumination))"

definition r_web_entity_get :: "('f, 'd) WebState \<Rightarrow> env \<Rightarrow> Context \<Rightarrow> int \<Rightarrow> (world, failure, web_response) comp" where
  "r_web_entity_get self E context i =
     bindM (map_errM Failed (client_get_entity E context i)) (\<lambda>entity.
     bindM (client_get_capture (ws_user_api self) E context (ki_capture_id entity)) (\<lambda>capture.
     bindM (render self ''entity.html.tera''
       (page_insert ''siblings'' (PvEntities (siblings_of entity capture))
       (page_insert ''capture'' (PvCapture capture)
       (page_insert ''entity'' (PvEntity entity)
       (page_insert ''page_kind'' (PvText ''entity_detail'') (template_context self)))))) (\<lambda>t.
     returnM (html t))))"

definition illumination_context ::
  "('f, 'd) WebState \<Rightarrow> env \<Rightarrow> Context \<Rightarrow> int \<Rightarrow> bool \<Rightarrow> (world, failure, page_context) comp" where
  "illumination_context self E context cid animate =
     bindM (current_db_timestamp E) (\<lambda>snapshot.
     bindM (client_get_capture (ws_user_api self) E context cid) (\<lambda>capture.
     returnM (page_insert ''animate_illumination'' (PvBool animate)
       (page_insert ''capture'' (PvCapture capture)
       (page_insert ''page_snapshot_at'' (PvTime snapshot) (template_context self))))))"

definition r_illumination_feed ::
  "('f, 'd) WebState \<Rightarrow> env \<Rightarrow> Context \<Rightarrow> int \<Rightarrow> bool option \<Rightarrow> (world, failure, web_response) comp" where
  "r_illumination_feed self E context cid animate =
     bindM (illumination_context self E context cid (animate = Some True)) (\<lambda>c.
     bindM (render self ''partials/cards/capture_illumination.html.tera'' c) (\<lambda>t. returnM (html t)))"

definition r_illumination_detail ::
  "('f, 'd) WebState \<Rightarrow> env \<Rightarrow> Context \<Rightarrow> int \<Rightarrow> bool option \<Rightarrow> (world, failure, web_response) comp" where
  "r_illumination_detail self E context cid animate =
     bindM (illumination_context self E context cid (animate = Some True)) (\<lambda>c.
     bindM (render self ''partials/cards/detail_illumination.html.tera'' c) (\<lambda>illumination.
     bindM (render self ''partials/cards/capture_metadata.html.tera'' (page_insert ''oob'' (PvBool True) c)) (\<lambda>metadata.
     returnM (html (illumination @ metadata)))))"

definition r_related_previews :: "('f, 'd) WebState \<Rightarrow> env \<Rightarrow> Context \<Rightarrow> int \<Rightarrow> (world, failure, web_response) comp" where
  "r_related_previews self E context i =
     bindM (client_search_similar_previews (ws_user_api self) E context i (Some 12)) (\<lambda>previews.
     returnM \<lparr>wr_status = 200, wr_headers = [], wr_body = PreviewsBody previews\<rparr>)"

section \<open>The feed\<close>

definition is_htmx_request :: "string option \<Rightarrow> bool" where
  "is_htmx_request hx_request \<longleftrightarrow> hx_request = Some ''true''"

definition canonical_url :: "string option \<Rightarrow> string" where
  "canonical_url query = (case query of Some q \<Rightarrow> if q \<noteq> [] then ''/?'' @ q else ''/'' | None \<Rightarrow> ''/'')"

definition feed_context :: "('f, 'd) WebState \<Rightarrow> env \<Rightarrow> Context \<Rightarrow> ContentSpec \<Rightarrow> (world, failure, page_context) comp" where
  "feed_context self E context spec =
     bindM (current_db_timestamp E) (\<lambda>snapshot.
     bindM (render_content (ws_user_api self) E context spec) (\<lambda>cards.
     returnM (page_insert ''cards'' (PvCards cards)
       (page_insert ''page_snapshot_at'' (PvTime snapshot)
       (page_insert ''page_kind'' (PvText ''feed'') (template_context self))))))"

definition r_feed_page :: "('f, 'd) WebState \<Rightarrow> env \<Rightarrow> Context \<Rightarrow> ContentSpec \<Rightarrow> (world, failure, web_response) comp" where
  "r_feed_page self E context spec =
     bindM (feed_context self E context spec) (\<lambda>c.
     bindM (render self ''index.html.tera''
       (page_insert ''query'' (PvText (search_query spec))
       (page_insert ''feed_content_mode'' (PvText (if is_search spec then ''search'' else ''timeline'')) c))) (\<lambda>t.
     returnM (html t)))"

definition r_feed_fragment ::
  "('f, 'd) WebState \<Rightarrow> env \<Rightarrow> Context \<Rightarrow> string option \<Rightarrow> string option \<Rightarrow> ContentSpec \<Rightarrow> (world, failure, web_response) comp" where
  "r_feed_fragment self E context uri_query hx_request spec =
     (let canonical = canonical_url uri_query in
      if \<not> is_htmx_request hx_request then returnM (redirect_to canonical)
      else bindM (feed_context self E context spec) (\<lambda>c.
           bindM (render self ''partials/feed.html.tera'' c) (\<lambda>t.
           case ws_header_ok self canonical of
             Some e \<Rightarrow> throwM (Failed (api_of_anyhow (anyhow_msg (''Failed to set HX-Push-Url header: '' @ e))))
           | None \<Rightarrow> returnM ((html t)\<lparr>wr_headers := [(''HX-Push-Url'', canonical)]\<rparr>))))"

section \<open>Slash commands\<close>

record CommandSpec =
  cm_name :: string
  cm_usage :: string
  cm_description :: string

definition COMMAND_SPECS :: "CommandSpec list" where
  "COMMAND_SPECS = [\<lparr>cm_name = ''spark'', cm_usage = ''/spark <capture_id> [capture_id ...]'',
     cm_description = ''Queue a spark job for one or more capture IDs.''\<rparr>]"

definition command_help_text :: string where
  "command_help_text = join ln (''Supported slash commands:''
     # map (\<lambda>spec. ''  '' @ cm_usage spec @ '' - '' @ cm_description spec) COMMAND_SPECS)"

definition command_names_csv :: string where
  "command_names_csv = join '', '' (map cm_name COMMAND_SPECS)"

fun spark_ids :: "string list \<Rightarrow> anyhow + int list" where
  "spark_ids [] = Inr []"
| "spark_ids (arg # args) =
     (case parse_i32 arg of
        Some i \<Rightarrow> map_sum id ((#) i) (spark_ids args)
      | None \<Rightarrow> Inl (anyhow_msg (''Invalid capture ID: '' @ arg @ ''. Expected integer IDs.'' @ ln @ command_help_text)))"

definition command_spark :: "env \<Rightarrow> Context \<Rightarrow> string \<Rightarrow> (world, anyhow, unit) comp" where
  "command_spark E context raw_args =
     bindM (liftM (spark_ids (split_whitespace raw_args))) (\<lambda>ids. map_errM anyhow_of_api (enqueue_spark E context ids))"

definition process_command :: "env \<Rightarrow> Context \<Rightarrow> string \<Rightarrow> (world, anyhow, unit) comp" where
  "process_command E context raw_command =
     (if \<not> starts_with raw_command ''/'' then throwM (anyhow_msg (''Invalid slash command: '' @ raw_command @ ln @ command_help_text))
      else let rest = trim_start_matches CHR ''/'' raw_command;
               (command, raw_args) = (case split_once CHR '' '' rest of Some p \<Rightarrow> p | None \<Rightarrow> (rest, []))
           in if command = ''spark'' then command_spark E context raw_args
              else throwM (anyhow_msg (''Unknown slash command: '' @ command @ '' (known commands: '' @ command_names_csv @ '').''
                @ ln @ command_help_text)))"

definition r_command_post :: "env \<Rightarrow> Context \<Rightarrow> string \<Rightarrow> (world, failure, web_response) comp" where
  "r_command_post E context raw =
     (let raw_command = trim raw in
      if \<not> starts_with raw_command ''/''
      then throwM (Failed (api_of_anyhow (anyhow_msg ''Expected slash command in raw_command parameter.'')))
      else bindM (map_errM (\<lambda>e. Failed (api_of_anyhow e)) (process_command E context raw_command)) (\<lambda>_.
           returnM \<lparr>wr_status = 204, wr_headers = [(''HX-Trigger'', ''ds-clear-search-input'')], wr_body = EmptyBody\<rparr>))"

section \<open>Uploads\<close>

record upload_field =
  uf_content_type :: "string option"
  uf_bytes :: "MultipartError + string"

type_synonym upload_form = "(MultipartError + upload_field) list"

fun extract_first_image_payload :: "upload_form \<Rightarrow> MultipartError + string option" where
  "extract_first_image_payload [] = Inr None"
| "extract_first_image_payload (Inl e # mp) = Inl e"
| "extract_first_image_payload (Inr f # mp) =
     (if \<not> (case uf_content_type f of Some ct \<Rightarrow> starts_with ct ''image/'' | None \<Rightarrow> False) then extract_first_image_payload mp
      else map_sum id Some (uf_bytes f))"

definition image_payload :: "upload_form \<Rightarrow> nat \<Rightarrow> ApiError + string" where
  "image_payload mp max_upload_bytes =
     (case extract_first_image_payload mp of
        Inr (Some bytes) \<Rightarrow>
          if max_upload_bytes < length bytes then Inl (upload_too_large max_upload_bytes (Some (length bytes))) else Inr bytes
      | Inr None \<Rightarrow> Inl (bad_request (anyhow_msg ''No valid image data found.''))
      | Inl e \<Rightarrow> Inl (multipart_error e max_upload_bytes))"

definition insert_capture_from_multipart ::
  "('f, 'd) UserApiClient \<Rightarrow> env \<Rightarrow> Context \<Rightarrow> upload_form \<Rightarrow> nat \<Rightarrow> (world, failure, CaptureInfo) comp" where
  "insert_capture_from_multipart api E context mp max_upload_bytes =
     bindM (liftM (map_sum Failed id (image_payload mp max_upload_bytes))) (\<lambda>bytes. client_insert_capture api E context bytes)"

definition content_length :: "string option \<Rightarrow> nat option" where
  "content_length header = Option.bind header (\<lambda>v.
     case parse_int v of Some n \<Rightarrow> if 0 \<le> n \<and> n < 2 ^ 64 \<and> \<not> starts_with v ''-'' then Some (nat n) else None | None \<Rightarrow> None)"

definition r_upload_post ::
  "('f, 'd) WebState \<Rightarrow> env \<Rightarrow> Context \<Rightarrow> string option \<Rightarrow> string option \<Rightarrow> upload_form \<Rightarrow> (world, failure, web_response) comp" where
  "r_upload_post self E context length_header hx_request mp =
     (let proceed = bindM (insert_capture_from_multipart (ws_user_api self) E context mp (ws_max_upload_bytes self)) (\<lambda>cap.
            if \<not> is_htmx_request hx_request then returnM (redirect_to ''/'')
            else returnM \<lparr>wr_status = 201, wr_headers = [], wr_body = UploadBody (ci_id cap) (''/capture/'' @ show_int (ci_id cap))\<rparr>)
      in case content_length length_header of
           Some n \<Rightarrow> if ws_max_upload_bytes self < n then throwM (Failed (upload_too_large (ws_max_upload_bytes self) (Some n))) else proceed
         | None \<Rightarrow> proceed)"

section \<open>Static files\<close>

definition VERSIONED_ASSET_CACHE_CONTROL :: string where
  "VERSIONED_ASSET_CACHE_CONTROL = ''public, max-age=31536000, immutable''"

definition UNVERSIONED_ASSET_CACHE_CONTROL :: string where
  "UNVERSIONED_ASSET_CACHE_CONTROL = ''public, max-age=3600''"

definition asset_cache_control :: "string option \<Rightarrow> string" where
  "asset_cache_control query =
     (case query of
        Some q \<Rightarrow>
          if list_ex (\<lambda>part. case split_once CHR ''='' part of Some (k, v) \<Rightarrow> k = ''v'' \<and> v \<noteq> [] | None \<Rightarrow> False) (split_on CHR ''&'' q)
          then VERSIONED_ASSET_CACHE_CONTROL else UNVERSIONED_ASSET_CACHE_CONTROL
      | None \<Rightarrow> UNVERSIONED_ASSET_CACHE_CONTROL)"

text \<open>The three middlewares: which \<open>Cache-Control\<close> replaces the one of the file service.\<close>

datatype static_route = StaticFile "string option" | Manifest | ServiceWorker

fun cache_header :: "static_route \<Rightarrow> string" where
  "cache_header (StaticFile query) = asset_cache_control query"
| "cache_header Manifest = VERSIONED_ASSET_CACHE_CONTROL"
| "cache_header ServiceWorker = ''no-cache''"

definition with_cache_header :: "static_route \<Rightarrow> web_response \<Rightarrow> web_response" where
  "with_cache_header route r = r\<lparr>wr_headers := filter (\<lambda>(k, _). k \<noteq> ''cache-control'') (wr_headers r) @ [(''cache-control'', cache_header route)]\<rparr>"

section \<open>Sessions\<close>

text \<open>
  The session library: a session holds values and the user it is logged in as. What a request
  changes in it is stored, or refused with an error.
\<close>

record 'n sessions =
  sn_value :: "'n \<Rightarrow> string \<Rightarrow> string option"
  sn_identity :: "'n \<Rightarrow> int option"
  sn_insert :: "'n \<Rightarrow> string \<Rightarrow> string \<Rightarrow> anyhow + 'n"
  sn_remove :: "'n \<Rightarrow> string \<Rightarrow> anyhow + string option \<times> 'n"
  sn_login :: "'n \<Rightarrow> DreamscrollAuthUser \<Rightarrow> anyhow + 'n"
  sn_logout :: "'n \<Rightarrow> anyhow + 'n"

record 'n web =
  wb_world :: world
  wb_session :: 'n

type_synonym ('n, 'a) page = "('n web, failure, 'a) comp"

definition on_world :: "(world, 'e, 'a) comp \<Rightarrow> ('n web, 'e, 'a) comp" where
  "on_world m = (\<lambda>b. case m (wb_world b) of (r, w) \<Rightarrow> (r, b\<lparr>wb_world := w\<rparr>))"

definition on_session :: "('n \<Rightarrow> anyhow + 'a \<times> 'n) \<Rightarrow> ('n web, anyhow, 'a) comp" where
  "on_session f = (\<lambda>b. case f (wb_session b) of Inl e \<Rightarrow> (Inl e, b) | Inr (x, n) \<Rightarrow> (Inr x, b\<lparr>wb_session := n\<rparr>))"

definition CSRF_KEY :: string where
  "CSRF_KEY = ''login_csrf_token''"

record LoginFormData =
  lf_username :: string
  lf_password :: string
  lf_csrf_token :: string

definition r_login_page ::
  "('f, 'd) WebState \<Rightarrow> 'n sessions \<Rightarrow> env \<Rightarrow> DreamscrollAuthUser option \<Rightarrow> string option \<Rightarrow> ('n, web_response) page" where
  "r_login_page self S E user error_msg =
     bindM (on_world (new_uuid E)) (\<lambda>csrf_token.
     bindM (map_errM (\<lambda>e. Failed (api_of_anyhow (anyhow_msg (''Session error storing CSRF token: '' @ anyhow_display e))))
        (on_session (\<lambda>n. map_sum id (Pair ()) (sn_insert S n CSRF_KEY csrf_token)))) (\<lambda>_.
     let base = page_insert ''csrf_token'' (PvText csrf_token) (page_insert ''page_kind'' (PvText ''account'') (template_context self));
         c = (case user of
             Some u \<Rightarrow> page_insert ''username'' (PvText (au_username u)) (page_insert ''already_logged_in'' (PvBool True) base)
           | None \<Rightarrow>
               (let anonymous = page_insert ''already_logged_in'' (PvBool False) base in
                case error_msg of Some e \<Rightarrow> page_insert ''error'' (PvText e) anonymous | None \<Rightarrow> anonymous))
     in bindM (on_world (render self ''login.html.tera'' c)) (\<lambda>t. returnM (html t))))"

definition login_post :: "argon2 \<Rightarrow> 'n sessions \<Rightarrow> env \<Rightarrow> LoginFormData \<Rightarrow> ('n, web_response) page" where
  "login_post A S E form =
     bindM (catchM (on_session (\<lambda>n. sn_remove S n CSRF_KEY))) (\<lambda>removed.
     case removed of
       Inl _ \<Rightarrow> returnM (bare_status 500)
     | Inr stored \<Rightarrow>
         if stored \<noteq> Some (lf_csrf_token form) then returnM (redirect_to ''/login?error=Invalid+or+expired+form'')
         else bindM (catchM (on_world (web_authenticate A E (lf_username form) (lf_password form)))) (\<lambda>authentication.
           case authentication of
             Inl _ \<Rightarrow> returnM (bare_status 500)
           | Inr None \<Rightarrow> returnM (redirect_to ''/login?error=Invalid+username+or+password'')
           | Inr (Some user) \<Rightarrow>
               bindM (catchM (on_session (\<lambda>n. map_sum id (Pair ()) (sn_login S n user)))) (\<lambda>logged_in.
               case logged_in of
                 Inl _ \<Rightarrow> returnM (bare_status 500)
               | Inr _ \<Rightarrow> returnM (redirect_to ''/''))))"

definition logout_post :: "'n sessions \<Rightarrow> ('n, web_response) page" where
  "logout_post S =
     bindM (catchM (on_session (\<lambda>n. map_sum id (Pair ()) (sn_logout S n)))) (\<lambda>logged_out.
     case logged_out of Inl _ \<Rightarrow> returnM (bare_status 500) | Inr _ \<Rightarrow> returnM (redirect_to ''/login''))"

section \<open>The router\<close>

datatype web_call =
    FeedPage ContentSpec
  | ArchivedPage
  | CapturePage int
  | CaptureArchive int string
  | CaptureUnarchive int string
  | EntityPage int
  | IlluminationDetail int "bool option"
  | RelatedPreviews int
  | FeedFragment "string option" "string option" ContentSpec
  | IlluminationFeed int "bool option"
  | AnnotationBlock int
  | AnnotationSet int string
  | AnnotationForm int
  | AnnotationSoftDelete int
  | Command string
  | Upload "string option" "string option" upload_form

datatype web_request = LoginPage "string option" | LoginPost LoginFormData | LogoutPost | PageCall web_call

fun call_page :: "('f, 'd) WebState \<Rightarrow> env \<Rightarrow> Context \<Rightarrow> web_call \<Rightarrow> (world, failure, web_response) comp" where
  "call_page self E context (FeedPage spec) = r_feed_page self E context spec"
| "call_page self E context ArchivedPage = r_archived_page self E context"
| "call_page self E context (CapturePage cid) = r_web_capture_get self E context cid"
| "call_page self E context (CaptureArchive cid next) = r_web_archive self E context cid next"
| "call_page self E context (CaptureUnarchive cid next) = r_web_unarchive self E context cid next"
| "call_page self E context (EntityPage i) = r_web_entity_get self E context i"
| "call_page self E context (IlluminationDetail cid animate) = r_illumination_detail self E context cid animate"
| "call_page self E context (RelatedPreviews i) = r_related_previews self E context i"
| "call_page self E context (FeedFragment query hx spec) = r_feed_fragment self E context query hx spec"
| "call_page self E context (IlluminationFeed cid animate) = r_illumination_feed self E context cid animate"
| "call_page self E context (AnnotationBlock cid) = r_annotation_block self E context cid"
| "call_page self E context (AnnotationSet cid content) = r_web_annotation_set self E context cid content"
| "call_page self E context (AnnotationForm cid) = r_annotation_form self E context cid"
| "call_page self E context (AnnotationSoftDelete cid) = r_web_annotation_soft_delete self E context cid"
| "call_page self E context (Command raw) = r_command_post E context raw"
| "call_page self E context (Upload len hx mp) = r_upload_post self E context len hx mp"

text \<open>
  One request with the user the login layer found in its session. \<open>login_required\<close> answers for
  the protected routes when there is none.
\<close>

definition web_serve ::
  "('f, 'd) WebState \<Rightarrow> 'n sessions \<Rightarrow> argon2 \<Rightarrow> env \<Rightarrow> web_response \<Rightarrow> DreamscrollAuthUser option \<Rightarrow> web_request \<Rightarrow> ('n, web_response) page" where
  "web_serve self S A E login_redirect user request =
     (case request of
        LoginPage error_msg \<Rightarrow> r_login_page self S E user error_msg
      | LoginPost form \<Rightarrow> login_post A S E form
      | LogoutPost \<Rightarrow> (case user of None \<Rightarrow> returnM login_redirect | Some _ \<Rightarrow> logout_post S)
      | PageCall call \<Rightarrow>
          (case user of
             None \<Rightarrow> returnM login_redirect
           | Some u \<Rightarrow> on_world (call_page self E (context_from u) call)))"

section \<open>What a page may change\<close>

lemma blend_newest_first:
  "mset (blend cs ss) = mset (cs @ ss)" "sorted (map (\<lambda>c. - card_created_at c) (blend cs ss))"
  by (simp_all add: blend_def)

lemma render_secluded: "keeps (secluded u x) (render self template c)" "keeps (secluded u x) (current_db_timestamp E)"
  unfolding render_def current_db_timestamp_def
  by (intro keeps_liftM, intro keeps_map_errM keeps_stmt tick_free_secluded keeps_returnM)

lemma web_reads_secluded:
  "keeps (secluded u x) (client_get_capture api E context i)" "keeps (secluded u x) (client_get_captures_archived api E context n)"
  "keeps (secluded u x) (client_get_timeline_sparks api E context n)"
proof -
  have sparks: "keeps (secluded u x) (get_timeline_sparks E context n)"
    unfolding get_timeline_sparks_def get_sparks_def by (rule keeps_read_only; auto intro!: frame split: list.split)
  have infos: "keeps (secluded u x) (make_spark_infos_from_models api E context ms)" for ms
    unfolding make_spark_infos_from_models_def Let_def
    by (intro keeps_bindM keeps_map_errM read_captures_secluded keeps_returnM keeps_getM triple_if)
  show "keeps (secluded u x) (client_get_capture api E context i)" "keeps (secluded u x) (client_get_captures_archived api E context n)"
    "keeps (secluded u x) (client_get_timeline_sparks api E context n)"
    unfolding client_get_capture_def client_get_captures_archived_def client_get_timeline_sparks_def
    by (intro keeps_bindM keeps_map_errM read_captures_secluded sparks infos)+
qed

lemma previews_secluded:
  assumes "outside_database (uc_vertex api)"
  shows "keeps (secluded u x) (client_search_similar_previews api E context i limit)"
  unfolding client_search_similar_previews_def
  by (intro keeps_bindM keeps_map_errM read_captures_secluded search_secluded [OF assms] triple_if keeps_returnM)

lemma content_secluded:
  assumes "outside_database (uc_vertex api)"
  shows "keeps (secluded u x) (render_content api E context spec)"
proof -
  have timeline: "keeps (secluded u x) (render_timeline api E context mode n)" for mode n
    by (cases mode) (auto intro!: keeps_bindM client_reads_secluded web_reads_secluded keeps_returnM)
  show ?thesis
    unfolding render_content_def render_search_def
    by (intro triple_if keeps_bindM client_search_secluded [OF assms] keeps_returnM timeline)
qed

lemma page_secluded:
  assumes "outside_database (uc_vertex (ws_user_api self))" and "\<not> ctx_is_admin context" and "ctx_user_id context = u"
  shows "keeps (secluded u x) (call_page self E context call)"
proof -
  have spark: "keeps (secluded u x) (process_command E context raw)" for raw
    unfolding process_command_def command_spark_def Let_def
    by (auto intro!: triple_if keeps_throwM keeps_bindM keeps_liftM keeps_map_errM enqueue_secluded assms split: prod.split)
  have upload: "keeps (secluded u x) (insert_capture_from_multipart api E context mp n)" for api mp n
    unfolding insert_capture_from_multipart_def client_insert_capture_def
    by (intro keeps_bindM keeps_liftM store_and_signal_secluded assms)
  have annotation: "keeps (secluded u x) (annotated self E context cid template editing)" for cid template editing
    unfolding annotated_def render_annotation_response_def Let_def
    by (intro keeps_bindM web_reads_secluded render_secluded keeps_returnM)
  have illumination: "keeps (secluded u x) (illumination_context self E context cid animate)" for cid animate
    unfolding illumination_context_def by (intro keeps_bindM render_secluded web_reads_secluded keeps_returnM)
  have feed: "keeps (secluded u x) (feed_context self E context spec)" for spec
    unfolding feed_context_def by (intro keeps_bindM render_secluded content_secluded [OF assms(1)] keeps_returnM)
  show ?thesis
  proof (cases "call")
    case (Upload len hx mp)
    then show ?thesis
      by (auto simp: r_upload_post_def Let_def intro!: triple_if keeps_throwM keeps_bindM upload keeps_returnM split: option.split)
  next
    case (Command raw)
    then show ?thesis
      by (auto simp: r_command_post_def Let_def intro!: triple_if keeps_throwM keeps_bindM keeps_map_errM spark keeps_returnM)
  next
    case (FeedFragment query hx spec)
    then show ?thesis
      by (auto simp: r_feed_fragment_def Let_def intro!: triple_if keeps_throwM keeps_bindM feed render_secluded keeps_returnM
          split: option.split)
  qed (auto simp: r_feed_page_def r_archived_page_def r_web_capture_get_def r_web_archive_def r_web_unarchive_def r_web_entity_get_def
      r_illumination_detail_def r_related_previews_def r_illumination_feed_def r_annotation_block_def r_web_annotation_set_def
      r_annotation_form_def r_web_annotation_soft_delete_def archive_capture_def unarchive_capture_def
      intro!: keeps_bindM keeps_map_errM keeps_returnM annotation illumination feed render_secluded web_reads_secluded
        read_only_secluded archive_secluded client_set_annotation_secluded soft_delete_secluded previews_secluded [OF assms(1)] assms)
qed

section \<open>Where a page sends the browser\<close>

text \<open>
  What a browser makes of a \<open>Location\<close>: it drops control characters and spaces at both ends, and
  tabs and line breaks anywhere, and reads a backslash as a slash. A path that then begins with
  a single slash stays on the site; two slashes name another one.
\<close>

definition browser_reads :: "string \<Rightarrow> string" where
  "browser_reads s =
     (let blank = (\<lambda>c. (of_char c :: nat) \<le> 32);
          stripped = rev (dropWhile blank (rev (dropWhile blank s)))
      in map (\<lambda>c. if c = CHR 0x5C then CHR ''/'' else c)
           (filter (\<lambda>c. c \<notin> {CHR 0x09, CHR 0x0A, CHR 0x0D}) stripped))"

fun leads_here :: "string \<Rightarrow> bool" where
  "leads_here [] = False"
| "leads_here (c # cs) \<longleftrightarrow> c = CHR ''/'' \<and> (case cs of d # _ \<Rightarrow> d \<noteq> CHR ''/'' | [] \<Rightarrow> True)"

lemma has_control_iff: "\<not> has_control s \<Longrightarrow> c \<in> set s \<Longrightarrow> 32 \<le> (of_char c :: nat)"
  by (induction s) (auto simp: Let_def)

lemma starts_with_nth: "starts_with s [c] \<longleftrightarrow> (\<exists>cs. s = c # cs)"
  "starts_with s [c, d] \<longleftrightarrow> (\<exists>cs. s = c # d # cs)"
  by (cases s; cases "tl s"; auto simp: starts_with_def)+

lemma leads_here_trimmed: "leads_here (c # cs) \<Longrightarrow> leads_here (c # take n cs)"
  by (cases n; cases cs) auto

lemma browser_reads_path:
  assumes "\<not> has_control s" and "CHR 0x5C \<notin> set s" and "s = CHR ''/'' # cs"
  shows "\<exists>n. browser_reads s = CHR ''/'' # take n cs"
proof -
  let ?blank = "\<lambda>c. (of_char c :: nat) \<le> 32"
  have slash: "\<not> ?blank (CHR ''/'')" by simp
  have d: "dropWhile ?blank (rev cs @ [CHR ''/'']) = dropWhile ?blank (rev cs) @ [CHR ''/'']"
    using slash by (simp add: dropWhile_append3)
  have "rev (dropWhile ?blank (rev cs)) = take (length (dropWhile ?blank (rev cs))) cs"
    by (metis append_take_drop_id dropWhile_eq_drop length_drop length_rev rev_drop rev_rev_ident take_rev)
  then obtain n where n: "rev (dropWhile ?blank (rev cs)) = take n cs" by blast
  have plain: "c \<notin> {CHR 0x09, CHR 0x0A, CHR 0x0D} \<and> c \<noteq> CHR 0x5C" if "c \<in> set s" for c
    using has_control_iff [OF assms(1) that] assms(2) that by auto
  have "c \<in> set s" if "c \<in> set (take n cs)" for c
    using that assms(3) by (auto dest: in_set_takeD)
  then have "browser_reads s = CHR ''/'' # take n cs"
    using plain slash unfolding browser_reads_def assms(3) by (simp add: d n filter_True map_idI)
  then show ?thesis ..
qed

lemma redirect_target_leads_here:
  assumes "leads_here (browser_reads fallback)"
  shows "leads_here (browser_reads (redirect_target next fallback))"
proof (cases "starts_with next ''/'' \<and> \<not> starts_with next ''//'' \<and> CHR 0x5C \<notin> set next \<and> \<not> has_control next")
  case True
  then obtain cs where cs: "next = CHR ''/'' # cs" by (auto simp: starts_with_nth)
  with True have "leads_here next" by (auto simp: starts_with_nth split: list.split)
  moreover obtain n where "browser_reads next = CHR ''/'' # take n cs"
    using browser_reads_path [of "next" cs] True cs by blast
  ultimately show ?thesis using True leads_here_trimmed [of "CHR ''/''" cs n] cs by (simp add: redirect_target_def)
qed (use assms in \<open>auto simp: redirect_target_def\<close>)

definition answers :: "('a \<Rightarrow> bool) \<Rightarrow> ('s, 'e, 'a) comp \<Rightarrow> bool" where
  "answers P m \<longleftrightarrow> (\<forall>s x. fst (m s) = Inr x \<longrightarrow> P x)"

lemma answers_comp:
  "P x \<Longrightarrow> answers P (returnM x)" "answers P (throwM e)"
  "(\<And>y. answers P (k y)) \<Longrightarrow> answers P (bindM n k)" "answers P m \<Longrightarrow> answers P (map_errM f m)"
  "answers P m' \<Longrightarrow> answers P (on_world m')"
  by (auto simp: answers_def runs on_world_def split: sum.splits prod.splits) (metis fst_conv)+

lemma answers_or: "answers P m \<Longrightarrow> answers (\<lambda>x. Q x \<or> P x) m"
  by (simp add: answers_def)

definition stays :: "web_response \<Rightarrow> bool" where
  "stays r \<longleftrightarrow> (\<forall>location. (''location'', location) \<in> set (wr_headers r) \<longrightarrow> leads_here (browser_reads location))"

lemma own_paths_lead_here:
  "leads_here (browser_reads ''/'')" "leads_here (browser_reads ''/archived'')" "leads_here (browser_reads ''/login'')"
  "leads_here (browser_reads ''/login?error=Invalid+or+expired+form'')"
  "leads_here (browser_reads ''/login?error=Invalid+username+or+password'')"
  by code_simp+

lemma stays_simps:
  "stays (html t)" "stays (bare_status n)" "stays (redirect_to location) \<longleftrightarrow> leads_here (browser_reads location)"
  "stays \<lparr>wr_status = n, wr_headers = [], wr_body = body\<rparr>"
  "k \<noteq> ''location'' \<Longrightarrow> stays \<lparr>wr_status = n, wr_headers = [(k, v)], wr_body = body\<rparr>"
  "stays ((html t)\<lparr>wr_headers := [(''HX-Push-Url'', v)]\<rparr>)"
  by (simp_all add: stays_def html_def bare_status_def redirect_to_def)

lemma canonical_url_leads_here: "leads_here (browser_reads (canonical_url query))"
proof -
  have "leads_here (browser_reads (''/?'' @ q))" for q
    by (simp add: browser_reads_def dropWhile_append3)
  then show ?thesis by (simp add: canonical_url_def own_paths_lead_here split: option.split)
qed

lemma login_post_stays: "answers stays (login_post A S E form)"
  by (auto simp: login_post_def intro!: answers_comp split: sum.split option.split if_split)
    (auto simp: stays_simps own_paths_lead_here)

lemma call_page_stays: "answers stays (call_page self E context call)"
  by (cases "call")
    (auto simp: stays_simps own_paths_lead_here redirect_target_leads_here canonical_url_leads_here Let_def
      r_feed_page_def r_archived_page_def r_web_capture_get_def r_web_archive_def r_web_unarchive_def r_web_entity_get_def
      r_illumination_detail_def r_related_previews_def r_feed_fragment_def r_illumination_feed_def r_annotation_block_def
      r_web_annotation_set_def r_annotation_form_def r_web_annotation_soft_delete_def annotated_def render_annotation_response_def
      r_command_post_def r_upload_post_def intro!: answers_comp split: option.split if_split)

section \<open>Properties\<close>

text \<open>
  C9: no page reaches into another account. Whatever a user without administrator rights asks
  of the pages, and whatever fails, every row, account, run and queued task that is not theirs
  stays as it was; and a request without a logged-in user changes no row at all, except that
  the login form is answered.
\<close>

theorem web_isolation:
  assumes "outside_database (uc_vertex (ws_user_api self))" and "keys_ok (wb_world b)"
  shows "(\<forall>u. user = Some u \<and> \<not> au_is_admin u \<longrightarrow>
      foreign (au_id u) (wb_world (snd (web_serve self S A E login_redirect user (PageCall call) b))) = foreign (au_id u) (wb_world b)) \<and>
    (user = None \<longrightarrow> web_serve self S A E login_redirect user (PageCall call) b = (Inr login_redirect, b))"
proof (intro conjI allI impI)
  fix u
  assume u: "user = Some u \<and> \<not> au_is_admin u"
  have "\<not> ctx_is_admin (context_from u)" "ctx_user_id (context_from u) = au_id u"
    using u by (simp_all add: ctx_is_admin_def ctx_user_id_def context_from_def)
  note page = page_secluded [OF assms(1) this, of "foreign (au_id u) (wb_world b)" E "call"]
  have "secluded (au_id u) (foreign (au_id u) (wb_world b)) (wb_world b)" using assms(2) by (simp add: secluded_def)
  from keepsD [OF page this]
  show "foreign (au_id u) (wb_world (snd (web_serve self S A E login_redirect user (PageCall call) b))) = foreign (au_id u) (wb_world b)"
    using u by (cases "call_page self E (context_from u) call (wb_world b)") (auto simp: web_serve_def on_world_def secluded_def)
qed (simp add: web_serve_def runs)


text \<open>
  C11: no page is an open redirect. Every \<open>Location\<close> a page answers with, also the one a form names
  as \<open>next\<close>, is a path of this site in the reading of a browser; the only other answer is
  the one of the login layer.
\<close>

theorem redirects_stay_local:
  assumes "fst (web_serve self S A E login_redirect user request b) = Inr r" and "r \<noteq> login_redirect"
    and "(''location'', location) \<in> set (wr_headers r)"
  shows "leads_here (browser_reads location)"
proof -
  have page: "answers stays (r_login_page self S E u error_msg)" "answers stays (logout_post S)" for u error_msg
    unfolding r_login_page_def logout_post_def
    by (auto simp: stays_simps own_paths_lead_here Let_def intro!: answers_comp split: sum.split option.split)
  have "answers (\<lambda>r. r = login_redirect \<or> stays r) (web_serve self S A E login_redirect user request)"
    unfolding web_serve_def
    by (auto intro!: page [THEN answers_or] login_post_stays [THEN answers_or] call_page_stays [THEN answers_or] answers_comp
        split: web_request.split option.split)
  with assms show ?thesis by (auto simp: answers_def stays_def)
qed

text \<open>
  What the login relies on of the session library: a stored value is read back, removing a
  value returns and clears it, logging in records the user and keeps the values.
\<close>

definition session_laws :: "'n sessions \<Rightarrow> bool" where
  "session_laws S \<longleftrightarrow>
     (\<forall>n k v n'. sn_insert S n k v = Inr n' \<longrightarrow> sn_value S n' = (sn_value S n)(k \<mapsto> v) \<and> sn_identity S n' = sn_identity S n) \<and>
     (\<forall>n k v n'. sn_remove S n k = Inr (v, n') \<longrightarrow>
        v = sn_value S n k \<and> sn_value S n' = (sn_value S n)(k := None) \<and> sn_identity S n' = sn_identity S n) \<and>
     (\<forall>n user n'. sn_login S n user = Inr n' \<longrightarrow> sn_value S n' = sn_value S n \<and> sn_identity S n' = Some (au_id user))"

lemma web_authenticate_users:
  "snd (web_authenticate A E u p w) = w\<lparr>tick := tick (snd (web_authenticate A E u p w))\<rparr>"
  "fst (web_authenticate A E u p w) = Inr (Some user) \<Longrightarrow>
     \<exists>row h. find_by_username u (users w) = Some row \<and> parse_hash A (us_password_hash row) = Inr h \<and> verify_password A h p \<and>
       user = from_db_model row"
  by (auto simp: web_authenticate_def authenticate_def verify_hash_def runs select_def stmt_def Let_def split_beta
      split: option.splits sum.splits prod.splits if_splits)

lemma run_on_session_unit:
  "on_session (\<lambda>n. map_sum id (Pair ()) (f n)) b =
     (case f (wb_session b) of Inl e \<Rightarrow> (Inl e, b) | Inr n \<Rightarrow> (Inr (), b\<lparr>wb_session := n\<rparr>))"
  by (simp add: on_session_def split: sum.split)

lemma login_post_runs:
  "login_post A S E form b =
     (case sn_remove S (wb_session b) CSRF_KEY of
        Inl _ \<Rightarrow> (Inr (bare_status 500), b)
      | Inr (stored, n) \<Rightarrow>
          if stored \<noteq> Some (lf_csrf_token form) then (Inr (redirect_to ''/login?error=Invalid+or+expired+form''), b\<lparr>wb_session := n\<rparr>)
          else (case web_authenticate A E (lf_username form) (lf_password form) (wb_world b) of
              (Inl _, w) \<Rightarrow> (Inr (bare_status 500), b\<lparr>wb_world := w, wb_session := n\<rparr>)
            | (Inr None, w) \<Rightarrow> (Inr (redirect_to ''/login?error=Invalid+username+or+password''), b\<lparr>wb_world := w, wb_session := n\<rparr>)
            | (Inr (Some user), w) \<Rightarrow>
                (case sn_login S n user of
                   Inl _ \<Rightarrow> (Inr (bare_status 500), b\<lparr>wb_world := w, wb_session := n\<rparr>)
                 | Inr n' \<Rightarrow> (Inr (redirect_to ''/''), b\<lparr>wb_world := w, wb_session := n'\<rparr>))))"
  by (cases b; cases "sn_remove S (wb_session b) CSRF_KEY")
    (auto simp: login_post_def run_on_session_unit on_session_def [of "\<lambda>n. sn_remove S n CSRF_KEY"] on_world_def runs
      split: prod.split sum.split option.split)

lemma login_post_world: "\<exists>t. wb_world (snd (login_post A S E form b)) = (wb_world b)\<lparr>tick := t\<rparr>"
proof -
  have "wb_world (snd (login_post A S E form b)) \<in> {wb_world b, snd (web_authenticate A E (lf_username form) (lf_password form) (wb_world b))}"
    by (auto simp: login_post_runs split: sum.split option.split prod.split)
  then show ?thesis
    by (metis insertE singletonD web_authenticate_users(1) world.fold_congs(1) world.surjective world.update_convs(1))
qed

lemma login_post_identity:
  assumes "session_laws S" and "sn_identity S (wb_session (snd (login_post A S E form b))) \<noteq> sn_identity S (wb_session b)"
  shows "sn_value S (wb_session b) CSRF_KEY = Some (lf_csrf_token form) \<and>
    (\<exists>row h. find_by_username (lf_username form) (users (wb_world b)) = Some row \<and>
       parse_hash A (us_password_hash row) = Inr h \<and> verify_password A h (lf_password form) \<and>
       sn_identity S (wb_session (snd (login_post A S E form b))) = Some (us_id row))"
proof -
  have kept: "sn_identity S n = sn_identity S m \<and> v = sn_value S m CSRF_KEY" if "sn_remove S m CSRF_KEY = Inr (v, n)" for m v n
    using assms(1) that by (simp add: session_laws_def)
  have user: "sn_identity S n' = Some (au_id user)" if "sn_login S n user = Inr n'" for n user n'
    using assms(1) that by (simp add: session_laws_def)
  from assms(2) obtain n user w n' where
    run: "sn_remove S (wb_session b) CSRF_KEY = Inr (Some (lf_csrf_token form), n)"
      "web_authenticate A E (lf_username form) (lf_password form) (wb_world b) = (Inr (Some user), w)" "sn_login S n user = Inr n'"
    and after: "wb_session (snd (login_post A S E form b)) = n'"
    by (auto simp: login_post_runs dest: kept split: sum.splits option.splits prod.splits if_splits)
  then have "fst (web_authenticate A E (lf_username form) (lf_password form) (wb_world b)) = Inr (Some user)" by simp
  from web_authenticate_users(2) [OF this] kept [OF run(1)] user [OF run(3)] after show ?thesis
    by (auto simp: from_db_model_def)
qed

lemma login_post_consumes_token:
  assumes "session_laws S" and "\<not> isl (sn_remove S (wb_session b) CSRF_KEY)"
  shows "sn_value S (wb_session (snd (login_post A S E form b))) CSRF_KEY = None"
proof -
  have removed: "sn_value S n CSRF_KEY = None" if "sn_remove S m CSRF_KEY = Inr (v, n)" for m v n
    using assms(1) that by (simp add: session_laws_def)
  have kept: "sn_value S n' = sn_value S n" if "sn_login S n user = Inr n'" for n user n'
    using assms(1) that by (simp add: session_laws_def)
  show ?thesis
    using assms(2) by (auto simp: login_post_runs removed kept split: sum.split option.split prod.split)
qed

lemma login_post_succeeds:
  assumes "session_laws S" and "sn_remove S (wb_session b) CSRF_KEY = Inr (Some (lf_csrf_token form), n)"
    and "fst (authenticate A E (lf_username form) (lf_password form) (wb_world b)) = Inr user" and "\<not> isl (sn_login S n user)"
  shows "fst (login_post A S E form b) = Inr (redirect_to ''/'') \<and>
    sn_identity S (wb_session (snd (login_post A S E form b))) = Some (au_id user)"
proof -
  obtain w where "web_authenticate A E (lf_username form) (lf_password form) (wb_world b) = (Inr (Some user), w)"
    using assms(3) by (auto simp: web_authenticate_def runs)
  moreover obtain n' where n': "sn_login S n user = Inr n'" using assms(4) by (cases "sn_login S n user") auto
  moreover have "sn_identity S n' = Some (au_id user)" using assms(1) n' by (simp add: session_laws_def)
  ultimately show ?thesis using assms(2) by (simp add: login_post_runs)
qed

text \<open>
  C10: nobody is logged in by a form the server did not issue to this session. A post to
  \<open>/login\<close> changes the user of a session only if the form carries the token stored there and
  the password of the account, of which it then becomes the session; a second post before the
  login page is fetched again, whatever it holds, changes nothing; and no row is touched. With that
  token, the right password and a session store that works, the login succeeds.
\<close>

theorem login_needs_fresh_form:
  assumes "session_laws S"
  shows "let n = wb_session b; after = snd (login_post A S E form b) in
    (\<exists>t. wb_world after = (wb_world b)\<lparr>tick := t\<rparr>) \<and>
    (sn_identity S (wb_session after) \<noteq> sn_identity S n \<longrightarrow>
       sn_value S n CSRF_KEY = Some (lf_csrf_token form) \<and>
       (\<exists>row h. find_by_username (lf_username form) (users (wb_world b)) = Some row \<and>
          parse_hash A (us_password_hash row) = Inr h \<and> verify_password A h (lf_password form) \<and>
          sn_identity S (wb_session after) = Some (us_id row))) \<and>
    (\<not> isl (sn_remove S n CSRF_KEY) \<longrightarrow>
       sn_identity S (wb_session (snd (login_post A S E' form' after))) = sn_identity S (wb_session after)) \<and>
    (\<forall>user n'. sn_remove S n CSRF_KEY = Inr (Some (lf_csrf_token form), n') \<longrightarrow>
       fst (authenticate A E (lf_username form) (lf_password form) (wb_world b)) = Inr user \<longrightarrow> \<not> isl (sn_login S n' user) \<longrightarrow>
       fst (login_post A S E form b) = Inr (redirect_to ''/'') \<and> sn_identity S (wb_session after) = Some (au_id user))"
proof -
  have "sn_identity S (wb_session (snd (login_post A S E' form' after))) = sn_identity S (wb_session after)"
    if "sn_value S (wb_session after) CSRF_KEY = None" for after
    using login_post_identity [OF assms, of A E' form' after] that by auto
  with login_post_consumes_token [OF assms, of b A E form] show ?thesis
    using login_post_world [of A S E form b] login_post_identity [OF assms, of A E form b] login_post_succeeds [OF assms, of b form]
    unfolding Let_def by blast
qed

section \<open>Examples\<close>

type_synonym demo_session = "(string \<Rightarrow> string option) \<times> int option"

definition demo_sessions :: "demo_session sessions" where
  "demo_sessions = \<lparr>sn_value = fst, sn_identity = snd, sn_insert = (\<lambda>(m, u) k v. Inr (m(k \<mapsto> v), u)),
     sn_remove = (\<lambda>(m, u) k. Inr (m k, m(k := None), u)), sn_login = (\<lambda>(m, u) user. Inr (m, Some (au_id user))),
     sn_logout = (\<lambda>n. Inr (Map.empty, None))\<rparr>"

definition demo_pages :: "(int, int) WebState" where
  "demo_pages = \<lparr>ws_user_api = demo_client, ws_tera = (\<lambda>template c. Inr template), ws_asset_version = ''v1'',
     ws_max_upload_bytes = 1000, ws_header_ok = (\<lambda>_. None)\<rparr>"

definition demo_web :: "world \<Rightarrow> demo_session web" where
  "demo_web w = \<lparr>wb_world = w, wb_session = ([CSRF_KEY \<mapsto> ''t''], None)\<rparr>"

definition demo_page :: "DreamscrollAuthUser option \<Rightarrow> web_call \<Rightarrow> (demo_session, web_response) page" where
  "demo_page user call = web_serve demo_pages demo_sessions demo_argon quiet_env (redirect_to ''/login?next=%2F'') user (PageCall call)"

lemma demo_session_laws: "session_laws demo_sessions"
  by (auto simp: session_laws_def demo_sessions_def)

lemma demo_archive:
  "demo_page (Some demo_api_user) (CaptureArchive 1 next) (demo_web demo_data) =
     (Inr (redirect_to (redirect_target next ''/'')), demo_web (snd (archive_capture quiet_env (context_from demo_api_user) 1 demo_data)))"
  "captures (snd (archive_capture quiet_env (context_from demo_api_user) 1 demo_data)) \<noteq> captures demo_data"
  by (simp_all add: demo_page_def web_serve_def on_world_def r_web_archive_def archive_capture_def set_capture_archive_state_def
      own_capture_def context_from_def ctx_user_id_def runs demo_data_def update_where_def demo_api_user_def demo_web_def)

text \<open>User 7 archives a capture; without a user the same request leads to the login page.\<close>

theorem web_isolation_witness:
  "let after = wb_world (snd (demo_page (Some demo_api_user) (CaptureArchive 1 '''') (demo_web demo_data)))
   in foreign 7 after = foreign 7 demo_data \<and> captures after \<noteq> captures demo_data \<and>
      demo_page None (CaptureArchive 1 '''') (demo_web demo_data) = (Inr (redirect_to ''/login?next=%2F''), demo_web demo_data)"
proof -
  have "outside_database (uc_vertex (ws_user_api demo_pages))"
    using demo_outside by (simp add: demo_pages_def demo_state_def)
  moreover have "keys_ok (wb_world (demo_web demo_data))"
    by (simp add: keys_ok_def demo_data_def empty_world_def demo_web_def)
  ultimately have isolated: "(\<forall>u. user = Some u \<and> \<not> au_is_admin u \<longrightarrow>
      foreign (au_id u) (wb_world (snd (demo_page user (CaptureArchive 1 '''') (demo_web demo_data)))) = foreign (au_id u) (wb_world (demo_web demo_data))) \<and>
    (user = None \<longrightarrow> demo_page user (CaptureArchive 1 '''') (demo_web demo_data) = (Inr (redirect_to ''/login?next=%2F''), demo_web demo_data))" for user
    unfolding demo_page_def by (rule web_isolation)
  from isolated [of "Some demo_api_user"] isolated [of None] demo_archive show ?thesis
    by (simp add: Let_def demo_api_user_def demo_web_def)
qed

theorem redirects_stay_local_witness:
  "fst (demo_page (Some demo_api_user) (CaptureArchive 1 ''/?q=1'') (demo_web demo_data)) = Inr (redirect_to ''/?q=1'') \<and>
   fst (demo_page (Some demo_api_user) (CaptureArchive 1 ''//evil'') (demo_web demo_data)) = Inr (redirect_to ''/'') \<and>
   leads_here (browser_reads ''/?q=1'') \<and> \<not> leads_here (browser_reads ''//evil'')"
proof -
  have t: "redirect_target ''/?q=1'' ''/'' = ''/?q=1''" "redirect_target ''//evil'' ''/'' = ''/''" "\<not> leads_here (browser_reads ''//evil'')"
    by code_simp+
  have "fst (demo_page (Some demo_api_user) (CaptureArchive 1 ''/?q=1'') (demo_web demo_data)) = Inr (redirect_to ''/?q=1'')"
    by (simp add: demo_archive(1) t)
  then have "leads_here (browser_reads ''/?q=1'')"
    unfolding demo_page_def by (rule redirects_stay_local) (simp_all add: redirect_to_def)
  then show ?thesis by (simp add: demo_archive(1) t)
qed

text \<open>The form of the login page logs user 7 in, once; a form with another token does not.\<close>

theorem login_needs_fresh_form_witness:
  "let post = login_post demo_argon demo_sessions quiet_env;
       form = \<lparr>lf_username = ''ann'', lf_password = ''old'', lf_csrf_token = ''t''\<rparr>
   in fst (post form (demo_web demo_users)) = Inr (redirect_to ''/'') \<and>
      sn_identity demo_sessions (wb_session (snd (post form (demo_web demo_users)))) = Some 7 \<and>
      sn_identity demo_sessions (wb_session (snd (post (form\<lparr>lf_csrf_token := ''x''\<rparr>) (demo_web demo_users)))) = None"
proof -
  let ?form = "\<lparr>lf_username = ''ann'', lf_password = ''old'', lf_csrf_token = ''t''\<rparr>"
  have auth: "fst (authenticate demo_argon quiet_env ''ann'' ''old'' (wb_world (demo_web demo_users))) = Inr (from_db_model (hd (users demo_users)))"
    by (simp add: authenticate_def find_by_username_def verify_hash_def demo_argon_def demo_users_def demo_web_def runs)
  have removed: "sn_remove demo_sessions (wb_session (demo_web demo_users)) CSRF_KEY = Inr (Some ''t'', Map.empty, None)"
    by (simp add: demo_sessions_def demo_web_def)
  have stored: "sn_value demo_sessions (wb_session (demo_web demo_users)) CSRF_KEY = Some ''t''"
    "sn_identity demo_sessions (wb_session (demo_web demo_users)) = None"
    by (simp_all add: demo_sessions_def demo_web_def)
  note fresh = login_needs_fresh_form [OF demo_session_laws, of "demo_web demo_users" demo_argon quiet_env, unfolded Let_def]
  have "fst (login_post demo_argon demo_sessions quiet_env ?form (demo_web demo_users)) = Inr (redirect_to ''/'') \<and>
      sn_identity demo_sessions (wb_session (snd (login_post demo_argon demo_sessions quiet_env ?form (demo_web demo_users)))) = Some 7"
    using fresh [of ?form] auth removed by (simp add: demo_sessions_def from_db_model_def demo_users_def)
  moreover have "sn_identity demo_sessions (wb_session (snd (login_post demo_argon demo_sessions quiet_env
      (?form\<lparr>lf_csrf_token := ''x''\<rparr>) (demo_web demo_users)))) = None"
    using fresh [of "?form\<lparr>lf_csrf_token := ''x''\<rparr>"] stored by auto
  ultimately show ?thesis by (simp add: Let_def)
qed

end
