(* ===== verification/Response_Schema.thy ===== *)
theory Response_Schema
  imports Inference_Clients
begin

text \<open>
  \<open>make_schema\<close> of \<open>illumination/v1/illuminate.rs\<close> and \<open>illumination/v2/illuminate.rs\<close>: the JSON schema
  a model's answer has to follow, and that it asks for nothing the program cannot read. The
  schemas of the spark clients are in \<open>Inference_Clients\<close>.
\<close>

section \<open>The schemas\<close>

definition described :: "string \<Rightarrow> string \<Rightarrow> json" where
  "described t d = JObj [(''type'', JStr t), (''description'', JStr d)]"

definition with_member :: "string \<Rightarrow> json \<Rightarrow> json \<Rightarrow> json" where
  "with_member k v j = (case j of JObj ms \<Rightarrow> JObj (ms @ [(k, v)]) | _ \<Rightarrow> j)"

definition string_array :: "string list \<Rightarrow> json" where
  "string_array ss = JArr (map JStr ss)"

definition object_schema :: "(string \<times> json) list \<Rightarrow> string list \<Rightarrow> json" where
  "object_schema properties required = JObj
     [(''type'', JStr ''object''), (''properties'', JObj properties), (''required'', string_array required)]"

definition array_schema :: "string \<Rightarrow> json \<Rightarrow> json" where
  "array_schema description items = with_member ''items'' items (described ''array'' description)"

definition v1_entity_schema :: json where
  "v1_entity_schema = object_schema
     [(''name'', described ''string'' ''The name of the entity''),
      (''description'', described ''string'' ''A brief description of the entity''),
      (''type'', with_member ''enum'' (string_array v1_entity_types) (described ''string'' ''The type of entity''))]
     [''name'', ''description'', ''type'']"

definition v1_account_schema :: json where
  "v1_account_schema = object_schema
     [(''display_name'', described ''string'' ''The display name or real name shown on the profile''),
      (''handle'', described ''string'' ''The username/handle of the account (e.g., @username)''),
      (''platform'', with_member ''enum'' (string_array v1_platforms) (described ''string'' ''The social-media platform''))]
     [''display_name'', ''handle'', ''platform'']"

definition v1_make_schema :: json where
  "v1_make_schema = object_schema
     [(''summary'', described ''string'' ''A concise 1-2 sentence summary of the image content, max 280 characters. Focus on substance, not format.''),
      (''details'', described ''string'' ''A detailed multi-paragraph description exploring the content, context, and significance of the image.''),
      (''suggested_searches'', array_schema
        ''A list of concise search queries for notable objects, people, or locations visible in the image.'' (schema_of_type ''string'')),
      (''entities'', array_schema
        ''A list of notable entities (objects, people, locations, references) with descriptions and types. Do NOT include social media accounts here.''
        v1_entity_schema),
      (''social_media_accounts'', array_schema ''A list of social media accounts visible in the image.'' v1_account_schema)]
     [''summary'', ''details'', ''suggested_searches'', ''entities'', ''social_media_accounts'']"

definition v2_link_schema :: json where
  "v2_link_schema = with_member ''description'' (JStr ''Optional platform profile clearly associated with this entity.'')
     (object_schema
       [(''platform'', with_member ''enum'' (string_array (map platform_as_ref all_platforms)) (schema_of_type ''string'')),
        (''display_name'', described ''string''
          ''Optional name visibly shown by the platform; distinct from the entity name and handle.''),
        (''handle'', schema_of_type ''string'')]
       [''platform'', ''handle''])"

definition v2_entity_schema :: json where
  "v2_entity_schema = object_schema
     [(''name'', schema_of_type ''string''),
      (''search_query'', described ''string'' ''Optional concise entity-specific search query for disambiguation or lookup.''),
      (''description'', described ''string'' ''Useful information about the entity itself; omit when unsupported or not useful.''),
      (''type'', with_member ''enum'' (string_array (map entity_type_as_ref all_entity_types))
        (described ''string'' (''The entity'' @ [CHR 0x27] @ ''s category.''))),
      (''platform_link'', v2_link_schema)]
     [''name'', ''type'']"

definition v2_make_schema :: json where
  "v2_make_schema = object_schema
     [(''summary'', described ''string'' ''A concise summary of the image content, no more than 280 characters.''),
      (''details'', described ''string'' ''A detailed description exploring the image content, context, and significance.''),
      (''suggested_searches'', array_schema ''Concise searches for notable content worth exploring further.'' (schema_of_type ''string'')),
      (''entities'', array_schema ''Notable entities using one unified entity shape.'' v2_entity_schema)]
     [''summary'', ''details'', ''suggested_searches'', ''entities'']"

fun response_schema :: "IlluminationVersion \<Rightarrow> json" where
  "response_schema V1 = v1_make_schema"
| "response_schema V2 = v2_make_schema"

section \<open>What a schema asks for\<close>

text \<open>
  The keywords the sources use, as JSON schema defines them: \<open>type\<close> (in either case, as Gemini
  writes it), \<open>enum\<close>, \<open>properties\<close>, \<open>required\<close> and \<open>items\<close>. Further members are allowed, a
  restriction (\<open>additionalProperties\<close>) only admits less.
\<close>

fun has_type :: "string \<Rightarrow> json \<Rightarrow> bool" where
  "has_type t (JStr _) \<longleftrightarrow> t \<in> {''string'', ''STRING''}"
| "has_type t (JArr _) \<longleftrightarrow> t \<in> {''array'', ''ARRAY''}"
| "has_type t (JObj _) \<longleftrightarrow> t \<in> {''object'', ''OBJECT''}"
| "has_type t (JNum _) \<longleftrightarrow> t \<in> {''integer'', ''INTEGER'', ''number'', ''NUMBER''}"
| "has_type t (JFloat _) \<longleftrightarrow> t \<in> {''number'', ''NUMBER''}"
| "has_type t (JBool _) \<longleftrightarrow> t \<in> {''boolean'', ''BOOLEAN''}"
| "has_type t JNull \<longleftrightarrow> t \<in> {''null'', ''NULL''}"

fun keyword :: "string \<Rightarrow> json \<Rightarrow> json \<Rightarrow> bool" where
  "keyword k (JStr t) j \<longleftrightarrow> (k = ''type'' \<longrightarrow> has_type t j)"
| "keyword k (JArr vs) j \<longleftrightarrow>
     (k = ''enum'' \<longrightarrow> j \<in> set vs) \<and>
     (k = ''required'' \<longrightarrow> list_all (\<lambda>v. case (j, v) of (JObj ms, JStr name) \<Rightarrow> name \<in> fst ` set ms | _ \<Rightarrow> True) vs)"
| "keyword k v j \<longleftrightarrow> True"

function conforms :: "json \<Rightarrow> json \<Rightarrow> bool" where
  "conforms (JObj ms) j \<longleftrightarrow>
     (\<forall>(k, v) \<in> set ms.
        keyword k v j \<and>
        (k = ''items'' \<longrightarrow> (case j of JArr xs \<Rightarrow> \<forall>x \<in> set xs. conforms v x | _ \<Rightarrow> True)) \<and>
        (k = ''properties'' \<longrightarrow>
           (case v of JObj ps \<Rightarrow> \<forall>(p, s) \<in> set ps. (case member j p of Some x \<Rightarrow> conforms s x | None \<Rightarrow> True) | _ \<Rightarrow> True)))"
| "conforms JNull j = True" | "conforms (JBool b) j = True" | "conforms (JNum n) j = True" | "conforms (JFloat f) j = True"
| "conforms (JStr s) j = True" | "conforms (JArr xs) j = True"
  by pat_completeness auto

lemma size_pair: "(k, v) \<in> set ms \<Longrightarrow> size v < Suc (size_list (size_prod (\<lambda>x. 0) size) ms)"
  by (induction ms) auto

termination conforms
  by (relation "measure (size \<circ> fst)") (auto dest!: size_pair)

text \<open>A value that conforms to an object, an array, a string, an enumeration.\<close>

lemma conforms_object_schema:
  "conforms (object_schema ps required) j \<longleftrightarrow>
     (\<exists>ms. j = JObj ms \<and> set required \<subseteq> fst ` set ms \<and>
        (\<forall>(p, s) \<in> set ps. case member j p of Some x \<Rightarrow> conforms s x | None \<Rightarrow> True))"
  by (cases j) (auto simp: object_schema_def string_array_def list_all_iff)

lemma conforms_simple:
  "conforms (described t d) j \<longleftrightarrow> has_type t j" "conforms (schema_of_type t) j \<longleftrightarrow> has_type t j"
  "conforms (with_member ''description'' (JStr d) (object_schema ps required)) j \<longleftrightarrow> conforms (object_schema ps required) j"
  by (auto simp: described_def schema_of_type_def with_member_def object_schema_def)

lemma has_string_type: "has_type ''string'' j \<longleftrightarrow> (\<exists>s. j = JStr s)"
  by (cases j) simp_all

lemma conforms_enum:
  "conforms (with_member ''enum'' (string_array ss) (described ''string'' d)) j \<longleftrightarrow> (\<exists>s \<in> set ss. j = JStr s)"
  "conforms (with_member ''enum'' (string_array ss) (schema_of_type ''string'')) j \<longleftrightarrow> (\<exists>s \<in> set ss. j = JStr s)"
  by (auto simp: with_member_def described_def schema_of_type_def string_array_def has_string_type)

lemma keyword_other: "k \<notin> {''type'', ''enum'', ''required''} \<Longrightarrow> keyword k v j"
  by (cases v) simp_all

lemma conforms_array:
  "conforms (array_schema d items) j \<longleftrightarrow> (\<exists>xs. j = JArr xs \<and> (\<forall>x \<in> set xs. conforms items x))"
  by (cases j) (auto simp: array_schema_def with_member_def described_def keyword_other)

section \<open>What a schema asks for can be read\<close>

definition reads :: "json \<Rightarrow> (json \<Rightarrow> 'a option) \<Rightarrow> bool" where
  "reads schema dec \<longleftrightarrow> (\<forall>j. conforms schema j \<longrightarrow> dec j \<noteq> None)"

lemma reads_string: "reads (described ''string'' d) as_string" "reads (schema_of_type ''string'') as_string"
  by (auto simp: reads_def conforms_simple has_string_type)

lemma reads_enum:
  assumes "set ss \<subseteq> name ` set ts"
  shows "reads (with_member ''enum'' (string_array ss) (described ''string'' d)) (enum_of_json name ts)"
    "reads (with_member ''enum'' (string_array ss) (schema_of_type ''string'')) (enum_of_json name ts)"
proof -
  have "find (\<lambda>t. name t = s) ts \<noteq> None" if "s \<in> set ss" for s
    using assms that by (auto simp: find_None_iff)
  then show "reads (with_member ''enum'' (string_array ss) (described ''string'' d)) (enum_of_json name ts)"
    "reads (with_member ''enum'' (string_array ss) (schema_of_type ''string'')) (enum_of_json name ts)"
    by (auto simp: reads_def conforms_enum enum_of_json_def)
qed

lemma decode_all_total: "(\<And>x. x \<in> set xs \<Longrightarrow> f x \<noteq> None) \<Longrightarrow> decode_all f xs \<noteq> None"
  by (induction xs) (auto split: option.split)

lemma reads_array: "reads items dec \<Longrightarrow> reads (array_schema d items) (array_of dec)"
  using decode_all_total [of _ dec] by (fastforce simp: reads_def conforms_array array_of_def)

lemma conforms_member:
  "conforms (object_schema ps required) j \<Longrightarrow> map_of ps k = Some schema \<Longrightarrow> member j k = Some x \<Longrightarrow> conforms schema x"
proof -
  assume "conforms (object_schema ps required) j" "map_of ps k = Some schema" "member j k = Some x"
  moreover from this(2) have "(k, schema) \<in> set ps" by (rule map_of_SomeD)
  ultimately show ?thesis by (fastforce simp: conforms_object_schema)
qed

lemma reads_req_member:
  assumes "conforms (object_schema ps required) j" and "map_of ps k = Some schema" and "k \<in> set required" and "reads schema dec"
  shows "req_member j k dec \<noteq> None"
proof -
  from assms(1) obtain ms where j: "j = JObj ms" "set required \<subseteq> fst ` set ms" by (auto simp: conforms_object_schema)
  with assms(3) obtain x where x: "member j k = Some x" by (cases "map_of ms k") (auto simp: map_of_eq_None_iff)
  with conforms_member [OF assms(1,2) x] assms(4) show ?thesis by (simp add: req_member_def reads_def)
qed

lemma reads_nullable_member:
  assumes "conforms (object_schema ps required) j" and "map_of ps k = Some schema" and "reads schema dec"
  shows "nullable_member j k dec \<noteq> None"
proof (cases "member j k")
  case (Some x)
  with conforms_member [OF assms(1,2) Some] assms(3) have "dec x \<noteq> None" by (simp add: reads_def)
  with Some show ?thesis by (cases x) (auto simp: nullable_member_def)
qed (simp add: nullable_member_def)

lemma conforms_object_is_object: "conforms (object_schema ps required) j \<Longrightarrow> \<exists>ms. j = JObj ms"
  by (auto simp: conforms_object_schema)

lemma reads_v1_entity: "reads v1_entity_schema v1_entity_of_json"
  unfolding reads_def
proof (intro allI impI)
  fix j
  assume "conforms v1_entity_schema j"
  note c = this [unfolded v1_entity_schema_def]
  note r = reads_req_member [OF c]
  have "req_member j ''name'' as_string \<noteq> None" "req_member j ''description'' as_string \<noteq> None"
    by (rule r, simp, simp, rule reads_string)+
  moreover have "req_member j ''type'' (enum_of_json (\<lambda>s. s) v1_entity_types) \<noteq> None"
    by (rule r, simp, simp, rule reads_enum, simp)
  ultimately show "v1_entity_of_json j \<noteq> None"
    using conforms_object_is_object [OF c] by (auto simp: v1_entity_of_json_def)
qed

lemma reads_v1_account: "reads v1_account_schema v1_account_of_json"
  unfolding reads_def
proof (intro allI impI)
  fix j
  assume "conforms v1_account_schema j"
  note c = this [unfolded v1_account_schema_def]
  note r = reads_req_member [OF c]
  have "req_member j ''display_name'' as_string \<noteq> None" "req_member j ''handle'' as_string \<noteq> None"
    by (rule r, simp, simp, rule reads_string)+
  moreover have "req_member j ''platform'' (enum_of_json (\<lambda>s. s) v1_platforms) \<noteq> None"
    by (rule r, simp, simp, rule reads_enum, simp)
  ultimately show "v1_account_of_json j \<noteq> None"
    using conforms_object_is_object [OF c] by (auto simp: v1_account_of_json_def)
qed

lemma reads_v1: "reads v1_make_schema v1_from_raw_json"
  unfolding reads_def
proof (intro allI impI)
  fix j
  assume "conforms v1_make_schema j"
  note c = this [unfolded v1_make_schema_def]
  note r = reads_req_member [OF c]
  have "req_member j ''summary'' as_string \<noteq> None" "req_member j ''details'' as_string \<noteq> None"
    by (rule r, simp, simp, rule reads_string)+
  moreover have "req_member j ''suggested_searches'' (array_of as_string) \<noteq> None"
    by (rule r, simp, simp, rule reads_array, rule reads_string)
  moreover have "req_member j ''entities'' (array_of v1_entity_of_json) \<noteq> None"
    by (rule r, simp, simp, rule reads_array, rule reads_v1_entity)
  moreover have "req_member j ''social_media_accounts'' (array_of v1_account_of_json) \<noteq> None"
    by (rule r, simp, simp, rule reads_array, rule reads_v1_account)
  ultimately show "v1_from_raw_json j \<noteq> None"
    using conforms_object_is_object [OF c] by (auto simp: v1_from_raw_json_def v1_fields_def)
qed

lemma reads_v2_link: "reads v2_link_schema link_of_json"
  unfolding reads_def
proof (intro allI impI)
  fix j
  assume "conforms v2_link_schema j"
  note c = this [unfolded v2_link_schema_def conforms_simple]
  have "req_member j ''platform'' (enum_of_json platform_as_ref all_platforms) \<noteq> None"
    by (rule reads_req_member [OF c], simp, simp, rule reads_enum, simp)
  moreover have "nullable_member j ''display_name'' as_string \<noteq> None" "nullable_member j ''handle'' as_string \<noteq> None"
    by (rule reads_nullable_member [OF c], simp, rule reads_string)+
  ultimately show "link_of_json j \<noteq> None"
    using conforms_object_is_object [OF c] by (auto simp: link_of_json_def)
qed

lemma reads_v2_entity: "reads v2_entity_schema entity_of_json"
  unfolding reads_def
proof (intro allI impI)
  fix j
  assume "conforms v2_entity_schema j"
  note c = this [unfolded v2_entity_schema_def]
  note r = reads_req_member [OF c] and n = reads_nullable_member [OF c]
  have "req_member j ''name'' as_string \<noteq> None"
    by (rule r, simp, simp, rule reads_string)
  moreover have "req_member j ''type'' (enum_of_json entity_type_as_ref all_entity_types) \<noteq> None"
    by (rule r, simp, simp, rule reads_enum, simp)
  moreover have "nullable_member j ''search_query'' as_string \<noteq> None" "nullable_member j ''description'' as_string \<noteq> None"
    by (rule n, simp, rule reads_string)+
  moreover have "nullable_member j ''platform_link'' link_of_json \<noteq> None"
    by (rule n, simp, rule reads_v2_link)
  ultimately show "entity_of_json j \<noteq> None"
    using conforms_object_is_object [OF c] by (auto simp: entity_of_json_def)
qed

lemma reads_v2: "reads v2_make_schema from_raw_json"
  unfolding reads_def
proof (intro allI impI)
  fix j
  assume "conforms v2_make_schema j"
  note c = this [unfolded v2_make_schema_def]
  note r = reads_req_member [OF c]
  have "req_member j ''summary'' as_string \<noteq> None" "req_member j ''details'' as_string \<noteq> None"
    by (rule r, simp, simp, rule reads_string)+
  moreover have "req_member j ''suggested_searches'' (array_of as_string) \<noteq> None"
    by (rule r, simp, simp, rule reads_array, rule reads_string)
  moreover have "req_member j ''entities'' (array_of entity_of_json) \<noteq> None"
    by (rule r, simp, simp, rule reads_array, rule reads_v2_entity)
  ultimately show "from_raw_json j \<noteq> None"
    using conforms_object_is_object [OF c] by (auto simp: from_raw_json_def)
qed

lemma illuminate_reads:
  assumes "reads (response_schema version) parse"
    and "\<And>n q inf out. infer P n q = Inr inf \<Longrightarrow> oc_output inf = Inr out \<Longrightarrow> conforms (response_schema (iq_version q)) out"
    and "fst (illuminate P version parse capture model_id thinking w) = Inr oc" and "oc_output oc = Inl e"
  shows "\<exists>n q inf. infer P n q = Inr inf \<and> oc_output inf = Inl e"
proof -
  have parsed: "parse out \<noteq> None" if "infer P n q = Inr inf" "oc_output inf = Inr out" "iq_version q = version" for n q inf out
    using assms(1,2) that by (auto simp: reads_def)
  obtain n q inf where run: "infer P n q = Inr inf" "iq_version q = version"
    "oc_output oc = (case oc_output inf of Inl e \<Rightarrow> Inl e | Inr out \<Rightarrow> (case parse out of Some x \<Rightarrow> Inr x
       | None \<Rightarrow> Inl (with_context (''Failed to parse '' @ version_digit version @ '' illumination for capture '' @ show_int (ci_id capture))
           (anyhow_msg (serde_error_text P out)))))"
    using assms(3) by (auto simp: illuminate_def call_out_def runs split: list.splits sum.splits)
  with assms(4) parsed [OF run(1) _ run(2)] show ?thesis
    by (cases "oc_output inf") (auto split: option.splits)
qed

lemma illuminate_keeps_answer:
  assumes "fst (illuminate P version parse capture model_id thinking w) = Inr oc" and "oc_output oc = Inr x"
  shows "\<exists>n q inf out. infer P n q = Inr inf \<and> oc_output inf = Inr out \<and> parse out = Some x"
  using assms by (fastforce simp: illuminate_def call_out_def runs split: list.splits sum.splits option.splits)

lemma parsed_keeps_answer: "v1_from_raw_json out = Some x \<Longrightarrow> x = out" "from_raw_json out = Some y \<Longrightarrow> lm_raw_json y = out"
  by (auto simp: v1_from_raw_json_def from_raw_json_def split: bind_splits option.splits)

text \<open>
  C29: a model that follows the response schema is understood. If every answer conforms to the
  schema sent with its request, an illumination fails only where storage or the model fails: no
  answer is refused as unreadable, in either version; and what is kept is the model's answer.
\<close>

theorem conforming_answers_are_read:
  assumes "\<And>n q inf out. infer P n q = Inr inf \<Longrightarrow> oc_output inf = Inr out \<Longrightarrow> conforms (response_schema (iq_version q)) out"
  shows "(\<forall>oc. fst (illuminate P V1 v1_from_raw_json capture model_id thinking w) = Inr oc \<longrightarrow>
      (\<exists>n q inf. infer P n q = Inr inf \<and> oc_output inf = oc_output oc)) \<and>
    (\<forall>oc. fst (illuminate P V2 from_raw_json capture model_id thinking w) = Inr oc \<longrightarrow>
      (\<exists>n q inf. infer P n q = Inr inf \<and> oc_output inf = map_sum id lm_raw_json (oc_output oc)))"
proof (intro conjI allI impI)
  fix oc
  assume run: "fst (illuminate P V1 v1_from_raw_json capture model_id thinking w) = Inr oc"
  show "\<exists>n q inf. infer P n q = Inr inf \<and> oc_output inf = oc_output oc"
    using illuminate_reads [OF _ assms run] illuminate_keeps_answer [OF run] parsed_keeps_answer(1) reads_v1
    by (cases "oc_output oc") (simp_all, blast)
next
  fix oc
  assume run: "fst (illuminate P V2 from_raw_json capture model_id thinking w) = Inr oc"
  show "\<exists>n q inf. infer P n q = Inr inf \<and> oc_output inf = map_sum id lm_raw_json (oc_output oc)"
    using illuminate_reads [OF _ assms run] illuminate_keeps_answer [OF run] parsed_keeps_answer(2) reads_v2
    by (cases "oc_output oc") (simp_all, blast)
qed

section \<open>Example\<close>

fun demo_answer :: "IlluminationVersion \<Rightarrow> json" where
  "demo_answer V1 = JObj [(''summary'', JStr ''s''), (''details'', JStr ''d''), (''suggested_searches'', JArr []),
     (''entities'', JArr []), (''social_media_accounts'', JArr [])]"
| "demo_answer V2 = JObj [(''summary'', JStr ''s''), (''details'', JStr ''d''), (''suggested_searches'', JArr [JStr ''q'']),
     (''entities'', JArr [JObj [(''name'', JStr ''n''), (''type'', JStr ''meme''),
        (''platform_link'', JObj [(''platform'', JStr ''reddit''), (''handle'', JStr ''h'')])]]), (''extra'', JNull)]"

definition demo_model :: "nat \<Rightarrow> InferenceRequest \<Rightarrow> anyhow + json InferenceOutcome" where
  "demo_model = (\<lambda>_ q. Inr \<lparr>oc_output = Inr (demo_answer (iq_version q)),
     oc_metadata = \<lparr>me_tokens_in = None, me_tokens_in_cached = None, me_tokens_out = None, me_tokens_thought = None,
       me_provider_name = ''p'', me_backend_name = ''b'', me_model_id = ''m'', me_duration_ms = 1, me_params = [],
       me_provider_metadata = []\<rparr>,
     oc_http_status_code = Some 200\<rparr>)"

definition demo_shown :: CaptureInfo where
  "demo_shown = \<lparr>ci_id = 1, ci_user_id = 7, ci_created_at = 0, ci_created_at_human = [], ci_archived_at = None,
     ci_medias = [\<lparr>mi_id = 1, mi_storage_uuid = ''u'', mi_url = [], mi_mime_type = None, mi_hash_blake3 = None,
       mi_storage_provider = ''local'', mi_storage_bucket = None, mi_storage_shard = ''s'', mi_storage_extension = None\<rparr>],
     ci_illuminations = [], ci_annotation = None\<rparr>"

lemma demo_answer_conforms: "conforms (response_schema version) (demo_answer version)"
proof -
  have "conforms (response_schema V1) (demo_answer V1)" "conforms (response_schema V2) (demo_answer V2)" by code_simp+
  then show ?thesis by (cases version) metis+
qed

theorem conforming_answers_are_read_witness:
  "\<exists>oc x. fst (illuminate (demo_providers\<lparr>infer := demo_model\<rparr>) V2 from_raw_json demo_shown ''m'' None empty_world) = Inr oc \<and>
     oc_output oc = Inr x"
proof -
  let ?P = "demo_providers\<lparr>infer := demo_model\<rparr>"
  have read: "\<forall>oc. fst (illuminate ?P V2 from_raw_json demo_shown ''m'' None empty_world) = Inr oc \<longrightarrow>
      (\<exists>n q inf. infer ?P n q = Inr inf \<and> oc_output inf = map_sum id lm_raw_json (oc_output oc))"
    by (rule conforming_answers_are_read [THEN conjunct2]) (auto simp: demo_model_def demo_answer_conforms)
  have "\<not> isl (fst (illuminate ?P V2 from_raw_json demo_shown ''m'' None empty_world))"
    by (simp add: illuminate_def demo_shown_def call_out_def runs demo_model_def demo_providers_def)
  then obtain oc where oc: "fst (illuminate ?P V2 from_raw_json demo_shown ''m'' None empty_world) = Inr oc"
    by (cases "fst (illuminate ?P V2 from_raw_json demo_shown ''m'' None empty_world)") auto
  with read obtain n q inf where "infer ?P n q = Inr inf" "oc_output inf = map_sum id lm_raw_json (oc_output oc)" by blast
  then have "map_sum id lm_raw_json (oc_output oc) = Inr (demo_answer (iq_version q))" by (auto simp: demo_model_def)
  with oc show ?thesis by (cases "oc_output oc") auto
qed

end
