(* ===== verification/Db_Tools.thy ===== *)
theory Db_Tools
  imports Cli Config
begin

text \<open>
  \<open>bin/dreamscroll_db.rs\<close>, \<open>util_cmds/db/*.rs\<close> and \<open>database/*.rs\<close>: the tool that works on the database
  itself. Next to the rows, a database has a schema: the marker of its version, the indexes the
  program manages by hand, and what the schema registry of the library maintains. The registry,
  the driver's connection and the failure of a statement are arguments.
\<close>

section \<open>Connection\<close>

record PostgresConfig =
  pc_host_port :: string
  pc_user :: string
  pc_password :: string
  pc_connection_params :: "string option"
  pc_db :: string

definition make_postgres :: "((string \<rightharpoonup> string) \<Rightarrow> string) \<Rightarrow> (string \<rightharpoonup> string) \<Rightarrow> anyhow + PostgresConfig" where
  "make_postgres envy_error vars =
     (case do {
        host_port \<leftarrow> required vars ''postgres_host_port'' Some;
        user \<leftarrow> required vars ''postgres_user'' Some;
        password \<leftarrow> required vars ''postgres_password'' Some;
        params \<leftarrow> optional vars ''postgres_connection_params'' Some;
        db \<leftarrow> required vars ''postgres_db'' Some;
        Some \<lparr>pc_host_port = host_port, pc_user = user, pc_password = password, pc_connection_params = params, pc_db = db\<rparr>
      } of
        None \<Rightarrow> Inl (with_context ''Failed to load Postgres config (missing required env vars or invalid values)''
          (anyhow_msg (envy_error vars)))
      | Some cfg \<Rightarrow> Inr cfg)"

definition make_database_url :: "string \<Rightarrow> string \<Rightarrow> string \<Rightarrow> string \<Rightarrow> string option \<Rightarrow> string option \<Rightarrow> bool \<Rightarrow> string" where
  "make_database_url user password host_port db connection_params schema redacted =
     (let query_params = (case connection_params of Some p \<Rightarrow> [p] | None \<Rightarrow> [])
            @ (case schema of Some s \<Rightarrow> [''options=-csearch_path%3D'' @ s] | None \<Rightarrow> []);
          query = (if query_params = [] then [] else ''?'' @ join ''&'' query_params)
      in ''postgres://'' @ user @ '':'' @ (if redacted then ''<REDACTED>'' else password) @ ''@'' @ host_port @ ''/'' @ db @ query)"

definition make_url_from_config :: "Config \<Rightarrow> string option \<Rightarrow> bool \<Rightarrow> string" where
  "make_url_from_config cfg schema redacted =
     make_database_url (cf_postgres_user cfg) (cf_postgres_password cfg) (cf_postgres_host_port cfg) (cf_postgres_db cfg)
       (cf_postgres_connection_params cfg) schema redacted"

definition postgres_url :: "PostgresConfig \<Rightarrow> string" where
  "postgres_url cfg = make_database_url (pc_user cfg) (pc_password cfg) (pc_host_port cfg) (pc_db cfg) (pc_connection_params cfg) None False"

text \<open>The URL that is logged does not depend on the password.\<close>

lemma redacted_url: "make_database_url user password host_port db params schema True = make_database_url user password' host_port db params schema True"
  by (simp add: make_database_url_def)

section \<open>The schema\<close>

text \<open>
  The marker is \<open>None\<close> without its table, \<open>Some None\<close> without its row.
\<close>

record 'm deployment =
  dp_tick :: nat
  dp_marker :: "int option option"
  dp_indexes :: "string list"
  dp_models :: 'm
  dp_world :: world

record 'm schema_env =
  se_fault :: "nat \<Rightarrow> db_err option"
  se_registry :: "'m \<times> string list \<Rightarrow> db_err + 'm \<times> string list"

definition query_schema :: "'m schema_env \<Rightarrow> ('m deployment \<Rightarrow> 'a) \<Rightarrow> ('m deployment, db_err, 'a) comp" where
  "query_schema S q = (\<lambda>d.
     (case se_fault S (dp_tick d) of Some e \<Rightarrow> Inl e | None \<Rightarrow> Inr (q d), d\<lparr>dp_tick := Suc (dp_tick d)\<rparr>))"

definition ddl :: "'m schema_env \<Rightarrow> ('m deployment \<Rightarrow> 'm deployment) \<Rightarrow> ('m deployment, db_err, unit) comp" where
  "ddl S f = bindM (query_schema S (\<lambda>d. ())) (\<lambda>_. modifyM f)"

definition schema_transaction :: "'m schema_env \<Rightarrow> ('m deployment, db_err, unit) comp \<Rightarrow> ('m deployment, db_err, unit) comp" where
  "schema_transaction S body = (\<lambda>d.
     case bindM (ddl S id) (\<lambda>_. bindM body (\<lambda>_. ddl S id)) d of
       (Inl e, d') \<Rightarrow> (Inl e, d\<lparr>dp_tick := dp_tick d'\<rparr>)
     | (Inr _, d') \<Rightarrow> (Inr (), d'))"

definition REQUIRED_SCHEMA_VERSION :: int where
  "REQUIRED_SCHEMA_VERSION = 8"

record ManualIndexOperation =
  mx_index :: string
  mx_drop_before_schema_sync :: bool

definition TASK_RUN_INDEXES :: "ManualIndexOperation list" where
  "TASK_RUN_INDEXES =
     [\<lparr>mx_index = ''idx-task_runs-backfill_task'', mx_drop_before_schema_sync = True\<rparr>,
      \<lparr>mx_index = ''idx-task_runs-backfill_status'', mx_drop_before_schema_sync = False\<rparr>]"

definition drop_index :: "'m schema_env \<Rightarrow> string \<Rightarrow> ('m deployment, db_err, unit) comp" where
  "drop_index S i = ddl S (\<lambda>d. d\<lparr>dp_indexes := filter (\<lambda>j. j \<noteq> i) (dp_indexes d)\<rparr>)"

definition create_index :: "'m schema_env \<Rightarrow> string \<Rightarrow> ('m deployment, db_err, unit) comp" where
  "create_index S i = ddl S (\<lambda>d. d\<lparr>dp_indexes := List.insert i (dp_indexes d)\<rparr>)"

definition before_schema_sync :: "'m schema_env \<Rightarrow> ('m deployment, db_err, unit) comp" where
  "before_schema_sync S =
     forM TASK_RUN_INDEXES (\<lambda>i. if mx_drop_before_schema_sync i then drop_index S (mx_index i) else returnM ())"

definition after_schema_sync :: "'m schema_env \<Rightarrow> ('m deployment, db_err, unit) comp" where
  "after_schema_sync S = forM TASK_RUN_INDEXES (\<lambda>i. create_index S (mx_index i))"

definition inference_meta_after_schema_sync :: "'m schema_env \<Rightarrow> ('m deployment, db_err, unit) comp" where
  "inference_meta_after_schema_sync S = create_index S ''idx-inference_metas-task_attempt''"

definition registry_sync :: "'m schema_env \<Rightarrow> ('m deployment, db_err, unit) comp" where
  "registry_sync S = bindM (query_schema S (\<lambda>d. se_registry S (dp_models d, dp_indexes d))) (\<lambda>r.
     case r of
       Inl e \<Rightarrow> throwM e
     | Inr (models, indexes) \<Rightarrow> modifyM (\<lambda>d. d\<lparr>dp_models := models, dp_indexes := indexes\<rparr>))"

definition refuse_newer :: "'m schema_env \<Rightarrow> ('m deployment, db_err, unit) comp" where
  "refuse_newer S =
     bindM (query_schema S (\<lambda>d. dp_marker d \<noteq> None)) (\<lambda>marked.
     if \<not> marked then returnM ()
     else bindM (query_schema S (\<lambda>d. Option.bind (dp_marker d) id)) (\<lambda>marker.
       case marker of
         Some applied_version \<Rightarrow>
           if REQUIRED_SCHEMA_VERSION < applied_version
           then throwM (DbOther (''Custom Error: database schema version '' @ show_int applied_version
             @ '' is newer than this binary'' @ [CHR 0x27] @ ''s required version '' @ show_int REQUIRED_SCHEMA_VERSION
             @ ''; refusing to sync''))
           else returnM ()
       | None \<Rightarrow> returnM ()))"

definition record_version :: "'m schema_env \<Rightarrow> ('m deployment, db_err, unit) comp" where
  "record_version S =
     bindM (ddl S (\<lambda>d. if dp_marker d = None then d\<lparr>dp_marker := Some None\<rparr> else d)) (\<lambda>_.
     ddl S (\<lambda>d. d\<lparr>dp_marker := Some (Some REQUIRED_SCHEMA_VERSION)\<rparr>))"

text \<open>The body of the transaction; its first statement takes the advisory lock.\<close>

definition sync_steps :: "'m schema_env \<Rightarrow> ('m deployment, db_err, unit) comp" where
  "sync_steps S =
     bindM (ddl S id) (\<lambda>_.
     bindM (refuse_newer S) (\<lambda>_.
     bindM (before_schema_sync S) (\<lambda>_.
     bindM (registry_sync S) (\<lambda>_.
     bindM (after_schema_sync S) (\<lambda>_.
     bindM (inference_meta_after_schema_sync S) (\<lambda>_.
     record_version S))))))"

definition sync_schema :: "'m schema_env \<Rightarrow> ('m deployment, anyhow, unit) comp" where
  "sync_schema S = map_errM anyhow_of_db (schema_transaction S (sync_steps S))"

definition check_schema_version :: "'m schema_env \<Rightarrow> ('m deployment, anyhow, unit) comp" where
  "check_schema_version S =
     bindM (map_errM anyhow_of_db (query_schema S (\<lambda>d. dp_marker d \<noteq> None))) (\<lambda>marked.
     if \<not> marked then throwM (anyhow_msg ''database schema version is missing; run `dreamscroll_db sync_schema`'')
     else bindM (map_errM anyhow_of_db (query_schema S (\<lambda>d. Option.bind (dp_marker d) id))) (\<lambda>row.
       case row of
         None \<Rightarrow> throwM (anyhow_msg ''database schema version row is missing; run `dreamscroll_db sync_schema`'')
       | Some applied_version \<Rightarrow>
           if applied_version < REQUIRED_SCHEMA_VERSION
           then throwM (anyhow_msg (''database schema version '' @ show_int applied_version @ '' is below required version ''
             @ show_int REQUIRED_SCHEMA_VERSION @ ''; run `dreamscroll_db sync_schema`''))
           else returnM ()))"

text \<open>What one statement does, and that a failed one changes nothing but the tick.\<close>

lemma run_query_schema [runs]:
  "query_schema S q d = (case se_fault S (dp_tick d) of Some e \<Rightarrow> Inl e | None \<Rightarrow> Inr (q d), d\<lparr>dp_tick := Suc (dp_tick d)\<rparr>)"
  by (simp add: query_schema_def)

lemma run_ddl [runs]:
  "ddl S f d = (case se_fault S (dp_tick d) of
     Some e \<Rightarrow> (Inl e, d\<lparr>dp_tick := Suc (dp_tick d)\<rparr>)
   | None \<Rightarrow> (Inr (), f (d\<lparr>dp_tick := Suc (dp_tick d)\<rparr>)))"
  by (simp add: ddl_def runs split: option.split)

lemma schema_transaction_rolls_back:
  "schema_transaction S body d = (Inl e, d') \<Longrightarrow> \<exists>n. d' = d\<lparr>dp_tick := n\<rparr>"
  by (auto simp: schema_transaction_def split: prod.splits sum.splits)

definition managed_indexes :: "string list" where
  "managed_indexes = map mx_index TASK_RUN_INDEXES @ [''idx-inference_metas-task_attempt'']"

text \<open>What holds after each step of a synchronisation that got that far.\<close>

definition reaches :: "('d \<Rightarrow> bool) \<Rightarrow> ('d, 'e, 'a) comp \<Rightarrow> ('d \<Rightarrow> bool) \<Rightarrow> bool" where
  "reaches P m Q \<longleftrightarrow> triple P m (\<lambda>_. Q) (\<lambda>_ _. True)"

lemma reaches_bindM: "reaches P m Q \<Longrightarrow> (\<And>x. reaches Q (k x) R) \<Longrightarrow> reaches P (bindM m k) R"
  unfolding reaches_def by (rule triple_bindM) auto

lemma reaches_ddl: "(\<And>d. P d \<Longrightarrow> Q (f (d\<lparr>dp_tick := Suc (dp_tick d)\<rparr>))) \<Longrightarrow> reaches P (ddl S f) Q"
  by (auto simp: reaches_def triple_def runs split: option.split)

lemma after_sync_indexes:
  "reaches (\<lambda>_. True) (bindM (after_schema_sync S) (\<lambda>_. inference_meta_after_schema_sync S)) (\<lambda>d. set managed_indexes \<subseteq> set (dp_indexes d))"
  unfolding after_schema_sync_def inference_meta_after_schema_sync_def create_index_def TASK_RUN_INDEXES_def managed_indexes_def
  by (auto simp: reaches_def triple_def runs split: option.split)

lemma reaches_True: "reaches P m (\<lambda>_. True)"
  by (auto simp: reaches_def triple_def split: prod.split sum.split)

lemma sync_steps_reach:
  "reaches (\<lambda>_. True) (sync_steps S)
     (\<lambda>d. dp_marker d = Some (Some REQUIRED_SCHEMA_VERSION) \<and> set managed_indexes \<subseteq> set (dp_indexes d))"
    (is "reaches _ _ ?done")
proof -
  have "reaches (\<lambda>d. set managed_indexes \<subseteq> set (dp_indexes d)) (record_version S) ?done"
    unfolding record_version_def
    by (rule reaches_bindM [where Q = "\<lambda>d. set managed_indexes \<subseteq> set (dp_indexes d)"]; rule reaches_ddl; simp)
  from reaches_bindM [OF after_sync_indexes this]
  have rest: "reaches (\<lambda>_. True) (bindM (after_schema_sync S) (\<lambda>_. bindM (inference_meta_after_schema_sync S) (\<lambda>_. record_version S))) ?done"
    by (simp only: bindM_assoc)
  note skip = reaches_bindM [OF reaches_True]
  show ?thesis
    unfolding sync_steps_def by (rule skip, rule skip, rule skip, rule skip, rule rest)
qed

lemma newer_never_synced: "reaches (\<lambda>d. \<exists>v > REQUIRED_SCHEMA_VERSION. dp_marker d = Some (Some v)) (sync_steps S) (\<lambda>_. False)"
proof -
  have stuck: "reaches (\<lambda>_. False) k (\<lambda>_. False)" for k :: "('m deployment, db_err, unit) comp"
    by (simp add: reaches_def triple_def)
  have "reaches (\<lambda>d. \<exists>v > REQUIRED_SCHEMA_VERSION. dp_marker d = Some (Some v)) (refuse_newer S) (\<lambda>_. False)"
    by (auto simp: reaches_def triple_def refuse_newer_def runs split: option.split)
  then show ?thesis
    unfolding sync_steps_def
    by (intro reaches_bindM [where Q = "\<lambda>d. \<exists>v > REQUIRED_SCHEMA_VERSION. dp_marker d = Some (Some v)"] reaches_ddl
        reaches_bindM [OF _ stuck]) simp_all
qed

lemma schema_transaction_commits:
  assumes "reaches P body Q" and "schema_transaction S body d = (Inr x, d')" and "\<And>n d. P (d\<lparr>dp_tick := n\<rparr>) \<longleftrightarrow> P d"
    and "\<And>n d. Q (d\<lparr>dp_tick := n\<rparr>) \<longleftrightarrow> Q d" and "P d"
  shows "Q d'"
proof -
  obtain n d2 m where run: "body (d\<lparr>dp_tick := n\<rparr>) = (Inr (), d2)" and d': "d' = d2\<lparr>dp_tick := m\<rparr>"
    using assms(2) by (auto simp: schema_transaction_def runs split: prod.splits sum.splits option.splits)
  have "Q d2" using run assms(1) assms(3) [of n d] assms(5) by (auto simp: reaches_def triple_def)
  with d' assms(4) show ?thesis by simp
qed

lemma sync_schema_runs:
  "sync_schema S d = (map_sum anyhow_of_db id (fst (schema_transaction S (sync_steps S) d)), snd (schema_transaction S (sync_steps S) d))"
  by (cases "schema_transaction S (sync_steps S) d"; cases "fst (schema_transaction S (sync_steps S) d)") (auto simp: sync_schema_def runs)

lemma sync_schema_succeeds:
  assumes "sync_schema S d = (Inr (), d')"
  shows "dp_marker d' = Some (Some REQUIRED_SCHEMA_VERSION) \<and> set managed_indexes \<subseteq> set (dp_indexes d')"
    and "\<not> (\<exists>v > REQUIRED_SCHEMA_VERSION. dp_marker d = Some (Some v))"
proof -
  have "fst (schema_transaction S (sync_steps S) d) = Inr ()" "snd (schema_transaction S (sync_steps S) d) = d'"
    using assms by (cases "fst (schema_transaction S (sync_steps S) d)"; simp add: sync_schema_runs)+
  then have run: "schema_transaction S (sync_steps S) d = (Inr (), d')" by (simp add: prod_eq_iff)
  show "dp_marker d' = Some (Some REQUIRED_SCHEMA_VERSION) \<and> set managed_indexes \<subseteq> set (dp_indexes d')"
    using schema_transaction_commits [OF sync_steps_reach run] by simp
  show "\<not> (\<exists>v > REQUIRED_SCHEMA_VERSION. dp_marker d = Some (Some v))"
    using schema_transaction_commits [OF newer_never_synced run] by auto
qed

lemma sync_schema_fails: "sync_schema S d = (Inl e, d') \<Longrightarrow> \<exists>n. d' = d\<lparr>dp_tick := n\<rparr>"
  by (cases "fst (schema_transaction S (sync_steps S) d)")
    (auto simp: sync_schema_runs intro!: schema_transaction_rolls_back [of S "sync_steps S"] prod_eqI)

definition returns :: "('d, 'e, 'a) comp \<Rightarrow> bool" where
  "returns m \<longleftrightarrow> (\<forall>d. \<not> isl (fst (m d)))"

lemma returns_comp: "returns (returnM x)" "returns (modifyM f)" "returns m \<Longrightarrow> (\<And>x. returns (k x)) \<Longrightarrow> returns (bindM m k)"
  by (auto simp: returns_def runs split: sum.split prod.split) (metis fst_conv isl_def)

lemma sync_schema_without_faults:
  assumes "se_fault S = (\<lambda>_. None)" and "\<And>x. \<not> isl (se_registry S x)"
    and "\<not> (\<exists>v > REQUIRED_SCHEMA_VERSION. dp_marker d = Some (Some v))"
  shows "fst (sync_schema S d) = Inr ()"
proof -
  define rest where "rest = bindM (before_schema_sync S) (\<lambda>_. bindM (registry_sync S) (\<lambda>_. bindM (after_schema_sync S) (\<lambda>_.
      bindM (inference_meta_after_schema_sync S) (\<lambda>_. record_version S))))"
  have ddl: "returns (ddl S f)" for f by (simp add: returns_def runs assms(1))
  have "returns (registry_sync S)"
    using assms(2) by (auto simp: returns_def registry_sync_def runs assms(1) split: sum.split) (metis sum.disc(1))
  then have rest: "returns rest"
    unfolding rest_def before_schema_sync_def after_schema_sync_def inference_meta_after_schema_sync_def record_version_def
      drop_index_def create_index_def TASK_RUN_INDEXES_def
    by (auto intro!: returns_comp ddl)
  have checked: "fst (refuse_newer S (d\<lparr>dp_tick := n\<rparr>)) = Inr ()" for n
  proof -
    consider "dp_marker d = None" | "dp_marker d = Some None" | v where "dp_marker d = Some (Some v)" "v \<le> REQUIRED_SCHEMA_VERSION"
      using assms(3) by (metis option.exhaust leI)
    then show ?thesis by cases (simp_all add: refuse_newer_def runs assms(1))
  qed
  have steps: "\<exists>d2. sync_steps S (d\<lparr>dp_tick := n\<rparr>) = rest d2" for n
  proof -
    obtain d2 where "refuse_newer S (d\<lparr>dp_tick := Suc n\<rparr>) = (Inr (), d2)" using checked [of "Suc n"] by (metis prod.collapse)
    then have "sync_steps S (d\<lparr>dp_tick := n\<rparr>) = rest d2" by (simp add: sync_steps_def runs assms(1) rest_def)
    then show ?thesis ..
  qed
  obtain d2 where d2: "sync_steps S (d\<lparr>dp_tick := Suc (dp_tick d)\<rparr>) = rest d2" using steps by blast
  obtain d3 where "rest d2 = (Inr (), d3)"
    using rest unfolding returns_def by (metis isl_def old.unit.exhaust prod.collapse sum.collapse(2))
  then show ?thesis by (simp add: sync_schema_runs schema_transaction_def runs assms(1) d2)
qed

lemma check_schema_version_correct:
  "fst (check_schema_version S d) = Inr () \<Longrightarrow> \<exists>v \<ge> REQUIRED_SCHEMA_VERSION. dp_marker d = Some (Some v)"
  "se_fault S = (\<lambda>_. None) \<Longrightarrow> dp_marker d = Some (Some v) \<Longrightarrow> REQUIRED_SCHEMA_VERSION \<le> v \<Longrightarrow>
     fst (check_schema_version S d) = Inr ()"
  by (auto simp: check_schema_version_def runs split: option.splits if_splits)

section \<open>Commands\<close>

definition on_rows :: "(world, 'e, 'a) comp \<Rightarrow> ('m deployment, 'e, 'a) comp" where
  "on_rows m = (\<lambda>d. case m (dp_world d) of (r, w) \<Rightarrow> (r, d\<lparr>dp_world := w\<rparr>))"

text \<open>An \<open>AuthError\<close> as the cause of another error: a database error is its source.\<close>

definition anyhow_of_auth :: "AuthError \<Rightarrow> anyhow" where
  "anyhow_of_auth e = auth_error_display e #
     (case e of AuthDatabase d \<Rightarrow> [db_err_message d] | AuthOther a \<Rightarrow> tl a | _ \<Rightarrow> [])"

text \<open>The process: its terminal, the hash function and what the database does.\<close>

record ('m, 'x) db_process =
  dx_machine :: "('m deployment, 'x) machine"
  dx_argon2 :: argon2
  dx_env :: env
  dx_schema :: "'m schema_env"
  dx_debug_user :: "UserInfo \<Rightarrow> string"
  dx_vars :: "string \<rightharpoonup> string"
  dx_envy_error :: "(string \<rightharpoonup> string) \<Rightarrow> string"
  dx_connect :: "string \<Rightarrow> db_err option"

definition db_call :: "('m, 'x) db_process \<Rightarrow> (world, anyhow, 'a) comp \<Rightarrow> ('m deployment, 'a) command" where
  "db_call X m = on_server (dx_machine X) (on_rows m)"

definition check_users :: "env \<Rightarrow> (world, anyhow, unit) comp" where
  "check_users E = bindM (map_errM anyhow_of_db (select E (\<lambda>w. length (users w)))) (\<lambda>_. returnM ())"

text \<open>The first account, refused by the unique columns; the column \<open>email\<close> takes its default.\<close>

definition insert_first_user :: "env \<Rightarrow> string \<Rightarrow> string \<Rightarrow> string \<Rightarrow> (world, db_err, user_row) comp" where
  "insert_first_user E username password_hash shard = stmt E (\<lambda>_ w.
     if \<exists>u \<in> set (users w). us_username u = username \<or> us_storage_shard u = shard
     then (Inl (DbExec (SqlxError (SqlxDatabase (Some ''23505'') None (conflict_text E (tick w))))), w)
     else let u = \<lparr>us_id = next_id us_id (users w), us_username = username, us_email = ''REPLACE_ME'',
                   us_password_hash = password_hash, us_is_admin = True, us_storage_shard = shard\<rparr>
          in (Inr u, w\<lparr>users := users w @ [u]\<rparr>))"

definition check_first_user :: "('m, 'x) db_process \<Rightarrow> ('m deployment, unit) command" where
  "check_first_user X =
     (let M = dx_machine X; E = dx_env X in
      bindM (db_call X (map_errM anyhow_of_db (select E (\<lambda>w. length (users w))))) (\<lambda>user_count.
      if 0 < user_count then returnM ()
      else
        bindM (print_lines [''No users found in current database, creating default admin user.'',
          ''Enter username for new user with admin privileges:'']) (\<lambda>_.
        bindM read_stdin (\<lambda>line.
        let username = trim line in
        bindM (print_line ''Enter password for new user:'') (\<lambda>_.
        bindM (read_input M) (\<lambda>password1.
        bindM (print_line ''Re-enter password for new user:'') (\<lambda>_.
        bindM (read_input M) (\<lambda>password2.
        if password1 \<noteq> password2 then throwM (anyhow_msg ''Passwords do not match'')
        else
          bindM (liftM (map_sum anyhow_of_auth id (hash (dx_argon2 X) password1))) (\<lambda>password_hash.
          bindM (db_call X (new_uuid E)) (\<lambda>uuid.
          bindM (db_call X (map_errM anyhow_of_db
             (insert_first_user E username password_hash (the (generate_storage_shard 8 uuid))))) (\<lambda>new_user.
          print_line (''Successfully created initial admin user '' @ quoted username @ '' with id '' @ show_int (us_id new_user)))))))))))))"

definition db_create_user :: "('m, 'x) db_process \<Rightarrow> ('m deployment, unit) command" where
  "db_create_user X =
     (let M = dx_machine X in
      bindM (print_line ''Enter ADMIN username:'') (\<lambda>_.
      bindM read_stdin (\<lambda>admin_line.
      bindM (print_line ''Enter ADMIN password:'') (\<lambda>_.
      bindM (read_input M) (\<lambda>admin_password.
      bindM (db_call X (map_errM anyhow_of_auth (authenticate (dx_argon2 X) (dx_env X) (trim admin_line) admin_password))) (\<lambda>admin_user.
      bindM (print_line ''Enter username for new user:'') (\<lambda>_.
      bindM read_stdin (\<lambda>line.
      bindM (print_line ''Enter email for new user:'') (\<lambda>_.
      bindM read_stdin (\<lambda>email.
      bindM (print_line ''Enter password for new user:'') (\<lambda>_.
      bindM (read_input M) (\<lambda>password.
      if \<not> ctx_is_admin (context_from admin_user) then throwM (anyhow_msg ''Authenticated user is not an admin'')
      else
        bindM (db_call X (map_errM anyhow_of_api (create_user_db (dx_argon2 X) (dx_env X) (trim line) password (trim email)))) (\<lambda>info.
        print_line (''Created new user: '' @ dx_debug_user X info))))))))))))))"

definition hash_password_command :: "('m, 'x) db_process \<Rightarrow> ('m deployment, unit) command" where
  "hash_password_command X =
     bindM (print_line ''Enter password:'') (\<lambda>_.
     bindM (read_input (dx_machine X)) (\<lambda>password.
     bindM (liftM (map_sum anyhow_of_auth id (hash (dx_argon2 X) password))) print_line))"

text \<open>\<open>UPDATE .. WHERE id\<close> of one column; the library reports an update that met no row.\<close>

definition update_is_admin :: "env \<Rightarrow> int \<Rightarrow> bool \<Rightarrow> (world, db_err, unit) comp" where
  "update_is_admin E i is_admin = stmt E (\<lambda>_ w.
     if \<exists>u \<in> set (users w). us_id u = i
     then (Inr (), w\<lparr>users := update_where (\<lambda>u. us_id u = i) (us_is_admin_update (\<lambda>_. is_admin)) (users w)\<rparr>)
     else (Inl (DbOther ''None of the records are updated''), w))"

definition show_bool :: "bool \<Rightarrow> string" where
  "show_bool b = (if b then ''true'' else ''false'')"

definition set_admin :: "('m, 'x) db_process \<Rightarrow> string \<Rightarrow> bool \<Rightarrow> ('m deployment, unit) command" where
  "set_admin X username revoke =
     bindM (db_call X (map_errM anyhow_of_db (select (dx_env X) (\<lambda>w. find_by_username username (users w))))) (\<lambda>found.
     case found of
       None \<Rightarrow> throwM (anyhow_msg (''No user named '' @ quoted username))
     | Some user \<Rightarrow>
         let is_admin = \<not> revoke in
         if us_is_admin user = is_admin
         then print_line (us_username user @ '' is already is_admin='' @ show_bool is_admin)
         else bindM (db_call X (map_errM anyhow_of_db (update_is_admin (dx_env X) (us_id user) is_admin))) (\<lambda>_.
              print_line (username @ '' is now is_admin='' @ show_bool is_admin)))"

datatype db_command = CreateUser | FirstUser | HashPassword | SetAdmin string bool | SyncSchema

definition run_database_command :: "('m, 'x) db_process \<Rightarrow> ('m deployment, unit) command \<Rightarrow> ('m deployment, unit) command" where
  "run_database_command X cmd =
     bindM (liftM (make_postgres (dx_envy_error X) (dx_vars X))) (\<lambda>cfg.
     bindM (liftM (case dx_connect X (postgres_url cfg) of Some e \<Rightarrow> Inl (anyhow_of_db e) | None \<Rightarrow> Inr ())) (\<lambda>_. cmd))"

fun db_main :: "('m, 'x) db_process \<Rightarrow> db_command \<Rightarrow> ('m deployment, unit) command" where
  "db_main X HashPassword = hash_password_command X"
| "db_main X CreateUser = run_database_command X (db_create_user X)"
| "db_main X FirstUser = run_database_command X (check_first_user X)"
| "db_main X (SetAdmin username revoke) = run_database_command X (set_admin X username revoke)"
| "db_main X SyncSchema = run_database_command X
     (bindM (on_server (dx_machine X) (sync_schema (dx_schema X))) (\<lambda>_. print_line ''Database schema synchronized''))"

section \<open>Properties\<close>

text \<open>
  C30: the schema never goes back, and an application starts only on a schema that is new enough.
  A synchronisation that succeeds leaves the version of this binary and every managed index; one
  that fails, at whatever statement, leaves the database as it was; a newer schema is never
  touched; without faults every other one is brought up to date. The check of a starting
  application accepts nothing but a version from the required one on, and without faults it
  accepts every such version.
\<close>

theorem schema_sync_correct:
  assumes "sync_schema S d = (r, d')"
  shows "(case r of
      Inr _ \<Rightarrow> dp_marker d' = Some (Some REQUIRED_SCHEMA_VERSION) \<and> set managed_indexes \<subseteq> set (dp_indexes d') \<and>
        (\<forall>S'. se_fault S' = (\<lambda>_. None) \<longrightarrow> fst (check_schema_version S' d') = Inr ())
    | Inl _ \<Rightarrow> \<exists>n. d' = d\<lparr>dp_tick := n\<rparr>) \<and>
    (\<forall>v. dp_marker d = Some (Some v) \<and> REQUIRED_SCHEMA_VERSION < v \<longrightarrow> isl r) \<and>
    (se_fault S = (\<lambda>_. None) \<and> (\<forall>x. \<not> isl (se_registry S x)) \<and>
       \<not> (\<exists>v > REQUIRED_SCHEMA_VERSION. dp_marker d = Some (Some v)) \<longrightarrow> r = Inr ()) \<and>
    (fst (check_schema_version S d) = Inr () \<longrightarrow> (\<exists>v \<ge> REQUIRED_SCHEMA_VERSION. dp_marker d = Some (Some v))) \<and>
    (se_fault S = (\<lambda>_. None) \<longrightarrow>
       (fst (check_schema_version S d) = Inr () \<longleftrightarrow> (\<exists>v \<ge> REQUIRED_SCHEMA_VERSION. dp_marker d = Some (Some v))))"
proof (intro conjI)
  show "case r of
      Inr _ \<Rightarrow> dp_marker d' = Some (Some REQUIRED_SCHEMA_VERSION) \<and> set managed_indexes \<subseteq> set (dp_indexes d') \<and>
        (\<forall>S'. se_fault S' = (\<lambda>_. None) \<longrightarrow> fst (check_schema_version S' d') = Inr ())
    | Inl _ \<Rightarrow> \<exists>n. d' = d\<lparr>dp_tick := n\<rparr>"
    using assms sync_schema_succeeds(1) sync_schema_fails check_schema_version_correct(2) by (cases r) (simp_all, blast+)
  show "\<forall>v. dp_marker d = Some (Some v) \<and> REQUIRED_SCHEMA_VERSION < v \<longrightarrow> isl r"
    using assms sync_schema_succeeds(2) by (cases r) (simp_all, blast)
  show "se_fault S = (\<lambda>_. None) \<and> (\<forall>x. \<not> isl (se_registry S x)) \<and>
       \<not> (\<exists>v > REQUIRED_SCHEMA_VERSION. dp_marker d = Some (Some v)) \<longrightarrow> r = Inr ()"
    using sync_schema_without_faults [of S d] assms by auto
  show "fst (check_schema_version S d) = Inr () \<longrightarrow> (\<exists>v \<ge> REQUIRED_SCHEMA_VERSION. dp_marker d = Some (Some v))"
    using check_schema_version_correct(1) by blast
  show "se_fault S = (\<lambda>_. None) \<longrightarrow>
      (fst (check_schema_version S d) = Inr () \<longleftrightarrow> (\<exists>v \<ge> REQUIRED_SCHEMA_VERSION. dp_marker d = Some (Some v)))"
    using check_schema_version_correct(1) [of S d] check_schema_version_correct(2) [of S d] by blast
qed

text \<open>
  On an empty database the first command makes one administrator, who can log in with the name
  and password typed; run again, it changes nothing.
\<close>

lemma run_db_call [runs]:
  "db_call X m t = (fst (m (dp_world (tm_server t))),
     t\<lparr>tm_server := (tm_server t)\<lparr>dp_world := snd (m (dp_world (tm_server t)))\<rparr>,
       tm_now := tm_now t + mc_delay (dx_machine X) (tm_now t)\<rparr>)"
  by (simp add: db_call_def on_rows_def runs split: prod.split)

theorem first_user_administers:
  assumes "no_faults (dx_env X)" and "users (dp_world (tm_server t)) = []" and "tm_input t = line # password # password # more_input"
    and "hash_password (dx_argon2 X) password = Inr h" and "parse_hash (dx_argon2 X) h = Inr p" and "verify_password (dx_argon2 X) p password"
  shows "let (r, t') = check_first_user X t; w' = dp_world (tm_server t') in
    r = Inr () \<and> length (users w') = 1 \<and>
    (\<exists>user. fst (authenticate (dx_argon2 X) (dx_env X) (trim line) password w') = Inr user \<and> au_is_admin user) \<and>
    users (dp_world (tm_server (snd (check_first_user X t')))) = users w'"
proof -
  obtain d where "tm_server t = d" by simp
  have "hash (dx_argon2 X) password = Inr h" using assms(4) by (simp add: hash_def)
  then show ?thesis
    using assms by (simp add: check_first_user_def insert_first_user_def read_stdin_def read_input_def Let_def runs stmt_def
      no_faults_def authenticate_def find_by_username_def verify_hash_def select_def from_db_model_def)
qed

section \<open>Example\<close>

definition demo_schema :: "unit schema_env" where
  "demo_schema = \<lparr>se_fault = (\<lambda>_. None), se_registry = Inr\<rparr>"

definition demo_deployment :: "int option option \<Rightarrow> unit deployment" where
  "demo_deployment marker = \<lparr>dp_tick = 0, dp_marker = marker, dp_indexes = [], dp_models = (), dp_world = empty_world\<rparr>"

text \<open>Version 7 is brought up to date, version 9 is refused.\<close>

theorem schema_sync_correct_witness:
  "fst (sync_schema demo_schema (demo_deployment (Some (Some 7)))) = Inr () \<and>
   dp_marker (snd (sync_schema demo_schema (demo_deployment (Some (Some 7))))) = Some (Some 8) \<and>
   isl (fst (sync_schema demo_schema (demo_deployment (Some (Some 9))))) \<and>
   fst (check_schema_version demo_schema (demo_deployment (Some (Some 9)))) = Inr () \<and>
   fst (check_schema_version demo_schema (demo_deployment (Some (Some 7)))) \<noteq> Inr ()"
proof -
  have demo: "se_fault demo_schema = (\<lambda>_. None)" "\<forall>x. \<not> isl (se_registry demo_schema x)" "REQUIRED_SCHEMA_VERSION = 8"
    "dp_marker (demo_deployment marker) = marker" for marker
    by (simp_all add: demo_schema_def demo_deployment_def REQUIRED_SCHEMA_VERSION_def)
  note sync = schema_sync_correct [of demo_schema, OF prod.collapse [symmetric]]
  have ok: "fst (sync_schema demo_schema (demo_deployment (Some (Some 7)))) = Inr ()"
    using sync [of "demo_deployment (Some (Some 7))"] demo by (simp del: split_paired_All)
  moreover have "dp_marker (snd (sync_schema demo_schema (demo_deployment (Some (Some 7))))) = Some (Some 8)"
    using sync [of "demo_deployment (Some (Some 7))"] demo(3) unfolding ok by simp
  moreover have "isl (fst (sync_schema demo_schema (demo_deployment (Some (Some 9)))))"
    using sync [of "demo_deployment (Some (Some 9))"] demo(3,4) by simp
  moreover have "fst (check_schema_version demo_schema (demo_deployment (Some (Some 9)))) = Inr ()"
    using sync [of "demo_deployment (Some (Some 9))"] demo by (simp del: split_paired_All)
  moreover have "fst (check_schema_version demo_schema (demo_deployment (Some (Some 7)))) \<noteq> Inr ()"
    using sync [of "demo_deployment (Some (Some 7))"] demo by (simp del: split_paired_All)
  ultimately show ?thesis by blast
qed

end
