(* ===== verification/Human_Time.thy ===== *)
theory Human_Time
  imports Illumination
begin

text \<open>
  \<open>common/timestamp_human.rs\<close>: how long ago something was, in words. A time stamp counts
  microseconds; the calendar is a library and an argument, with dates as day numbers. The value
  is what the field \<open>humanize\<close> of \<open>providers\<close> stands for.
\<close>

record calendar =
  cal_year :: "timestamp \<Rightarrow> int"
  cal_day :: "timestamp \<Rightarrow> nat"
  cal_month_name :: "timestamp \<Rightarrow> string"
  cal_date :: "timestamp \<Rightarrow> int"
  cal_three_months_before :: "timestamp \<Rightarrow> int option"

definition day_ordinal_suffix :: "nat \<Rightarrow> string" where
  "day_ordinal_suffix day =
     (if day mod 100 \<in> {11, 12, 13} then ''th''
      else if day mod 10 = 1 then ''st''
      else if day mod 10 = 2 then ''nd''
      else if day mod 10 = 3 then ''rd''
      else ''th'')"

definition include_year :: "calendar \<Rightarrow> timestamp \<Rightarrow> timestamp \<Rightarrow> bool" where
  "include_year C created_at now =
     (if cal_year C created_at = cal_year C now then False
      else if cal_year C created_at = cal_year C now - 1 then
        (case cal_three_months_before C now of
           Some threshold_date \<Rightarrow> cal_date C created_at < threshold_date
         | None \<Rightarrow> True)
      else True)"

definition format_calendar_date :: "calendar \<Rightarrow> timestamp \<Rightarrow> timestamp \<Rightarrow> string" where
  "format_calendar_date C created_at now =
     (let day = cal_day C created_at in
      if \<not> include_year C created_at now
      then cal_month_name C created_at @ '' '' @ show_nat day @ day_ordinal_suffix day
      else cal_month_name C created_at @ '' '' @ show_nat day @ '', '' @ show_int (cal_year C created_at))"

definition humanize_datetime :: "calendar \<Rightarrow> timestamp \<Rightarrow> timestamp \<Rightarrow> string" where
  "humanize_datetime C now datetime =
     (if now < datetime then format_calendar_date C datetime now
      else
        let micros = now - datetime;
            minutes = micros div 60000000; hours = micros div 3600000000; days = micros div 86400000000
        in if minutes < 1 then ''just now''
           else if hours < 1 then (if minutes = 1 then ''1 minute ago'' else show_int minutes @ '' minutes ago'')
           else if days < 1 then (if hours = 1 then ''1 hour ago'' else show_int hours @ '' hours ago'')
           else if days = 1 then ''yesterday''
           else if days < 7 then show_int days @ '' days ago''
           else format_calendar_date C datetime now)"

text \<open>The number that is shown is the whole number of its unit, and small.\<close>

lemma humanize_units:
  assumes "datetime \<le> now"
  shows "now - datetime < 60000000 \<Longrightarrow> humanize_datetime C now datetime = ''just now''"
    and "120000000 \<le> now - datetime \<Longrightarrow> now - datetime < 3600000000 \<Longrightarrow>
      \<exists>n \<in> {2..59}. n * 60000000 \<le> now - datetime \<and> now - datetime < (n + 1) * 60000000 \<and>
        humanize_datetime C now datetime = show_int n @ '' minutes ago''"
    and "7200000000 \<le> now - datetime \<Longrightarrow> now - datetime < 86400000000 \<Longrightarrow>
      \<exists>n \<in> {2..23}. n * 3600000000 \<le> now - datetime \<and> now - datetime < (n + 1) * 3600000000 \<and>
        humanize_datetime C now datetime = show_int n @ '' hours ago''"
    and "172800000000 \<le> now - datetime \<Longrightarrow> now - datetime < 604800000000 \<Longrightarrow>
      \<exists>n \<in> {2..6}. n * 86400000000 \<le> now - datetime \<and> now - datetime < (n + 1) * 86400000000 \<and>
        humanize_datetime C now datetime = show_int n @ '' days ago''"
    and "604800000000 \<le> now - datetime \<Longrightarrow> humanize_datetime C now datetime = format_calendar_date C datetime now"
proof -
  define m where "m = now - datetime"
  have u: "humanize_datetime C now datetime =
      (if m div 60000000 < 1 then ''just now''
       else if m div 3600000000 < 1 then (if m div 60000000 = 1 then ''1 minute ago'' else show_int (m div 60000000) @ '' minutes ago'')
       else if m div 86400000000 < 1 then (if m div 3600000000 = 1 then ''1 hour ago'' else show_int (m div 3600000000) @ '' hours ago'')
       else if m div 86400000000 = 1 then ''yesterday''
       else if m div 86400000000 < 7 then show_int (m div 86400000000) @ '' days ago''
       else format_calendar_date C datetime now)"
    using assms by (simp add: humanize_datetime_def Let_def m_def)
  show "now - datetime < 60000000 \<Longrightarrow> humanize_datetime C now datetime = ''just now''"
    unfolding u m_def [symmetric] by simp
  show "\<exists>n \<in> {2..59}. n * 60000000 \<le> now - datetime \<and> now - datetime < (n + 1) * 60000000 \<and>
        humanize_datetime C now datetime = show_int n @ '' minutes ago''"
    if "120000000 \<le> now - datetime" "now - datetime < 3600000000"
    using that unfolding u m_def [symmetric] by (intro bexI [of _ "m div 60000000"]) auto
  show "\<exists>n \<in> {2..23}. n * 3600000000 \<le> now - datetime \<and> now - datetime < (n + 1) * 3600000000 \<and>
        humanize_datetime C now datetime = show_int n @ '' hours ago''"
    if "7200000000 \<le> now - datetime" "now - datetime < 86400000000"
    using that unfolding u m_def [symmetric] by (intro bexI [of _ "m div 3600000000"]) auto
  show "\<exists>n \<in> {2..6}. n * 86400000000 \<le> now - datetime \<and> now - datetime < (n + 1) * 86400000000 \<and>
        humanize_datetime C now datetime = show_int n @ '' days ago''"
    if "172800000000 \<le> now - datetime" "now - datetime < 604800000000"
    using that unfolding u m_def [symmetric] by (intro bexI [of _ "m div 86400000000"]) auto
  show "humanize_datetime C now datetime = format_calendar_date C datetime now" if long: "604800000000 \<le> now - datetime"
    using zdiv_mono1 [OF long, of 86400000000] zdiv_mono1 [OF long, of 3600000000] zdiv_mono1 [OF long, of 60000000]
    unfolding u m_def [symmetric] by simp
qed

end
